(* ===== verification/Prelude.thy ===== *)
theory Prelude
  imports Main "HOL-Library.Word"
begin

text \<open>
  What the other theories share: the outcome of a firmware program (control may come back
  with a value, may be gone for good, or may still be in a loop when the fuel given to it is
  spent), programs as state transformers with their sequencing, the Rust idioms over them
  (the question-mark operator, \<open>for\<close> loops with and without early exit, \<open>loop\<close>), the log of
  the calls a program makes, and two small logics over that log: \<open>emits\<close> (only such events
  are appended) and \<open>mtriple\<close> (a monitor automaton accepts what is appended).
  The byte-level part holds little-endian encoding and the list facts the parsers need.
\<close>

unbundle bit_operations_syntax

named_theorems emits_rules \<open>introduction rules of the logic of appended events\<close>
named_theorems mon_rules \<open>introduction rules of the monitor logic\<close>

type_synonym u8 = "8 word"
type_synonym u16 = "16 word"
type_synonym u32 = "32 word"
type_synonym u64 = "64 word"
type_synonym bytes = "u8 list"

subsection \<open>Outcomes and programs\<close>

text \<open>
  \<open>Ret x\<close>: the call came back with \<open>x\<close>. \<open>Gone\<close>: control never comes back (a started OS,
  a reset inside a call). \<open>Spin\<close>: a loop had not ended when its fuel was spent.
\<close>

datatype 'a outcome = Ret 'a | Gone | Spin

type_synonym ('s, 'a) prog = "'s \<Rightarrow> 'a outcome \<times> 's"

definition ret :: "'a \<Rightarrow> ('s, 'a) prog" where
  "ret x = (\<lambda>s. (Ret x, s))"

definition bnd :: "('s, 'a) prog \<Rightarrow> ('a \<Rightarrow> ('s, 'b) prog) \<Rightarrow> ('s, 'b) prog" where
  "bnd m f = (\<lambda>s. case m s of
      (Ret x, s') \<Rightarrow> f x s'
    | (Gone, s') \<Rightarrow> (Gone, s')
    | (Spin, s') \<Rightarrow> (Spin, s'))"

definition thn :: "('s, 'a) prog \<Rightarrow> ('s, 'b) prog \<Rightarrow> ('s, 'b) prog" where
  "thn m n = bnd m (\<lambda>_. n)"

text \<open>The question-mark operator: an error is returned at once.\<close>

definition tryE :: "('s, 'e + 'a) prog \<Rightarrow> ('a \<Rightarrow> ('s, 'e + 'b) prog) \<Rightarrow> ('s, 'e + 'b) prog" where
  "tryE m f = bnd m (\<lambda>r. case r of Inl e \<Rightarrow> ret (Inl e) | Inr x \<Rightarrow> f x)"

definition map_err :: "('e \<Rightarrow> 'f) \<Rightarrow> ('s, 'e + 'a) prog \<Rightarrow> ('s, 'f + 'a) prog" where
  "map_err g m = bnd m (\<lambda>r. case r of Inl e \<Rightarrow> ret (Inl (g e)) | Inr x \<Rightarrow> ret (Inr x))"

primrec each :: "('x \<Rightarrow> ('s, unit) prog) \<Rightarrow> 'x list \<Rightarrow> ('s, unit) prog" where
  "each f [] = ret ()"
| "each f (x # xs) = thn (f x) (each f xs)"

text \<open>A \<open>for\<close> loop whose body may leave it with a value (\<open>return\<close> or \<open>break\<close>).\<close>

primrec each_until :: "('x \<Rightarrow> ('s, 'r option) prog) \<Rightarrow> 'x list \<Rightarrow> ('s, 'r option) prog" where
  "each_until f [] = ret None"
| "each_until f (x # xs) = bnd (f x) (\<lambda>r. case r of Some y \<Rightarrow> ret (Some y) | None \<Rightarrow> each_until f xs)"

text \<open>A \<open>for\<close> loop over an accumulator.\<close>

primrec each_acc :: "('x \<Rightarrow> 'a \<Rightarrow> ('s, 'a) prog) \<Rightarrow> 'x list \<Rightarrow> 'a \<Rightarrow> ('s, 'a) prog" where
  "each_acc f [] a = ret a"
| "each_acc f (x # xs) a = bnd (f x a) (each_acc f xs)"

text \<open>The same with early exit: \<open>Inl\<close> goes on with a new accumulator, \<open>Inr\<close> leaves the loop.\<close>

primrec each_acc_until ::
  "('x \<Rightarrow> 'a \<Rightarrow> ('s, 'a + 'r) prog) \<Rightarrow> 'x list \<Rightarrow> 'a \<Rightarrow> ('s, 'a + 'r) prog" where
  "each_acc_until f [] a = ret (Inl a)"
| "each_acc_until f (x # xs) a =
     bnd (f x a) (\<lambda>r. case r of Inl a' \<Rightarrow> each_acc_until f xs a' | Inr y \<Rightarrow> ret (Inr y))"

text \<open>\<open>loop { .. }\<close>: \<open>Inl\<close> goes round again with a new accumulator, \<open>Inr\<close> breaks.\<close>

primrec loop :: "nat \<Rightarrow> ('a \<Rightarrow> ('s, 'a + 'r) prog) \<Rightarrow> 'a \<Rightarrow> ('s, 'r) prog" where
  "loop 0 body a = (\<lambda>s. (Spin, s))"
| "loop (Suc n) body a = bnd (body a) (\<lambda>r. case r of Inl a' \<Rightarrow> loop n body a' | Inr x \<Rightarrow> ret x)"

lemma ret_run: "ret x s = (Ret x, s)"
  by (simp add: ret_def)

lemma ret_eq [simp]: "ret x s = (r, s') \<longleftrightarrow> r = Ret x \<and> s' = s"
  by (auto simp: ret_def)

lemma fst_ret [simp]: "fst (ret x s) = Ret x"
  by (simp add: ret_def)

lemma snd_ret [simp]: "snd (ret x s) = s"
  by (simp add: ret_def)

lemma bnd_ret [simp]: "bnd (ret x) f = f x"
  by (simp add: bnd_def ret_def)

lemma bnd_Ret: "m s = (Ret x, s') \<Longrightarrow> bnd m f s = f x s'"
  by (simp add: bnd_def)

lemma bnd_Gone: "m s = (Gone, s') \<Longrightarrow> bnd m f s = (Gone, s')"
  by (simp add: bnd_def)

lemma bnd_Spin: "m s = (Spin, s') \<Longrightarrow> bnd m f s = (Spin, s')"
  by (simp add: bnd_def)

lemmas bnd_steps = bnd_Ret bnd_Gone bnd_Spin

lemma bnd_RetE:
  assumes "bnd m f s = (Ret y, s'')"
  obtains x s' where "m s = (Ret x, s')" and "f x s' = (Ret y, s'')"
  using assms by (auto simp: bnd_def split: prod.splits outcome.splits)

lemma bnd_assoc: "bnd (bnd m f) g = bnd m (\<lambda>x. bnd (f x) g)"
  by (rule ext) (simp add: bnd_def split: prod.splits outcome.splits)

lemma each_append: "each f (xs @ ys) = thn (each f xs) (each f ys)"
  by (induction xs) (simp_all add: thn_def bnd_assoc)

text \<open>More fuel never changes what a loop returned.\<close>

lemma loop_mono:
  "loop n body a s = (Ret x, s') \<Longrightarrow> n \<le> k \<Longrightarrow> loop k body a s = (Ret x, s')"
proof (induction n arbitrary: a s k)
  case 0
  then show ?case by simp
next
  case (Suc n)
  then obtain k' where k: "k = Suc k'" "n \<le> k'" by (cases k) auto
  from Suc.prems(1) obtain r t where r: "body a s = (Ret r, t)"
    and c: "(case r of Inl a' \<Rightarrow> loop n body a' | Inr x \<Rightarrow> ret x) t = (Ret x, s')"
    by (auto elim: bnd_RetE)
  show ?case
    using c Suc.IH k by (cases r) (auto simp: bnd_Ret [where m = "body a", OF r])
qed

subsection \<open>The log of calls\<close>

record ('w, 'e) run =
  world :: 'w
  trace :: "'e list"

definition svc :: "('w \<Rightarrow> 'r outcome \<times> 'w) \<Rightarrow> ('r outcome \<Rightarrow> 'e) \<Rightarrow> (('w, 'e) run, 'r) prog" where
  "svc f mk s = (case f (world s) of (r, w) \<Rightarrow> (r, s\<lparr>world := w, trace := trace s @ [mk r]\<rparr>))"

text \<open>An event of the program itself, with no effect on the platform.\<close>

definition log_event :: "'e \<Rightarrow> (('w, 'e) run, unit) prog" where
  "log_event e s = (Ret (), s\<lparr>trace := trace s @ [e]\<rparr>)"

definition peek :: "('w \<Rightarrow> 'a) \<Rightarrow> (('w, 'e) run, 'a) prog" where
  "peek f s = (Ret (f (world s)), s)"

definition emitted :: "(('w, 'e) run, 'a) prog \<Rightarrow> ('w, 'e) run \<Rightarrow> 'e list" where
  "emitted m s = drop (length (trace s)) (trace (snd (m s)))"

definition emits :: "('e \<Rightarrow> bool) \<Rightarrow> (('w, 'e) run, 'a) prog \<Rightarrow> bool" where
  "emits P m \<longleftrightarrow> (\<forall>s. \<exists>es. trace (snd (m s)) = trace s @ es \<and> (\<forall>e \<in> set es. P e))"

lemma emitsI: "(\<And>s. \<exists>es. trace (snd (m s)) = trace s @ es \<and> (\<forall>e \<in> set es. P e)) \<Longrightarrow> emits P m"
  by (simp add: emits_def)

lemma emitsE:
  assumes "emits P m" and "m s = (r, s')"
  obtains es where "trace s' = trace s @ es" and "\<forall>e \<in> set es. P e"
  using assms unfolding emits_def by (metis snd_conv)

lemma emitted_eq: "trace (snd (m s)) = trace s @ es \<Longrightarrow> emitted m s = es"
  by (simp add: emitted_def)

lemma emitted_run: "m s = (r, s') \<Longrightarrow> trace s' = trace s @ es \<Longrightarrow> emitted m s = es"
  by (simp add: emitted_def)

lemma emits_mono: "emits P m \<Longrightarrow> (\<And>e. P e \<Longrightarrow> Q e) \<Longrightarrow> emits Q m"
  unfolding emits_def by metis

lemma emits_ret [emits_rules]: "emits P (ret x)"
  by (simp add: emits_def)

lemma emits_peek [emits_rules]: "emits P (peek f)"
  by (simp add: emits_def peek_def)

lemma emits_spin [emits_rules]: "emits P (\<lambda>s. (Spin, s))"
  by (simp add: emits_def)

lemma emits_log [emits_rules]: "P e \<Longrightarrow> emits P (log_event e)"
  by (simp add: emits_def log_event_def)

lemma emits_svc [emits_rules]: "(\<And>r. P (mk r)) \<Longrightarrow> emits P (svc f mk)"
  by (auto simp: emits_def svc_def split: prod.splits)

lemma emits_bnd [emits_rules]:
  assumes m: "emits P m" and f: "\<And>x. emits P (f x)"
  shows "emits P (bnd m f)"
proof (rule emitsI)
  fix s
  obtain r s' where ms: "m s = (r, s')" by force
  obtain es where es: "trace s' = trace s @ es" "\<forall>e \<in> set es. P e"
    using m ms by (rule emitsE)
  show "\<exists>es. trace (snd (bnd m f s)) = trace s @ es \<and> (\<forall>e \<in> set es. P e)"
  proof (cases r)
    case (Ret x)
    obtain r2 s2 where fx: "f x s' = (r2, s2)" by force
    obtain es2 where "trace s2 = trace s' @ es2" "\<forall>e \<in> set es2. P e"
      using f fx by (rule emitsE)
    then show ?thesis
      using es Ret ms fx by (auto simp: bnd_def intro!: exI [of _ "es @ es2"])
  qed (use es ms in \<open>auto simp: bnd_def\<close>)
qed

lemma emits_thn [emits_rules]: "emits P m \<Longrightarrow> emits P n \<Longrightarrow> emits P (thn m n)"
  by (simp add: thn_def emits_bnd)

lemma emits_sum [emits_rules]:
  "(\<And>e. emits P (f e)) \<Longrightarrow> (\<And>x. emits P (g x)) \<Longrightarrow> emits P (case r of Inl e \<Rightarrow> f e | Inr x \<Rightarrow> g x)"
  by (cases r) auto

lemma emits_option [emits_rules]:
  "emits P f \<Longrightarrow> (\<And>x. emits P (g x)) \<Longrightarrow> emits P (case r of None \<Rightarrow> f | Some x \<Rightarrow> g x)"
  by (cases r) auto

lemma emits_prod [emits_rules]:
  "(\<And>a b. emits P (f a b)) \<Longrightarrow> emits P (case r of (a, b) \<Rightarrow> f a b)"
  by (cases r) auto

lemma emits_if [emits_rules]:
  "(b \<Longrightarrow> emits P m) \<Longrightarrow> (\<not> b \<Longrightarrow> emits P n) \<Longrightarrow> emits P (if b then m else n)"
  by simp

lemma emits_let [emits_rules]: "(\<And>x. emits P (f x)) \<Longrightarrow> emits P (let x = v in f x)"
  by simp

lemma emits_tryE [emits_rules]:
  "emits P m \<Longrightarrow> (\<And>x. emits P (f x)) \<Longrightarrow> emits P (tryE m f)"
  unfolding tryE_def by (intro emits_rules)

lemma emits_map_err [emits_rules]: "emits P m \<Longrightarrow> emits P (map_err g m)"
  unfolding map_err_def by (intro emits_rules)

lemma emits_each [emits_rules]: "(\<And>x. emits P (f x)) \<Longrightarrow> emits P (each f xs)"
  by (induction xs) (auto intro: emits_rules)

lemma emits_each_until [emits_rules]: "(\<And>x. emits P (f x)) \<Longrightarrow> emits P (each_until f xs)"
  by (induction xs) (auto intro!: emits_rules)

lemma emits_each_acc [emits_rules]: "(\<And>x a. emits P (f x a)) \<Longrightarrow> emits P (each_acc f xs a)"
  by (induction xs arbitrary: a) (auto intro!: emits_rules)

lemma emits_each_acc_until [emits_rules]:
  "(\<And>x a. emits P (f x a)) \<Longrightarrow> emits P (each_acc_until f xs a)"
  by (induction xs arbitrary: a) (auto intro!: emits_rules)

lemma emits_loop [emits_rules]: "(\<And>a. emits P (body a)) \<Longrightarrow> emits P (loop n body a)"
  by (induction n arbitrary: a) (auto intro!: emits_rules)


lemma emits_svcI: "(\<And>r. P (mk r)) \<Longrightarrow> svc f mk s = (r, s') \<Longrightarrow> trace s' = trace s @ [mk r]"
  by (auto simp: svc_def split: prod.splits)

subsection \<open>Monitors\<close>

text \<open>
  A monitor reads the log event by event; \<open>None\<close> is a violation. \<open>mtriple \<delta> I m J\<close>: started with
  the monitor in a state of \<open>I\<close>, whatever \<open>m\<close> logs is accepted, and if \<open>m\<close> returns \<open>x\<close> the
  monitor ends in a state of \<open>J x\<close>.
\<close>

fun monitor :: "('q \<Rightarrow> 'e \<Rightarrow> 'q option) \<Rightarrow> 'q \<Rightarrow> 'e list \<Rightarrow> 'q option" where
  "monitor \<delta> q [] = Some q"
| "monitor \<delta> q (e # es) = (case \<delta> q e of None \<Rightarrow> None | Some q' \<Rightarrow> monitor \<delta> q' es)"

lemma monitor_append:
  "monitor \<delta> q (es @ fs) = (case monitor \<delta> q es of None \<Rightarrow> None | Some q' \<Rightarrow> monitor \<delta> q' fs)"
  by (induction es arbitrary: q) (auto split: option.splits)

definition mtriple ::
  "('q \<Rightarrow> 'e \<Rightarrow> 'q option) \<Rightarrow> ('q \<Rightarrow> bool) \<Rightarrow> (('w, 'e) run, 'a) prog \<Rightarrow> ('a \<Rightarrow> 'q \<Rightarrow> bool) \<Rightarrow> bool" where
  "mtriple \<delta> I m J \<longleftrightarrow> (\<forall>s q. I q \<longrightarrow>
     (\<exists>es q'. trace (snd (m s)) = trace s @ es \<and> monitor \<delta> q es = Some q' \<and>
              (\<forall>x. fst (m s) = Ret x \<longrightarrow> J x q')))"

lemma mtripleI:
  "(\<And>s q. I q \<Longrightarrow> \<exists>es q'. trace (snd (m s)) = trace s @ es \<and> monitor \<delta> q es = Some q' \<and>
      (\<forall>x. fst (m s) = Ret x \<longrightarrow> J x q')) \<Longrightarrow> mtriple \<delta> I m J"
  by (simp add: mtriple_def)

lemma mtripleE:
  assumes "mtriple \<delta> I m J" and "I q" and "m s = (r, s')"
  obtains es q' where "trace s' = trace s @ es" and "monitor \<delta> q es = Some q'"
    and "\<And>x. r = Ret x \<Longrightarrow> J x q'"
  using assms unfolding mtriple_def by (metis fst_conv snd_conv)

lemma mtriple_conseq:
  "mtriple \<delta> I m J \<Longrightarrow> (\<And>q. I' q \<Longrightarrow> I q) \<Longrightarrow> (\<And>x q. J x q \<Longrightarrow> J' x q) \<Longrightarrow> mtriple \<delta> I' m J'"
  unfolding mtriple_def by meson

lemma mtriple_post: "mtriple \<delta> I m J \<Longrightarrow> (\<And>x q. J x q \<Longrightarrow> J' x q) \<Longrightarrow> mtriple \<delta> I m J'"
  by (rule mtriple_conseq)

lemma mtriple_ret: "(\<And>q. I q \<Longrightarrow> J x q) \<Longrightarrow> mtriple \<delta> I (ret x) J"
  by (rule mtripleI) auto

lemma mtriple_spin: "mtriple \<delta> I (\<lambda>s. (Spin, s)) J"
  by (rule mtripleI) auto

lemma mtriple_peek: "(\<And>x q. I q \<Longrightarrow> J x q) \<Longrightarrow> mtriple \<delta> I (peek f) J"
  by (rule mtripleI) (auto simp: peek_def)

lemma mtriple_svc:
  fixes f :: "'w \<Rightarrow> 'r outcome \<times> 'w" and mk :: "'r outcome \<Rightarrow> 'e"
  assumes "\<And>q r. I q \<Longrightarrow> \<exists>q'. \<delta> q (mk r) = Some q' \<and> (\<forall>x. r = Ret x \<longrightarrow> J x q')"
  shows "mtriple \<delta> I (svc f mk) J"
proof (rule mtripleI)
  fix s :: "('w, 'e) run" and q assume "I q"
  obtain r w where "f (world s) = (r, w)" by force
  then show "\<exists>es q'. trace (snd (svc f mk s)) = trace s @ es \<and> monitor \<delta> q es = Some q' \<and>
      (\<forall>x. fst (svc f mk s) = Ret x \<longrightarrow> J x q')"
    using assms [OF \<open>I q\<close>, of r] by (auto simp: svc_def)
qed

lemma mtriple_log:
  "(\<And>q. I q \<Longrightarrow> \<exists>q'. \<delta> q e = Some q' \<and> J () q') \<Longrightarrow> mtriple \<delta> I (log_event e) J"
  by (rule mtripleI) (fastforce simp: log_event_def)

lemma mtriple_bnd:
  assumes m: "mtriple \<delta> I m K" and f: "\<And>x. mtriple \<delta> (K x) (f x) J"
  shows "mtriple \<delta> I (bnd m f) J"
proof (rule mtripleI)
  fix s q assume "I q"
  obtain r s' where ms: "m s = (r, s')" by force
  obtain es q' where es: "trace s' = trace s @ es" "monitor \<delta> q es = Some q'"
    and K: "\<And>x. r = Ret x \<Longrightarrow> K x q'"
    using mtripleE [OF m \<open>I q\<close> ms] by blast
  show "\<exists>es q'. trace (snd (bnd m f s)) = trace s @ es \<and> monitor \<delta> q es = Some q' \<and>
      (\<forall>x. fst (bnd m f s) = Ret x \<longrightarrow> J x q')"
  proof (cases r)
    case (Ret x)
    obtain r2 s2 where fx: "f x s' = (r2, s2)" by force
    obtain fs q2 where "trace s2 = trace s' @ fs" "monitor \<delta> q' fs = Some q2"
      and "\<And>y. r2 = Ret y \<Longrightarrow> J y q2"
      using mtripleE [OF f K [OF Ret] fx] by blast
    then show ?thesis
      using es Ret ms fx
      by (auto simp: bnd_def monitor_append intro!: exI [of _ "es @ fs"])
  qed (use es ms in \<open>auto simp: bnd_def\<close>)
qed

text \<open>Code that logs only events the monitor ignores in the states of \<open>I\<close> keeps \<open>I\<close>.\<close>

lemma mtriple_emits:
  assumes m: "emits P m" and stay: "\<And>q e. I q \<Longrightarrow> P e \<Longrightarrow> \<delta> q e = Some q"
  shows "mtriple \<delta> I m (\<lambda>_. I)"
proof (rule mtripleI)
  fix s q assume q: "I q"
  obtain r s' where ms: "m s = (r, s')" by force
  obtain es where es: "trace s' = trace s @ es" "\<forall>e \<in> set es. P e"
    using m ms by (rule emitsE)
  have "monitor \<delta> q es = Some q"
    using es(2) by (induction es) (auto simp: stay [OF q])
  then show "\<exists>es q'. trace (snd (m s)) = trace s @ es \<and> monitor \<delta> q es = Some q' \<and>
      (\<forall>x. fst (m s) = Ret x \<longrightarrow> I q')"
    using es ms q by auto
qed

lemma mtriple_sum:
  "(\<And>e. r = Inl e \<Longrightarrow> mtriple \<delta> I (f e) J) \<Longrightarrow> (\<And>x. r = Inr x \<Longrightarrow> mtriple \<delta> I (g x) J) \<Longrightarrow>
   mtriple \<delta> I (case r of Inl e \<Rightarrow> f e | Inr x \<Rightarrow> g x) J"
  by (cases r) auto

lemma mtriple_option:
  "(r = None \<Longrightarrow> mtriple \<delta> I f J) \<Longrightarrow> (\<And>x. r = Some x \<Longrightarrow> mtriple \<delta> I (g x) J) \<Longrightarrow>
   mtriple \<delta> I (case r of None \<Rightarrow> f | Some x \<Rightarrow> g x) J"
  by (cases r) auto

lemma mtriple_if:
  "(b \<Longrightarrow> mtriple \<delta> I m J) \<Longrightarrow> (\<not> b \<Longrightarrow> mtriple \<delta> I n J) \<Longrightarrow> mtriple \<delta> I (if b then m else n) J"
  by simp

lemma mtriple_thn: "mtriple \<delta> I m (\<lambda>_. K) \<Longrightarrow> mtriple \<delta> K n J \<Longrightarrow> mtriple \<delta> I (thn m n) J"
  unfolding thn_def by (rule mtriple_bnd)

lemma mtriple_tryE:
  assumes "mtriple \<delta> I m K"
    and "\<And>x. mtriple \<delta> (K (Inr x)) (f x) J" and "\<And>e q. K (Inl e) q \<Longrightarrow> J (Inl e) q"
  shows "mtriple \<delta> I (tryE m f) J"
  unfolding tryE_def
  by (rule mtriple_bnd [OF assms(1)]) (auto intro: mtriple_ret assms split: sum.splits)

lemma mtriple_try:
  assumes "mtriple \<delta> I m (\<lambda>r q. case r of Inl e \<Rightarrow> E e q | Inr x \<Rightarrow> K x q)"
    and "\<And>x. mtriple \<delta> (K x) (f x) J" and "\<And>e q. E e q \<Longrightarrow> J (Inl e) q"
  shows "mtriple \<delta> I (tryE m f) J"
  by (rule mtriple_tryE [OF assms(1)]) (simp_all add: assms)

lemma mtriple_map_err_same:
  assumes "mtriple \<delta> I m (\<lambda>r q. case r of Inl e \<Rightarrow> E q | Inr x \<Rightarrow> K x q)"
  shows "mtriple \<delta> I (map_err g m) (\<lambda>r q. case r of Inl e \<Rightarrow> E q | Inr x \<Rightarrow> K x q)"
  unfolding map_err_def
  by (rule mtriple_bnd [OF assms]) (auto split: sum.split intro: mtriple_ret)

lemma mtriple_map_err:
  "mtriple \<delta> I m (\<lambda>r. J (case r of Inl e \<Rightarrow> Inl (g e) | Inr x \<Rightarrow> Inr x)) \<Longrightarrow> mtriple \<delta> I (map_err g m) J"
  unfolding map_err_def
  by (rule mtriple_bnd, assumption) (auto intro: mtriple_ret split: sum.splits)

lemma mtriple_bnd_ret:
  "mtriple \<delta> I m K \<Longrightarrow> (\<And>x q. K x q \<Longrightarrow> J (g x) q) \<Longrightarrow> mtriple \<delta> I (bnd m (\<lambda>x. ret (g x))) J"
  by (erule mtriple_bnd) (simp add: mtriple_ret)

lemma mtriple_assume: "(P \<Longrightarrow> mtriple \<delta> I m J) \<Longrightarrow> mtriple \<delta> (\<lambda>q. I q \<and> P) m J"
  unfolding mtriple_def by blast

lemma mtriple_each:
  "(\<And>x. x \<in> set xs \<Longrightarrow> mtriple \<delta> I (f x) (\<lambda>_. I)) \<Longrightarrow> mtriple \<delta> I (each f xs) (\<lambda>_. I)"
  by (induction xs) (auto intro: mtriple_ret mtriple_thn)

lemma mtriple_each_acc:
  "(\<And>x a. x \<in> set xs \<Longrightarrow> mtriple \<delta> (I a) (f x a) I) \<Longrightarrow> mtriple \<delta> (I a) (each_acc f xs a) I"
  by (induction xs arbitrary: a) (auto intro: mtriple_ret mtriple_bnd)

lemma mtriple_each_acc_until:
  assumes "\<And>x a. x \<in> set xs \<Longrightarrow>
    mtriple \<delta> (I a) (f x a) (\<lambda>r q. case r of Inl a' \<Rightarrow> I a' q | Inr y \<Rightarrow> J y q)"
  shows "mtriple \<delta> (I a) (each_acc_until f xs a) (\<lambda>r q. case r of Inl a' \<Rightarrow> I a' q | Inr y \<Rightarrow> J y q)"
  using assms
proof (induction xs arbitrary: a)
  case (Cons x xs)
  have "mtriple \<delta> (\<lambda>q. case r of Inl a' \<Rightarrow> I a' q | Inr y \<Rightarrow> J y q)
      (case r of Inl a' \<Rightarrow> each_acc_until f xs a' | Inr y \<Rightarrow> ret (Inr y))
      (\<lambda>r q. case r of Inl a' \<Rightarrow> I a' q | Inr y \<Rightarrow> J y q)" for r
    using Cons by (cases r) (auto intro: mtriple_ret)
  then show ?case using Cons.prems by (auto intro: mtriple_bnd)
qed (auto intro: mtriple_ret)

lemma mtriple_each_until:
  "(\<And>x. x \<in> set xs \<Longrightarrow> mtriple \<delta> I (f x) (\<lambda>_. I)) \<Longrightarrow> mtriple \<delta> I (each_until f xs) (\<lambda>_. I)"
proof (induction xs)
  case (Cons x xs)
  have "mtriple \<delta> I (case r of Some y \<Rightarrow> ret (Some y) | None \<Rightarrow> each_until f xs) (\<lambda>_. I)" for r
    using Cons by (cases r) (auto intro: mtriple_ret)
  with Cons.prems show ?case
    by (auto intro: mtriple_bnd)
qed (auto intro: mtriple_ret)

lemma mtriple_loop:
  assumes "\<And>a. mtriple \<delta> (I a) (body a) (\<lambda>r q. case r of Inl a' \<Rightarrow> I a' q | Inr x \<Rightarrow> J x q)"
  shows "mtriple \<delta> (I a) (loop n body a) J"
proof (induction n arbitrary: a)
  case (Suc n)
  have "mtriple \<delta> (\<lambda>q. case r of Inl a' \<Rightarrow> I a' q | Inr x \<Rightarrow> J x q)
      (case r of Inl a' \<Rightarrow> loop n body a' | Inr x \<Rightarrow> ret x) J" for r
    using Suc by (cases r) (auto intro: mtriple_ret)
  then show ?case by (auto intro: mtriple_bnd assms)
qed (simp add: mtriple_spin)

lemmas mtriple_rules = mtriple_ret mtriple_peek mtriple_svc mtriple_log mtriple_bnd mtriple_thn
  mtriple_tryE mtriple_map_err mtriple_sum mtriple_option mtriple_if

subsection \<open>Bytes\<close>

text \<open>Little-endian numbers, as \<open>from_le_bytes\<close> and \<open>to_le_bytes\<close> read and write them.\<close>

primrec le_nat :: "bytes \<Rightarrow> nat" where
  "le_nat [] = 0"
| "le_nat (b # bs) = unat b + 256 * le_nat bs"

primrec nat_le :: "nat \<Rightarrow> nat \<Rightarrow> bytes" where
  "nat_le 0 n = []"
| "nat_le (Suc k) n = word_of_nat (n mod 256) # nat_le k (n div 256)"

lemma byte_lt: "unat (b :: u8) < 256"
  using unsigned_less [of b] by simp

lemma length_nat_le [simp]: "length (nat_le k n) = k"
  by (induction k arbitrary: n) auto

lemma unat_byte [simp]: "unat (word_of_nat (n mod 256) :: u8) = n mod 256"
  by (simp add: unat_of_nat)

lemma le_nat_nat_le: "n < 256 ^ k \<Longrightarrow> le_nat (nat_le k n) = n"
  by (induction k arbitrary: n) (auto simp: less_mult_imp_div_less mult.commute)

lemma le_nat_bound: "le_nat bs < 256 ^ length bs"
proof (induction bs)
  case (Cons b bs)
  with byte_lt [of b] show ?case by auto
qed simp

lemma nat_le_le_nat: "nat_le (length bs) (le_nat bs) = bs"
proof (induction bs)
  case (Cons b bs)
  with byte_lt [of b] show ?case by simp
qed simp

definition slice :: "nat \<Rightarrow> nat \<Rightarrow> 'a list \<Rightarrow> 'a list" where
  "slice i n xs = take n (drop i xs)"

lemma length_slice [simp]: "i + n \<le> length xs \<Longrightarrow> length (slice i n xs) = n"
  by (simp add: slice_def)

lemma nth_slice [simp]: "k < n \<Longrightarrow> i + k < length xs \<Longrightarrow> slice i n xs ! k = xs ! (i + k)"
  by (simp add: slice_def)

lemma slice_append_slice: "slice i m xs @ slice (i + m) n xs = slice i (m + n) xs"
  by (simp add: slice_def take_add add.commute)

text \<open>A byte stream as seen through a pointer, and the pointer to a buffer in memory.\<close>

definition at_ptr :: "bytes \<Rightarrow> (nat \<Rightarrow> u8) \<Rightarrow> nat \<Rightarrow> u8" where
  "at_ptr bs beyond i = (if i < length bs then bs ! i else beyond (i - length bs))"

definition read_bytes :: "(nat \<Rightarrow> u8) \<Rightarrow> nat \<Rightarrow> bytes" where
  "read_bytes m n = map m [0..<n]"

lemma length_read_bytes [simp]: "length (read_bytes m n) = n"
  by (simp add: read_bytes_def)

lemma read_bytes_at_ptr: "n \<le> length bs \<Longrightarrow> read_bytes (at_ptr bs j) n = take n bs"
  by (rule nth_equalityI) (auto simp: read_bytes_def at_ptr_def)

end
