(* ===== verification/DevicePaths.thy ===== *)
theory DevicePaths
  imports Prelude
begin

text \<open>
  UEFI device paths as the boot crates handle them: the node view the patina crate gives of a
  path (a parameter, the record \<open>patina\<close>), the predicates over nodes of
  \<open>helpers.rs\<close>, \<open>boot_source_policy.rs\<close> and \<open>sre_boot_manager.rs\<close>, and the byte-level
  walkers and builders of \<open>bp_recovery.rs\<close> and \<open>helpers.rs\<close> with the encoding they are
  checked against. A \<open>str\<close> is the list of its code points.
\<close>

subsection \<open>Statuses and errors\<close>

datatype efi_status = SUCCESS | NOT_READY | INVALID_PARAMETER | OUT_OF_RESOURCES
  | MEDIA_CHANGED | BAD_BUFFER_SIZE | WRITE_PROTECTED | OTHER_STATUS nat

datatype efi_error = NotFound | InvalidParameter | SecurityViolation | Unsupported | OtherError nat

subsection \<open>Nodes, and the patina crate as a parameter\<close>

record node_header =
  nh_type :: u8
  nh_sub :: u8
  nh_len :: nat

record dp_node =
  node_hdr :: node_header
  node_data :: bytes

record hard_drive =
  partition_number :: u32
  partition_signature :: bytes
  partition_format :: u8
  signature_type :: u8

type_synonym ustr = "nat list"

text \<open>
  \<open>'dp\<close> is patina's \<open>DevicePath\<close>/\<open>DevicePathBuf\<close>. \<open>dp_from_ptr\<close> is
  \<open>DevicePath::try_from_ptr\<close>, which sees the memory from a pointer on; \<open>dp_nodes\<close> is
  \<open>iter\<close>; \<open>dp_of_nodes\<close> is \<open>from_device_path_node_iter\<close>; \<open>hd_of_node\<close> is
  \<open>HardDrive::try_from_node\<close>; \<open>file_path_node\<close> is \<open>FilePath::new\<close>; \<open>hdr_decode\<close> and
  \<open>hdr_encode\<close> are \<open>Header::try_from_ctx\<close> and \<open>Header::try_into_ctx\<close>; \<open>err_of\<close> is
  \<open>EfiError::from\<close>.
\<close>

record 'dp patina =
  dp_nodes :: "'dp \<Rightarrow> dp_node list"
  dp_of_nodes :: "dp_node list \<Rightarrow> 'dp"
  dp_append :: "'dp \<Rightarrow> 'dp \<Rightarrow> 'dp"
  dp_append_instances :: "'dp \<Rightarrow> 'dp \<Rightarrow> 'dp"
  dp_bytes :: "'dp \<Rightarrow> bytes"
  dp_from_ptr :: "(nat \<Rightarrow> u8) \<Rightarrow> 'dp option"
  hd_of_node :: "dp_node \<Rightarrow> hard_drive option"
  file_path_node :: "ustr \<Rightarrow> dp_node"
  hdr_decode :: "bytes \<Rightarrow> node_header option"
  hdr_encode :: "node_header \<Rightarrow> bytes"
  err_of :: "efi_status \<Rightarrow> efi_error"

text \<open>Node type and sub-type numbers of the UEFI and PI specifications.\<close>

definition T_HARDWARE :: u8 where "T_HARDWARE = 1"
definition T_ACPI :: u8 where "T_ACPI = 2"
definition T_MESSAGING :: u8 where "T_MESSAGING = 3"
definition T_MEDIA :: u8 where "T_MEDIA = 4"
definition T_END :: u8 where "T_END = 0x7F"
definition S_END_ENTIRE :: u8 where "S_END_ENTIRE = 0xFF"
definition S_FILE_PATH :: u8 where "S_FILE_PATH = 4"
definition S_FW_FILE :: u8 where "S_FW_FILE = 6"
definition S_FW_VOLUME :: u8 where "S_FW_VOLUME = 7"
definition S_USB :: u8 where "S_USB = 5"
definition S_USB_CLASS :: u8 where "S_USB_CLASS = 15"
definition S_USB_WWID :: u8 where "S_USB_WWID = 16"

lemmas node_numbers = T_HARDWARE_def T_ACPI_def T_MESSAGING_def T_MEDIA_def T_END_def
  S_END_ENTIRE_def S_FILE_PATH_def S_FW_FILE_def S_FW_VOLUME_def S_USB_def S_USB_CLASS_def
  S_USB_WWID_def

abbreviation ntype :: "dp_node \<Rightarrow> u8" where "ntype n \<equiv> nh_type (node_hdr n)"
abbreviation nsub :: "dp_node \<Rightarrow> u8" where "nsub n \<equiv> nh_sub (node_hdr n)"

subsection \<open>Predicates over the nodes of a path\<close>

definition is_fw_node :: "dp_node \<Rightarrow> bool" where
  "is_fw_node n \<longleftrightarrow> ntype n = T_MEDIA \<and> (nsub n = S_FW_FILE \<or> nsub n = S_FW_VOLUME)"

definition is_usb_node :: "dp_node \<Rightarrow> bool" where
  "is_usb_node n \<longleftrightarrow> ntype n = T_MESSAGING \<and>
     (nsub n = S_USB \<or> nsub n = S_USB_CLASS \<or> nsub n = S_USB_WWID)"

definition device_path_has_fw_file_node :: "'dp patina \<Rightarrow> 'dp \<Rightarrow> bool" where
  "device_path_has_fw_file_node lib dp = list_ex is_fw_node (dp_nodes lib dp)"

definition device_path_has_usb_node :: "'dp patina \<Rightarrow> 'dp \<Rightarrow> bool" where
  "device_path_has_usb_node lib dp = list_ex is_usb_node (dp_nodes lib dp)"

definition is_usb_device_path :: "'dp patina \<Rightarrow> 'dp \<Rightarrow> bool" where
  "is_usb_device_path lib dp = list_ex is_usb_node (dp_nodes lib dp)"

definition is_partial_device_path :: "'dp patina \<Rightarrow> 'dp \<Rightarrow> bool" where
  "is_partial_device_path lib dp = (case dp_nodes lib dp of
      [] \<Rightarrow> False
    | first # _ \<Rightarrow>
        if is_fw_node first then False
        else ntype first \<noteq> T_HARDWARE \<and> ntype first \<noteq> T_ACPI \<and> ntype first \<noteq> T_END)"

definition hard_drive_nodes :: "'dp patina \<Rightarrow> 'dp \<Rightarrow> hard_drive list" where
  "hard_drive_nodes lib dp = List.map_filter (hd_of_node lib) (dp_nodes lib dp)"

definition hard_drive_identity_matches :: "hard_drive \<Rightarrow> hard_drive \<Rightarrow> bool" where
  "hard_drive_identity_matches l r \<longleftrightarrow>
     partition_number l = partition_number r \<and> partition_format l = partition_format r \<and>
     signature_type l = signature_type r \<and> partition_signature l = partition_signature r"

lemma usb_predicates_agree: "is_usb_device_path lib dp = device_path_has_usb_node lib dp"
  by (simp add: is_usb_device_path_def device_path_has_usb_node_def)

subsection \<open>Walking a path in memory\<close>

definition NODE_HDR_BYTES :: nat where "NODE_HDR_BYTES = 4"
definition DEVICE_PATH_MAX_BYTES :: nat where "DEVICE_PATH_MAX_BYTES = 64 * 1024"

definition usize_max :: nat where "usize_max = 2 ^ 64 - 1"

definition is_end_entire :: "node_header \<Rightarrow> bool" where
  "is_end_entire h \<longleftrightarrow> nh_type h = T_END \<and> nh_sub h = S_END_ENTIRE"

text \<open>\<open>bp_recovery::device_path_size\<close>, from \<open>consumed\<close> on.\<close>

function device_path_size_from :: "'dp patina \<Rightarrow> (nat \<Rightarrow> u8) \<Rightarrow> nat \<Rightarrow> nat" where
  "device_path_size_from lib m consumed =
     (if consumed > DEVICE_PATH_MAX_BYTES - NODE_HDR_BYTES then 0
      else case hdr_decode lib [m consumed, m (consumed + 1), m (consumed + 2), m (consumed + 3)] of
        None \<Rightarrow> 0
      | Some hdr \<Rightarrow>
          if nh_len hdr < NODE_HDR_BYTES then 0
          else if is_end_entire hdr \<and> nh_len hdr \<noteq> NODE_HDR_BYTES then 0
          else if consumed + nh_len hdr > usize_max then 0
          else if \<not> consumed + nh_len hdr \<le> DEVICE_PATH_MAX_BYTES then 0
          else if is_end_entire hdr then consumed + nh_len hdr
          else device_path_size_from lib m (consumed + nh_len hdr))"
  by pat_completeness auto
termination
  by (relation "measure (\<lambda>(lib, m, consumed). DEVICE_PATH_MAX_BYTES + 1 - consumed)")
    (auto simp: NODE_HDR_BYTES_def DEVICE_PATH_MAX_BYTES_def)

declare device_path_size_from.simps [simp del]

definition device_path_size :: "'dp patina \<Rightarrow> (nat \<Rightarrow> u8) \<Rightarrow> nat" where
  "device_path_size lib m = device_path_size_from lib m 0"

text \<open>\<open>helpers::validate_device_path_nodes\<close>, from \<open>pos\<close> on.\<close>

function validate_nodes_from :: "bytes \<Rightarrow> nat \<Rightarrow> bool" where
  "validate_nodes_from buffer pos =
     (if pos + NODE_HDR_BYTES > length buffer then False
      else let node_type = buffer ! pos; node_subtype = buffer ! (pos + 1);
               node_length = le_nat [buffer ! (pos + 2), buffer ! (pos + 3)] in
        if node_length < NODE_HDR_BYTES then False
        else if pos + node_length > length buffer then False
        else if node_type = T_END \<and> node_subtype = S_END_ENTIRE then True
        else validate_nodes_from buffer (pos + node_length))"
  by pat_completeness auto
termination
  by (relation "measure (\<lambda>(buffer, pos). length buffer - pos)")
    (auto simp: NODE_HDR_BYTES_def)

declare validate_nodes_from.simps [simp del]

definition validate_device_path_nodes :: "bytes \<Rightarrow> bool" where
  "validate_device_path_nodes buffer = validate_nodes_from buffer 0"

subsection \<open>Building a FilePath node\<close>

text \<open>\<open>str::encode_utf16\<close>: a code point beyond the basic plane is a surrogate pair.\<close>

definition utf16_units :: "nat \<Rightarrow> u16 list" where
  "utf16_units c = (if c < 0x10000 then [word_of_nat c]
     else [word_of_nat (0xD800 + (c - 0x10000) div 0x400), word_of_nat (0xDC00 + (c - 0x10000) mod 0x400)])"

definition encode_utf16 :: "ustr \<Rightarrow> u16 list" where
  "encode_utf16 s = concat (map utf16_units s)"

definition str_of :: "string \<Rightarrow> ustr" where
  "str_of s = map of_char s"

definition encode_node_header :: "'dp patina \<Rightarrow> node_header \<Rightarrow> bytes" where
  "encode_node_header lib h = hdr_encode lib h"

definition build_file_path_node :: "'dp patina \<Rightarrow> ustr \<Rightarrow> bytes" where
  "build_file_path_node lib path =
     (let utf16 = encode_utf16 path @ [0];
          path_bytes = length utf16 * 2;
          node_len = NODE_HDR_BYTES + path_bytes;
          end_hdr = \<lparr>nh_type = T_END, nh_sub = S_END_ENTIRE, nh_len = NODE_HDR_BYTES\<rparr> in
      if node_len > 0xFFFF then encode_node_header lib end_hdr
      else let file_hdr = \<lparr>nh_type = T_MEDIA, nh_sub = S_FILE_PATH, nh_len = node_len\<rparr> in
        encode_node_header lib file_hdr
        @ concat (map (\<lambda>w. nat_le 2 (unat w)) utf16)
        @ encode_node_header lib end_hdr)"


subsection \<open>The encoding a path is checked against\<close>

text \<open>What the code relies on of patina's node header: four bytes, the length little-endian.\<close>

definition header_codec :: "'dp patina \<Rightarrow> bool" where
  "header_codec lib \<longleftrightarrow>
     (\<forall>a b c d. hdr_decode lib [a, b, c, d] = Some \<lparr>nh_type = a, nh_sub = b, nh_len = le_nat [c, d]\<rparr>) \<and>
     (\<forall>h. nh_len h \<le> 0xFFFF \<longrightarrow> hdr_encode lib h = [nh_type h, nh_sub h] @ nat_le 2 (nh_len h))"

definition node_fits :: "dp_node \<Rightarrow> bool" where
  "node_fits n \<longleftrightarrow> nh_len (node_hdr n) = 4 + length (node_data n) \<and> nh_len (node_hdr n) \<le> 0xFFFF"

definition plain_node :: "dp_node \<Rightarrow> bool" where
  "plain_node n \<longleftrightarrow> node_fits n \<and> \<not> is_end_entire (node_hdr n)"

definition enc_node :: "dp_node \<Rightarrow> bytes" where
  "enc_node n = [ntype n, nsub n] @ nat_le 2 (nh_len (node_hdr n)) @ node_data n"

definition end_node :: dp_node where
  "end_node = \<lparr>node_hdr = \<lparr>nh_type = T_END, nh_sub = S_END_ENTIRE, nh_len = 4\<rparr>, node_data = []\<rparr>"

definition enc_nodes :: "dp_node list \<Rightarrow> bytes" where
  "enc_nodes ns = concat (map enc_node ns)"

definition enc_path :: "dp_node list \<Rightarrow> bytes" where
  "enc_path ns = enc_nodes ns @ enc_node end_node"

definition node_of_bytes :: "bytes \<Rightarrow> dp_node" where
  "node_of_bytes bs = \<lparr>node_hdr = \<lparr>nh_type = bs ! 0, nh_sub = bs ! 1, nh_len = le_nat [bs ! 2, bs ! 3]\<rparr>,
     node_data = drop 4 bs\<rparr>"

lemma enc_nodes_simps [simp]:
  "enc_nodes [] = []" "enc_nodes (n # ns) = enc_node n @ enc_nodes ns"
  "enc_nodes (ms @ ns) = enc_nodes ms @ enc_nodes ns"
  by (simp_all add: enc_nodes_def)

lemma enc_path_simps [simp]: "enc_path [] = enc_node end_node" "enc_path (n # ns) = enc_node n @ enc_path ns"
  by (simp_all add: enc_path_def)

lemma length_enc_node: "node_fits n \<Longrightarrow> length (enc_node n) = nh_len (node_hdr n)"
  by (simp add: enc_node_def node_fits_def)

lemma end_node_enc: "enc_node end_node = [0x7F, 0xFF, 4, 0]"
  by (simp add: enc_node_def end_node_def node_numbers numeral_2_eq_2)

lemma end_node_fits: "node_fits end_node" "is_end_entire (node_hdr end_node)"
  by (simp_all add: node_fits_def end_node_def is_end_entire_def)

lemma le_nat2: "n \<le> 0xFFFF \<Longrightarrow> le_nat (nat_le 2 n) = n"
  by (rule le_nat_nat_le) simp

lemma nat_le2: "nat_le 2 n = [word_of_nat (n mod 256), word_of_nat (n div 256 mod 256)]"
  by (simp add: numeral_2_eq_2)

lemma le_nat_two: "le_nat [a, b] \<le> 0xFFFF"
  using le_nat_bound [of "[a, b]"] by (simp add: less_Suc_eq_le numeral_2_eq_2)

lemma enc_node_hd:
  assumes "node_fits n"
  shows "4 \<le> length (enc_node n)" "enc_node n ! 0 = ntype n" "enc_node n ! 1 = nsub n"
    "le_nat [enc_node n ! 2, enc_node n ! 3] = nh_len (node_hdr n)"
proof -
  have "le_nat (nat_le 2 (nh_len (node_hdr n))) = nh_len (node_hdr n)"
    using assms by (intro le_nat2) (simp add: node_fits_def)
  moreover have "[enc_node n ! 2, enc_node n ! 3] = nat_le 2 (nh_len (node_hdr n))"
    by (simp add: enc_node_def nat_le2)
  ultimately show "le_nat [enc_node n ! 2, enc_node n ! 3] = nh_len (node_hdr n)"
    by simp
qed (use assms in \<open>simp_all add: enc_node_def node_fits_def\<close>)

lemma node_of_bytes_enc:
  assumes "4 \<le> length bs" and "length bs = le_nat [bs ! 2, bs ! 3]"
  shows "enc_node (node_of_bytes bs) = bs" "node_fits (node_of_bytes bs)"
proof -
  have "nat_le (length [bs ! 2, bs ! 3]) (le_nat [bs ! 2, bs ! 3]) = [bs ! 2, bs ! 3]"
    by (rule nat_le_le_nat)
  then have "enc_node (node_of_bytes bs) = [bs ! 0, bs ! 1, bs ! 2, bs ! 3] @ drop 4 bs"
    by (simp add: enc_node_def node_of_bytes_def numeral_2_eq_2)
  also have "[bs ! 0, bs ! 1, bs ! 2, bs ! 3] = take 4 bs"
    using assms(1) by (auto simp: list_eq_iff_nth_eq nth_Cons numeral_eq_Suc split: nat.splits)
  finally show "enc_node (node_of_bytes bs) = bs" by simp
  show "node_fits (node_of_bytes bs)"
    using assms le_nat_two [of "bs ! 2" "bs ! 3"] by (simp add: node_fits_def node_of_bytes_def)
qed

text \<open>One step of the walk over a window of memory that starts with an encoded node.\<close>

lemma hdr_at:
  assumes "header_codec lib" and "node_fits n" and "\<And>i. i < length (enc_node n) \<Longrightarrow> m (c + i) = enc_node n ! i"
  shows "hdr_decode lib [m c, m (c + 1), m (c + 2), m (c + 3)] = Some (node_hdr n)"
proof -
  note h = enc_node_hd [OF assms(2)]
  have "m c = enc_node n ! 0" "m (c + 1) = enc_node n ! 1" "m (c + 2) = enc_node n ! 2" "m (c + 3) = enc_node n ! 3"
    using assms(3) [of 0] assms(3) [of 1] assms(3) [of 2] assms(3) [of 3] h(1) by force+
  with assms(1) h(2-4) show ?thesis
    by (cases "node_hdr n") (simp add: header_codec_def)
qed

subsection \<open>\<open>device_path_size\<close> measures exactly the well-formed paths\<close>

lemma device_path_size_complete:
  assumes lib: "header_codec lib"
  shows "list_all plain_node ns \<Longrightarrow> (\<And>i. i < length (enc_path ns) \<Longrightarrow> m (c + i) = enc_path ns ! i) \<Longrightarrow>
    c + length (enc_path ns) \<le> DEVICE_PATH_MAX_BYTES \<Longrightarrow>
    device_path_size_from lib m c = c + length (enc_path ns)"
proof (induction ns arbitrary: c)
  case Nil
  have len: "length (enc_node end_node) = 4" by (simp add: end_node_enc)
  have "hdr_decode lib [m c, m (c + 1), m (c + 2), m (c + 3)] = Some (node_hdr end_node)"
    using Nil.prems(2) by (intro hdr_at lib end_node_fits) simp
  moreover have "nh_len (node_hdr end_node) = 4" by (simp add: end_node_def)
  ultimately show ?case
    using Nil.prems(3) end_node_fits(2)
    by (simp add: device_path_size_from.simps [of lib m c] len NODE_HDR_BYTES_def usize_max_def
        DEVICE_PATH_MAX_BYTES_def)
next
  case (Cons n ns)
  from Cons.prems(1) have n: "node_fits n" "\<not> is_end_entire (node_hdr n)" and ns: "list_all plain_node ns"
    by (auto simp: plain_node_def [of n])
  let ?l = "nh_len (node_hdr n)"
  have len: "length (enc_node n) = ?l" using n by (simp add: length_enc_node)
  have "hdr_decode lib [m c, m (c + 1), m (c + 2), m (c + 3)] = Some (node_hdr n)"
    using Cons.prems(2) by (intro hdr_at lib n) (simp add: nth_append)
  moreover have "4 \<le> length (enc_path ns)" by (simp add: enc_path_def end_node_enc)
  moreover have "4 \<le> ?l" using n by (simp add: node_fits_def)
  ultimately have "device_path_size_from lib m c = device_path_size_from lib m (c + ?l)"
    using Cons.prems(3) n(2)
    by (simp add: device_path_size_from.simps [of lib m c] len NODE_HDR_BYTES_def usize_max_def
        DEVICE_PATH_MAX_BYTES_def)
  also have "\<dots> = c + ?l + length (enc_path ns)"
  proof (rule Cons.IH [OF ns])
    fix i assume "i < length (enc_path ns)"
    then show "m (c + ?l + i) = enc_path ns ! i"
      using Cons.prems(2) [of "?l + i"] by (simp add: nth_append len add.assoc)
  qed (use Cons.prems(3) len in simp)
  finally show ?case by (simp add: len)
qed

lemma map_upt_split: "c \<le> d \<Longrightarrow> d \<le> e \<Longrightarrow> map m [c..<e] = map m [c..<d] @ map m [d..<e]"
  by (metis le_Suc_ex map_append upt_add_eq_append)

lemma node_at:
  assumes "header_codec lib"
    and "hdr_decode lib [m c, m (c + 1), m (c + 2), m (c + 3)] = Some h" and "4 \<le> nh_len h"
  obtains n where "node_hdr n = h" and "node_fits n" and "map m [c..<c + nh_len h] = enc_node n"
proof -
  let ?bs = "map m [c..<c + nh_len h]"
  have nth: "?bs ! i = m (c + i)" if "i < 4" for i
    using that assms(3) by simp
  have h: "h = \<lparr>nh_type = m c, nh_sub = m (c + 1), nh_len = le_nat [m (c + 2), m (c + 3)]\<rparr>"
    using assms(1,2) by (simp add: header_codec_def)
  have b: "4 \<le> length ?bs" "length ?bs = le_nat [?bs ! 2, ?bs ! 3]"
    using assms(3) nth [of 2] nth [of 3] by (simp_all add: h)
  show thesis
  proof (rule that [of "node_of_bytes ?bs"])
    show "node_hdr (node_of_bytes ?bs) = h"
      using nth [of 0] nth [of 1] nth [of 2] nth [of 3] h by (simp add: node_of_bytes_def)
  qed (use node_of_bytes_enc [OF b] in simp_all)
qed

lemma device_path_size_sound:
  "header_codec lib \<Longrightarrow> device_path_size_from lib m c = n \<Longrightarrow> n \<noteq> 0 \<Longrightarrow>
    \<exists>ns. list_all plain_node ns \<and> c \<le> n \<and> n \<le> DEVICE_PATH_MAX_BYTES \<and> map m [c..<n] = enc_path ns"
proof (induction lib m c rule: device_path_size_from.induct)
  case (1 lib m c)
  from "1.prems"(2,3) obtain h where c: "\<not> c > DEVICE_PATH_MAX_BYTES - NODE_HDR_BYTES"
    and h: "hdr_decode lib [m c, m (c + 1), m (c + 2), m (c + 3)] = Some h"
    and len: "4 \<le> nh_len h" and e: "is_end_entire h \<Longrightarrow> nh_len h = 4"
    and u: "\<not> c + nh_len h > usize_max" and cap: "c + nh_len h \<le> DEVICE_PATH_MAX_BYTES"
    by (subst (asm) device_path_size_from.simps) (auto split: if_splits option.splits simp: NODE_HDR_BYTES_def)
  obtain nd where nd: "node_hdr nd = h" "node_fits nd" "map m [c..<c + nh_len h] = enc_node nd"
    using node_at [OF "1.prems"(1) h len] .
  show ?case
  proof (cases "is_end_entire h")
    case True
    with "1.prems" c h len e u cap have n: "n = c + nh_len h"
      by (subst (asm) device_path_size_from.simps) (simp add: NODE_HDR_BYTES_def)
    have "enc_node nd = enc_node end_node"
      using nd True e by (simp add: enc_node_def end_node_def is_end_entire_def node_fits_def)
    then show ?thesis using n nd cap by (intro exI [of _ "[]"]) simp
  next
    case False
    then have "device_path_size_from lib m (c + nh_len h) = n"
      using "1.prems" c h len u cap
      by (subst (asm) device_path_size_from.simps) (simp add: NODE_HDR_BYTES_def)
    then obtain ns where ns: "list_all plain_node ns" "c + nh_len h \<le> n" "n \<le> DEVICE_PATH_MAX_BYTES"
      "map m [c + nh_len h..<n] = enc_path ns"
      using "1.IH" [of h] c h len e u cap False "1.prems" by (auto simp: NODE_HDR_BYTES_def)
    have "map m [c..<n] = enc_path (nd # ns)"
      using ns nd map_upt_split [of c "c + nh_len h" n m] by simp
    with ns nd False show ?thesis
      by (intro exI [of _ "nd # ns"]) (simp add: plain_node_def [of nd])
  qed
qed

lemma device_path_size_eq:
  assumes "header_codec lib" and "0 < n"
  shows "device_path_size lib m = n \<longleftrightarrow>
    n \<le> DEVICE_PATH_MAX_BYTES \<and> (\<exists>ns. list_all plain_node ns \<and> read_bytes m n = enc_path ns)"
proof
  assume "device_path_size lib m = n"
  then show "n \<le> DEVICE_PATH_MAX_BYTES \<and> (\<exists>ns. list_all plain_node ns \<and> read_bytes m n = enc_path ns)"
    using device_path_size_sound [of lib m 0 n] assms by (auto simp: device_path_size_def read_bytes_def)
next
  assume "n \<le> DEVICE_PATH_MAX_BYTES \<and> (\<exists>ns. list_all plain_node ns \<and> read_bytes m n = enc_path ns)"
  then obtain ns where ns: "n \<le> DEVICE_PATH_MAX_BYTES" "list_all plain_node ns" "read_bytes m n = enc_path ns"
    by blast
  then have len: "length (enc_path ns) = n" by (metis length_read_bytes)
  have "m i = enc_path ns ! i" if "i < n" for i
    using that ns(3) [symmetric] by (simp add: read_bytes_def)
  with ns len device_path_size_complete [OF assms(1) ns(2), of m 0] show "device_path_size lib m = n"
    by (simp add: device_path_size_def)
qed

lemma device_path_size_bounded: "device_path_size lib m \<le> DEVICE_PATH_MAX_BYTES"
proof -
  have "device_path_size_from lib m c \<le> DEVICE_PATH_MAX_BYTES" for c
    by (induction lib m c rule: device_path_size_from.induct)
      (subst device_path_size_from.simps, auto split: option.splits)
  then show ?thesis by (simp add: device_path_size_def)
qed

lemma device_path_size_reads_cap:
  "(\<And>i. i < DEVICE_PATH_MAX_BYTES \<Longrightarrow> m i = m' i) \<Longrightarrow>
    device_path_size_from lib m c = device_path_size_from lib m' c"
proof (induction lib m c rule: device_path_size_from.induct)
  case (1 lib m c)
  show ?case
  proof (cases "c > DEVICE_PATH_MAX_BYTES - NODE_HDR_BYTES")
    case True
    then show ?thesis by (simp add: device_path_size_from.simps [of _ _ c])
  next
    case False
    then have "[m c, m (c + 1), m (c + 2), m (c + 3)] = [m' c, m' (c + 1), m' (c + 2), m' (c + 3)]"
      using "1.prems" by (simp add: NODE_HDR_BYTES_def DEVICE_PATH_MAX_BYTES_def)
    then show ?thesis
      using "1.IH" [OF False] "1.prems" False
      by (simp add: device_path_size_from.simps [of _ _ c] split: option.splits)
  qed
qed

subsection \<open>\<open>validate_device_path_nodes\<close> accepts exactly the buffers that start with a path\<close>

definition valid_node_list :: "bytes \<Rightarrow> bool" where
  "valid_node_list bs \<longleftrightarrow> (\<exists>ns last rest. list_all plain_node ns \<and> node_fits last \<and>
     is_end_entire (node_hdr last) \<and> bs = enc_nodes ns @ enc_node last @ rest)"

lemma validate_nodes_head:
  assumes "node_fits n" and "drop pos buf = enc_node n @ rest"
  shows "validate_nodes_from buf pos =
    (is_end_entire (node_hdr n) \<or> validate_nodes_from buf (pos + length (enc_node n)))"
proof -
  note h = enc_node_hd [OF assms(1)]
  have len: "length (enc_node n) = nh_len (node_hdr n)" using assms(1) by (rule length_enc_node)
  have nth: "buf ! (pos + i) = enc_node n ! i" if "i < length (enc_node n)" for i
    using that assms(2) by (metis length_drop length_greater_0_conv less_imp_le list.size(3) nat_le_linear
        not_less_zero nth_append nth_drop zero_less_diff drop_all append_is_Nil_conv)
  have "length buf - pos \<ge> length (enc_node n)"
    using arg_cong [OF assms(2), of length] by simp
  moreover have "le_nat [buf ! (pos + 2), buf ! (pos + 3)] = nh_len (node_hdr n)"
    using h nth [of 2] nth [of 3] by simp
  ultimately show ?thesis
    using h nth [of 0] nth [of 1] len
    by (subst validate_nodes_from.simps)
      (auto simp: NODE_HDR_BYTES_def Let_def is_end_entire_def simp del: le_nat.simps)
qed

lemma validate_complete:
  "list_all plain_node ns \<Longrightarrow> node_fits l \<Longrightarrow> is_end_entire (node_hdr l) \<Longrightarrow>
   drop pos buf = enc_nodes ns @ enc_node l @ rest \<Longrightarrow> validate_nodes_from buf pos"
proof (induction ns arbitrary: pos)
  case Nil
  then show ?case by (simp add: validate_nodes_head [of l pos buf rest])
next
  case (Cons n ns)
  then have n: "node_fits n" by (simp add: plain_node_def [of n])
  have d: "drop pos buf = enc_node n @ enc_nodes ns @ enc_node l @ rest" using Cons.prems by simp
  then have "drop (pos + length (enc_node n)) buf = enc_nodes ns @ enc_node l @ rest"
    by (metis add.commute append_eq_conv_conj drop_drop)
  with Cons show ?case by (simp add: validate_nodes_head [OF n d])
qed


lemma validate_sound:
  "validate_nodes_from buf pos \<Longrightarrow>
   \<exists>ns l rest. list_all plain_node ns \<and> node_fits l \<and> is_end_entire (node_hdr l) \<and>
     drop pos buf = enc_nodes ns @ enc_node l @ rest"
proof (induction buf pos rule: validate_nodes_from.induct)
  case (1 buf pos)
  let ?len = "le_nat [buf ! (pos + 2), buf ! (pos + 3)]"
  let ?bs = "slice pos ?len buf"
  let ?n = "node_of_bytes ?bs"
  from "1.prems" have b: "\<not> pos + NODE_HDR_BYTES > length buf" "\<not> ?len < NODE_HDR_BYTES" "\<not> pos + ?len > length buf"
    by (subst (asm) validate_nodes_from.simps, simp add: Let_def del: le_nat.simps split: if_splits)+
  then have four: "4 \<le> ?len" by (simp add: NODE_HDR_BYTES_def del: le_nat.simps)
  have nth: "?bs ! i = buf ! (pos + i)" if "i < 4" for i
    using that b four by (simp del: le_nat.simps)
  have bs: "4 \<le> length ?bs" "length ?bs = le_nat [?bs ! 2, ?bs ! 3]"
    using b four nth [of 2] nth [of 3] by (simp_all del: le_nat.simps)
  note enc = node_of_bytes_enc [OF bs]
  have d: "drop pos buf = enc_node ?n @ drop (pos + ?len) buf"
    using enc(1) append_take_drop_id [of ?len "drop pos buf"]
    by (simp add: slice_def add.commute del: le_nat.simps append_take_drop_id)
  have hdr: "is_end_entire (node_hdr ?n) \<longleftrightarrow> buf ! pos = T_END \<and> buf ! (pos + 1) = S_END_ENTIRE"
    using nth [of 0] nth [of 1] by (simp add: node_of_bytes_def is_end_entire_def)
  show ?case
  proof (cases "is_end_entire (node_hdr ?n)")
    case True
    with enc(2) d show ?thesis by (intro exI [of _ "[]"]) auto
  next
    case False
    then have "validate_nodes_from buf (pos + ?len)"
      using "1.prems" b hdr
      by (subst (asm) validate_nodes_from.simps) (simp add: Let_def del: le_nat.simps split: if_splits)
    then obtain ns l rest where ns: "list_all plain_node ns" "node_fits l" "is_end_entire (node_hdr l)"
      "drop (pos + ?len) buf = enc_nodes ns @ enc_node l @ rest"
      using "1.IH" [OF b(1) refl refl refl b(2,3)] False hdr by blast
    moreover have "plain_node ?n" using enc(2) False by (simp only: plain_node_def simp_thms)
    ultimately show ?thesis
      using d by (intro exI [of _ "?n # ns"] exI [of _ l] exI [of _ rest]) simp
  qed
qed

lemma validate_device_path_nodes_iff: "validate_device_path_nodes bs \<longleftrightarrow> valid_node_list bs"
proof
  assume "validate_device_path_nodes bs"
  then show "valid_node_list bs"
    using validate_sound [of bs 0] by (simp add: validate_device_path_nodes_def valid_node_list_def)
next
  assume "valid_node_list bs"
  then show "validate_device_path_nodes bs"
    using validate_complete [of _ _ 0 bs]
    by (auto simp: validate_device_path_nodes_def valid_node_list_def)
qed

subsection \<open>\<open>build_file_path_node\<close> builds a path both walkers accept\<close>

definition file_node :: "ustr \<Rightarrow> dp_node" where
  "file_node path = \<lparr>node_hdr = \<lparr>nh_type = T_MEDIA, nh_sub = S_FILE_PATH,
       nh_len = 4 + 2 * (length (encode_utf16 path) + 1)\<rparr>,
     node_data = concat (map (\<lambda>w. nat_le 2 (unat w)) (encode_utf16 path @ [0]))\<rparr>"

definition path_fits :: "ustr \<Rightarrow> bool" where
  "path_fits path \<longleftrightarrow> 4 + 2 * (length (encode_utf16 path) + 1) \<le> 0xFFFF"

lemma length_concat_le2: "length (concat (map (\<lambda>w. nat_le 2 (unat w)) ws)) = 2 * length ws"
  by (induction ws) simp_all

lemma file_node_plain: "path_fits path \<Longrightarrow> plain_node (file_node path)"
  by (simp add: plain_node_def node_fits_def file_node_def path_fits_def length_concat_le2
      is_end_entire_def node_numbers del: map_append concat_append)

lemma hdr_encode_eq:
  "header_codec lib \<Longrightarrow> nh_len h \<le> 0xFFFF \<Longrightarrow> encode_node_header lib h = [nh_type h, nh_sub h] @ nat_le 2 (nh_len h)"
  by (simp add: encode_node_header_def header_codec_def)

lemma build_file_path_node_eq:
  assumes "header_codec lib"
  shows "build_file_path_node lib path = (if path_fits path then enc_path [file_node path] else enc_path [])"
proof -
  let ?fin = "\<lparr>nh_type = T_END, nh_sub = S_END_ENTIRE, nh_len = 4\<rparr>"
  have e: "encode_node_header lib ?fin = enc_node end_node"
    using hdr_encode_eq [OF assms, of ?fin] by (simp add: enc_node_def end_node_def)
  have f: "encode_node_header lib (node_hdr (file_node path)) @ node_data (file_node path) = enc_node (file_node path)"
    if "path_fits path"
    using hdr_encode_eq [OF assms, of "node_hdr (file_node path)"] that
    by (simp add: enc_node_def file_node_def path_fits_def)
  show ?thesis
  proof (cases "path_fits path")
    case True
    then show ?thesis
      using f e by (simp add: build_file_path_node_def Let_def path_fits_def file_node_def
          NODE_HDR_BYTES_def algebra_simps)
  next
    case False
    then show ?thesis
      using e by (simp add: build_file_path_node_def Let_def path_fits_def NODE_HDR_BYTES_def algebra_simps)
  qed
qed

lemma build_file_path_node_valid:
  assumes "header_codec lib"
  shows "validate_device_path_nodes (build_file_path_node lib path)"
  unfolding build_file_path_node_eq [OF assms] validate_device_path_nodes_iff valid_node_list_def
  using end_node_fits file_node_plain [of path]
  by (intro exI [of _ "if path_fits path then [file_node path] else []"] exI [of _ end_node] exI [of _ "[]"])
    (auto simp: enc_path_def)

lemma build_file_path_node_walks:
  assumes lib: "header_codec lib" and len: "length (build_file_path_node lib path) \<le> DEVICE_PATH_MAX_BYTES"
  shows "device_path_size lib (at_ptr (build_file_path_node lib path) beyond)
      = length (build_file_path_node lib path)"
proof -
  define ns where "ns = (if path_fits path then [file_node path] else [])"
  have b: "build_file_path_node lib path = enc_path ns" and plain: "list_all plain_node ns"
    using build_file_path_node_eq [OF lib] by (simp_all add: ns_def file_node_plain)
  show ?thesis
    using device_path_size_complete [OF lib plain, of "at_ptr (enc_path ns) beyond" 0] len
    by (simp add: b device_path_size_def at_ptr_def)
qed

end
