(* ===== verification/Firmware.thy ===== *)
theory Firmware
  imports DevicePaths
begin

text \<open>
  The platform the boot crates run on, as a parameter. \<open>firmware\<close> holds one function for
  every service the source calls that lives outside the repository: UEFI boot and runtime
  services, the DXE dispatcher, and the C protocol tables reached through raw pointers. Each
  function takes the platform's state \<open>'w\<close> and gives an outcome and the next state, so a call
  may also never come back. The wrappers below make the call and write it to the log with its
  outcome; properties of the boot flows are statements about that log.
\<close>

type_synonym handle = nat
type_synonym ptr = nat
type_synonym evt = nat
type_synonym ('w, 'r) sem = "'w \<Rightarrow> 'r outcome \<times> 'w"

text \<open>The GUIDs the source names, by name.\<close>

datatype guid = EndOfDxeGroup | ReadyToBootGroup | MsStartOfBds | DfciStartOfBds
  | MuReadyToProcessCapsules | SimpleTextInput | SimpleTextOutput | GraphicsOutput
  | SimpleFileSystem | DevicePathProtocol | PciIo | NvmePassThru | BlockIo | MsButtonServices
  | BootMgrLibProxy | BdsArch

datatype search = AllHandle | ByProtocol guid

datatype console_type = ConIn | ConOut | ErrOut

text \<open>The entries of the vtable published by the C \<open>PatinaBootMgrLibProxy\<close> driver.\<close>

datatype proxy_fn = ProcessCapsules | ConnectAllDefaultConsoles
  | ConnectConsoleVariable console_type | UpdateConsoleVariable console_type ptr ptr
  | StartHotkeyService | DispatchDeferredImages | ProcessLoadOption ptr
  | InstallDxeSmmReadyToLock | PerformMemoryTest | DisplayBootLogo

datatype button_fn = VolumeUpCheck | VolumeDownCheck | ClearVolumeState

text \<open>\<open>nvme_pass_thru::Command\<close> and the fields of \<open>CommandPacket\<close> the source fills.\<close>

record nvme_command =
  cdw0 :: u32
  flags :: u8
  nsid :: u32
  cdw2 :: u32
  cdw3 :: u32
  cdw10 :: u32
  cdw11 :: u32
  cdw12 :: u32
  cdw13 :: u32
  cdw14 :: u32
  cdw15 :: u32

record command_packet =
  command_timeout :: u64
  transfer_length :: u32
  metadata_length :: u32
  queue_type :: u8
  nvme_cmd :: nvme_command

definition default_command :: nvme_command where
  "default_command = \<lparr>cdw0 = 0, flags = 0, nsid = 0, cdw2 = 0, cdw3 = 0, cdw10 = 0, cdw11 = 0,
     cdw12 = 0, cdw13 = 0, cdw14 = 0, cdw15 = 0\<rparr>"

text \<open>The objects a boot flow allocates for itself and may free again.\<close>

datatype alloc = RamDiskState ptr | LeakedPath ptr | BpBuffer ptr

datatype 'dp event =
    EvLocateHandles search "(efi_status + handle list) outcome"
  | EvHandleProtocol handle guid "(efi_status + ptr) outcome"
  | EvLocateProtocol guid "(efi_status + ptr) outcome"
  | EvLocateDevicePath guid ptr "(efi_status + handle) outcome"
  | EvConnect handle bool "(efi_status + unit) outcome"
  | EvDisconnect handle "(efi_status + unit) outcome"
  | EvCreateEvent guid "(efi_status + evt) outcome"
  | EvSignalEvent evt "(efi_status + unit) outcome"
  | EvCloseEvent evt "(efi_status + unit) outcome"
  | EvLoadImage handle 'dp "(efi_status + handle) outcome"
  | EvWatchdog nat "(efi_status + unit) outcome"
  | EvStartImage handle "(efi_status + unit) outcome"
  | EvInstall "handle option" guid ptr "(efi_status + handle) outcome"
  | EvUninstall handle guid ptr "(efi_status + unit) outcome"
  | EvGetVariable string "(efi_status + bytes) outcome"
  | EvSetVariable string bytes "(efi_status + unit) outcome"
  | EvDispatch "(efi_error + bool) outcome"
  | EvReadKey ptr "(efi_status \<times> u16) outcome"
  | EvPciClass ptr "(efi_status \<times> u32) outcome"
  | EvButton ptr button_fn "(efi_status \<times> u8) outcome"
  | EvProxyRevision ptr "u32 outcome"
  | EvProxy ptr proxy_fn "(efi_status \<times> evt) outcome"
  | EvNvme ptr command_packet "(efi_status \<times> bytes) outcome"
  | EvReserve nat "(ptr option) outcome"
  | EvAlloc alloc
  | EvFree alloc
  | EvForget alloc
  | EvFailureHandler "unit outcome"

record ('w, 'dp) firmware =
  fw_lib :: "'dp patina"
  fw_mem :: "'w \<Rightarrow> ptr \<Rightarrow> nat \<Rightarrow> u8"
  fw_locate_handle_buffer :: "search \<Rightarrow> ('w, efi_status + handle list) sem"
  fw_handle_protocol :: "handle \<Rightarrow> guid \<Rightarrow> ('w, efi_status + ptr) sem"
  fw_locate_protocol :: "guid \<Rightarrow> ('w, efi_status + ptr) sem"
  fw_locate_device_path :: "guid \<Rightarrow> ptr \<Rightarrow> ('w, efi_status + handle) sem"
  fw_connect_controller :: "handle \<Rightarrow> bool \<Rightarrow> ('w, efi_status + unit) sem"
  fw_disconnect_controller :: "handle \<Rightarrow> ('w, efi_status + unit) sem"
  fw_create_event_ex :: "guid \<Rightarrow> ('w, efi_status + evt) sem"
  fw_signal_event :: "evt \<Rightarrow> ('w, efi_status + unit) sem"
  fw_close_event :: "evt \<Rightarrow> ('w, efi_status + unit) sem"
  fw_load_image :: "handle \<Rightarrow> 'dp \<Rightarrow> ('w, efi_status + handle) sem"
  fw_set_watchdog_timer :: "nat \<Rightarrow> ('w, efi_status + unit) sem"
  fw_start_image :: "handle \<Rightarrow> ('w, efi_status + unit) sem"
  fw_install_protocol :: "handle option \<Rightarrow> guid \<Rightarrow> ptr \<Rightarrow> ('w, efi_status + handle) sem"
  fw_uninstall_protocol :: "handle \<Rightarrow> guid \<Rightarrow> ptr \<Rightarrow> ('w, efi_status + unit) sem"
  fw_get_variable :: "string \<Rightarrow> ('w, efi_status + bytes) sem"
  fw_set_variable :: "string \<Rightarrow> bytes \<Rightarrow> ('w, efi_status + unit) sem"
  fw_dispatch :: "('w, efi_error + bool) sem"
  fw_read_key_stroke :: "ptr \<Rightarrow> ('w, efi_status \<times> u16) sem"
  fw_pci_read_class :: "ptr \<Rightarrow> ('w, efi_status \<times> u32) sem"
  fw_button :: "ptr \<Rightarrow> button_fn \<Rightarrow> ('w, efi_status \<times> u8) sem"
  fw_proxy_revision :: "ptr \<Rightarrow> ('w, u32) sem"
  fw_proxy_call :: "ptr \<Rightarrow> proxy_fn \<Rightarrow> ('w, efi_status \<times> evt) sem"
  fw_nvme_pass_thru :: "ptr \<Rightarrow> command_packet \<Rightarrow> ('w, efi_status \<times> bytes) sem"
  fw_try_reserve :: "nat \<Rightarrow> ('w, ptr option) sem"
  fw_box :: "'w \<Rightarrow> ptr"
  fw_leak :: "'w \<Rightarrow> ptr"

type_synonym ('w, 'dp) st = "('w, 'dp event) run"
type_synonym ('w, 'dp, 'a) boot = "(('w, 'dp event) run, 'a) prog"

subsection \<open>The calls\<close>

definition locate_handle_buffer :: "('w, 'dp) firmware \<Rightarrow> search \<Rightarrow> ('w, 'dp, efi_status + handle list) boot" where
  "locate_handle_buffer fw sr = svc (fw_locate_handle_buffer fw sr) (EvLocateHandles sr)"
definition handle_protocol :: "('w, 'dp) firmware \<Rightarrow> handle \<Rightarrow> guid \<Rightarrow> ('w, 'dp, efi_status + ptr) boot" where
  "handle_protocol fw h g = svc (fw_handle_protocol fw h g) (EvHandleProtocol h g)"
definition locate_protocol :: "('w, 'dp) firmware \<Rightarrow> guid \<Rightarrow> ('w, 'dp, efi_status + ptr) boot" where
  "locate_protocol fw g = svc (fw_locate_protocol fw g) (EvLocateProtocol g)"
definition locate_device_path :: "('w, 'dp) firmware \<Rightarrow> guid \<Rightarrow> ptr \<Rightarrow> ('w, 'dp, efi_status + handle) boot" where
  "locate_device_path fw g p = svc (fw_locate_device_path fw g p) (EvLocateDevicePath g p)"
definition connect_controller :: "('w, 'dp) firmware \<Rightarrow> handle \<Rightarrow> bool \<Rightarrow> ('w, 'dp, efi_status + unit) boot" where
  "connect_controller fw h recursive = svc (fw_connect_controller fw h recursive) (EvConnect h recursive)"
definition disconnect_controller :: "('w, 'dp) firmware \<Rightarrow> handle \<Rightarrow> ('w, 'dp, efi_status + unit) boot" where
  "disconnect_controller fw h = svc (fw_disconnect_controller fw h) (EvDisconnect h)"
definition create_event_ex :: "('w, 'dp) firmware \<Rightarrow> guid \<Rightarrow> ('w, 'dp, efi_status + evt) boot" where
  "create_event_ex fw g = svc (fw_create_event_ex fw g) (EvCreateEvent g)"
definition signal_event :: "('w, 'dp) firmware \<Rightarrow> evt \<Rightarrow> ('w, 'dp, efi_status + unit) boot" where
  "signal_event fw ev = svc (fw_signal_event fw ev) (EvSignalEvent ev)"
definition close_event :: "('w, 'dp) firmware \<Rightarrow> evt \<Rightarrow> ('w, 'dp, efi_status + unit) boot" where
  "close_event fw ev = svc (fw_close_event fw ev) (EvCloseEvent ev)"
definition load_image :: "('w, 'dp) firmware \<Rightarrow> handle \<Rightarrow> 'dp \<Rightarrow> ('w, 'dp, efi_status + handle) boot" where
  "load_image fw parent dp = svc (fw_load_image fw parent dp) (EvLoadImage parent dp)"
definition set_watchdog_timer :: "('w, 'dp) firmware \<Rightarrow> nat \<Rightarrow> ('w, 'dp, efi_status + unit) boot" where
  "set_watchdog_timer fw n = svc (fw_set_watchdog_timer fw n) (EvWatchdog n)"
definition start_image :: "('w, 'dp) firmware \<Rightarrow> handle \<Rightarrow> ('w, 'dp, efi_status + unit) boot" where
  "start_image fw h = svc (fw_start_image fw h) (EvStartImage h)"
definition install_protocol :: "('w, 'dp) firmware \<Rightarrow> handle option \<Rightarrow> guid \<Rightarrow> ptr \<Rightarrow> ('w, 'dp, efi_status + handle) boot" where
  "install_protocol fw h g p = svc (fw_install_protocol fw h g p) (EvInstall h g p)"
definition uninstall_protocol :: "('w, 'dp) firmware \<Rightarrow> handle \<Rightarrow> guid \<Rightarrow> ptr \<Rightarrow> ('w, 'dp, efi_status + unit) boot" where
  "uninstall_protocol fw h g p = svc (fw_uninstall_protocol fw h g p) (EvUninstall h g p)"
definition get_variable :: "('w, 'dp) firmware \<Rightarrow> string \<Rightarrow> ('w, 'dp, efi_status + bytes) boot" where
  "get_variable fw n = svc (fw_get_variable fw n) (EvGetVariable n)"
definition set_variable :: "('w, 'dp) firmware \<Rightarrow> string \<Rightarrow> bytes \<Rightarrow> ('w, 'dp, efi_status + unit) boot" where
  "set_variable fw n bs = svc (fw_set_variable fw n bs) (EvSetVariable n bs)"
definition dispatch :: "('w, 'dp) firmware \<Rightarrow> ('w, 'dp, efi_error + bool) boot" where
  "dispatch fw = svc (fw_dispatch fw) EvDispatch"
definition read_key_stroke :: "('w, 'dp) firmware \<Rightarrow> ptr \<Rightarrow> ('w, 'dp, efi_status \<times> u16) boot" where
  "read_key_stroke fw p = svc (fw_read_key_stroke fw p) (EvReadKey p)"
definition pci_read_class :: "('w, 'dp) firmware \<Rightarrow> ptr \<Rightarrow> ('w, 'dp, efi_status \<times> u32) boot" where
  "pci_read_class fw p = svc (fw_pci_read_class fw p) (EvPciClass p)"
definition button :: "('w, 'dp) firmware \<Rightarrow> ptr \<Rightarrow> button_fn \<Rightarrow> ('w, 'dp, efi_status \<times> u8) boot" where
  "button fw p b = svc (fw_button fw p b) (EvButton p b)"
definition proxy_revision :: "('w, 'dp) firmware \<Rightarrow> ptr \<Rightarrow> ('w, 'dp, u32) boot" where
  "proxy_revision fw p = svc (fw_proxy_revision fw p) (EvProxyRevision p)"
definition proxy_call :: "('w, 'dp) firmware \<Rightarrow> ptr \<Rightarrow> proxy_fn \<Rightarrow> ('w, 'dp, efi_status \<times> evt) boot" where
  "proxy_call fw p f = svc (fw_proxy_call fw p f) (EvProxy p f)"
definition nvme_pass_thru :: "('w, 'dp) firmware \<Rightarrow> ptr \<Rightarrow> command_packet \<Rightarrow> ('w, 'dp, efi_status \<times> bytes) boot" where
  "nvme_pass_thru fw p pkt = svc (fw_nvme_pass_thru fw p pkt) (EvNvme p pkt)"
definition try_reserve :: "('w, 'dp) firmware \<Rightarrow> nat \<Rightarrow> ('w, 'dp, ptr option) boot" where
  "try_reserve fw n = svc (fw_try_reserve fw n) (EvReserve n)"

lemmas call_defs = locate_handle_buffer_def handle_protocol_def locate_protocol_def
  locate_device_path_def connect_controller_def disconnect_controller_def create_event_ex_def
  signal_event_def close_event_def load_image_def set_watchdog_timer_def start_image_def
  install_protocol_def uninstall_protocol_def get_variable_def set_variable_def dispatch_def
  read_key_stroke_def pci_read_class_def button_def proxy_revision_def proxy_call_def
  nvme_pass_thru_def try_reserve_def

end
