(* ===== verification/BootConfig.thy ===== *)
theory BootConfig
  imports Firmware
begin

text \<open>
  The configuration side of \<open>patina_boot\<close>: \<open>config.rs\<close> (the boot configuration and its
  builder), \<open>boot_source_policy.rs\<close> (which volumes a filesystem fallback may use, and in which
  Secure Boot states) and \<open>boot_mode.rs\<close> (the flash-update flag).
\<close>

subsection \<open>\<open>BootConfig\<close>\<close>

record ('w, 'dp) boot_config =
  cfg_devices :: "'dp list"
  cfg_hotkey :: "u16 option"
  cfg_hotkey_devices :: "'dp list"
  cfg_failure_handler :: "('w, unit) sem option"

definition boot_config_new :: "'dp \<Rightarrow> ('w, 'dp) boot_config" where
  "boot_config_new device = \<lparr>cfg_devices = [device], cfg_hotkey = None, cfg_hotkey_devices = [],
     cfg_failure_handler = None\<rparr>"

definition with_device :: "'dp \<Rightarrow> ('w, 'dp) boot_config \<Rightarrow> ('w, 'dp) boot_config" where
  "with_device device c = c\<lparr>cfg_devices := cfg_devices c @ [device]\<rparr>"

definition with_hotkey :: "u16 \<Rightarrow> ('w, 'dp) boot_config \<Rightarrow> ('w, 'dp) boot_config" where
  "with_hotkey scancode c = c\<lparr>cfg_hotkey := Some scancode\<rparr>"

definition with_hotkey_device :: "'dp \<Rightarrow> ('w, 'dp) boot_config \<Rightarrow> ('w, 'dp) boot_config" where
  "with_hotkey_device device c = c\<lparr>cfg_hotkey_devices := cfg_hotkey_devices c @ [device]\<rparr>"

definition with_failure_handler :: "('w, unit) sem \<Rightarrow> ('w, 'dp) boot_config \<Rightarrow> ('w, 'dp) boot_config" where
  "with_failure_handler h c = c\<lparr>cfg_failure_handler := Some h\<rparr>"

definition handle_failure :: "('w, 'dp) boot_config \<Rightarrow> ('w, 'dp, unit) boot" where
  "handle_failure c = (case cfg_failure_handler c of
      Some h \<Rightarrow> svc h EvFailureHandler
    | None \<Rightarrow> ret ())"

lemma cfg_devices_with [simp]:
  "cfg_devices (boot_config_new d) = [d]"
  "cfg_devices (with_device d c) = cfg_devices c @ [d]"
  "cfg_devices (with_hotkey k c) = cfg_devices c"
  "cfg_devices (with_hotkey_device d c) = cfg_devices c"
  "cfg_devices (with_failure_handler h c) = cfg_devices c"
  by (simp_all add: boot_config_new_def with_device_def with_hotkey_def with_hotkey_device_def
      with_failure_handler_def)

lemma cfg_hotkey_with [simp]:
  "cfg_hotkey (boot_config_new d) = None"
  "cfg_hotkey (with_device d c) = cfg_hotkey c"
  "cfg_hotkey (with_hotkey k c) = Some k"
  "cfg_hotkey_devices (boot_config_new d) = []"
  "cfg_hotkey_devices (with_device d c) = cfg_hotkey_devices c"
  "cfg_hotkey_devices (with_hotkey_device d c) = cfg_hotkey_devices c @ [d]"
  by (simp_all add: boot_config_new_def with_device_def with_hotkey_def with_hotkey_device_def)

text \<open>The fold by which discovered paths become a configuration keeps their order.\<close>

lemma cfg_devices_fold:
  "cfg_devices (foldl (\<lambda>c d. with_device d c) c ds) = cfg_devices c @ ds"
  by (induction ds arbitrary: c) simp_all

lemma cfg_hotkey_fold: "cfg_hotkey (foldl (\<lambda>c d. with_device d c) c ds) = cfg_hotkey c"
  by (induction ds arbitrary: c) simp_all

subsection \<open>\<open>BootSourcePolicy\<close>\<close>

datatype secure_boot_state = Enabled | Disabled | SetupMode

record 'dp boot_source_policy =
  approved_internal_devices :: "'dp list"
  removable_media :: bool
  secure_boot_disabled :: bool
  setup_mode :: bool

definition policy_new :: "'dp boot_source_policy" where
  "policy_new = \<lparr>approved_internal_devices = [], removable_media = False,
     secure_boot_disabled = False, setup_mode = False\<rparr>"

definition with_approved_internal_device :: "'dp \<Rightarrow> 'dp boot_source_policy \<Rightarrow> 'dp boot_source_policy" where
  "with_approved_internal_device dp p =
     p\<lparr>approved_internal_devices := approved_internal_devices p @ [dp]\<rparr>"

definition allow_removable_media :: "'dp boot_source_policy \<Rightarrow> 'dp boot_source_policy" where
  "allow_removable_media p = p\<lparr>removable_media := True\<rparr>"

definition allow_when_secure_boot_disabled :: "'dp boot_source_policy \<Rightarrow> 'dp boot_source_policy" where
  "allow_when_secure_boot_disabled p = p\<lparr>secure_boot_disabled := True\<rparr>"

definition allow_in_setup_mode :: "'dp boot_source_policy \<Rightarrow> 'dp boot_source_policy" where
  "allow_in_setup_mode p = p\<lparr>setup_mode := True\<rparr>"

definition has_sources :: "'dp patina \<Rightarrow> 'dp boot_source_policy \<Rightarrow> bool" where
  "has_sources lib p \<longleftrightarrow> removable_media p \<or>
     list_ex (\<lambda>approved. hard_drive_nodes lib approved \<noteq> []) (approved_internal_devices p)"

definition allows_security_state :: "'dp boot_source_policy \<Rightarrow> secure_boot_state \<Rightarrow> bool" where
  "allows_security_state p state = (case state of
      Enabled \<Rightarrow> True
    | Disabled \<Rightarrow> secure_boot_disabled p
    | SetupMode \<Rightarrow> setup_mode p)"

definition allows_device :: "'dp patina \<Rightarrow> 'dp boot_source_policy \<Rightarrow> 'dp \<Rightarrow> bool" where
  "allows_device lib p candidate =
     (if is_usb_device_path lib candidate then removable_media p
      else list_ex (\<lambda>approved.
          list_ex (\<lambda>approved_hd.
            list_ex (\<lambda>candidate_hd. hard_drive_identity_matches approved_hd candidate_hd)
              (hard_drive_nodes lib candidate))
          (hard_drive_nodes lib approved))
        (approved_internal_devices p))"

text \<open>Only an approved partition identity or the removable opt-in lets a volume through.\<close>

lemma allows_device_cases:
  "allows_device lib p c \<longleftrightarrow>
     is_usb_device_path lib c \<and> removable_media p \<or>
     \<not> is_usb_device_path lib c \<and>
       (\<exists>a \<in> set (approved_internal_devices p). \<exists>l \<in> set (hard_drive_nodes lib a).
          \<exists>r \<in> set (hard_drive_nodes lib c). hard_drive_identity_matches l r)"
  by (auto simp: allows_device_def list_ex_iff)

lemma allows_device_has_sources: "allows_device lib p c \<Longrightarrow> has_sources lib p"
  by (auto simp: allows_device_cases has_sources_def list_ex_iff)

lemma policy_new_denies: "\<not> has_sources lib policy_new" "\<not> allows_device lib policy_new c"
  by (simp_all add: policy_new_def has_sources_def allows_device_def)

subsection \<open>The flash-update flag\<close>

text \<open>
  \<open>FLASH_UPDATE_BOOT\<close> is a process-wide flag; recording it swaps the old value out. The
  first component tells whether the debug assertion on the old value holds.
\<close>

definition set_flash_update_boot :: "bool \<Rightarrow> bool \<Rightarrow> bool \<times> bool" where
  "set_flash_update_boot is_flash_update flag = (let previous = flag in (\<not> previous, is_flash_update))"

definition is_flash_update_boot :: "bool \<Rightarrow> bool" where
  "is_flash_update_boot flag = flag"

end
