(* ===== verification/BootProxy.thy ===== *)
theory BootProxy
  imports BootConfig
begin

text \<open>
  \<open>proxy.rs\<close>: the calls through the vtable of the C \<open>PatinaBootMgrLibProxy\<close> driver. Every
  wrapper locates the protocol, checks the major revision, calls one slot and turns the
  status into a result; two slots that were added later also need a minor revision.
\<close>

definition REVISION :: u32 where "REVISION = 0x00010002"

definition check :: "'dp patina \<Rightarrow> efi_status \<Rightarrow> efi_error + unit" where
  "check lib status = (if status = SUCCESS then Inr () else Inl (err_of lib status))"

definition proxy_locate :: "('w, 'dp) firmware \<Rightarrow> ('w, 'dp, efi_error + ptr \<times> u32) boot" where
  "proxy_locate fw =
     tryE (map_err (err_of (fw_lib fw)) (locate_protocol fw BootMgrLibProxy)) (\<lambda>p.
       if p = 0 then ret (Inl NotFound)
       else bnd (proxy_revision fw p) (\<lambda>revision.
         if drop_bit 16 revision \<noteq> drop_bit 16 REVISION then ret (Inl Unsupported)
         else ret (Inr (p, revision))))"

definition proxy_process_capsules :: "('w, 'dp) firmware \<Rightarrow> ('w, 'dp, efi_error + unit) boot" where
  "proxy_process_capsules fw = tryE (proxy_locate fw) (\<lambda>(p, _).
     bnd (proxy_call fw p ProcessCapsules) (\<lambda>(status, _). ret (check (fw_lib fw) status)))"

definition connect_all_default_consoles :: "('w, 'dp) firmware \<Rightarrow> ('w, 'dp, efi_error + unit) boot" where
  "connect_all_default_consoles fw = tryE (proxy_locate fw) (\<lambda>(p, _).
     bnd (proxy_call fw p ConnectAllDefaultConsoles) (\<lambda>(status, _). ret (check (fw_lib fw) status)))"

definition perform_memory_test :: "('w, 'dp) firmware \<Rightarrow> ('w, 'dp, efi_error + unit) boot" where
  "perform_memory_test fw = tryE (proxy_locate fw) (\<lambda>(p, revision).
     if revision < 0x00010001 then ret (Inl Unsupported)
     else bnd (proxy_call fw p PerformMemoryTest) (\<lambda>(status, _). ret (check (fw_lib fw) status)))"

definition display_boot_logo :: "('w, 'dp) firmware \<Rightarrow> ('w, 'dp, efi_error + unit) boot" where
  "display_boot_logo fw = tryE (proxy_locate fw) (\<lambda>(p, revision).
     if revision < 0x00010002 then ret (Inl Unsupported)
     else bnd (proxy_call fw p DisplayBootLogo) (\<lambda>(status, _). ret (check (fw_lib fw) status)))"

definition connect_console_variable ::
  "('w, 'dp) firmware \<Rightarrow> console_type \<Rightarrow> ('w, 'dp, efi_error + unit) boot" where
  "connect_console_variable fw ct = tryE (proxy_locate fw) (\<lambda>(p, _).
     bnd (proxy_call fw p (ConnectConsoleVariable ct)) (\<lambda>(status, _). ret (check (fw_lib fw) status)))"

definition update_console_variable ::
  "('w, 'dp) firmware \<Rightarrow> console_type \<Rightarrow> ptr \<Rightarrow> ptr \<Rightarrow> ('w, 'dp, efi_error + unit) boot" where
  "update_console_variable fw ct customized exclusive = tryE (proxy_locate fw) (\<lambda>(p, _).
     bnd (proxy_call fw p (UpdateConsoleVariable ct customized exclusive))
       (\<lambda>(status, _). ret (check (fw_lib fw) status)))"

definition start_hotkey_service :: "('w, 'dp) firmware \<Rightarrow> ('w, 'dp, efi_error + evt) boot" where
  "start_hotkey_service fw = tryE (proxy_locate fw) (\<lambda>(p, _).
     bnd (proxy_call fw p StartHotkeyService) (\<lambda>(status, hotkey).
       case check (fw_lib fw) status of Inl e \<Rightarrow> ret (Inl e) | Inr _ \<Rightarrow> ret (Inr hotkey)))"

definition dispatch_deferred_images :: "('w, 'dp) firmware \<Rightarrow> ('w, 'dp, efi_error + unit) boot" where
  "dispatch_deferred_images fw = tryE (proxy_locate fw) (\<lambda>(p, _).
     bnd (proxy_call fw p DispatchDeferredImages) (\<lambda>(status, _). ret (check (fw_lib fw) status)))"

definition process_load_option :: "('w, 'dp) firmware \<Rightarrow> ptr \<Rightarrow> ('w, 'dp, efi_error + unit) boot" where
  "process_load_option fw load_option = tryE (proxy_locate fw) (\<lambda>(p, _).
     bnd (proxy_call fw p (ProcessLoadOption load_option)) (\<lambda>(status, _). ret (check (fw_lib fw) status)))"

definition install_dxe_smm_ready_to_lock :: "('w, 'dp) firmware \<Rightarrow> ('w, 'dp, efi_error + unit) boot" where
  "install_dxe_smm_ready_to_lock fw = tryE (proxy_locate fw) (\<lambda>(p, _).
     bnd (proxy_call fw p InstallDxeSmmReadyToLock) (\<lambda>(status, _). ret (check (fw_lib fw) status)))"

lemmas proxy_defs = proxy_process_capsules_def connect_all_default_consoles_def
  perform_memory_test_def display_boot_logo_def connect_console_variable_def
  update_console_variable_def start_hotkey_service_def dispatch_deferred_images_def
  process_load_option_def install_dxe_smm_ready_to_lock_def

subsection \<open>What a wrapper may log\<close>

fun is_proxy_event :: "'dp event \<Rightarrow> bool" where
  "is_proxy_event (EvLocateProtocol g r) = (g = BootMgrLibProxy)"
| "is_proxy_event (EvProxyRevision p r) = True"
| "is_proxy_event (EvProxy p f r) = True"
| "is_proxy_event _ = False"

lemma emits_proxy_locate: "emits is_proxy_event (proxy_locate fw)"
  unfolding proxy_locate_def call_defs by (intro emits_rules) simp_all

lemma emits_proxy:
  "emits is_proxy_event (install_dxe_smm_ready_to_lock fw)"
  "emits is_proxy_event (display_boot_logo fw)"
  unfolding proxy_defs call_defs by (intro emits_rules emits_proxy_locate; simp)+

subsection \<open>Slots are called on a checked vtable only\<close>

text \<open>The revision a slot first appears in.\<close>

fun slot_revision :: "proxy_fn \<Rightarrow> u32" where
  "slot_revision PerformMemoryTest = 0x00010001"
| "slot_revision DisplayBootLogo = 0x00010002"
| "slot_revision _ = 0x00010000"

text \<open>The monitor remembers the pointer and revision last read and accepts a slot call only on it.\<close>

fun proxy_step :: "(ptr \<times> u32) option \<Rightarrow> 'dp event \<Rightarrow> (ptr \<times> u32) option option" where
  "proxy_step q (EvProxyRevision p r) = (case r of Ret vr \<Rightarrow> Some (Some (p, vr)) | _ \<Rightarrow> Some q)"
| "proxy_step q (EvProxy p f r) = (case q of
      Some (p', vr) \<Rightarrow> if p = p' \<and> p \<noteq> 0 \<and> drop_bit 16 vr = drop_bit 16 REVISION \<and> slot_revision f \<le> vr
                        then Some q else None
    | None \<Rightarrow> None)"
| "proxy_step q _ = Some q"

abbreviation vtable_checked :: "ptr \<times> u32 \<Rightarrow> bool" where
  "vtable_checked v \<equiv> fst v \<noteq> 0 \<and> drop_bit 16 (snd v) = drop_bit 16 REVISION"

lemma mtriple_proxy_locate:
  "mtriple proxy_step (\<lambda>_. True) (proxy_locate fw)
     (\<lambda>r q. case r of Inl _ \<Rightarrow> True | Inr v \<Rightarrow> q = Some v \<and> vtable_checked v)"
proof -
  have "mtriple proxy_step (\<lambda>_. True)
      (if p = 0 then ret (Inl NotFound) else bnd (proxy_revision fw p) (\<lambda>vr.
         if drop_bit 16 vr \<noteq> drop_bit 16 REVISION then ret (Inl Unsupported) else ret (Inr (p, vr))))
      (\<lambda>r q. case r of Inl _ \<Rightarrow> True | Inr v \<Rightarrow> q = Some v \<and> vtable_checked v)" for p
    unfolding proxy_revision_def
    by (intro mtriple_if mtriple_ret mtriple_bnd [where K = "\<lambda>vr q. q = Some (p, vr)"] mtriple_svc)
      (auto split: outcome.split)
  then show ?thesis
    unfolding proxy_locate_def locate_protocol_def
    by (rule mtriple_tryE [where K = "\<lambda>_ _. True", rotated])
      (auto intro!: mtriple_emits [where P = "\<lambda>e. \<exists>g r. e = EvLocateProtocol g r"] emits_rules)
qed

lemma drop_bit_16_ge:
  assumes "drop_bit 16 (v :: u32) = drop_bit 16 REVISION"
  shows "0x00010000 \<le> v"
proof -
  have "unat (drop_bit 16 v) = 1" using assms by (simp add: REVISION_def)
  then have "unat v div 65536 = 1" by (simp add: drop_bit_eq_div unat_div)
  then show ?thesis by (simp add: word_le_nat_alt)
qed

lemma slot_revision_base: "f \<noteq> PerformMemoryTest \<Longrightarrow> f \<noteq> DisplayBootLogo \<Longrightarrow> slot_revision f = 0x00010000"
  by (cases f) simp_all

lemma mtriple_slot:
  assumes "vtable_checked (p, vr)" and "slot_revision f \<le> vr"
  shows "mtriple proxy_step (\<lambda>q. q = Some (p, vr)) (bnd (proxy_call fw p f) (\<lambda>(a, b). ret (g a b))) (\<lambda>_ _. True)"
  unfolding proxy_call_def
  by (rule mtriple_bnd [where K = "\<lambda>_ _. True"], rule mtriple_svc)
    (use assms in \<open>auto intro: mtriple_ret\<close>)

lemma mtriple_wrapper:
  assumes "\<And>v. vtable_checked v \<Longrightarrow> mtriple proxy_step (\<lambda>q. q = Some v) (k v) (\<lambda>_ _. True)"
  shows "mtriple proxy_step (\<lambda>_. True) (tryE (proxy_locate fw) k) (\<lambda>_ _. True)"
  by (rule mtriple_tryE [OF mtriple_proxy_locate])
    (use assms in \<open>auto simp: mtriple_def\<close>)

lemma mtriple_base_slot:
  assumes "f \<noteq> PerformMemoryTest" and "f \<noteq> DisplayBootLogo"
  shows "mtriple proxy_step (\<lambda>_. True)
    (tryE (proxy_locate fw) (\<lambda>(p, _). bnd (proxy_call fw p f) (\<lambda>(a, b). ret (g a b)))) (\<lambda>_ _. True)"
  by (rule mtriple_wrapper)
    (auto intro!: mtriple_slot simp: slot_revision_base [OF assms] drop_bit_16_ge)

lemma mtriple_late_slot:
  assumes "n = slot_revision f"
  shows "mtriple proxy_step (\<lambda>_. True)
    (tryE (proxy_locate fw) (\<lambda>(p, vr). if vr < n then ret (Inl Unsupported)
       else bnd (proxy_call fw p f) (\<lambda>(a, b). ret (g a b)))) (\<lambda>_ _. True)"
  by (rule mtriple_wrapper) (auto intro!: mtriple_if mtriple_slot intro: mtriple_ret simp: assms)

text \<open>A proxy wrapper of the module, by what it calls.\<close>

datatype proxy_wrapper = WProcessCapsules | WDefaultConsoles | WMemoryTest | WBootLogo
  | WConnectConsole console_type | WUpdateConsole console_type ptr ptr | WHotkey | WDeferred
  | WLoadOption ptr | WReadyToLock

fun run_wrapper :: "('w, 'dp) firmware \<Rightarrow> proxy_wrapper \<Rightarrow> ('w, 'dp, efi_error + unit) boot" where
  "run_wrapper fw WProcessCapsules = proxy_process_capsules fw"
| "run_wrapper fw WDefaultConsoles = connect_all_default_consoles fw"
| "run_wrapper fw WMemoryTest = perform_memory_test fw"
| "run_wrapper fw WBootLogo = display_boot_logo fw"
| "run_wrapper fw (WConnectConsole ct) = connect_console_variable fw ct"
| "run_wrapper fw (WUpdateConsole ct a b) = update_console_variable fw ct a b"
| "run_wrapper fw WHotkey = bnd (start_hotkey_service fw) (\<lambda>r. ret (map_sum id (\<lambda>_. ()) r))"
| "run_wrapper fw WDeferred = dispatch_deferred_images fw"
| "run_wrapper fw (WLoadOption p) = process_load_option fw p"
| "run_wrapper fw WReadyToLock = install_dxe_smm_ready_to_lock fw"

lemma start_hotkey_service_alt:
  "start_hotkey_service fw = tryE (proxy_locate fw) (\<lambda>(p, _). bnd (proxy_call fw p StartHotkeyService)
     (\<lambda>(status, hotkey). ret (case check (fw_lib fw) status of Inl e \<Rightarrow> Inl e | Inr _ \<Rightarrow> Inr hotkey)))"
  by (simp add: start_hotkey_service_def sum.case_distrib [of ret])

lemma mtriple_run_wrapper: "mtriple proxy_step (\<lambda>_. True) (run_wrapper fw x) (\<lambda>_ _. True)"
proof (cases x)
  case WMemoryTest
  then show ?thesis using mtriple_late_slot [of "0x00010001" PerformMemoryTest] by (simp add: proxy_defs)
next
  case WBootLogo
  then show ?thesis using mtriple_late_slot [of "0x00010002" DisplayBootLogo] by (simp add: proxy_defs)
next
  case WHotkey
  have "mtriple proxy_step (\<lambda>_. True) (start_hotkey_service fw) (\<lambda>_ _. True)"
    unfolding start_hotkey_service_alt by (rule mtriple_base_slot) simp_all
  with WHotkey show ?thesis by (auto intro: mtriple_bnd mtriple_ret)
qed (auto intro!: mtriple_base_slot simp: proxy_defs)

text \<open>What acceptance says of a log: every slot called was there, on a vtable whose revision was read.\<close>

definition slots_checked :: "'dp event list \<Rightarrow> bool" where
  "slots_checked es \<longleftrightarrow> (\<forall>pre p f r post. es = pre @ EvProxy p f r # post \<longrightarrow>
     p \<noteq> 0 \<and> (\<exists>v. EvProxyRevision p (Ret v) \<in> set pre \<and> drop_bit 16 v = drop_bit 16 REVISION \<and> slot_revision f \<le> v))"

lemma monitor_revision_read:
  "monitor proxy_step q es = Some q' \<Longrightarrow> q' = q \<or> (\<exists>p v. q' = Some (p, v) \<and> EvProxyRevision p (Ret v) \<in> set es)"
proof (induction es arbitrary: q' rule: rev_induct)
  case (snoc e es)
  then obtain q1 where q1: "monitor proxy_step q es = Some q1" "proxy_step q1 e = Some q'"
    by (auto simp: monitor_append split: option.splits)
  then have "q' = q1 \<or> (\<exists>p v. q' = Some (p, v) \<and> e = EvProxyRevision p (Ret v))"
    by (cases e) (auto split: outcome.splits option.splits if_splits)
  with snoc.IH [OF q1(1)] show ?case by auto
qed simp

lemma monitor_slots_checked:
  fixes es :: "'dp event list"
  assumes "monitor proxy_step None es = Some q"
  shows "slots_checked es"
  unfolding slots_checked_def
proof (intro allI impI)
  fix pre p f r post assume "es = pre @ EvProxy p f r # post"
  then obtain q1 where q1: "monitor proxy_step None pre = Some q1" "proxy_step q1 (EvProxy p f r :: 'dp event) \<noteq> None"
    using assms by (auto simp: monitor_append split: option.splits)
  then obtain v where "q1 = Some (p, v)" "p \<noteq> 0" "drop_bit 16 v = drop_bit 16 REVISION" "slot_revision f \<le> v"
    by (auto split: option.splits if_splits)
  with monitor_revision_read [OF q1(1)] show "p \<noteq> 0 \<and> (\<exists>v. EvProxyRevision p (Ret v) \<in> set pre \<and>
      drop_bit 16 v = drop_bit 16 REVISION \<and> slot_revision f \<le> v)" by auto
qed

end
