(* ===== verification/BootVars.thy ===== *)
theory BootVars
  imports BootConfig
begin

text \<open>
  The UEFI variables \<open>helpers.rs\<close> reads: \<open>EFI_LOAD_OPTION\<close> parsing, the \<open>BootOrder\<close> /
  \<open>Boot####\<close> discovery and the Secure Boot state.
\<close>

subsection \<open>\<open>EFI_LOAD_OPTION\<close>\<close>

definition LOAD_OPTION_ACTIVE :: u32 where "LOAD_OPTION_ACTIVE = 1"

text \<open>\<open>LoadOptionHeader\<close>, packed and little-endian.\<close>

record load_option_header =
  attributes :: u32
  file_path_list_length :: u16

definition read_load_option_header :: "bytes \<Rightarrow> (load_option_header \<times> bytes) option" where
  "read_load_option_header data =
     (if length data < 6 then None
      else Some (\<lparr>attributes = word_of_nat (le_nat (slice 0 4 data)),
                  file_path_list_length = word_of_nat (le_nat (slice 4 2 data))\<rparr>, drop 6 data))"

text \<open>Skipping the NUL-terminated UTF-16 description.\<close>

function skip_description :: "bytes \<Rightarrow> nat \<Rightarrow> nat option" where
  "skip_description rest offset =
     (if offset + 1 \<ge> length rest then None
      else let ch = le_nat [rest ! offset, rest ! (offset + 1)] in
        if ch = 0 then Some (offset + 2) else skip_description rest (offset + 2))"
  by pat_completeness auto
termination
  by (relation "measure (\<lambda>(rest, offset). length rest - offset)") auto

declare skip_description.simps [simp del]

text \<open>
  \<open>parse_load_option\<close>. \<open>try_from_ptr\<close> is handed the address of the file path list, so it could
  see the rest of \<open>data\<close> and whatever lies \<open>beyond\<close> it in memory.
\<close>

definition parse_load_option :: "'dp patina \<Rightarrow> (nat \<Rightarrow> u8) \<Rightarrow> bytes \<Rightarrow> 'dp option" where
  "parse_load_option lib beyond data = (case read_load_option_header data of
      None \<Rightarrow> None
    | Some (header, rest) \<Rightarrow>
        if attributes header AND LOAD_OPTION_ACTIVE = 0 then None
        else let list_length = unat (file_path_list_length header) in
          (case skip_description rest 0 of
             None \<Rightarrow> None
           | Some offset \<Rightarrow>
               let file_path_end = offset + list_length in
               if file_path_end > length rest then None
               else let file_path_bytes = slice offset list_length rest in
                 if \<not> validate_device_path_nodes file_path_bytes then None
                 else dp_from_ptr lib (at_ptr (drop offset rest) beyond)))"

subsection \<open>\<open>BootOrder\<close> and \<open>Boot####\<close>\<close>

definition hex_digit :: "nat \<Rightarrow> char" where
  "hex_digit d = ''0123456789ABCDEF'' ! d"

definition boot_option_variable_name :: "u16 \<Rightarrow> string" where
  "boot_option_variable_name n =
     ''Boot'' @ map (\<lambda>k. hex_digit (unat n div 16 ^ k mod 16)) [3, 2, 1, 0]"

fun chunks2 :: "bytes \<Rightarrow> u16 list" where
  "chunks2 (a # b # bs) = word_of_nat (le_nat [a, b]) # chunks2 bs"
| "chunks2 _ = []"

text \<open>The bytes each variable's buffer is followed by in memory: one stream per read.\<close>

definition discover_boot_options ::
  "('w, 'dp) firmware \<Rightarrow> (nat \<Rightarrow> u8) \<Rightarrow> ('w, 'dp, efi_error + ('w, 'dp) boot_config) boot" where
  "discover_boot_options fw beyond =
     tryE (map_err (err_of (fw_lib fw)) (get_variable fw ''BootOrder'')) (\<lambda>boot_order_bytes.
       if length boot_order_bytes mod 2 \<noteq> 0 \<or> boot_order_bytes = [] then ret (Inl NotFound)
       else bnd (each_acc (\<lambda>option_number device_paths.
                   bnd (get_variable fw (boot_option_variable_name option_number)) (\<lambda>r.
                     case r of
                       Inl _ \<Rightarrow> ret device_paths
                     | Inr load_option_bytes \<Rightarrow>
                         (case parse_load_option (fw_lib fw) beyond load_option_bytes of
                            Some dp \<Rightarrow> ret (device_paths @ [dp])
                          | None \<Rightarrow> ret device_paths)))
                 (chunks2 boot_order_bytes) [])
            (\<lambda>device_paths. case device_paths of
                [] \<Rightarrow> ret (Inl NotFound)
              | first # iter \<Rightarrow> ret (Inr (foldl (\<lambda>c dp. with_device dp c) (boot_config_new first) iter))))"

subsection \<open>The Secure Boot state\<close>

definition read_state_variable :: "('w, 'dp) firmware \<Rightarrow> string \<Rightarrow> ('w, 'dp, efi_error + nat) boot" where
  "read_state_variable fw name =
     tryE (map_err (err_of (fw_lib fw)) (get_variable fw name)) (\<lambda>value.
       case value of
         [state] \<Rightarrow> if unat state \<le> 1 then ret (Inr (unat state)) else ret (Inl SecurityViolation)
       | _ \<Rightarrow> ret (Inl SecurityViolation))"

definition secure_boot_state :: "('w, 'dp) firmware \<Rightarrow> ('w, 'dp, efi_error + secure_boot_state) boot" where
  "secure_boot_state fw =
     tryE (read_state_variable fw ''SecureBoot'') (\<lambda>secure_boot.
     tryE (read_state_variable fw ''SetupMode'') (\<lambda>setup.
       if secure_boot = 1 \<and> setup = 0 then ret (Inr Enabled)
       else if secure_boot = 0 \<and> setup = 0 then ret (Inr Disabled)
       else if secure_boot = 0 \<and> setup = 1 then ret (Inr SetupMode)
       else ret (Inl SecurityViolation)))"


subsection \<open>Parsing is inverse to the layout of a load option\<close>

definition enc_units :: "u16 list \<Rightarrow> bytes" where
  "enc_units us = concat (map (\<lambda>u. nat_le 2 (unat u)) us)"

definition encode_load_option :: "u32 \<Rightarrow> u16 list \<Rightarrow> bytes \<Rightarrow> bytes \<Rightarrow> bytes" where
  "encode_load_option attrs description file_path optional =
     nat_le 4 (unat attrs) @ nat_le 2 (length file_path) @ enc_units description @ [0, 0] @ file_path @ optional"

lemma unit_bytes:
  fixes u :: u16
  shows "nat_le 2 (unat u) = [word_of_nat (unat u mod 256), word_of_nat (unat u div 256)]"
    and "le_nat [word_of_nat (unat u mod 256), word_of_nat (unat u div 256)] = unat u"
proof -
  have u: "unat u < 65536" using unsigned_less [of u] by simp
  then show "nat_le 2 (unat u) = [word_of_nat (unat u mod 256), word_of_nat (unat u div 256)]"
    by (simp add: numeral_2_eq_2)
  with u le_nat2 [of "unat u"]
  show "le_nat [word_of_nat (unat u mod 256), word_of_nat (unat u div 256)] = unat u" by simp
qed

lemma drop_two:
  assumes "drop off xs = a # b # t"
  shows "xs ! off = a" "xs ! (off + 1) = b" "off + 1 < length xs"
proof -
  show "off + 1 < length xs" using arg_cong [OF assms, of length] by simp
  then show "xs ! off = a" "xs ! (off + 1) = b"
    using assms nth_drop [of off xs 0] nth_drop [of off xs 1] by simp_all
qed

lemma skip_description_enc:
  "0 \<notin> set us \<Longrightarrow> drop off rest = enc_units us @ [0, 0] @ tail \<Longrightarrow>
   skip_description rest off = Some (off + 2 * length us + 2)"
proof (induction us arbitrary: off)
  case Nil
  then have "drop off rest = 0 # 0 # tail" by (simp add: enc_units_def)
  from drop_two [OF this] show ?case by (subst skip_description.simps) simp
next
  case (Cons u us)
  have d: "drop off rest = nat_le 2 (unat u) @ enc_units us @ [0, 0] @ tail"
    using Cons.prems by (simp add: enc_units_def)
  then have "drop off rest = word_of_nat (unat u mod 256) # word_of_nat (unat u div 256) #
      enc_units us @ [0, 0] @ tail"
    by (simp only: unit_bytes append_Cons append_Nil)
  note two = drop_two [OF this]
  then have lt: "\<not> off + 1 \<ge> length rest" by simp
  from two have "[rest ! off, rest ! (off + 1)] = nat_le 2 (unat u)"
    by (simp only: unit_bytes)
  then have ch: "le_nat [rest ! off, rest ! (off + 1)] = unat u"
    by (simp only: unit_bytes)
  have "drop (off + 2) rest = drop 2 (drop off rest)" by (simp add: add.commute)
  also have "\<dots> = enc_units us @ [0, 0] @ tail" by (simp add: d)
  finally have "skip_description rest (off + 2) = Some (off + 2 + 2 * length us + 2)"
    using Cons by simp
  with ch lt Cons.prems(1) show ?case
    by (subst skip_description.simps) (simp add: Let_def unat_eq_zero del: le_nat.simps)
qed

lemma length_enc_units: "length (enc_units us) = 2 * length us"
  by (simp add: enc_units_def length_concat_le2)

lemma read_header_enc:
  assumes "length file_path \<le> 0xFFFF"
  shows "read_load_option_header (encode_load_option attrs desc file_path optional) =
    Some (\<lparr>attributes = attrs, file_path_list_length = word_of_nat (length file_path)\<rparr>,
          enc_units desc @ [0, 0] @ file_path @ optional)"
proof -
  let ?d = "encode_load_option attrs desc file_path optional"
  have a: "slice 0 4 ?d = nat_le 4 (unat attrs)" and l: "slice 4 2 ?d = nat_le 2 (length file_path)"
    and r: "drop 6 ?d = enc_units desc @ [0, 0] @ file_path @ optional" and n: "\<not> length ?d < 6"
    by (simp_all add: encode_load_option_def slice_def)
  have "unat attrs < 256 ^ 4" using unsigned_less [of attrs] by simp
  then have "le_nat (nat_le 4 (unat attrs)) = unat attrs" by (rule le_nat_nat_le)
  moreover have "le_nat (nat_le 2 (length file_path)) = length file_path" using assms by (rule le_nat2)
  ultimately show ?thesis
    using n by (simp add: read_load_option_header_def a l r)
qed

lemma parse_load_option_enc:
  assumes active: "attrs AND LOAD_OPTION_ACTIVE \<noteq> 0" and desc: "0 \<notin> set desc"
    and plain: "list_all plain_node ns" and len: "length (enc_path ns) \<le> 0xFFFF"
  shows "parse_load_option lib beyond (encode_load_option attrs desc (enc_path ns) optional) =
    dp_from_ptr lib (at_ptr (enc_path ns @ optional) beyond)"
proof -
  define rest where "rest = enc_units desc @ [0, 0] @ enc_path ns @ optional"
  have unat_len: "unat (word_of_nat (length (enc_path ns)) :: u16) = length (enc_path ns)"
    using len by (simp add: unat_of_nat)
  define off where "off = 2 * length desc + 2"
  have skip: "skip_description rest 0 = Some (off)"
    using skip_description_enc [OF desc, of 0 rest "enc_path ns @ optional"] by (simp add: rest_def off_def)
  have at: "drop off rest = enc_path ns @ optional"
    by (simp add: length_enc_units rest_def off_def)
  then have sl: "slice (off) (length (enc_path ns)) rest = enc_path ns"
    by (simp add: slice_def)
  have "\<not> off + length (enc_path ns) > length rest"
    by (simp add: rest_def length_enc_units off_def)
  moreover have "validate_device_path_nodes (enc_path ns)"
    unfolding validate_device_path_nodes_iff valid_node_list_def
    using plain end_node_fits by (intro exI [of _ ns] exI [of _ end_node] exI [of _ "[]"]) (simp add: enc_path_def)
  ultimately show ?thesis
    unfolding parse_load_option_def read_header_enc [OF len] rest_def [symmetric]
    using active by (simp add: unat_len skip sl at Let_def)
qed

subsection \<open>Parsing never looks past the buffer\<close>

text \<open>
  What the code relies on of \<open>DevicePath::try_from_ptr\<close>: over memory that starts with a chain
  of nodes closed by an EndEntire node, it reads nothing past that node.
\<close>

definition ptr_local :: "'dp patina \<Rightarrow> bool" where
  "ptr_local lib \<longleftrightarrow> (\<forall>ns l m m'.
     list_all plain_node ns \<longrightarrow> node_fits l \<longrightarrow> is_end_entire (node_hdr l) \<longrightarrow>
     read_bytes m (length (enc_nodes ns @ enc_node l)) = enc_nodes ns @ enc_node l \<longrightarrow>
     read_bytes m' (length (enc_nodes ns @ enc_node l)) = enc_nodes ns @ enc_node l \<longrightarrow>
     dp_from_ptr lib m = dp_from_ptr lib m')"

lemma dp_from_ptr_local:
  assumes "ptr_local lib" and "validate_device_path_nodes bs"
    and "take (length bs) (as :: bytes) = bs" and "take (length bs) as' = bs"
  shows "dp_from_ptr lib (at_ptr as b) = dp_from_ptr lib (at_ptr as' b')"
proof -
  obtain ns l rest where v: "list_all plain_node ns" "node_fits l" "is_end_entire (node_hdr l)"
    and bs: "bs = enc_nodes ns @ enc_node l @ rest"
    using assms(2) unfolding validate_device_path_nodes_iff valid_node_list_def by blast
  let ?p = "enc_nodes ns @ enc_node l"
  have "read_bytes (at_ptr xs c) (length ?p) = ?p" if "take (length bs) xs = bs" for xs :: bytes and c
  proof -
    have "length ?p \<le> length xs" using arg_cong [OF that, of length] bs by simp
    moreover have "take (length ?p) xs = take (length ?p) bs"
      using that bs by (metis append_assoc length_append min.absorb1 le_add1 take_take)
    ultimately show ?thesis using bs by (simp add: read_bytes_at_ptr)
  qed
  with assms v show ?thesis unfolding ptr_local_def by blast
qed

lemma parse_load_option_local:
  assumes "ptr_local lib"
  shows "parse_load_option lib beyond data = parse_load_option lib beyond' data"
proof (cases "read_load_option_header data")
  case (Some hr)
  obtain header rest where hr: "hr = (header, rest)" by force
  have "dp_from_ptr lib (at_ptr (drop off rest) beyond) = dp_from_ptr lib (at_ptr (drop off rest) beyond')"
    if "validate_device_path_nodes (slice off n rest)" for off n
    by (rule dp_from_ptr_local [OF assms that]) (simp_all add: slice_def min_def)
  then show ?thesis
    by (simp add: parse_load_option_def Some hr Let_def split: option.splits)
qed (simp add: parse_load_option_def)


subsection \<open>\<open>Boot####\<close> names\<close>

lemma hex_digit_inj: "\<forall>a \<in> {..<16}. \<forall>b \<in> {..<16}. hex_digit a = hex_digit b \<longrightarrow> a = b"
  unfolding hex_digit_def by code_simp

lemma hex_split:
  assumes "(v::nat) < 65536"
  shows "v = ((v div 4096 mod 16 * 16 + v div 256 mod 16) * 16 + v div 16 mod 16) * 16 + v mod 16"
proof -
  have d: "v div 16 div 16 = v div 256" "v div 256 div 16 = v div 4096"
    by (simp_all add: div_mult2_eq [symmetric])
  have "v div 4096 mod 16 = v div 4096" using assms by simp
  then show ?thesis
    using div_mult_mod_eq [of v 16] div_mult_mod_eq [of "v div 16" 16] div_mult_mod_eq [of "v div 256" 16]
    by (simp only: d)
qed

lemma boot_option_variable_name_inj:
  assumes "boot_option_variable_name n = boot_option_variable_name m"
  shows "n = m"
proof -
  have d: "hex_digit (unat n div 16 ^ k mod 16) = hex_digit (unat m div 16 ^ k mod 16)" if "k \<in> {0, 1, 2, 3}" for k
    using assms that by (auto simp: boot_option_variable_name_def)
  have e: "unat n div 16 ^ k mod 16 = unat m div 16 ^ k mod 16" if "k \<in> {0, 1, 2, 3}" for k
    using d [OF that] hex_digit_inj by simp
  have "unat n < 65536" "unat m < 65536" using unsigned_less [of n] unsigned_less [of m] by simp_all
  then have "unat n = unat m"
    using hex_split [of "unat n"] hex_split [of "unat m"] e [of 0] e [of 1] e [of 2] e [of 3] by simp
  then show ?thesis by (rule unsigned_word_eqI)
qed

lemma boot_option_variable_name_length: "length (boot_option_variable_name n) = 8"
  by (simp add: boot_option_variable_name_def)

subsection \<open>Discovery over a store of variables\<close>

text \<open>Variable reads that answer from \<open>vars\<close> and leave the platform alone.\<close>

definition reads_vars :: "('w, 'dp) firmware \<Rightarrow> (string \<Rightarrow> efi_status + bytes) \<Rightarrow> bool" where
  "reads_vars fw vars \<longleftrightarrow> (\<forall>n w. fw_get_variable fw n w = (Ret (vars n), w))"

lemma get_variable_reads:
  "reads_vars fw vars \<Longrightarrow>
   get_variable fw n s = (Ret (vars n), s\<lparr>trace := trace s @ [EvGetVariable n (Ret (vars n))]\<rparr>)"
  by (simp add: get_variable_def svc_def reads_vars_def)

definition boot_devices :: "'dp patina \<Rightarrow> (nat \<Rightarrow> u8) \<Rightarrow> (string \<Rightarrow> efi_status + bytes) \<Rightarrow> u16 list \<Rightarrow> 'dp list" where
  "boot_devices lib beyond vars order = List.map_filter (\<lambda>n.
     case vars (boot_option_variable_name n) of
       Inl _ \<Rightarrow> None
     | Inr load_option \<Rightarrow> parse_load_option lib beyond load_option) order"

definition var_read_events :: "(string \<Rightarrow> efi_status + bytes) \<Rightarrow> string list \<Rightarrow> 'dp event list" where
  "var_read_events vars ns = map (\<lambda>n. EvGetVariable n (Ret (vars n))) ns"

lemma discover_loop:
  assumes "reads_vars fw vars"
  shows "each_acc (\<lambda>n ds. bnd (get_variable fw (boot_option_variable_name n)) (\<lambda>r.
            case r of Inl _ \<Rightarrow> ret ds
            | Inr bs \<Rightarrow> (case parse_load_option (fw_lib fw) beyond bs of
                Some dp \<Rightarrow> ret (ds @ [dp]) | None \<Rightarrow> ret ds))) order acc s =
    (Ret (acc @ boot_devices (fw_lib fw) beyond vars order),
     s\<lparr>trace := trace s @ var_read_events vars (map boot_option_variable_name order)\<rparr>)"
  by (induction order arbitrary: acc s)
    (auto simp: boot_devices_def var_read_events_def bnd_assoc bnd_Ret [OF get_variable_reads [OF assms]] ret_run
      split: sum.splits option.splits)

lemma discover_boot_options_eq:
  assumes "reads_vars fw vars"
  shows "fst (discover_boot_options fw beyond s) = Ret (case vars ''BootOrder'' of
      Inl e \<Rightarrow> Inl (err_of (fw_lib fw) e)
    | Inr bs \<Rightarrow> if odd (length bs) \<or> bs = [] then Inl NotFound
        else case boot_devices (fw_lib fw) beyond vars (chunks2 bs) of
          [] \<Rightarrow> Inl NotFound
        | d # ds \<Rightarrow> Inr \<lparr>cfg_devices = d # ds, cfg_hotkey = None, cfg_hotkey_devices = [],
                         cfg_failure_handler = None\<rparr>)"
proof -
  have fold: "foldl (\<lambda>c dp. with_device dp c) (boot_config_new d) ds =
      \<lparr>cfg_devices = d # ds, cfg_hotkey = None, cfg_hotkey_devices = [], cfg_failure_handler = None\<rparr>"
    for d and ds :: "'b list"
    by (induction ds rule: rev_induct) (simp_all add: boot_config_new_def with_device_def)
  show ?thesis
    by (auto simp: discover_boot_options_def tryE_def map_err_def bnd_assoc fold
        bnd_Ret [OF get_variable_reads [OF assms]] bnd_Ret [OF discover_loop [OF assms]]
        mod_2_eq_odd split: sum.splits list.splits)
qed

lemma emits_discover_boot_options [emits_rules]:
  "(\<And>n r. P (EvGetVariable n r)) \<Longrightarrow> emits P (discover_boot_options fw beyond)"
  unfolding discover_boot_options_def call_defs
  by (intro emits_rules) (auto intro!: emits_rules split: list.splits)

text \<open>The Secure Boot state is read from exactly two one-byte variables.\<close>

definition state_byte :: "efi_status + bytes \<Rightarrow> nat option" where
  "state_byte v = (case v of Inr [b] \<Rightarrow> if unat b \<le> 1 then Some (unat b) else None | _ \<Rightarrow> None)"

lemma read_state_variable_eq:
  assumes "reads_vars fw vars"
  shows "read_state_variable fw n s =
    (Ret (case vars n of Inl e \<Rightarrow> Inl (err_of (fw_lib fw) e)
        | Inr _ \<Rightarrow> (case state_byte (vars n) of Some b \<Rightarrow> Inr b | None \<Rightarrow> Inl SecurityViolation)),
     s\<lparr>trace := trace s @ [EvGetVariable n (Ret (vars n))]\<rparr>)"
  by (auto simp: read_state_variable_def tryE_def map_err_def bnd_assoc state_byte_def ret_run
      bnd_Ret [OF get_variable_reads [OF assms]] split: sum.splits list.splits)

lemma secure_boot_state_eq:
  assumes "reads_vars fw vars"
  shows "fst (secure_boot_state fw s) = Ret (
    case (vars ''SecureBoot'', vars ''SetupMode'') of
      (Inl e, _) \<Rightarrow> Inl (err_of (fw_lib fw) e)
    | (Inr _, v) \<Rightarrow> (case state_byte (vars ''SecureBoot'') of None \<Rightarrow> Inl SecurityViolation
        | Some a \<Rightarrow> (case v of Inl e \<Rightarrow> Inl (err_of (fw_lib fw) e)
            | Inr _ \<Rightarrow> (case state_byte v of None \<Rightarrow> Inl SecurityViolation
                | Some b \<Rightarrow> if a = 1 \<and> b = 0 then Inr Enabled else if a = 0 \<and> b = 0 then Inr Disabled
                    else if a = 0 \<and> b = 1 then Inr SetupMode else Inl SecurityViolation))))"
  by (simp add: secure_boot_state_def tryE_def bnd_Ret [OF read_state_variable_eq [OF assms]]
      split: sum.split option.split)

lemma secure_boot_state_iff:
  assumes "reads_vars fw vars"
  shows "fst (secure_boot_state fw s) = Ret (Inr st) \<longleftrightarrow>
    (state_byte (vars ''SecureBoot''), state_byte (vars ''SetupMode'')) =
      (case st of Enabled \<Rightarrow> (Some 1, Some 0) | Disabled \<Rightarrow> (Some 0, Some 0) | SetupMode \<Rightarrow> (Some 0, Some 1))"
proof -
  have "state_byte (Inl e) = None" for e by (simp add: state_byte_def)
  then show ?thesis
    unfolding secure_boot_state_eq [OF assms]
    by (cases st) (auto split: sum.split option.split if_splits)
qed

lemma emits_secure_boot_state [emits_rules]:
  "(\<And>n r. P (EvGetVariable n r)) \<Longrightarrow> emits P (secure_boot_state fw)"
  unfolding secure_boot_state_def read_state_variable_def call_defs
  by (intro emits_rules) (auto intro!: emits_rules split: list.splits)

end
