(* ===== verification/BootLock.thy ===== *)
theory BootLock
  imports BootProxy BootVars
begin

text \<open>
  \<open>helpers.rs\<close>, first part: event-group signalling, the fail-closed security transition
  (\<open>enter_locked_boot\<close>), the expansion of short-form device paths and the loading and starting
  of a boot image under the watchdog.
\<close>

subsection \<open>Signalling an event group\<close>

text \<open>
  The body shared by \<open>signal_event_group\<close>, \<open>signal_bds_phase_entry\<close> and
  \<open>signal_ready_to_boot\<close>: the event is closed even when signalling failed.
\<close>

definition signal_event_group :: "('w, 'dp) firmware \<Rightarrow> guid \<Rightarrow> ('w, 'dp, efi_error + unit) boot" where
  "signal_event_group fw group_guid =
     tryE (map_err (err_of (fw_lib fw)) (create_event_ex fw group_guid)) (\<lambda>event.
       bnd (signal_event fw event) (\<lambda>signal_result.
       bnd (close_event fw event) (\<lambda>close_result.
         case signal_result of
           Inl e \<Rightarrow> ret (Inl (err_of (fw_lib fw) e))
         | Inr _ \<Rightarrow> (case close_result of
               Inl e \<Rightarrow> ret (Inl (err_of (fw_lib fw) e))
             | Inr _ \<Rightarrow> ret (Inr ())))))"

definition signal_bds_phase_entry :: "('w, 'dp) firmware \<Rightarrow> ('w, 'dp, efi_error + unit) boot" where
  "signal_bds_phase_entry fw = signal_event_group fw EndOfDxeGroup"

definition signal_ready_to_boot :: "('w, 'dp) firmware \<Rightarrow> ('w, 'dp, efi_error + unit) boot" where
  "signal_ready_to_boot fw = signal_event_group fw ReadyToBootGroup"

subsection \<open>The security transition\<close>

text \<open>\<open>LockedBoot\<close>: the capability image loading asks for; made by \<open>enter_locked_boot_with\<close> only.\<close>

datatype locked_boot = LockedBoot

definition enter_locked_boot_with ::
  "('w, 'dp) firmware \<Rightarrow> ('w, 'dp, efi_error + unit) boot \<Rightarrow> ('w, 'dp, efi_error + locked_boot) boot" where
  "enter_locked_boot_with fw install_ready_to_lock =
     tryE (signal_bds_phase_entry fw) (\<lambda>_.
     tryE install_ready_to_lock (\<lambda>_. ret (Inr LockedBoot)))"

definition enter_locked_boot :: "('w, 'dp) firmware \<Rightarrow> ('w, 'dp, efi_error + locked_boot) boot" where
  "enter_locked_boot fw = enter_locked_boot_with fw (install_dxe_smm_ready_to_lock fw)"

subsection \<open>Expanding a short-form path\<close>

fun find_map :: "('a \<Rightarrow> 'b option) \<Rightarrow> 'a list \<Rightarrow> 'b option" where
  "find_map f [] = None"
| "find_map f (x # xs) = (case f x of Some y \<Rightarrow> Some y | None \<Rightarrow> find_map f xs)"

text \<open>The nodes after the first HardDrive node, End nodes left out.\<close>

fun remaining_nodes :: "'dp patina \<Rightarrow> bool \<Rightarrow> dp_node list \<Rightarrow> dp_node list" where
  "remaining_nodes lib past_hd [] = []"
| "remaining_nodes lib past_hd (node # ns) =
     (if past_hd \<and> ntype node \<noteq> T_END then node # remaining_nodes lib past_hd ns
      else remaining_nodes lib (past_hd \<or> hd_of_node lib node \<noteq> None) ns)"

text \<open>The walk over a handle's path up to the matching HardDrive node: the prefix and \<open>found\<close>.\<close>

fun prefix_walk :: "'dp patina \<Rightarrow> hard_drive \<Rightarrow> dp_node list \<Rightarrow> dp_node list \<Rightarrow> dp_node list \<times> bool" where
  "prefix_walk lib target [] prefix_nodes = (prefix_nodes, False)"
| "prefix_walk lib target (node # ns) prefix_nodes =
     (if ntype node = T_END then (prefix_nodes, False)
      else if (case hd_of_node lib node of Some drive \<Rightarrow> hard_drive_identity_matches drive target | None \<Rightarrow> False)
      then (prefix_nodes @ [node], True)
      else prefix_walk lib target ns (prefix_nodes @ [node]))"

text \<open>The device path installed on a handle, read through the protocol's pointer.\<close>

definition handle_device_path :: "('w, 'dp) firmware \<Rightarrow> handle \<Rightarrow> ('w, 'dp, 'dp option) boot" where
  "handle_device_path fw h = bnd (handle_protocol fw h DevicePathProtocol) (\<lambda>r. case r of
      Inl _ \<Rightarrow> ret None
    | Inr dp_ptr \<Rightarrow> peek (\<lambda>w. dp_from_ptr (fw_lib fw) (fw_mem fw w dp_ptr)))"

text \<open>The body of the search loop; a second match ends it with an error.\<close>

definition expand_step :: "('w, 'dp) firmware \<Rightarrow> hard_drive \<Rightarrow> 'dp \<Rightarrow> handle \<Rightarrow> 'dp option \<Rightarrow>
    ('w, 'dp, 'dp option + efi_error) boot" where
  "expand_step fw target remaining_path handle matched_path =
     bnd (handle_device_path fw handle) (\<lambda>r. case r of
       None \<Rightarrow> ret (Inl matched_path)
     | Some handle_path \<Rightarrow>
         (case prefix_walk (fw_lib fw) target (dp_nodes (fw_lib fw) handle_path) [] of
            (prefix_nodes, found) \<Rightarrow>
              if found then
                let result = dp_append (fw_lib fw) (dp_of_nodes (fw_lib fw) prefix_nodes) remaining_path in
                if matched_path \<noteq> None then ret (Inr SecurityViolation)
                else ret (Inl (Some result))
              else ret (Inl matched_path)))"

definition expand_device_path :: "('w, 'dp) firmware \<Rightarrow> 'dp \<Rightarrow> ('w, 'dp, efi_error + 'dp) boot" where
  "expand_device_path fw partial_path = (let lib = fw_lib fw; nodes = dp_nodes lib partial_path in
     if \<not> (case nodes of [] \<Rightarrow> False | node # _ \<Rightarrow> ntype node \<noteq> T_END) then ret (Inl InvalidParameter)
     else if \<not> is_partial_device_path lib partial_path then ret (Inr partial_path)
     else case find_map (hd_of_node lib) nodes of
       None \<Rightarrow> ret (Inl InvalidParameter)
     | Some target \<Rightarrow>
         let remaining_path = dp_of_nodes lib (remaining_nodes lib False nodes) in
         tryE (map_err (err_of lib) (locate_handle_buffer fw (ByProtocol DevicePathProtocol))) (\<lambda>handles.
           bnd (each_acc_until (expand_step fw target remaining_path) handles None)
             (\<lambda>r. case r of
                Inr e \<Rightarrow> ret (Inl e)
              | Inl matched_path \<Rightarrow> (case matched_path of
                    Some path \<Rightarrow> ret (Inr path)
                  | None \<Rightarrow> ret (Inl NotFound)))))"

subsection \<open>Loading and starting a boot image\<close>

definition WATCHDOG_TIMEOUT_SECONDS :: nat where "WATCHDOG_TIMEOUT_SECONDS = 300"

definition boot_from_device_path ::
  "('w, 'dp) firmware \<Rightarrow> handle \<Rightarrow> 'dp \<Rightarrow> ('w, 'dp, efi_error + unit) boot" where
  "boot_from_device_path fw parent_handle device_path = (let lib = fw_lib fw in
     tryE (if is_partial_device_path lib device_path then expand_device_path fw device_path
           else ret (Inr device_path)) (\<lambda>full_path.
     bnd (load_image fw parent_handle full_path) (\<lambda>r. case r of
       Inl status \<Rightarrow> ret (Inl (err_of lib status))
     | Inr image_handle \<Rightarrow>
         tryE (map_err (err_of lib) (set_watchdog_timer fw WATCHDOG_TIMEOUT_SECONDS)) (\<lambda>_.
         bnd (start_image fw image_handle) (\<lambda>result.
         bnd (set_watchdog_timer fw 0) (\<lambda>_.
           case result of
             Inr _ \<Rightarrow> ret (Inr ())
           | Inl status \<Rightarrow> ret (Inl (err_of lib status))))))))"

definition locked_boot_from_device_path ::
  "('w, 'dp) firmware \<Rightarrow> locked_boot \<Rightarrow> handle \<Rightarrow> 'dp \<Rightarrow> ('w, 'dp, efi_error + unit) boot" where
  "locked_boot_from_device_path fw locked parent_handle device_path =
     boot_from_device_path fw parent_handle device_path"

subsection \<open>Which calls these make\<close>

fun is_signal_event :: "guid \<Rightarrow> 'dp event \<Rightarrow> bool" where
  "is_signal_event g (EvCreateEvent g' r) = (g' = g)"
| "is_signal_event g (EvSignalEvent ev r) = True"
| "is_signal_event g (EvCloseEvent ev r) = True"
| "is_signal_event g _ = False"

text \<open>Calls that look at the handle database and the installed protocols only.\<close>

fun is_lookup :: "'dp event \<Rightarrow> bool" where
  "is_lookup (EvLocateHandles sr r) = True"
| "is_lookup (EvHandleProtocol h g r) = True"
| "is_lookup _ = False"

lemma emits_signal_event_group: "emits (is_signal_event g) (signal_event_group fw g)"
  unfolding signal_event_group_def call_defs by (intro emits_rules) simp_all

lemma emits_handle_device_path: "emits is_lookup (handle_device_path fw h)"
  unfolding handle_device_path_def call_defs by (intro emits_rules) simp_all

lemma emits_expand_device_path: "emits is_lookup (expand_device_path fw p)"
  unfolding expand_device_path_def expand_step_def Let_def locate_handle_buffer_def
  by (intro emits_rules emits_handle_device_path) simp_all

subsection \<open>Signalling: every branch\<close>

definition both_ok :: "'dp patina \<Rightarrow> efi_status + unit \<Rightarrow> efi_status + unit \<Rightarrow> efi_error + unit" where
  "both_ok lib r1 r2 = (case r1 of Inl e \<Rightarrow> Inl (err_of lib e)
     | Inr _ \<Rightarrow> (case r2 of Inl e \<Rightarrow> Inl (err_of lib e) | Inr _ \<Rightarrow> Inr ()))"

lemma both_ok_Inr: "both_ok lib r1 r2 = Inr u \<longleftrightarrow> r1 = Inr () \<and> r2 = Inr ()"
  by (auto simp: both_ok_def split: sum.splits)

lemma signal_event_group_alt:
  "signal_event_group fw g = tryE (map_err (err_of (fw_lib fw)) (create_event_ex fw g)) (\<lambda>event.
     bnd (signal_event fw event) (\<lambda>r1. bnd (close_event fw event) (\<lambda>r2. ret (both_ok (fw_lib fw) r1 r2))))"
  unfolding signal_event_group_def both_ok_def
  by (intro arg_cong [where f = "tryE _"] ext) (simp cong: sum.case_cong split: sum.split add: sum.case_distrib [of ret])

lemma signal_event_group_cases:
  assumes "signal_event_group fw g s = (Ret r, s')"
  obtains (no_event) e where "r = Inl (err_of (fw_lib fw) e)"
      and "trace s' = trace s @ [EvCreateEvent g (Ret (Inl e))]"
  | (event) ev r1 r2 where "r = both_ok (fw_lib fw) r1 r2"
      and "trace s' = trace s @
        [EvCreateEvent g (Ret (Inr ev)), EvSignalEvent ev (Ret r1), EvCloseEvent ev (Ret r2)]"
  using assms unfolding signal_event_group_alt call_defs tryE_def map_err_def bnd_assoc
  by (auto elim!: bnd_RetE simp: svc_def split: sum.splits prod.splits)

lemma signal_event_group_ok:
  assumes "signal_event_group fw g s = (Ret (Inr u), s')"
  obtains ev where "trace s' = trace s @
    [EvCreateEvent g (Ret (Inr ev)), EvSignalEvent ev (Ret (Inr ())), EvCloseEvent ev (Ret (Inr ()))]"
  using assms
proof (cases rule: signal_event_group_cases)
  case (event ev r1 r2)
  then show thesis using that by (metis both_ok_Inr)
qed simp

subsection \<open>The lock monitor\<close>

text \<open>
  How far the security transition has come. EndOfDxe counts once the event created for its
  group has been signalled successfully; ReadyToLock may be asked for only after that; images
  may be loaded or started only after both.
\<close>

datatype lock_phase = Unlocked | EodPending evt | EodSignalled | Locked

fun lock_step :: "lock_phase \<Rightarrow> 'dp event \<Rightarrow> lock_phase option" where
  "lock_step q (EvCreateEvent g r) = Some (case (q, g, r) of
      (Unlocked, EndOfDxeGroup, Ret (Inr ev)) \<Rightarrow> EodPending ev
    | (EodPending _, EndOfDxeGroup, Ret (Inr ev)) \<Rightarrow> EodPending ev
    | _ \<Rightarrow> q)"
| "lock_step q (EvSignalEvent ev r) = Some (case (q, r) of
      (EodPending ev', Ret (Inr _)) \<Rightarrow> if ev = ev' then EodSignalled else q
    | _ \<Rightarrow> q)"
| "lock_step q (EvProxy p f r) =
     (if f = InstallDxeSmmReadyToLock then
        (case q of EodSignalled \<Rightarrow> Some (case r of Ret (st, _) \<Rightarrow> if st = SUCCESS then Locked else q | _ \<Rightarrow> q)
         | Locked \<Rightarrow> Some q | _ \<Rightarrow> None)
      else Some q)"
| "lock_step q (EvLoadImage h p r) = (if q = Locked then Some q else None)"
| "lock_step q (EvStartImage h r) = (if q = Locked then Some q else None)"
| "lock_step q _ = Some q"

lemma lock_step_Locked [simp]: "lock_step Locked e = Some Locked"
  by (cases e) (auto split: outcome.splits sum.splits guid.splits)

text \<open>The calls that move the monitor out of \<open>Unlocked\<close>, or that it refuses there.\<close>

fun quiet :: "'dp event \<Rightarrow> bool" where
  "quiet (EvCreateEvent g r) = (g \<noteq> EndOfDxeGroup)"
| "quiet (EvProxy p f r) = (f \<noteq> InstallDxeSmmReadyToLock)"
| "quiet (EvLoadImage h p r) = False"
| "quiet (EvStartImage h r) = False"
| "quiet _ = True"

lemma lock_step_quiet: "quiet e \<Longrightarrow> lock_step Unlocked e = Some Unlocked"
  by (cases e) (auto split: outcome.splits sum.splits guid.splits)

lemma is_lookup_quiet: "is_lookup e \<Longrightarrow> quiet e"
  by (cases e) auto

lemma mtriple_lock_quiet:
  "emits quiet m \<Longrightarrow> mtriple lock_step (\<lambda>q. q = Unlocked) m (\<lambda>_ q. q = Unlocked)"
  by (erule mtriple_emits) (simp add: lock_step_quiet)

lemma mtriple_lock_locked:
  "emits (\<lambda>_. True) m \<Longrightarrow> mtriple lock_step (\<lambda>q. q = Locked) m (\<lambda>_ q. q = Locked)"
  by (erule mtriple_emits) simp

text \<open>A log in which the security transition is complete before its end.\<close>

definition secured :: "'dp event list \<Rightarrow> bool" where
  "secured es \<longleftrightarrow> (\<exists>a b c d ev p x. es = a @ EvCreateEvent EndOfDxeGroup (Ret (Inr ev)) # b @
     EvSignalEvent ev (Ret (Inr ())) # c @ EvProxy p InstallDxeSmmReadyToLock (Ret (SUCCESS, x)) # d)"

definition eod_signalled :: "'dp event list \<Rightarrow> bool" where
  "eod_signalled es \<longleftrightarrow> (\<exists>a b c ev. es = a @ EvCreateEvent EndOfDxeGroup (Ret (Inr ev)) # b @
     EvSignalEvent ev (Ret (Inr ())) # c)"

definition eod_pending :: "evt \<Rightarrow> 'dp event list \<Rightarrow> bool" where
  "eod_pending ev es \<longleftrightarrow> EvCreateEvent EndOfDxeGroup (Ret (Inr ev)) \<in> set es"

fun phase_holds :: "lock_phase \<Rightarrow> 'dp event list \<Rightarrow> bool" where
  "phase_holds Unlocked es = True"
| "phase_holds (EodPending ev) es = eod_pending ev es"
| "phase_holds EodSignalled es = eod_signalled es"
| "phase_holds Locked es = secured es"

lemma phase_holds_snoc: "phase_holds q es \<Longrightarrow> phase_holds q (es @ [e])"
  by (cases q) (fastforce simp: eod_pending_def eod_signalled_def secured_def)+

lemma eod_signalledI:
  "eod_pending ev es \<Longrightarrow> eod_signalled (es @ [EvSignalEvent ev (Ret (Inr ()))])"
  unfolding eod_pending_def eod_signalled_def by (fastforce simp: in_set_conv_decomp)

lemma securedI:
  "eod_signalled es \<Longrightarrow> secured (es @ [EvProxy p InstallDxeSmmReadyToLock (Ret (SUCCESS, x))])"
  unfolding eod_signalled_def secured_def by fastforce

lemma lock_step_phase:
  assumes "phase_holds q es" and "lock_step q e = Some q'"
  shows "phase_holds q' (es @ [e])"
proof (cases "q' = q")
  case False
  have "(\<exists>ev. e = EvCreateEvent EndOfDxeGroup (Ret (Inr ev)) \<and> q' = EodPending ev) \<or>
      (\<exists>ev. e = EvSignalEvent ev (Ret (Inr ())) \<and> q = EodPending ev \<and> q' = EodSignalled) \<or>
      (\<exists>p x. e = EvProxy p InstallDxeSmmReadyToLock (Ret (SUCCESS, x)) \<and> q = EodSignalled \<and> q' = Locked)"
    using assms(2) False
    by (cases e; cases q) (auto split: outcome.splits sum.splits guid.splits if_splits)
  then show ?thesis
    using assms(1) by (auto simp: eod_signalledI securedI) (simp add: eod_pending_def)
qed (use assms(1) phase_holds_snoc in blast)

lemma monitor_lock_phase:
  "phase_holds q es \<Longrightarrow> monitor lock_step q fs = Some q' \<Longrightarrow> phase_holds q' (es @ fs)"
proof (induction fs arbitrary: q es)
  case (Cons f fs)
  obtain q1 where "lock_step q f = Some q1" "monitor lock_step q1 fs = Some q'"
    using Cons.prems(2) by (auto split: option.splits)
  then show ?case using Cons.IH [of q1 "es @ [f]"] lock_step_phase [OF Cons.prems(1)] by simp
qed simp

text \<open>An event that loads or starts an image.\<close>

fun is_image_event :: "'dp event \<Rightarrow> bool" where
  "is_image_event (EvLoadImage h p r) = True"
| "is_image_event (EvStartImage h r) = True"
| "is_image_event _ = False"

text \<open>Every image event of a log comes after the whole security transition.\<close>

definition images_after_lock :: "'dp event list \<Rightarrow> bool" where
  "images_after_lock es \<longleftrightarrow> (\<forall>pre e post. es = pre @ e # post \<longrightarrow> is_image_event e \<longrightarrow> secured pre)"

lemma monitor_images_after_lock:
  assumes "monitor lock_step Unlocked es = Some q"
  shows "images_after_lock es"
  unfolding images_after_lock_def
proof (intro allI impI)
  fix pre e post assume es: "es = pre @ e # post" and e: "is_image_event e"
  obtain q1 where q1: "monitor lock_step Unlocked pre = Some q1" "lock_step q1 e \<noteq> None"
    using assms by (auto simp: es monitor_append split: option.splits)
  then have "q1 = Locked" using e by (cases e) (auto split: if_splits)
  with monitor_lock_phase [OF _ q1(1), of "[]"] show "secured pre" by simp
qed

lemma mtriple_images_after_lock:
  assumes "mtriple lock_step (\<lambda>q. q = Unlocked) m J"
  obtains es where "trace (snd (m s)) = trace s @ es" and "images_after_lock es"
  using assms monitor_images_after_lock unfolding mtriple_def by metis

subsection \<open>The transition is monitored and fails closed\<close>

abbreviation inr_then :: "('q \<Rightarrow> bool) \<Rightarrow> 'e + 'a \<Rightarrow> 'q \<Rightarrow> bool" where
  "inr_then P r q \<equiv> (case r of Inl _ \<Rightarrow> True | Inr _ \<Rightarrow> P q)"

lemma mtriple_signal_bds_phase_entry:
  "mtriple lock_step (\<lambda>q. q = Unlocked) (signal_bds_phase_entry fw) (inr_then (\<lambda>q. q = EodSignalled))"
proof -
  have close: "mtriple lock_step (\<lambda>q. r1 = Inr () \<longrightarrow> q = EodSignalled) (bnd (close_event fw ev) (\<lambda>r2.
      ret (both_ok (fw_lib fw) r1 r2))) (inr_then (\<lambda>q. q = EodSignalled))" for ev r1
    unfolding close_event_def
    by (intro mtriple_bnd [where K = "\<lambda>_ q. r1 = Inr () \<longrightarrow> q = EodSignalled"] mtriple_svc mtriple_ret)
      (auto split: sum.splits simp: both_ok_Inr)
  have signal: "mtriple lock_step (\<lambda>q. q = EodPending ev) (bnd (signal_event fw ev) (\<lambda>r1.
      bnd (close_event fw ev) (\<lambda>r2. ret (both_ok (fw_lib fw) r1 r2)))) (inr_then (\<lambda>q. q = EodSignalled))" for ev
    by (rule mtriple_bnd [OF _ close], unfold signal_event_def, rule mtriple_svc)
      (auto split: outcome.splits sum.splits)
  have create: "mtriple lock_step (\<lambda>q. q = Unlocked)
      (map_err (err_of (fw_lib fw)) (create_event_ex fw EndOfDxeGroup))
      (\<lambda>r q. case r of Inl _ \<Rightarrow> True | Inr ev \<Rightarrow> q = EodPending ev)"
    unfolding map_err_def create_event_ex_def
    by (rule mtriple_bnd [where K = "\<lambda>r q. case r of Inl _ \<Rightarrow> True | Inr ev \<Rightarrow> q = EodPending ev"],
        rule mtriple_svc) (auto split: outcome.splits sum.splits intro: mtriple_ret)
  show ?thesis
    unfolding signal_bds_phase_entry_def signal_event_group_alt
    by (rule mtriple_tryE [OF create]) (simp_all add: signal)
qed

lemma mtriple_install_ready_to_lock:
  "mtriple lock_step (\<lambda>q. q = EodSignalled) (install_dxe_smm_ready_to_lock fw) (inr_then (\<lambda>q. q = Locked))"
proof -
  have locate: "mtriple lock_step (\<lambda>q. q = EodSignalled) (proxy_locate fw) (\<lambda>_ q. q = EodSignalled)"
    unfolding proxy_locate_def call_defs
    by (rule mtriple_emits [where P = "\<lambda>e. (\<exists>g r. e = EvLocateProtocol g r) \<or> (\<exists>p r. e = EvProxyRevision p r)"])
      (auto intro!: emits_rules)
  have call: "mtriple lock_step (\<lambda>q. q = EodSignalled) (bnd (proxy_call fw p InstallDxeSmmReadyToLock)
      (\<lambda>(status, _). ret (check (fw_lib fw) status))) (inr_then (\<lambda>q. q = Locked))" for p
    unfolding proxy_call_def
    by (rule mtriple_bnd [where K = "\<lambda>r q. fst r = SUCCESS \<longrightarrow> q = Locked"], rule mtriple_svc)
      (auto split: outcome.splits intro!: mtriple_ret simp: check_def)
  show ?thesis
    unfolding install_dxe_smm_ready_to_lock_def
    by (rule mtriple_tryE [OF locate]) (use call in auto)
qed

lemma mtriple_enter_locked_boot:
  "mtriple lock_step (\<lambda>q. q = Unlocked) (enter_locked_boot fw) (inr_then (\<lambda>q. q = Locked))"
proof -
  have install: "mtriple lock_step (\<lambda>q. q = EodSignalled)
      (tryE (install_dxe_smm_ready_to_lock fw) (\<lambda>_. ret (Inr LockedBoot))) (inr_then (\<lambda>q. q = Locked))"
    by (rule mtriple_tryE [OF mtriple_install_ready_to_lock]) (auto intro: mtriple_ret)
  show ?thesis
    unfolding enter_locked_boot_def enter_locked_boot_with_def
    by (rule mtriple_tryE [OF mtriple_signal_bds_phase_entry]) (simp_all add: install)
qed

lemma mtriple_enter_locked_boot_then:
  assumes "\<And>l. emits (\<lambda>_. True) (k l)"
  shows "mtriple lock_step (\<lambda>q. q = Unlocked) (tryE (enter_locked_boot fw) k) (\<lambda>_ _. True)"
  by (rule mtriple_tryE [OF mtriple_enter_locked_boot])
    (auto intro: mtriple_post [OF mtriple_lock_locked] assms)

text \<open>The calls of a run of the ReadyToLock wrapper that came back, and of the whole transition.\<close>

lemma install_ready_to_lock_cases:
  assumes "install_dxe_smm_ready_to_lock fw s = (Ret r, s')"
  obtains (unlocated) es e where "r = Inl e" and "trace s' = trace s @ es"
      and "\<forall>e \<in> set es. \<not> (\<exists>p f x. e = EvProxy p f x)"
  | (called) p v st x where "r = check (fw_lib fw) st" and "drop_bit 16 v = drop_bit 16 REVISION"
      and "trace s' = trace s @ [EvLocateProtocol BootMgrLibProxy (Ret (Inr p)),
             EvProxyRevision p (Ret v), EvProxy p InstallDxeSmmReadyToLock (Ret (st, x))]"
  using assms unfolding install_dxe_smm_ready_to_lock_def proxy_locate_def call_defs tryE_def map_err_def bnd_assoc
  by (auto elim!: bnd_RetE simp: svc_def split: sum.splits prod.splits if_splits)

definition lock_log :: "'dp event list \<Rightarrow> bool" where
  "lock_log es \<longleftrightarrow> (\<exists>ev p v x. drop_bit 16 v = drop_bit 16 REVISION \<and> es =
     [EvCreateEvent EndOfDxeGroup (Ret (Inr ev)), EvSignalEvent ev (Ret (Inr ())), EvCloseEvent ev (Ret (Inr ())),
      EvLocateProtocol BootMgrLibProxy (Ret (Inr p)), EvProxyRevision p (Ret v),
      EvProxy p InstallDxeSmmReadyToLock (Ret (SUCCESS, x))])"

definition ready_to_lock_done :: "'dp event list \<Rightarrow> bool" where
  "ready_to_lock_done es \<longleftrightarrow> (\<exists>p x. EvProxy p InstallDxeSmmReadyToLock (Ret (SUCCESS, x)) \<in> set es)"

lemma secured_proxy: "secured es \<Longrightarrow> ready_to_lock_done es"
  unfolding secured_def ready_to_lock_done_def by auto blast

lemma ready_to_lock_done_append [simp]:
  "ready_to_lock_done (es @ fs) \<longleftrightarrow> ready_to_lock_done es \<or> ready_to_lock_done fs"
  by (auto simp: ready_to_lock_done_def)

lemma quiet_not_locked: "\<forall>e \<in> set es. quiet e \<Longrightarrow> \<not> ready_to_lock_done es"
  unfolding ready_to_lock_done_def by force

lemma enter_locked_boot_cases:
  assumes "enter_locked_boot fw s = (Ret r, s')"
  obtains (locked) es where "r = Inr LockedBoot" and "trace s' = trace s @ es" and "lock_log es"
  | (failed) es e where "r = Inl e" and "trace s' = trace s @ es" and "\<not> ready_to_lock_done es"
proof -
  from assms obtain r1 s1 where eod: "signal_event_group fw EndOfDxeGroup s = (Ret r1, s1)"
    and rest: "(case r1 of Inl e \<Rightarrow> ret (Inl e)
       | Inr _ \<Rightarrow> tryE (install_dxe_smm_ready_to_lock fw) (\<lambda>_. ret (Inr LockedBoot))) s1 = (Ret r, s')"
    unfolding enter_locked_boot_def enter_locked_boot_with_def signal_bds_phase_entry_def
      tryE_def [of "signal_event_group fw EndOfDxeGroup"]
    by (elim bnd_RetE) blast
  show thesis
  proof (cases r1)
    case (Inl e)
    obtain es where es: "trace s1 = trace s @ es" "\<forall>e \<in> set es. is_signal_event EndOfDxeGroup e"
      using emits_signal_event_group eod by (rule emitsE)
    then have "\<not> ready_to_lock_done es" unfolding ready_to_lock_done_def by fastforce
    then show thesis using failed es(1) rest Inl by simp
  next
    case (Inr u)
    obtain ev where ev: "trace s1 = trace s @ [EvCreateEvent EndOfDxeGroup (Ret (Inr ev)),
        EvSignalEvent ev (Ret (Inr ())), EvCloseEvent ev (Ret (Inr ()))]"
      using eod unfolding Inr by (rule signal_event_group_ok)
    from rest obtain r2 where inst: "install_dxe_smm_ready_to_lock fw s1 = (Ret r2, s')"
      and r: "r = map_sum id (\<lambda>_. LockedBoot) r2"
      unfolding Inr tryE_def by (auto elim!: bnd_RetE split: sum.splits)
    from inst show thesis
    proof (cases rule: install_ready_to_lock_cases)
      case (unlocated es e)
      let ?es = "drop (length (trace s)) (trace s1) @ es"
      have "\<not> ready_to_lock_done ?es" using unlocated(3) ev by (auto simp: ready_to_lock_done_def)
      then show thesis using failed [of e ?es] r unlocated(1,2) ev by simp
    next
      case (called p v st x)
      let ?es = "drop (length (trace s)) (trace s')"
      have es: "trace s' = trace s @ ?es" using called(3) ev by simp
      show thesis
      proof (cases "st = SUCCESS")
        case True
        then have "lock_log ?es" using called ev unfolding lock_log_def by auto
        with locked es r called(1) True show thesis by (simp add: check_def)
      next
        case False
        then have "\<not> ready_to_lock_done ?es" using called(3) ev by (auto simp: ready_to_lock_done_def)
        with failed es r called(1) False show thesis by (simp add: check_def)
      qed
    qed
  qed
qed

lemma lock_log_secured:
  assumes "lock_log es" shows "secured es"
proof -
  obtain ev p v x where es: "es = [] @ EvCreateEvent EndOfDxeGroup (Ret (Inr ev)) # [] @
      EvSignalEvent ev (Ret (Inr ())) # [EvCloseEvent ev (Ret (Inr ())),
      EvLocateProtocol BootMgrLibProxy (Ret (Inr p)), EvProxyRevision p (Ret v)] @
      EvProxy p InstallDxeSmmReadyToLock (Ret (SUCCESS, x)) # []"
    using assms unfolding lock_log_def by auto
  show ?thesis unfolding secured_def using es by blast
qed

subsection \<open>One attempt at an image, call by call\<close>

text \<open>The log of a load-and-start that came back, with the result it came back with.\<close>

inductive attempt_log ::
  "'dp patina \<Rightarrow> handle \<Rightarrow> 'dp \<Rightarrow> efi_error + unit \<Rightarrow> 'dp event list \<Rightarrow> bool" for lib parent p where
  not_loaded: "attempt_log lib parent p (Inl (err_of lib e)) [EvLoadImage parent p (Ret (Inl e))]"
| not_armed: "attempt_log lib parent p (Inl (err_of lib e))
    [EvLoadImage parent p (Ret (Inr h)), EvWatchdog WATCHDOG_TIMEOUT_SECONDS (Ret (Inl e))]"
| came_back: "attempt_log lib parent p (map_sum (err_of lib) id r)
    [EvLoadImage parent p (Ret (Inr h)), EvWatchdog WATCHDOG_TIMEOUT_SECONDS (Ret (Inr ())),
     EvStartImage h (Ret r), EvWatchdog 0 (Ret w)]"

inductive_simps attempt_log_ok: "attempt_log lib parent p (Inr u) es"

definition load_and_start ::
  "('w, 'dp) firmware \<Rightarrow> handle \<Rightarrow> 'dp \<Rightarrow> ('w, 'dp, efi_error + unit) boot" where
  "load_and_start fw parent full_path = bnd (load_image fw parent full_path) (\<lambda>r. case r of
     Inl status \<Rightarrow> ret (Inl (err_of (fw_lib fw) status))
   | Inr image_handle \<Rightarrow>
       tryE (map_err (err_of (fw_lib fw)) (set_watchdog_timer fw WATCHDOG_TIMEOUT_SECONDS)) (\<lambda>_.
       bnd (start_image fw image_handle) (\<lambda>result.
       bnd (set_watchdog_timer fw 0) (\<lambda>_.
         case result of Inr _ \<Rightarrow> ret (Inr ()) | Inl status \<Rightarrow> ret (Inl (err_of (fw_lib fw) status))))))"

lemma boot_from_device_path_alt:
  "boot_from_device_path fw parent dp =
     (if is_partial_device_path (fw_lib fw) dp then tryE (expand_device_path fw dp) (load_and_start fw parent)
      else load_and_start fw parent dp)"
  unfolding boot_from_device_path_def load_and_start_def Let_def tryE_def by simp

lemmas came_back_split = came_back [where r = "Inl _", simplified] came_back [where r = "Inr _", simplified]

lemma load_and_start_cases:
  assumes "load_and_start fw parent p s = (Ret r, s')"
  obtains es where "trace s' = trace s @ es" and "attempt_log (fw_lib fw) parent p r es"
proof -
  have "\<exists>es. trace s' = trace s @ es \<and> attempt_log (fw_lib fw) parent p r es"
    using assms unfolding load_and_start_def call_defs tryE_def map_err_def bnd_assoc
    by (auto elim!: bnd_RetE simp: svc_def split: sum.splits prod.splits)
      (rule not_loaded not_armed came_back_split)+
  then show thesis using that by blast
qed

lemma boot_from_device_path_cases:
  assumes "boot_from_device_path fw parent dp s = (Ret r, s')"
  obtains (full) es where "\<not> is_partial_device_path (fw_lib fw) dp"
      and "trace s' = trace s @ es" and "attempt_log (fw_lib fw) parent dp r es"
  | (expanded) s1 p es where "is_partial_device_path (fw_lib fw) dp"
      and "expand_device_path fw dp s = (Ret (Inr p), s1)"
      and "trace s' = trace s1 @ es" and "attempt_log (fw_lib fw) parent p r es"
  | (unexpanded) e where "is_partial_device_path (fw_lib fw) dp"
      and "r = Inl e" and "expand_device_path fw dp s = (Ret (Inl e), s')"
proof (cases "is_partial_device_path (fw_lib fw) dp")
  case True
  then obtain r1 s1 where "expand_device_path fw dp s = (Ret r1, s1)"
    and "(case r1 of Inl e \<Rightarrow> ret (Inl e) | Inr p \<Rightarrow> load_and_start fw parent p) s1 = (Ret r, s')"
    using assms unfolding boot_from_device_path_alt tryE_def by (auto elim: bnd_RetE)
  then show thesis
    using unexpanded True by (cases r1) (auto elim!: load_and_start_cases intro: expanded [OF True])
next
  case False
  then have "load_and_start fw parent dp s = (Ret r, s')" using assms by (simp add: boot_from_device_path_alt)
  with full [OF False] show thesis by (auto elim: load_and_start_cases)
qed

subsection \<open>The watchdog monitor\<close>

text \<open>
  An image may be started only as the very next call after the watchdog was armed for it, and
  the call after its return disarms the watchdog. \<open>Left\<close>: the image took over.
\<close>

datatype wd_phase = Idle | Loaded handle | Armed handle | Returned | Left

fun wd_step :: "wd_phase \<Rightarrow> 'dp event \<Rightarrow> wd_phase option" where
  "wd_step (Armed h) e = (case e of
      EvStartImage h' r \<Rightarrow> if h = h' then Some (case r of Ret _ \<Rightarrow> Returned | _ \<Rightarrow> Left) else None
    | _ \<Rightarrow> None)"
| "wd_step (Loaded h) e = (case e of
      EvWatchdog n r \<Rightarrow> if n = WATCHDOG_TIMEOUT_SECONDS
         then Some (case r of Ret (Inr _) \<Rightarrow> Armed h | Ret (Inl _) \<Rightarrow> Idle | _ \<Rightarrow> Left) else None
    | _ \<Rightarrow> None)"
| "wd_step Returned e = (case e of EvWatchdog n r \<Rightarrow> if n = 0 then Some Idle else None | _ \<Rightarrow> None)"
| "wd_step Left e = None"
| "wd_step Idle e = (case e of
      EvLoadImage a p r \<Rightarrow> Some (case r of Ret (Inr h) \<Rightarrow> Loaded h | _ \<Rightarrow> Idle)
    | EvStartImage h r \<Rightarrow> None
    | _ \<Rightarrow> Some Idle)"

lemma wd_step_Idle_other: "\<not> is_image_event e \<Longrightarrow> wd_step Idle e = Some Idle"
  by (cases e) simp_all

lemma quiet_not_image: "quiet e \<Longrightarrow> \<not> is_image_event e"
  by (cases e) simp_all

abbreviation wd_keeps :: "('w, 'dp, 'a) boot \<Rightarrow> bool" where
  "wd_keeps m \<equiv> mtriple wd_step (\<lambda>q. q = Idle) m (\<lambda>_ q. q = Idle)"

lemma wd_keeps_other: "emits (\<lambda>e. \<not> is_image_event e) m \<Longrightarrow> wd_keeps m"
  by (erule mtriple_emits) (simp add: wd_step_Idle_other del: wd_step.simps)

lemma wd_keeps_quiet: "emits quiet m \<Longrightarrow> wd_keeps m"
  by (rule wd_keeps_other) (rule emits_mono [OF _ quiet_not_image])

lemma wd_keeps_load_and_start: "wd_keeps (load_and_start fw parent p)"
proof -
  have stop: "mtriple wd_step (\<lambda>q. q = Returned) (bnd (set_watchdog_timer fw 0) (\<lambda>_.
      case r of Inr _ \<Rightarrow> ret (Inr ()) | Inl status \<Rightarrow> ret (Inl (err_of (fw_lib fw) status)))) (\<lambda>_ q. q = Idle)" for r
    unfolding set_watchdog_timer_def
    by (rule mtriple_bnd [where K = "\<lambda>_ q. q = Idle"], rule mtriple_svc) (auto split: sum.split intro: mtriple_ret)
  have start: "mtriple wd_step (\<lambda>q. q = Armed h) (bnd (start_image fw h) (\<lambda>r. bnd (set_watchdog_timer fw 0) (\<lambda>_.
      case r of Inr _ \<Rightarrow> ret (Inr ()) | Inl status \<Rightarrow> ret (Inl (err_of (fw_lib fw) status))))) (\<lambda>_ q. q = Idle)" for h
    by (rule mtriple_bnd [OF _ stop], unfold start_image_def, rule mtriple_svc) auto
  have arm: "mtriple wd_step (\<lambda>q. q = Loaded h)
      (map_err (err_of (fw_lib fw)) (set_watchdog_timer fw WATCHDOG_TIMEOUT_SECONDS))
      (\<lambda>r q. case r of Inl _ \<Rightarrow> q = Idle | Inr _ \<Rightarrow> q = Armed h)" for h
    unfolding map_err_def set_watchdog_timer_def
    by (rule mtriple_bnd [where K = "\<lambda>r q. case r of Inl _ \<Rightarrow> q = Idle | Inr _ \<Rightarrow> q = Armed h"], rule mtriple_svc)
      (auto split: outcome.splits sum.splits intro: mtriple_ret)
  have armed: "mtriple wd_step (\<lambda>q. q = Loaded h)
      (tryE (map_err (err_of (fw_lib fw)) (set_watchdog_timer fw WATCHDOG_TIMEOUT_SECONDS)) (\<lambda>_.
       bnd (start_image fw h) (\<lambda>r. bnd (set_watchdog_timer fw 0) (\<lambda>_.
      case r of Inr _ \<Rightarrow> ret (Inr ()) | Inl status \<Rightarrow> ret (Inl (err_of (fw_lib fw) status))))))
      (\<lambda>_ q. q = Idle)" for h
    by (rule mtriple_tryE [OF arm]) (simp_all add: start)
  show ?thesis
    unfolding load_and_start_def
    by (rule mtriple_bnd [where K = "\<lambda>r q. case r of Inl _ \<Rightarrow> q = Idle | Inr h \<Rightarrow> q = Loaded h"],
        unfold load_image_def, rule mtriple_svc)
      (auto split: outcome.splits sum.splits intro: mtriple_ret armed)
qed

lemma wd_keeps_boot_from_device_path: "wd_keeps (boot_from_device_path fw parent dp)"
proof -
  have "wd_keeps (expand_device_path fw dp)"
    by (rule wd_keeps_quiet) (rule emits_mono [OF emits_expand_device_path is_lookup_quiet])
  then have "wd_keeps (tryE (expand_device_path fw dp) (load_and_start fw parent))"
    by (rule mtriple_tryE) (simp_all add: wd_keeps_load_and_start)
  then show ?thesis by (simp add: boot_from_device_path_alt wd_keeps_load_and_start)
qed

text \<open>What acceptance says of a log: around every \<open>StartImage\<close>.\<close>

definition starts_guarded :: "'dp event list \<Rightarrow> bool" where
  "starts_guarded es \<longleftrightarrow> (\<forall>pre h r post. es = pre @ EvStartImage h r # post \<longrightarrow>
     (\<exists>before parent p. pre = before @ [EvLoadImage parent p (Ret (Inr h)),
        EvWatchdog WATCHDOG_TIMEOUT_SECONDS (Ret (Inr ()))]) \<and>
     (post = [] \<or> (\<exists>w rest. post = EvWatchdog 0 w # rest)))"

fun wd_holds :: "wd_phase \<Rightarrow> 'dp event list \<Rightarrow> bool" where
  "wd_holds (Loaded h) es = (\<exists>before parent p. es = before @ [EvLoadImage parent p (Ret (Inr h))])"
| "wd_holds (Armed h) es = (\<exists>before parent p. es = before @ [EvLoadImage parent p (Ret (Inr h)),
     EvWatchdog WATCHDOG_TIMEOUT_SECONDS (Ret (Inr ()))])"
| "wd_holds _ es = True"

lemma wd_step_holds: "wd_holds q es \<Longrightarrow> wd_step q e = Some q' \<Longrightarrow> wd_holds q' (es @ [e])"
  by (cases q; cases e) (auto split: if_splits outcome.splits sum.splits)

lemma monitor_wd_holds:
  "wd_holds q es \<Longrightarrow> monitor wd_step q fs = Some q' \<Longrightarrow> wd_holds q' (es @ fs)"
proof (induction fs arbitrary: q es)
  case (Cons f fs)
  obtain q1 where "wd_step q f = Some q1" "monitor wd_step q1 fs = Some q'"
    using Cons.prems(2) by (auto split: option.splits)
  then show ?case using Cons.IH [of q1 "es @ [f]"] wd_step_holds [OF Cons.prems(1)] by simp
qed simp

lemma monitor_starts_guarded:
  fixes es :: "'dp event list"
  assumes "monitor wd_step Idle es = Some q"
  shows "starts_guarded es"
  unfolding starts_guarded_def
proof (intro allI impI)
  fix pre h r post assume es: "es = pre @ EvStartImage h r # post"
  obtain q1 q2 where q1: "monitor wd_step Idle pre = Some q1" and q2: "wd_step q1 (EvStartImage h r :: 'dp event) = Some q2"
    and post: "monitor wd_step q2 post \<noteq> None"
    using assms by (simp add: es monitor_append del: wd_step.simps split: option.splits)
  have h: "q1 = Armed h" "q2 = Returned \<or> q2 = Left"
    using q2 by (cases q1; auto split: if_splits outcome.splits)+
  have "post = [] \<or> (\<exists>w rest. post = EvWatchdog 0 w # rest)"
    using h(2) post by (cases post) (auto split: event.splits if_splits)
  with monitor_wd_holds [OF _ q1, of "[]"] h(1) show
    "(\<exists>before parent p. pre = before @ [EvLoadImage parent p (Ret (Inr h)),
        EvWatchdog WATCHDOG_TIMEOUT_SECONDS (Ret (Inr ()))]) \<and>
     (post = [] \<or> (\<exists>w rest. post = EvWatchdog 0 w # rest))"
    by simp
qed

subsection \<open>The transition does not go back\<close>

text \<open>The phases by their progress; pending events are level with one another.\<close>

instantiation lock_phase :: preorder
begin

fun level :: "lock_phase \<Rightarrow> nat" where
  "level Unlocked = 0"
| "level (EodPending ev) = 1"
| "level EodSignalled = 2"
| "level Locked = 3"

definition less_eq_lock_phase :: "lock_phase \<Rightarrow> lock_phase \<Rightarrow> bool" where
  "less_eq_lock_phase p q \<longleftrightarrow> level p \<le> level q"

definition less_lock_phase :: "lock_phase \<Rightarrow> lock_phase \<Rightarrow> bool" where
  "less_lock_phase p q \<longleftrightarrow> level p < level q"

instance
  by standard (auto simp: less_eq_lock_phase_def less_lock_phase_def)

end

lemma lock_step_forward: "lock_step q e = Some q' \<Longrightarrow> q \<le> q'"
  by (cases e; cases q)
    (auto simp: less_eq_lock_phase_def split: outcome.splits sum.splits guid.splits if_splits)

lemma monitor_lock_forward: "monitor lock_step q es = Some q' \<Longrightarrow> q \<le> q'"
proof (induction es arbitrary: q)
  case (Cons e es)
  then obtain q1 where "lock_step q e = Some q1" "monitor lock_step q1 es = Some q'"
    by (auto split: option.splits)
  then show ?case using Cons.IH lock_step_forward by (blast intro: order_trans)
qed simp

end
