(* ===== verification/BpRead.thy ===== *)
theory BpRead
  imports BootLock
begin

text \<open>
  \<open>bp_recovery.rs\<close>, first part: probing the NVMe controller's transfer limit and reading boot
  partition 1 through Get Log Page (LID 0x15) in chunks, with the command words at their width.
\<close>

subsection \<open>Constants\<close>

definition TARGET_BPID :: u8 where "TARGET_BPID = 1"
definition BPSIZE_BYTES :: nat where "BPSIZE_BYTES = 1024 * 1024 * 1024"
definition LID_BP_HEADER_BYTES :: u64 where "LID_BP_HEADER_BYTES = 16"
definition READ_CHUNK_MIN :: nat where "READ_CHUNK_MIN = 64 * 1024"
definition READ_CHUNK_MAX :: nat where "READ_CHUNK_MAX = 512 * 1024"
definition READ_CHUNK_DEFAULT :: nat where "READ_CHUNK_DEFAULT = 64 * 1024"

definition OPCODE_GET_LOG_PAGE :: u8 where "OPCODE_GET_LOG_PAGE = 0x02"
definition OPCODE_IDENTIFY :: u8 where "OPCODE_IDENTIFY = 0x06"
definition IDENTIFY_CNS_CONTROLLER :: u32 where "IDENTIFY_CNS_CONTROLLER = 0x01"
definition IDENTIFY_BUFFER_BYTES :: nat where "IDENTIFY_BUFFER_BYTES = 4096"
definition ID_CTRL_OFFSET_MDTS :: nat where "ID_CTRL_OFFSET_MDTS = 77"
definition LID_BOOT_PARTITION :: u32 where "LID_BOOT_PARTITION = 0x15"
definition CMD_FLAG_CDW10_VALID :: u8 where "CMD_FLAG_CDW10_VALID = push_bit 2 1"
definition CMD_FLAG_CDW11_VALID :: u8 where "CMD_FLAG_CDW11_VALID = push_bit 3 1"
definition CMD_FLAG_CDW12_VALID :: u8 where "CMD_FLAG_CDW12_VALID = push_bit 4 1"
definition CMD_FLAG_CDW13_VALID :: u8 where "CMD_FLAG_CDW13_VALID = push_bit 5 1"
definition QUEUE_TYPE_ADMIN :: u8 where "QUEUE_TYPE_ADMIN = 0"
definition TIMEOUT_NS_5_SEC :: u64 where "TIMEOUT_NS_5_SEC = 50000000"
definition TIMEOUT_NS_10_SEC :: u64 where "TIMEOUT_NS_10_SEC = 100000000"

lemmas chunk_consts = READ_CHUNK_MIN_def READ_CHUNK_MAX_def READ_CHUNK_DEFAULT_def

subsection \<open>Transfers\<close>

text \<open>What a buffer holds after the device wrote \<open>written\<close> to its first bytes, \<open>n\<close> at most.\<close>

definition device_wrote :: "bytes \<Rightarrow> nat \<Rightarrow> nat \<Rightarrow> bytes \<Rightarrow> bytes" where
  "device_wrote dest off n written =
     take off dest @ take n (take n written @ drop (length (take n written)) (slice off n dest)) @ drop (off + n) dest"

definition identify_packet :: command_packet where
  "identify_packet = \<lparr>command_timeout = TIMEOUT_NS_5_SEC, transfer_length = of_nat IDENTIFY_BUFFER_BYTES,
     metadata_length = 0, queue_type = QUEUE_TYPE_ADMIN,
     nvme_cmd = default_command\<lparr>cdw0 := ucast OPCODE_IDENTIFY, cdw10 := IDENTIFY_CNS_CONTROLLER,
       flags := CMD_FLAG_CDW10_VALID\<rparr>\<rparr>"

text \<open>\<open>1usize.checked_shl(mdts)\<close>, \<open>checked_mul(4096)\<close>, the fallback and the clamp.\<close>

definition checked_shl1 :: "nat \<Rightarrow> nat option" where
  "checked_shl1 n = (if n < 64 then Some (2 ^ n) else None)"

definition checked_mul :: "nat \<Rightarrow> nat \<Rightarrow> nat option" where
  "checked_mul a b = (if a * b \<le> usize_max then Some (a * b) else None)"

definition clamp :: "nat \<Rightarrow> nat \<Rightarrow> nat \<Rightarrow> nat" where
  "clamp lo hi x = (if x < lo then lo else if hi < x then hi else x)"

definition chunk_of_mdts :: "u8 \<Rightarrow> nat" where
  "chunk_of_mdts mdts = (if mdts = 0 then READ_CHUNK_MAX
     else let max_transfer = (case Option.bind (checked_shl1 (unat mdts)) (\<lambda>pages. checked_mul pages 4096) of
            Some n \<Rightarrow> n | None \<Rightarrow> READ_CHUNK_MAX)
       in clamp READ_CHUNK_MIN READ_CHUNK_MAX max_transfer)"

definition probe_max_transfer :: "('w, 'dp) firmware \<Rightarrow> ptr \<Rightarrow> ('w, 'dp, nat) boot" where
  "probe_max_transfer fw passthru =
     bnd (nvme_pass_thru fw passthru identify_packet) (\<lambda>(status, written).
       if status \<noteq> SUCCESS then ret READ_CHUNK_DEFAULT
       else let buf = device_wrote (replicate IDENTIFY_BUFFER_BYTES 0) 0 IDENTIFY_BUFFER_BYTES written in
         ret (chunk_of_mdts (buf ! ID_CTRL_OFFSET_MDTS)))"

definition log_page_packet :: "u8 \<Rightarrow> u64 \<Rightarrow> nat \<Rightarrow> command_packet" where
  "log_page_packet bp_id bp_off nbytes = (let
     lpol = LID_BP_HEADER_BYTES + bp_off;
     numd = word_of_nat (nbytes div 4 - 1) :: u32 in
     \<lparr>command_timeout = TIMEOUT_NS_10_SEC, transfer_length = of_nat nbytes,
      metadata_length = 0, queue_type = QUEUE_TYPE_ADMIN,
      nvme_cmd = default_command\<lparr>cdw0 := ucast OPCODE_GET_LOG_PAGE,
        cdw10 := push_bit 16 (numd AND 0xFFFF) OR push_bit 8 (ucast bp_id AND 0x7F) OR LID_BOOT_PARTITION,
        cdw11 := drop_bit 16 numd AND 0xFFFF,
        cdw12 := ucast (lpol AND 0xFFFFFFFF),
        cdw13 := ucast (drop_bit 32 lpol AND 0xFFFFFFFF),
        flags := CMD_FLAG_CDW10_VALID OR CMD_FLAG_CDW11_VALID OR CMD_FLAG_CDW12_VALID OR CMD_FLAG_CDW13_VALID\<rparr>\<rparr>)"

text \<open>One turn of the \<open>while\<close> loop; the accumulator is \<open>bp_off\<close> and the destination.\<close>

definition read_bp_step ::
  "('w, 'dp) firmware \<Rightarrow> ptr \<Rightarrow> u8 \<Rightarrow> nat \<Rightarrow> nat \<times> bytes \<Rightarrow>
   ('w, 'dp, nat \<times> bytes + (efi_error + bytes)) boot" where
  "read_bp_step fw passthru bp_id chunk_bytes = (\<lambda>(bp_off, dest).
     if \<not> bp_off < length dest then ret (Inr (Inr dest))
     else let remaining = length dest - bp_off; nbytes = min chunk_bytes remaining in
       bnd (nvme_pass_thru fw passthru (log_page_packet bp_id (word_of_nat bp_off) nbytes)) (\<lambda>(status, written).
         if status \<noteq> SUCCESS then ret (Inr (Inl (err_of (fw_lib fw) status)))
         else ret (Inl (bp_off + nbytes, device_wrote dest bp_off nbytes written))))"

text \<open>Every turn reads at least one dword, so \<open>length dest + 1\<close> turns always suffice.\<close>

definition read_bp_via_log_page ::
  "('w, 'dp) firmware \<Rightarrow> ptr \<Rightarrow> u8 \<Rightarrow> nat \<Rightarrow> bytes \<Rightarrow> ('w, 'dp, efi_error + bytes) boot" where
  "read_bp_via_log_page fw passthru bp_id chunk_bytes dest =
     (if chunk_bytes < 4 \<or> \<not> 4 dvd chunk_bytes \<or> \<not> 4 dvd length dest
      then ret (Inl (err_of (fw_lib fw) INVALID_PARAMETER))
      else loop (length dest + 1) (read_bp_step fw passthru bp_id chunk_bytes) (0, dest))"

definition bp_has_sre_payload :: "('w, 'dp) firmware \<Rightarrow> ('w, 'dp, bool) boot" where
  "bp_has_sre_payload fw = bnd (locate_protocol fw NvmePassThru) (\<lambda>r. case r of
      Inl _ \<Rightarrow> ret False
    | Inr passthru \<Rightarrow> bnd (read_bp_via_log_page fw passthru TARGET_BPID 512 (replicate 512 0)) (\<lambda>r. case r of
        Inl _ \<Rightarrow> ret False
      | Inr head \<Rightarrow> ret (head ! 510 = 0x55 \<and> head ! 511 = 0xAA)))"

subsection \<open>The chunk size\<close>

lemma power_le_usize: "n < 52 \<Longrightarrow> 2 ^ n * 4096 \<le> usize_max"
proof -
  assume "n < 52"
  then have "(2::nat) ^ n \<le> 2 ^ 51" by (intro power_increasing) simp_all
  then show ?thesis by (simp add: usize_max_def)
qed

lemma power_gt_usize: "52 \<le> n \<Longrightarrow> usize_max < 2 ^ n * 4096"
proof -
  assume "52 \<le> n"
  then have "(2::nat) ^ 52 \<le> 2 ^ n" by (intro power_increasing) simp_all
  then show ?thesis by (simp add: usize_max_def)
qed

text \<open>The checks fall back exactly when the exact product does not fit a \<open>usize\<close>.\<close>

lemma max_transfer_eq:
  "Option.bind (checked_shl1 n) (\<lambda>pages. checked_mul pages 4096) = (if n < 52 then Some (2 ^ n * 4096) else None)"
  using power_le_usize [of n] power_gt_usize [of n]
  by (cases "n < 52") (simp_all add: checked_shl1_def checked_mul_def)

lemma chunk_of_mdts_eq:
  "chunk_of_mdts m = (if m = 0 \<or> 52 \<le> unat m then READ_CHUNK_MAX
     else clamp READ_CHUNK_MIN READ_CHUNK_MAX (2 ^ unat m * 4096))"
  by (simp add: chunk_of_mdts_def max_transfer_eq clamp_def chunk_consts)

lemma chunk_of_mdts_bounds:
  "READ_CHUNK_MIN \<le> chunk_of_mdts m" "chunk_of_mdts m \<le> READ_CHUNK_MAX" "4096 dvd chunk_of_mdts m"
  by (simp_all add: chunk_of_mdts_eq clamp_def chunk_consts)

subsection \<open>What a command asks for\<close>

text \<open>The fields of a Get Log Page command, read back from its dwords.\<close>

definition lid_of :: "nvme_command \<Rightarrow> nat" where "lid_of c = unat (cdw10 c) mod 256"
definition lsp_of :: "nvme_command \<Rightarrow> nat" where "lsp_of c = unat (cdw10 c) div 256 mod 128"
definition numd_of :: "nvme_command \<Rightarrow> nat" where
  "numd_of c = unat (cdw10 c) div 2 ^ 16 + 2 ^ 16 * (unat (cdw11 c) mod 2 ^ 16)"
definition lpol_of :: "nvme_command \<Rightarrow> nat" where
  "lpol_of c = unat (cdw12 c) + 2 ^ 32 * unat (cdw13 c)"

lemmas log_page_fields = lid_of_def lsp_of_def numd_of_def lpol_of_def

lemma or_disjoint: "a AND b = 0 \<Longrightarrow> unat (a OR b) = unat a + unat b" for a b :: u32
proof -
  assume ab: "a AND b = 0"
  have "unat a AND unat b = 0" by (simp add: ab flip: unsigned_and_eq)
  then have "unat a OR unat b = unat a + unat b" by (simp add: disjunctive_add_eq_or)
  then show ?thesis by (simp add: unsigned_or_eq)
qed

lemma unat_and_mask: "unat (w AND mask n) = unat w mod 2 ^ n"
  by (metis take_bit_eq_mask unsigned_take_bit_eq take_bit_eq_mod)

lemma unat_push_bit_small: "unat w * 2 ^ k < 2 ^ 32 \<Longrightarrow> unat (push_bit k w) = unat w * 2 ^ k" for w :: u32
  by (subst unsigned_push_bit_eq) (simp add: push_bit_eq_mult take_bit_eq_mod)

lemma mask_words: "mask 16 = (0xFFFF :: u32)" "mask 7 = (0x7F :: u32)" "mask 32 = (0xFFFFFFFF :: u64)"
  by (simp_all add: mask_eq_exp_minus_1)

lemma unat_cdw10:
  fixes numd :: u32 and b :: u8
  shows "unat (push_bit 16 (numd AND 0xFFFF) OR push_bit 8 (ucast b AND 0x7F) OR (0x15 :: u32)) =
    2 ^ 16 * (unat numd mod 2 ^ 16) + 256 * (unat b mod 128) + 0x15"
proof -
  define z where "z = (0x15 :: u32)"
  let ?x = "push_bit 16 (numd AND mask 16)" and ?y = "push_bit 8 (ucast b AND mask 7) :: u32"
  have "take_bit 5 z = z" by (simp add: z_def)
  then have z: "bit z n \<Longrightarrow> n < 5" for n by (metis bit_take_bit_iff)
  have "?x AND ?y = 0" "(?x OR ?y) AND z = 0"
    by (auto intro!: bit_word_eqI simp: bit_simps dest!: z)
  then have "unat (?x OR ?y OR z) = unat ?x + unat ?y + unat z"
    using or_disjoint [of "?x OR ?y" z] or_disjoint [of ?x ?y] by (simp add: or.assoc)
  moreover have "unat ?x = 2 ^ 16 * (unat numd mod 2 ^ 16)"
    using mod_less_divisor [of "2 ^ 16" "unat numd"]
    by (subst unat_push_bit_small) (simp_all only: unat_and_mask, simp_all)
  moreover have "unat ?y = 256 * (unat b mod 128)"
    using mod_less_divisor [of 128 "unat b"] byte_lt [of b]
    by (subst unat_push_bit_small) (simp_all only: unat_and_mask, simp_all add: unsigned_ucast_eq take_bit_eq_mod)
  ultimately show ?thesis by (simp add: mask_words z_def)
qed

text \<open>
  The command a turn issues asks for boot partition \<open>bp_id\<close>, from just behind the 16-byte
  header at \<open>bp_off\<close>, for exactly \<open>nbytes\<close> bytes.
\<close>

lemma log_page_packet_asks:
  fixes bp_id :: u8
  assumes off: "bp_off + 16 < 2 ^ 64" and n: "4 \<le> nbytes" "4 dvd nbytes" "nbytes \<le> 2 ^ 34"
  defines "c \<equiv> nvme_cmd (log_page_packet bp_id (word_of_nat bp_off) nbytes)"
  shows "lid_of c = 0x15" "lsp_of c = unat bp_id mod 128" "4 * (numd_of c + 1) = nbytes"
    "lpol_of c = 16 + bp_off"
proof -
  let ?numd = "word_of_nat (nbytes div 4 - 1) :: u32" and ?lpol = "16 + word_of_nat bp_off :: u64"
  define k where "k = nbytes div 4 - 1"
  have "k < 2 ^ 32" using n by (auto simp: k_def)
  then have "unat (word_of_nat k :: u32) = k" by (simp add: unat_of_nat)
  then have numd: "unat ?numd = nbytes div 4 - 1" by (simp only: k_def)
  have lpol: "unat ?lpol = 16 + bp_off"
    using off by (simp add: unat_word_ariths unat_of_nat)
  have cdw10: "unat (cdw10 c) = 2 ^ 16 * (unat ?numd mod 2 ^ 16) + 256 * (unat bp_id mod 128) + 0x15"
  proof -
    have "cdw10 c = push_bit 16 (?numd AND 0xFFFF) OR push_bit 8 (ucast bp_id AND 0x7F) OR 0x15"
      by (simp add: c_def log_page_packet_def Let_def LID_BOOT_PARTITION_def)
    then show ?thesis by (simp only: unat_cdw10)
  qed
  have cdw11: "unat (cdw11 c) = unat ?numd div 2 ^ 16 mod 2 ^ 16"
    unfolding c_def log_page_packet_def Let_def
    by (simp add: unat_and_mask drop_bit_eq_div unat_div flip: mask_words)
  have cdw12: "unat (cdw12 c) = unat ?lpol mod 2 ^ 32"
    unfolding c_def log_page_packet_def Let_def
    by (simp add: unat_and_mask unsigned_ucast_eq take_bit_eq_mod LID_BP_HEADER_BYTES_def flip: mask_words)
  have cdw13: "unat (cdw13 c) = unat ?lpol div 2 ^ 32 mod 2 ^ 32"
    unfolding c_def log_page_packet_def Let_def
    by (simp add: unat_and_mask unsigned_ucast_eq take_bit_eq_mod drop_bit_eq_div unat_div LID_BP_HEADER_BYTES_def
        flip: mask_words)
  define x y where "x = unat ?numd mod 2 ^ 16" and "y = unat bp_id mod 128"
  have xy: "x < 2 ^ 16" "y < 128" "unat (cdw10 c) = 2 ^ 16 * x + 256 * y + 21"
    by (simp_all add: x_def y_def cdw10)
  show "lid_of c = 0x15" by (simp add: lid_of_def xy(3) mod_add_eq [symmetric])
  show "lsp_of c = unat bp_id mod 128"
  proof -
    have "unat (cdw10 c) = 21 + (256 * x + y) * 256" using xy(3) by simp
    then have "unat (cdw10 c) div 256 = y + (2 * x) * 128" by simp
    then have "unat (cdw10 c) div 256 mod 128 = y mod 128" by (simp only: mod_mult_self1)
    then show ?thesis using xy(2) by (simp add: lsp_of_def y_def [symmetric])
  qed
  have "unat (cdw10 c) = (256 * y + 21) + x * 2 ^ 16" using xy(3) by simp
  then have "unat (cdw10 c) div 2 ^ 16 = (256 * y + 21) div 2 ^ 16 + x"
    by (simp only: div_mult_self1 [of "2 ^ 16"]) simp
  moreover have "(256 * y + 21) div 2 ^ 16 = 0" using xy(2) by simp
  moreover have "unat ?numd < 2 ^ 32" using numd \<open>k < 2 ^ 32\<close> by (simp only: k_def)
  then have "unat ?numd div 2 ^ 16 < 2 ^ 16" by (simp add: less_mult_imp_div_less)
  ultimately have "numd_of c = x + 2 ^ 16 * (unat ?numd div 2 ^ 16)"
    by (simp add: numd_of_def cdw11)
  then have "numd_of c = unat ?numd" by (simp add: x_def)
  then show "4 * (numd_of c + 1) = nbytes" using numd n by auto
  have "unat ?lpol div 2 ^ 32 < 2 ^ 32"
    unfolding lpol using off by (intro less_mult_imp_div_less) simp
  then have "lpol_of c = unat ?lpol mod 2 ^ 32 + 2 ^ 32 * (unat ?lpol div 2 ^ 32)"
    by (simp add: lpol_of_def cdw12 cdw13)
  then show "lpol_of c = 16 + bp_off" using lpol by simp
qed

subsection \<open>Reading the partition\<close>

lemma length_device_wrote: "off + n \<le> length dest \<Longrightarrow> length (device_wrote dest off n written) = length dest"
  by (simp add: device_wrote_def slice_def)

lemma device_wrote_full:
  "off + n \<le> length dest \<Longrightarrow> length written = n \<Longrightarrow>
   device_wrote dest off n written = take off dest @ written @ drop (off + n) dest"
  by (simp add: device_wrote_def slice_def)

text \<open>The pass-through answers every command.\<close>

definition nvme_answers :: "('w, 'dp) firmware \<Rightarrow> ptr \<Rightarrow> bool" where
  "nvme_answers fw p \<longleftrightarrow> (\<forall>pkt w. \<exists>r w'. fw_nvme_pass_thru fw p pkt w = (Ret r, w'))"

text \<open>
  A controller whose boot partition \<open>bp\<close> holds \<open>img\<close>: Get Log Page answers with the header
  and the image behind it, from the offset and for the number of dwords the command names.
\<close>

definition serves_bp :: "('w, 'dp) firmware \<Rightarrow> ptr \<Rightarrow> u8 \<Rightarrow> (nat \<Rightarrow> u8) \<Rightarrow> bool" where
  "serves_bp fw p bp img \<longleftrightarrow> (\<forall>pkt w. let c = nvme_cmd pkt in
     cdw0 c = ucast OPCODE_GET_LOG_PAGE \<and> lid_of c = 0x15 \<and> lsp_of c = unat bp mod 128 \<and> 16 \<le> lpol_of c \<longrightarrow>
     (\<exists>w'. fw_nvme_pass_thru fw p pkt w =
        (Ret (SUCCESS, map (\<lambda>i. img (lpol_of c - 16 + i)) [0..<4 * (numd_of c + 1)]), w')))"

lemma read_bp_step_served:
  assumes img: "serves_bp fw p bp img" and chunk: "4 \<le> chunk" "4 dvd chunk"
    and off: "off < length dest" "4 dvd off" "4 dvd length dest" "length dest \<le> 2 ^ 34"
  defines "n \<equiv> min chunk (length dest - off)"
  obtains s' where "read_bp_step fw p bp chunk (off, dest) s =
    (Ret (Inl (off + n, take off dest @ map img [off..<off + n] @ drop (off + n) dest)), s')"
proof -
  let ?pkt = "log_page_packet bp (word_of_nat off) n" and ?data = "map img [off..<off + n]"
  have n: "4 \<le> n" "4 dvd n" "n \<le> 2 ^ 34" "off + n \<le> length dest"
    using chunk off dvd_imp_le [of 4 "length dest - off"] by (auto simp: n_def min_def)
  note asks = log_page_packet_asks [of off n bp, OF _ n(1-3)]
  have small: "off + 16 < 2 ^ 64" using off by simp
  have "cdw0 (nvme_cmd ?pkt) = ucast OPCODE_GET_LOG_PAGE" by (simp add: log_page_packet_def Let_def)
  then obtain w' where "fw_nvme_pass_thru fw p ?pkt (world s) =
      (Ret (SUCCESS, map (\<lambda>i. img (off + i)) [0..<n]), w')"
    using img asks [OF small] unfolding serves_bp_def Let_def by (metis add_diff_cancel_left' le_add1)
  moreover have "map (\<lambda>i. img (off + i)) [0..<n] = ?data"
    by (auto intro: nth_equalityI)
  ultimately have "nvme_pass_thru fw p ?pkt s = (Ret (SUCCESS, ?data),
      s\<lparr>world := w', trace := trace s @ [EvNvme p ?pkt (Ret (SUCCESS, ?data))]\<rparr>)"
    by (simp add: nvme_pass_thru_def svc_def)
  then show thesis
    using that off n by (simp add: read_bp_step_def bnd_def ret_run device_wrote_full flip: n_def)
qed

lemma read_bp_loop:
  assumes img: "serves_bp fw p bp img" and chunk: "4 \<le> chunk" "4 dvd chunk"
  shows "off \<le> length dest \<Longrightarrow> 4 dvd off \<Longrightarrow> 4 dvd length dest \<Longrightarrow> length dest \<le> 2 ^ 34 \<Longrightarrow>
    take off dest = map img [0..<off] \<Longrightarrow> length dest - off < fuel \<Longrightarrow>
    \<exists>s'. loop fuel (read_bp_step fw p bp chunk) (off, dest) s = (Ret (Inr (map img [0..<length dest])), s')"
proof (induction fuel arbitrary: off dest s)
  case (Suc fuel)
  show ?case
  proof (cases "off < length dest")
    case True
    let ?n = "min chunk (length dest - off)"
    let ?dest = "take off dest @ map img [off..<off + ?n] @ drop (off + ?n) dest"
    obtain s' where step: "read_bp_step fw p bp chunk (off, dest) s = (Ret (Inl (off + ?n, ?dest)), s')"
      using read_bp_step_served [OF img chunk True] Suc.prems by metis
    have len: "length ?dest = length dest" using True by simp
    have "4 dvd ?n" using chunk Suc.prems by (auto simp: min_def)
    moreover have "take (off + ?n) ?dest = map img [0..<off + ?n]"
      using Suc.prems True by (simp add: upt_add_eq_append [of 0] min_def)
    ultimately have "\<exists>s''. loop fuel (read_bp_step fw p bp chunk) (off + ?n, ?dest) s' =
        (Ret (Inr (map img [0..<length ?dest])), s'')"
      using Suc.prems True chunk by (intro Suc.IH) (auto simp: len)
    then show ?thesis unfolding len loop.simps by (simp add: bnd_Ret [where m = "read_bp_step fw p bp chunk (off, dest)", OF step])
  next
    case False
    then have "off = length dest" using Suc.prems by simp
    then show ?thesis using Suc.prems by (simp add: read_bp_step_def ret_run bnd_def)
  qed
qed simp

lemma read_bp_via_log_page_served:
  assumes "serves_bp fw p bp img" and "4 \<le> chunk" "4 dvd chunk" "4 dvd length dest" "length dest \<le> 2 ^ 34"
  shows "\<exists>s'. read_bp_via_log_page fw p bp chunk dest s = (Ret (Inr (map img [0..<length dest])), s')"
  using read_bp_loop [OF assms(1-3), of 0 dest "length dest + 1" s] assms
  by (simp add: read_bp_via_log_page_def del: loop.simps)

lemma bp_has_sre_payload_served:
  assumes "serves_bp fw p TARGET_BPID img"
    and "fw_locate_protocol fw NvmePassThru (world s) = (Ret (Inr p), w')"
  shows "\<exists>s'. bp_has_sre_payload fw s = (Ret (img 510 = 0x55 \<and> img 511 = 0xAA), s')"
proof -
  let ?s = "s\<lparr>world := w', trace := trace s @ [EvLocateProtocol NvmePassThru (Ret (Inr p))]\<rparr>"
  have "locate_protocol fw NvmePassThru s = (Ret (Inr p), ?s)"
    by (simp add: locate_protocol_def svc_def assms(2))
  moreover obtain s' where "read_bp_via_log_page fw p TARGET_BPID 512 (replicate 512 0) ?s =
      (Ret (Inr (map img [0..<512])), s')"
    using read_bp_via_log_page_served [OF assms(1), of 512 "replicate 512 0" ?s] by auto
  ultimately show ?thesis by (simp add: bp_has_sre_payload_def bnd_def ret_run)
qed

subsection \<open>The read always comes back\<close>

lemma read_bp_loop_returns:
  assumes dev: "nvme_answers fw p" and chunk: "4 \<le> chunk"
  shows "length dest - off < fuel \<Longrightarrow>
    \<exists>r s'. loop fuel (read_bp_step fw p bp chunk) (off, dest) s = (Ret r, s') \<and>
      (\<forall>d. r = Inr d \<longrightarrow> length d = length dest)"
proof (induction fuel arbitrary: off dest s)
  case (Suc fuel)
  show ?case
  proof (cases "off < length dest")
    case True
    let ?n = "min chunk (length dest - off)" and ?m = "read_bp_step fw p bp chunk (off, dest)"
    let ?pkt = "log_page_packet bp (word_of_nat off) ?n"
    obtain status written w' where "fw_nvme_pass_thru fw p ?pkt (world s) = (Ret (status, written), w')"
      using dev unfolding nvme_answers_def by (metis surj_pair)
    then obtain s1 where call: "nvme_pass_thru fw p ?pkt s = (Ret (status, written), s1)"
      by (simp add: nvme_pass_thru_def svc_def)
    let ?dest = "device_wrote dest off ?n written"
    have step: "?m s = (Ret (if status \<noteq> SUCCESS then Inr (Inl (err_of (fw_lib fw) status))
        else Inl (off + ?n, ?dest)), s1)"
      using True by (simp add: read_bp_step_def bnd_def call ret_run Let_def)
    have "length ?dest = length dest" using True by (intro length_device_wrote) simp
    moreover have "length dest - (off + ?n) < fuel" using Suc.prems True chunk by auto
    ultimately have "\<exists>r s'. loop fuel (read_bp_step fw p bp chunk) (off + ?n, ?dest) s1 = (Ret r, s') \<and>
        (\<forall>d. r = Inr d \<longrightarrow> length d = length dest)"
      using Suc.IH [of ?dest "off + ?n" s1] by simp
    then show ?thesis unfolding loop.simps by (simp add: bnd_Ret [where m = ?m, OF step] ret_run)
  next
    case False
    then show ?thesis by (simp add: read_bp_step_def ret_run bnd_def)
  qed
qed simp

lemma read_bp_via_log_page_returns:
  assumes "nvme_answers fw p"
  shows "\<exists>r s'. read_bp_via_log_page fw p bp chunk dest s = (Ret r, s') \<and>
    (\<forall>d. r = Inr d \<longrightarrow> length d = length dest)"
proof (cases "chunk < 4 \<or> \<not> 4 dvd chunk \<or> \<not> 4 dvd length dest")
  case False
  then show ?thesis
    using read_bp_loop_returns [OF assms, of chunk dest 0 "length dest + 1" bp s]
    by (simp add: read_bp_via_log_page_def del: loop.simps)
qed (auto simp: read_bp_via_log_page_def ret_run)

fun is_nvme_event :: "'dp event \<Rightarrow> bool" where
  "is_nvme_event (EvNvme p pkt r) = True"
| "is_nvme_event (EvLocateProtocol g r) = (g = NvmePassThru)"
| "is_nvme_event _ = False"

lemma is_nvme_event_quiet: "is_nvme_event e \<Longrightarrow> quiet e"
  by (cases e) simp_all

lemma emits_read_bp: "emits is_nvme_event (read_bp_via_log_page fw p bp chunk dest)"
  unfolding read_bp_via_log_page_def read_bp_step_def Let_def nvme_pass_thru_def
  by (intro emits_rules) simp_all

lemma emits_probe_max_transfer: "emits is_nvme_event (probe_max_transfer fw p)"
  unfolding probe_max_transfer_def Let_def nvme_pass_thru_def
  by (intro emits_rules) simp_all

lemma emits_bp_has_sre_payload: "emits is_nvme_event (bp_has_sre_payload fw)"
  unfolding bp_has_sre_payload_def locate_protocol_def
  by (intro emits_rules emits_read_bp) simp_all

end
