(* ===== verification/Connect.thy ===== *)
theory Connect
  imports BootLock
begin

text \<open>
  Device enumeration of \<open>helpers.rs\<close> (\<open>connect_all\<close>, \<open>connect_all_skip_usb\<close> and what they read
  of a PCI function) and of \<open>simple_boot_manager.rs\<close> (interleaving with driver dispatch), with
  the connection strategy as an interface.
\<close>

subsection \<open>Reading the PCI class\<close>

definition class_code :: "u32 \<Rightarrow> u32" where
  "class_code c = push_bit 8 (drop_bit 24 c AND 0xff) OR (drop_bit 16 c AND 0xff)"

definition pci_class :: "('w, 'dp) firmware \<Rightarrow> handle \<Rightarrow> ('w, 'dp, efi_error + u32) boot" where
  "pci_class fw h = tryE (map_err (err_of (fw_lib fw)) (handle_protocol fw h PciIo)) (\<lambda>pci.
     bnd (pci_read_class fw pci) (\<lambda>(status, c).
       if status \<noteq> SUCCESS then ret (Inl (err_of (fw_lib fw) status))
       else ret (Inr (class_code c))))"

definition is_usb_host_controller :: "('w, 'dp) firmware \<Rightarrow> handle \<Rightarrow> ('w, 'dp, bool) boot" where
  "is_usb_host_controller fw h = bnd (pci_class fw h) (\<lambda>r. case r of
     Inl _ \<Rightarrow> ret False | Inr c \<Rightarrow> ret (c = 0x0c03))"

subsection \<open>Connecting every handle once\<close>

text \<open>The body of the inner loop: what a handle does to \<open>connected\<close> and \<open>newly\<close>.\<close>

definition connect_one :: "('w, 'dp) firmware \<Rightarrow> handle \<Rightarrow> handle set \<times> nat \<Rightarrow> ('w, 'dp, handle set \<times> nat) boot" where
  "connect_one fw h = (\<lambda>(connected, newly).
     if h \<in> connected then ret (connected, newly)
     else bnd (connect_controller fw h True) (\<lambda>_. ret (insert h connected, newly + 1)))"

definition connect_one_skip_usb ::
  "('w, 'dp) firmware \<Rightarrow> handle \<Rightarrow> handle set \<times> nat \<Rightarrow> ('w, 'dp, handle set \<times> nat) boot" where
  "connect_one_skip_usb fw h = (\<lambda>(connected, newly).
     if h \<in> connected then ret (connected, newly)
     else bnd (is_usb_host_controller fw h) (\<lambda>usb.
       if usb then ret (insert h connected, newly)
       else bnd (connect_controller fw h False) (\<lambda>_. ret (insert h connected, newly + 1))))"

text \<open>
  One pass of the outer loop: \<open>Inr\<close> leaves it, with an error or because nothing new was found.
  A loop that runs out of passes also ends well.
\<close>

definition connect_pass ::
  "('w, 'dp) firmware \<Rightarrow> (handle \<Rightarrow> handle set \<times> nat \<Rightarrow> ('w, 'dp, handle set \<times> nat) boot) \<Rightarrow>
   nat \<Rightarrow> handle set \<Rightarrow> ('w, 'dp, handle set + (efi_error + unit)) boot" where
  "connect_pass fw one iteration connected =
     bnd (map_err (err_of (fw_lib fw)) (locate_handle_buffer fw AllHandle)) (\<lambda>r. case r of
       Inl e \<Rightarrow> ret (Inr (Inl e))
     | Inr handles \<Rightarrow> bnd (each_acc one handles (connected, 0)) (\<lambda>(connected', newly).
         if newly = 0 then ret (Inr (Inr ())) else ret (Inl connected')))"

definition connect_passes ::
  "('w, 'dp) firmware \<Rightarrow> nat \<Rightarrow> (handle \<Rightarrow> handle set \<times> nat \<Rightarrow> ('w, 'dp, handle set \<times> nat) boot) \<Rightarrow>
   ('w, 'dp, efi_error + unit) boot" where
  "connect_passes fw max_iterations one =
     bnd (each_acc_until (connect_pass fw one) [0..<max_iterations] {}) (\<lambda>r. case r of
       Inr result \<Rightarrow> ret result | Inl _ \<Rightarrow> ret (Inr ()))"

definition connect_all :: "('w, 'dp) firmware \<Rightarrow> ('w, 'dp, efi_error + unit) boot" where
  "connect_all fw = connect_passes fw 10 (connect_one fw)"

definition connect_all_skip_usb :: "('w, 'dp) firmware \<Rightarrow> ('w, 'dp, efi_error + unit) boot" where
  "connect_all_skip_usb fw = connect_passes fw 20 (connect_one_skip_usb fw)"

subsection \<open>Strategies, and interleaving them with dispatch\<close>

text \<open>\<open>ConnectController\<close>: the stock strategy, or a closure of the platform.\<close>

datatype ('w, 'dp) strategy = ConnectAllStrategy | Closure "('w, 'dp, efi_error + unit) boot"

fun strategy_connect :: "('w, 'dp) firmware \<Rightarrow> ('w, 'dp) strategy \<Rightarrow> ('w, 'dp, efi_error + unit) boot" where
  "strategy_connect fw ConnectAllStrategy = connect_all fw"
| "strategy_connect fw (Closure f) = f"

definition total_handle_count :: "('w, 'dp) firmware \<Rightarrow> ('w, 'dp, efi_error + nat) boot" where
  "total_handle_count fw = map_err (err_of (fw_lib fw))
     (bnd (locate_handle_buffer fw AllHandle) (\<lambda>r. case r of Inl e \<Rightarrow> ret (Inl e) | Inr h \<Rightarrow> ret (Inr (length h))))"

definition interleave_round ::
  "('w, 'dp) firmware \<Rightarrow> ('w, 'dp, efi_error + unit) boot \<Rightarrow> nat \<Rightarrow> ('w, 'dp, nat + (efi_error + unit)) boot" where
  "interleave_round fw connect_fn prev_handle_count =
     bnd (tryE connect_fn (\<lambda>_. tryE (dispatch fw) (\<lambda>_. total_handle_count fw))) (\<lambda>r. case r of
       Inl e \<Rightarrow> ret (Inr (Inl e))
     | Inr curr_handle_count \<Rightarrow>
         if curr_handle_count = prev_handle_count then ret (Inr (Inr ()))
         else ret (Inl curr_handle_count))"

definition interleave_connect_and_dispatch ::
  "nat \<Rightarrow> ('w, 'dp) firmware \<Rightarrow> ('w, 'dp, efi_error + unit) boot \<Rightarrow> ('w, 'dp, efi_error + unit) boot" where
  "interleave_connect_and_dispatch fuel fw connect_fn =
     tryE (total_handle_count fw) (\<lambda>prev. loop fuel (interleave_round fw connect_fn) prev)"

subsection \<open>The enumeration monitor\<close>

text \<open>
  \<open>attempted\<close>: the handles connected so far; \<open>found\<close>: those some buffer listed; \<open>passes\<close>: the
  buffers asked for; \<open>asked\<close>: the handle whose PciIo interface was fetched by the last event; \<open>hosts\<close>: those
  whose class read back as a USB host controller.
\<close>

record enum_state =
  attempted :: "handle list"
  found :: "handle set"
  passes :: nat
  asked :: "(handle \<times> ptr) option"
  hosts :: "handle set"

definition enum_start :: enum_state where
  "enum_start = \<lparr>attempted = [], found = {}, passes = 0, asked = None, hosts = {}\<rparr>"

fun enum_step :: "bool \<Rightarrow> nat \<Rightarrow> enum_state \<Rightarrow> 'dp event \<Rightarrow> enum_state option" where
  "enum_step recursive most q (EvLocateHandles sr r) =
     (if passes q < most \<and> sr = AllHandle then Some (q\<lparr>passes := passes q + 1, asked := None,
        found := (case r of Ret (Inr hs) \<Rightarrow> found q \<union> set hs | _ \<Rightarrow> found q)\<rparr>) else None)"
| "enum_step recursive most q (EvConnect h rec r) =
     (if h \<notin> set (attempted q) \<and> h \<in> found q \<and> h \<notin> hosts q \<and> rec = recursive
      then Some (q\<lparr>attempted := attempted q @ [h], asked := None\<rparr>) else None)"
| "enum_step recursive most q (EvHandleProtocol h g r) =
     (if h \<notin> set (attempted q) \<and> g = PciIo
      then Some (q\<lparr>asked := (case r of Ret (Inr p) \<Rightarrow> Some (h, p) | _ \<Rightarrow> None)\<rparr>) else None)"
| "enum_step recursive most q (EvPciClass p r) = (case asked q of
      Some (h, p') \<Rightarrow> if p = p' \<and> h \<notin> set (attempted q) then Some (q\<lparr>asked := None, hosts := (case r of
          Ret (st, c) \<Rightarrow> if st = SUCCESS \<and> class_code c = 0x0c03 then insert h (hosts q) else hosts q
        | _ \<Rightarrow> hosts q)\<rparr>) else None
    | None \<Rightarrow> None)"
| "enum_step recursive most q _ = None"

definition enum_inv :: "handle set \<Rightarrow> enum_state \<Rightarrow> bool" where
  "enum_inv connected q \<longleftrightarrow> set (attempted q) \<union> hosts q = connected \<and> connected \<subseteq> found q \<and>
     set (attempted q) \<inter> hosts q = {} \<and> distinct (attempted q)"

text \<open>Between two handles of a pass; \<open>F\<close> are the handles found so far.\<close>

abbreviation mid :: "handle set \<Rightarrow> nat \<Rightarrow> handle set \<Rightarrow> enum_state \<Rightarrow> bool" where
  "mid F n connected q \<equiv> enum_inv connected q \<and> found q = F \<and> passes q = n"

definition marks :: "handle set \<Rightarrow> nat \<Rightarrow> handle set \<Rightarrow> handle set \<times> nat \<Rightarrow> enum_state \<Rightarrow> bool" where
  "marks F n known b q \<longleftrightarrow> mid F n (fst b) q \<and> known \<subseteq> fst b"

lemma mtriple_connect_one:
  assumes "h \<in> F"
  shows "mtriple (enum_step True most) (mid F n (fst a)) (connect_one fw h a) (marks F n (insert h (fst a)))"
proof (cases "h \<in> fst a")
  case False
  have "mtriple (enum_step True most) (mid F n (fst a)) (connect_controller fw h True)
      (\<lambda>_. mid F n (insert h (fst a)))"
    unfolding connect_controller_def
    by (rule mtriple_svc) (use assms False in \<open>auto simp: enum_inv_def\<close>)
  then show ?thesis
    using False by (auto simp: connect_one_def split_beta marks_def intro: mtriple_bnd_ret)
qed (auto simp: connect_one_def split_beta marks_def insert_absorb intro: mtriple_ret)

text \<open>Reading the class leaves the monitor where it was, but for a handle found to be a USB host.\<close>

lemma mtriple_is_usb_host_controller:
  assumes "h \<in> F" and "h \<notin> connected"
  shows "mtriple (enum_step False most) (mid F n connected) (is_usb_host_controller fw h)
    (\<lambda>usb. mid F n (if usb then insert h connected else connected))"
proof -
  let ?K = "\<lambda>p q. mid F n connected q \<and> asked q = Some (h, p)"
  have read: "mtriple (enum_step False most) (?K p) (pci_read_class fw p)
      (\<lambda>(st, c) q. mid F n (if st = SUCCESS \<and> class_code c = 0x0c03 then insert h connected else connected) q)" for p
    unfolding pci_read_class_def
    by (rule mtriple_svc) (use assms in \<open>auto simp: enum_inv_def split: outcome.splits\<close>)
  have fetch: "mtriple (enum_step False most) (mid F n connected) (handle_protocol fw h PciIo)
      (\<lambda>r q. case r of Inl _ \<Rightarrow> mid F n connected q | Inr p \<Rightarrow> ?K p q)"
    unfolding handle_protocol_def
    by (rule mtriple_svc) (use assms in \<open>auto simp: enum_inv_def split: outcome.splits sum.splits\<close>)
  have fetched: "mtriple (enum_step False most) (mid F n connected)
      (map_err (err_of (fw_lib fw)) (handle_protocol fw h PciIo))
      (\<lambda>r q. case r of Inl _ \<Rightarrow> mid F n connected q | Inr p \<Rightarrow> ?K p q)"
    by (rule mtriple_map_err_same [OF fetch])
  have checked: "mtriple (enum_step False most) (?K p) (bnd (pci_read_class fw p) (\<lambda>(status, c).
       if status \<noteq> SUCCESS then ret (Inl (err_of (fw_lib fw) status)) else ret (Inr (class_code c))))
      (\<lambda>r q. case r of Inl _ \<Rightarrow> mid F n connected q
         | Inr c \<Rightarrow> mid F n (if c = 0x0c03 then insert h connected else connected) q)" for p
    by (rule mtriple_bnd [OF read]) (auto intro!: mtriple_ret)
  have cls: "mtriple (enum_step False most) (mid F n connected) (pci_class fw h)
      (\<lambda>r q. case r of Inl _ \<Rightarrow> mid F n connected q
         | Inr c \<Rightarrow> mid F n (if c = 0x0c03 then insert h connected else connected) q)"
    unfolding pci_class_def
    by (rule mtriple_try [OF fetched checked]) simp
  show ?thesis
    unfolding is_usb_host_controller_def by (rule mtriple_bnd [OF cls]) (auto split: sum.split intro: mtriple_ret)
qed

lemma mtriple_connect_one_skip_usb:
  assumes "h \<in> F"
  shows "mtriple (enum_step False most) (mid F n (fst a)) (connect_one_skip_usb fw h a)
    (marks F n (insert h (fst a)))"
proof (cases "h \<in> fst a")
  case False
  have connect: "mtriple (enum_step False most) (mid F n (fst a)) (connect_controller fw h False)
      (\<lambda>_. mid F n (insert h (fst a)))"
    unfolding connect_controller_def
    by (rule mtriple_svc) (use assms False in \<open>auto simp: enum_inv_def\<close>)
  have "mtriple (enum_step False most) (mid F n (if usb then insert h (fst a) else fst a))
      (if usb then ret (insert h (fst a), snd a)
       else bnd (connect_controller fw h False) (\<lambda>_. ret (insert h (fst a), snd a + 1)))
      (marks F n (insert h (fst a)))" for usb
    using connect by (auto simp: marks_def intro: mtriple_ret mtriple_bnd_ret)
  from mtriple_bnd [OF mtriple_is_usb_host_controller this] show ?thesis
    using assms False by (simp add: connect_one_skip_usb_def split_beta)
qed (auto simp: connect_one_skip_usb_def split_beta marks_def insert_absorb intro: mtriple_ret)

subsection \<open>The passes\<close>

text \<open>What a loop body promises to the loop over a buffer.\<close>

abbreviation body_ok ::
  "bool \<Rightarrow> nat \<Rightarrow> (handle \<Rightarrow> handle set \<times> nat \<Rightarrow> ('w, 'dp, handle set \<times> nat) boot) \<Rightarrow> bool" where
  "body_ok rec most one \<equiv> (\<forall>F n h a. h \<in> F \<longrightarrow>
     mtriple (enum_step rec most) (mid F n (fst a)) (one h a) (marks F n (insert h (fst a))))"

lemma mtriple_each_handle:
  assumes one: "body_ok rec most one"
  shows "set hs \<subseteq> F \<Longrightarrow>
    mtriple (enum_step rec most) (mid F n (fst a)) (each_acc one hs a) (marks F n (fst a \<union> set hs))"
proof (induction hs arbitrary: a)
  case (Cons h hs)
  have "mtriple (enum_step rec most) (marks F n (insert h (fst a)) b) (each_acc one hs b)
      (marks F n (fst a \<union> set (h # hs)))" for b
  proof -
    have "mtriple (enum_step rec most) (\<lambda>q. mid F n (fst b) q \<and> insert h (fst a) \<subseteq> fst b)
        (each_acc one hs b) (marks F n (fst a \<union> set (h # hs)))"
      by (rule mtriple_assume, rule mtriple_post [OF Cons.IH]) (use Cons.prems in \<open>auto simp: marks_def\<close>)
    then show ?thesis by (simp add: marks_def [abs_def])
  qed
  moreover have "mtriple (enum_step rec most) (mid F n (fst a)) (one h a) (marks F n (insert h (fst a)))"
    using one Cons.prems by (metis list.set_intros(1) subsetD)
  ultimately show ?case unfolding each_acc.simps by (rule mtriple_bnd [rotated])
qed (auto simp: marks_def intro: mtriple_ret)

definition all_tried :: "enum_state \<Rightarrow> bool" where
  "all_tried q \<longleftrightarrow> found q = set (attempted q) \<union> hosts q"

abbreviation pass_start :: "nat \<Rightarrow> handle set \<Rightarrow> enum_state \<Rightarrow> bool" where
  "pass_start n connected q \<equiv> enum_inv connected q \<and> passes q = n \<and> all_tried q"

lemma marks_all:
  assumes "marks F n F (c, k) q"
  shows "enum_inv c q" "passes q = n" "all_tried q"
  using assms unfolding marks_def enum_inv_def all_tried_def fst_conv by auto

lemma mtriple_connect_pass:
  assumes one: "body_ok rec most one" and n: "n < most"
  shows "mtriple (enum_step rec most) (pass_start n connected) (connect_pass fw one i connected)
    (\<lambda>r q. case r of Inl connected' \<Rightarrow> pass_start (Suc n) connected' q | Inr res \<Rightarrow> res = Inr () \<longrightarrow> all_tried q)"
proof -
  have locate: "mtriple (enum_step rec most) (pass_start n connected)
      (map_err (err_of (fw_lib fw)) (locate_handle_buffer fw AllHandle))
      (\<lambda>r q. case r of Inl _ \<Rightarrow> True | Inr hs \<Rightarrow> mid (connected \<union> set hs) (Suc n) connected q)"
    unfolding locate_handle_buffer_def
    by (rule mtriple_map_err_same, rule mtriple_svc)
      (use n in \<open>auto simp: enum_inv_def all_tried_def split: outcome.splits sum.splits\<close>)
  have each: "mtriple (enum_step rec most) (mid (connected \<union> set hs) (Suc n) connected)
      (each_acc one hs (connected, 0)) (marks (connected \<union> set hs) (Suc n) (connected \<union> set hs))" for hs
    using mtriple_each_handle [OF one, where F = "connected \<union> set hs" and n = "Suc n" and a = "(connected, 0)"]
    by simp
  have body: "mtriple (enum_step rec most) (mid (connected \<union> set hs) (Suc n) connected)
      (bnd (each_acc one hs (connected, 0)) (\<lambda>(connected', newly).
         if newly = 0 then ret (Inr (Inr ())) else ret (Inl connected')))
      (\<lambda>r q. case r of Inl connected' \<Rightarrow> pass_start (Suc n) connected' q | Inr res \<Rightarrow> res = Inr () \<longrightarrow> all_tried q)" for hs
    by (rule mtriple_bnd [OF each]) (auto intro!: mtriple_ret, (erule marks_all)+)
  show ?thesis
    unfolding connect_pass_def
    by (rule mtriple_bnd [OF locate], rule mtriple_sum) (simp_all add: mtriple_ret body)
qed

lemma mtriple_passes:
  assumes one: "body_ok rec most one"
  shows "n \<le> most \<Longrightarrow> mtriple (enum_step rec most) (pass_start n connected)
    (each_acc_until (connect_pass fw one) [n..<most] connected)
    (\<lambda>r q. case r of Inl _ \<Rightarrow> all_tried q | Inr res \<Rightarrow> res = Inr () \<longrightarrow> all_tried q)"
proof (induction "most - n" arbitrary: n connected)
  case 0
  then show ?case by (auto intro!: mtriple_ret)
next
  case (Suc k)
  then have n: "n < most" "[n..<most] = n # [Suc n..<most]" by (simp_all add: upt_conv_Cons)
  show ?case
    unfolding n(2) each_acc_until.simps
    by (rule mtriple_bnd [OF mtriple_connect_pass [OF one n(1)]])
      (use Suc n(1) in \<open>auto split: sum.split intro!: mtriple_ret Suc.hyps(1)\<close>)
qed

lemma mtriple_connect_passes:
  assumes one: "body_ok rec most one"
  shows "mtriple (enum_step rec most) (\<lambda>q. q = enum_start) (connect_passes fw most one)
    (\<lambda>r q. r = Inr () \<longrightarrow> all_tried q)"
proof -
  have "mtriple (enum_step rec most) (\<lambda>q. q = enum_start)
      (each_acc_until (connect_pass fw one) [0..<most] {})
      (\<lambda>r q. case r of Inl _ \<Rightarrow> all_tried q | Inr res \<Rightarrow> res = Inr () \<longrightarrow> all_tried q)"
    by (rule mtriple_conseq [OF mtriple_passes [OF one, of 0 "{}"]])
      (auto simp: enum_start_def enum_inv_def all_tried_def)
  then show ?thesis
    unfolding connect_passes_def by (rule mtriple_bnd) (auto split: sum.split intro: mtriple_ret)
qed

lemma mtriple_connect_all:
  "mtriple (enum_step True 10) (\<lambda>q. q = enum_start) (connect_all fw) (\<lambda>r q. r = Inr () \<longrightarrow> all_tried q)"
  unfolding connect_all_def by (rule mtriple_connect_passes) (simp add: mtriple_connect_one)

lemma mtriple_connect_all_skip_usb:
  "mtriple (enum_step False 20) (\<lambda>q. q = enum_start) (connect_all_skip_usb fw) (\<lambda>r q. r = Inr () \<longrightarrow> all_tried q)"
  unfolding connect_all_skip_usb_def by (rule mtriple_connect_passes) (simp add: mtriple_connect_one_skip_usb)

subsection \<open>What acceptance says of the log\<close>

text \<open>The handles a log connects, lists, and shows to be USB host controllers.\<close>

fun connects :: "'dp event list \<Rightarrow> handle list" where
  "connects [] = []"
| "connects (EvConnect h rec r # es) = h # connects es"
| "connects (_ # es) = connects es"

fun listed :: "'dp event list \<Rightarrow> handle set" where
  "listed [] = {}"
| "listed (EvLocateHandles sr r # es) = (case r of Ret (Inr hs) \<Rightarrow> set hs | _ \<Rightarrow> {}) \<union> listed es"
| "listed (_ # es) = listed es"

definition handle_queries :: "'dp event list \<Rightarrow> nat" where
  "handle_queries es = length (filter (\<lambda>e. \<exists>sr r. e = EvLocateHandles sr r) es)"

definition read_as_usb_host :: "handle \<Rightarrow> 'dp event list \<Rightarrow> bool" where
  "read_as_usb_host h es \<longleftrightarrow> (\<exists>pre p c post. es = pre @ EvHandleProtocol h PciIo (Ret (Inr p)) #
     EvPciClass p (Ret (SUCCESS, c)) # post \<and> class_code c = 0x0c03)"

lemma connects_snoc: "connects (es @ [e]) = connects es @ connects [e]"
  by (induction es rule: connects.induct) simp_all

lemma listed_snoc: "listed (es @ [e]) = listed es \<union> listed [e]"
  by (induction es rule: listed.induct) auto

lemma handle_queries_snoc: "handle_queries (es @ [e]) = handle_queries es + handle_queries [e]"
  by (simp add: handle_queries_def)

lemma read_as_usb_host_snocD:
  assumes "read_as_usb_host h (es @ [e])"
  shows "read_as_usb_host h es \<or> (\<exists>pre p c. es = pre @ [EvHandleProtocol h PciIo (Ret (Inr p))] \<and>
    e = EvPciClass p (Ret (SUCCESS, c)) \<and> class_code c = 0x0c03)"
proof -
  from assms obtain pre p c post where d: "es @ [e] = pre @ EvHandleProtocol h PciIo (Ret (Inr p)) #
      EvPciClass p (Ret (SUCCESS, c)) # post" "class_code c = 0x0c03"
    unfolding read_as_usb_host_def by blast
  then show ?thesis
    by (cases post rule: rev_cases) (fastforce simp: read_as_usb_host_def)+
qed

lemma usb_hosts_snoc:
  "{h. read_as_usb_host h (es @ [e])} = {h. read_as_usb_host h es} \<union>
    {h. \<exists>pre p c. es = pre @ [EvHandleProtocol h PciIo (Ret (Inr p))] \<and>
       e = EvPciClass p (Ret (SUCCESS, c)) \<and> class_code c = 0x0c03}"
proof (rule set_eqI, unfold mem_Collect_eq Un_iff, rule iffI)
  fix h assume "read_as_usb_host h (es @ [e])"
  then show "read_as_usb_host h es \<or> (\<exists>pre p c. es = pre @ [EvHandleProtocol h PciIo (Ret (Inr p))] \<and>
      e = EvPciClass p (Ret (SUCCESS, c)) \<and> class_code c = 0x0c03)"
    by (rule read_as_usb_host_snocD)
next
  fix h
  have "read_as_usb_host h es \<Longrightarrow> read_as_usb_host h (es @ [e])"
    unfolding read_as_usb_host_def by fastforce
  moreover have "read_as_usb_host h ((pre @ [EvHandleProtocol h PciIo (Ret (Inr p))]) @ [EvPciClass p (Ret (SUCCESS, c))])"
    if "class_code c = 0x0c03" for pre p c
    using that unfolding read_as_usb_host_def by (intro exI [of _ pre] exI [of _ p] exI [of _ c] exI [of _ "[]"]) simp
  moreover assume "read_as_usb_host h es \<or> (\<exists>pre p c. es = pre @ [EvHandleProtocol h PciIo (Ret (Inr p))] \<and>
      e = EvPciClass p (Ret (SUCCESS, c)) \<and> class_code c = 0x0c03)"
  ultimately show "read_as_usb_host h (es @ [e])" by (elim disjE exE conjE) simp_all
qed

text \<open>The monitor's state is a summary of the log it has accepted.\<close>

definition enum_holds :: "enum_state \<Rightarrow> 'dp event list \<Rightarrow> bool" where
  "enum_holds q es \<longleftrightarrow> attempted q = connects es \<and> found q = listed es \<and> passes q = handle_queries es \<and>
     hosts q = {h. read_as_usb_host h es} \<and>
     (\<forall>h p. asked q = Some (h, p) \<longleftrightarrow> (\<exists>pre. es = pre @ [EvHandleProtocol h PciIo (Ret (Inr p))]))"

lemma enum_holds_start: "enum_holds enum_start []"
  by (simp add: enum_holds_def enum_start_def handle_queries_def read_as_usb_host_def)

lemma enum_step_holds:
  assumes q: "enum_holds q es" and step: "enum_step rec most q e = Some q'"
  shows "enum_holds q' (es @ [e])"
proof (cases e)
  case (EvPciClass p r)
  then obtain h where h: "asked q = Some (h, p)" and q': "q' = q\<lparr>asked := None, hosts := (case r of
      Ret (st, c) \<Rightarrow> if st = SUCCESS \<and> class_code c = 0x0c03 then insert h (hosts q) else hosts q
    | _ \<Rightarrow> hosts q)\<rparr>"
    using step by (auto split: option.splits prod.splits if_splits)
  obtain pre where es: "es = pre @ [EvHandleProtocol h PciIo (Ret (Inr p))]"
    using q h unfolding enum_holds_def by blast
  have "hosts q' = {h. read_as_usb_host h (es @ [e])}"
    using q q' es EvPciClass unfolding usb_hosts_snoc
    by (auto simp: enum_holds_def split: outcome.splits prod.splits)
  then show ?thesis
    using q q' EvPciClass by (simp add: enum_holds_def connects_snoc listed_snoc handle_queries_snoc handle_queries_def)
next
  case (EvLocateHandles sr r)
  then have "q' = q\<lparr>passes := passes q + 1, asked := None, found := found q \<union> listed [e]\<rparr>"
    using step by (auto split: if_splits outcome.splits sum.splits)
  then show ?thesis
    using q EvLocateHandles
    by (simp add: enum_holds_def connects_snoc listed_snoc handle_queries_snoc usb_hosts_snoc handle_queries_def)
next
  case (EvConnect h rec' r)
  then have "q' = q\<lparr>attempted := attempted q @ [h], asked := None\<rparr>"
    using step by (auto split: if_splits)
  then show ?thesis
    using q EvConnect
    by (simp add: enum_holds_def connects_snoc listed_snoc handle_queries_snoc usb_hosts_snoc handle_queries_def)
next
  case (EvHandleProtocol h g r)
  then have "g = PciIo" and "q' = q\<lparr>asked := (case r of Ret (Inr p) \<Rightarrow> Some (h, p) | _ \<Rightarrow> None)\<rparr>"
    using step by (auto split: if_splits)
  then show ?thesis
    using q EvHandleProtocol
    by (auto simp: enum_holds_def connects_snoc listed_snoc handle_queries_snoc usb_hosts_snoc handle_queries_def
        split: outcome.splits sum.splits)
qed (use step in simp_all)

lemma monitor_enum_holds:
  "enum_holds q es \<Longrightarrow> monitor (enum_step rec most) q fs = Some q' \<Longrightarrow> enum_holds q' (es @ fs)"
proof (induction fs arbitrary: q es)
  case (Cons f fs)
  obtain q1 where "enum_step rec most q f = Some q1" "monitor (enum_step rec most) q1 fs = Some q'"
    using Cons.prems(2) by (auto simp del: enum_step.simps split: option.splits)
  then show ?case using Cons.IH [of q1 "es @ [f]"] enum_step_holds [OF Cons.prems(1)] by simp
qed simp

definition enum_ok :: "nat \<Rightarrow> enum_state \<Rightarrow> bool" where
  "enum_ok most q \<longleftrightarrow> distinct (attempted q) \<and> set (attempted q) \<subseteq> found q \<and>
     set (attempted q) \<inter> hosts q = {} \<and> passes q \<le> most"

lemma enum_step_ok: "enum_ok most q \<Longrightarrow> enum_step rec most q e = Some q' \<Longrightarrow> enum_ok most q'"
  by (cases e)
    (auto simp: enum_ok_def split: if_splits option.splits outcome.splits sum.splits, blast+)

lemma monitor_enum_ok: "enum_ok most q \<Longrightarrow> monitor (enum_step rec most) q fs = Some q' \<Longrightarrow> enum_ok most q'"
proof (induction fs arbitrary: q)
  case (Cons f fs)
  obtain q1 where "enum_step rec most q f = Some q1" "monitor (enum_step rec most) q1 fs = Some q'"
    using Cons.prems(2) by (auto simp del: enum_step.simps split: option.splits)
  then show ?case using Cons.IH [of q1] enum_step_ok [OF Cons.prems(1)] by blast
qed simp

lemma enum_summary:
  assumes "mtriple (enum_step rec most) (\<lambda>q. q = enum_start) m (\<lambda>r q. r = Inr () \<longrightarrow> all_tried q)"
    and "m s = (r, s')"
  obtains es where "trace s' = trace s @ es" and "distinct (connects es)"
    and "set (connects es) \<subseteq> listed es" and "handle_queries es \<le> most"
    and "\<forall>h \<in> set (connects es). \<not> read_as_usb_host h es"
    and "r = Ret (Inr ()) \<longrightarrow> listed es = set (connects es) \<union> {h. read_as_usb_host h es}"
proof -
  obtain es q where es: "trace s' = trace s @ es" "monitor (enum_step rec most) enum_start es = Some q"
    and q: "\<And>x. r = Ret x \<Longrightarrow> x = Inr () \<longrightarrow> all_tried q"
    using mtripleE [OF assms(1) refl assms(2)] by blast
  have "enum_holds q es" using monitor_enum_holds [OF enum_holds_start es(2)] by simp
  then have sum: "attempted q = connects es" "found q = listed es" "passes q = handle_queries es"
      "hosts q = {h. read_as_usb_host h es}"
    by (simp_all add: enum_holds_def)
  have "enum_ok most q"
    using monitor_enum_ok [OF _ es(2)] by (simp add: enum_ok_def enum_start_def)
  then show thesis
    using that [OF es(1)] q unfolding enum_ok_def all_tried_def sum by blast
qed

fun is_enum_event :: "'dp event \<Rightarrow> bool" where
  "is_enum_event (EvLocateHandles sr r) = True"
| "is_enum_event (EvHandleProtocol h g r) = True"
| "is_enum_event (EvPciClass p r) = True"
| "is_enum_event (EvConnect h rec r) = True"
| "is_enum_event _ = False"

lemma is_enum_event_quiet: "is_enum_event e \<Longrightarrow> quiet e"
  by (cases e) simp_all

lemma emits_connect_all: "emits (\<lambda>e. is_enum_event e \<and> (\<forall>p r. e \<noteq> EvPciClass p r)) (connect_all fw)"
  unfolding connect_all_def connect_passes_def connect_pass_def connect_one_def call_defs
  by (intro emits_rules) simp_all

lemma emits_connect_all_skip_usb: "emits is_enum_event (connect_all_skip_usb fw)"
  unfolding connect_all_skip_usb_def connect_passes_def connect_pass_def connect_one_skip_usb_def
    is_usb_host_controller_def pci_class_def call_defs
  by (intro emits_rules) simp_all

lemma no_pci_no_hosts:
  "(\<forall>e \<in> set es. \<forall>p r. e \<noteq> EvPciClass p r) \<Longrightarrow> \<not> read_as_usb_host h es"
  unfolding read_as_usb_host_def by auto

subsection \<open>The strategy interface\<close>

text \<open>
  What the boot flows need of a strategy: it enumerates and connects, and never takes part in
  the security transition or in starting images.
\<close>

locale connect_strategy =
  fixes fw :: "('w, 'dp) firmware"
    and connect :: "('w, 'dp, efi_error + unit) boot"
  assumes connect_quiet: "emits quiet connect"
begin

lemma interleave_quiet: "emits quiet (interleave_connect_and_dispatch fuel fw connect)"
  unfolding interleave_connect_and_dispatch_def interleave_round_def total_handle_count_def call_defs
  by (intro emits_rules connect_quiet) simp_all

end

interpretation connect_all: connect_strategy fw "strategy_connect fw ConnectAllStrategy" for fw
  by unfold_locales
    (use emits_mono [OF emits_connect_all [of fw], of quiet] is_enum_event_quiet in auto)

interpretation connect_skip_usb: connect_strategy fw "connect_all_skip_usb fw" for fw
  by unfold_locales (rule emits_mono [OF emits_connect_all_skip_usb is_enum_event_quiet])

subsection \<open>Interleaving comes to an end\<close>

text \<open>
  The platform hypothesis: \<open>count\<close> handles exist in a state, looking them up changes nothing,
  and the two steps of a round return, never remove handles and never take them beyond \<open>most\<close>.
\<close>

definition counts_handles :: "('w, 'dp) firmware \<Rightarrow> ('w \<Rightarrow> nat) \<Rightarrow> bool" where
  "counts_handles fw count \<longleftrightarrow> (\<forall>w. \<exists>hs. fw_locate_handle_buffer fw AllHandle w = (Ret (Inr hs), w) \<and> length hs = count w)"

definition only_adds :: "('w \<Rightarrow> nat) \<Rightarrow> nat \<Rightarrow> ('w, 'dp, efi_error + 'a) boot \<Rightarrow> bool" where
  "only_adds count most m \<longleftrightarrow> (\<forall>s. count (world s) \<le> most \<longrightarrow>
     (\<exists>r s'. m s = (Ret r, s') \<and> count (world s) \<le> count (world s') \<and> count (world s') \<le> most))"

lemma total_handle_count_run:
  assumes "counts_handles fw count"
  obtains s' where "total_handle_count fw s = (Ret (Inr (count (world s))), s')" and "world s' = world s"
proof -
  obtain hs where "fw_locate_handle_buffer fw AllHandle (world s) = (Ret (Inr hs), world s)"
    "length hs = count (world s)"
    using assms unfolding counts_handles_def by blast
  then have "locate_handle_buffer fw AllHandle s =
      (Ret (Inr hs), s\<lparr>world := world s, trace := trace s @ [EvLocateHandles AllHandle (Ret (Inr hs))]\<rparr>)"
    by (simp add: locate_handle_buffer_def svc_def)
  then show thesis
    using that \<open>length hs = _\<close>
    by (auto simp: total_handle_count_def map_err_def bnd_assoc bnd_Ret)
qed

lemma interleave_round_run:
  fixes s :: "('w, 'dp) st"
  assumes fw: "counts_handles fw count" and connect: "only_adds count most connect"
    and dispatch: "only_adds count most (dispatch fw)" and s: "count (world s) \<le> most"
  obtains r s' where "interleave_round fw connect prev s = (Ret r, s')"
    and "\<And>c. r = Inl c \<Longrightarrow> c = count (world s') \<and> c \<noteq> prev"
    and "count (world s) \<le> count (world s')" and "count (world s') \<le> most"
proof -
  obtain r1 s1 where 1: "connect s = (Ret r1, s1)" "count (world s) \<le> count (world s1)" "count (world s1) \<le> most"
    using connect s unfolding only_adds_def by blast
  obtain r2 s2 where 2: "dispatch fw s1 = (Ret r2, s2)" "count (world s1) \<le> count (world s2)" "count (world s2) \<le> most"
    using dispatch 1(3) unfolding only_adds_def by blast
  obtain s3 where 3: "total_handle_count fw s2 = (Ret (Inr (count (world s2))), s3)" "world s3 = world s2"
    by (rule total_handle_count_run [OF fw])
  show thesis
  proof (cases r1)
    case (Inl e)
    then have "interleave_round fw connect prev s = (Ret (Inr (Inl e)), s1)"
      by (simp add: interleave_round_def tryE_def bnd_def 1(1) ret_run)
    then show thesis by (rule that) (use 1 in simp_all)
  next
    case r1: (Inr u)
    show thesis
    proof (cases r2)
      case (Inl e)
      with r1 have "interleave_round fw connect prev s = (Ret (Inr (Inl e)), s2)"
        by (simp add: interleave_round_def tryE_def bnd_def 1(1) 2(1) ret_run)
      then show thesis by (rule that) (use 1 2 in simp_all)
    next
      case (Inr v)
      let ?r = "if count (world s2) = prev then Inr (Inr ()) else Inl (count (world s2))"
      have "interleave_round fw connect prev s = (Ret ?r, s3)"
        using r1 Inr
        by (simp add: interleave_round_def tryE_def bnd_def 1(1) 2(1) 3(1) ret_run)
      then show thesis
        by (rule that) (use 1(2) 2(2,3) 3(2) in \<open>simp_all split: if_splits\<close>)
    qed
  qed
qed

lemma interleave_loop_returns:
  fixes s :: "('w, 'dp) st"
  assumes fw: "counts_handles fw count" and connect: "only_adds count most connect"
    and dispatch: "only_adds count most (dispatch fw)"
  shows "count (world s) \<le> most \<Longrightarrow> prev \<le> count (world s) \<Longrightarrow> most - prev < fuel \<Longrightarrow>
    \<exists>x s'. loop fuel (interleave_round fw connect) prev s = (Ret x, s')"
proof (induction fuel arbitrary: prev s)
  case (Suc fuel)
  obtain r s' where r: "interleave_round fw connect prev s = (Ret r, s')"
    "\<And>c. r = Inl c \<Longrightarrow> c = count (world s') \<and> c \<noteq> prev"
    "count (world s) \<le> count (world s')" "count (world s') \<le> most"
    using interleave_round_run [OF assms Suc.prems(1)] by metis
  show ?case
  proof (cases r)
    case (Inl c)
    with r Suc.prems have "most - c < fuel" by auto
    with r(2) [OF Inl] r(4) Suc.IH [of s' c] show ?thesis
      by (simp add: bnd_def r(1) Inl)
  qed (simp add: bnd_def r(1))
qed simp

lemma interleave_returns:
  fixes s :: "('w, 'dp) st"
  assumes "counts_handles fw count" and "only_adds count most connect"
    and "only_adds count most (dispatch fw)" and "count (world s) \<le> most" and "most - count (world s) < fuel"
  shows "\<exists>x s'. interleave_connect_and_dispatch fuel fw connect s = (Ret x, s')"
proof -
  obtain s1 where 1: "total_handle_count fw s = (Ret (Inr (count (world s))), s1)" "world s1 = world s"
    by (rule total_handle_count_run [OF assms(1)])
  then show ?thesis
    using interleave_loop_returns [OF assms(1-3), of s1 "count (world s)" fuel] assms(4,5)
    by (simp add: interleave_connect_and_dispatch_def tryE_def bnd_def 1(1))
qed

end
