(* ===== verification/BootExpand.thy ===== *)
theory BootExpand
  imports BootLock
begin

text \<open>
  The contract of \<open>expand_device_path\<close> (\<open>helpers.rs\<close>): on a platform whose lookup services
  answer without changing anything, a short-form path expands exactly when one handle's path
  holds the partition it names, and then to that handle's path up to the partition followed by
  what the short form has after it.
\<close>

subsection \<open>Lookups that change nothing\<close>

text \<open>The handles a search finds, and the path installed on a handle, in a platform state.\<close>

definition pure_lookup :: "('w, 'r) sem \<Rightarrow> bool" where
  "pure_lookup f \<longleftrightarrow> (\<forall>w. \<exists>r. f w = (Ret r, w))"

definition pure_lookups :: "('w, 'dp) firmware \<Rightarrow> bool" where
  "pure_lookups fw \<longleftrightarrow> (\<forall>sr. pure_lookup (fw_locate_handle_buffer fw sr)) \<and>
     (\<forall>h g. pure_lookup (fw_handle_protocol fw h g))"

fun ret_val :: "'a outcome \<times> 'w \<Rightarrow> 'a option" where
  "ret_val (Ret x, w) = Some x"
| "ret_val _ = None"

definition handles_found :: "('w, 'dp) firmware \<Rightarrow> search \<Rightarrow> 'w \<Rightarrow> efi_status + handle list" where
  "handles_found fw sr w = the (ret_val (fw_locate_handle_buffer fw sr w))"

definition protocol_found :: "('w, 'dp) firmware \<Rightarrow> handle \<Rightarrow> guid \<Rightarrow> 'w \<Rightarrow> efi_status + ptr" where
  "protocol_found fw h g w = the (ret_val (fw_handle_protocol fw h g w))"

definition path_found :: "('w, 'dp) firmware \<Rightarrow> 'w \<Rightarrow> handle \<Rightarrow> 'dp option" where
  "path_found fw w h = (case protocol_found fw h DevicePathProtocol w of
     Inl _ \<Rightarrow> None | Inr dp_ptr \<Rightarrow> dp_from_ptr (fw_lib fw) (fw_mem fw w dp_ptr))"

text \<open>A program that returns \<open>x\<close>, leaves the platform alone and logs something.\<close>

definition reads :: "('w, 'dp, 'a) boot \<Rightarrow> ('w \<Rightarrow> 'a) \<Rightarrow> bool" where
  "reads m f \<longleftrightarrow> (\<forall>s. \<exists>es. m s = (Ret (f (world s)), s\<lparr>trace := trace s @ es\<rparr>))"

lemma readsE:
  assumes "reads m f" obtains es where "m s = (Ret (f (world s)), s\<lparr>trace := trace s @ es\<rparr>)"
  using assms unfolding reads_def by blast

lemma reads_ret: "reads (ret x) (\<lambda>_. x)"
  unfolding reads_def by (intro allI exI [of _ "[]"]) simp

lemma reads_peek: "reads (peek f) f"
  unfolding reads_def peek_def by (intro allI exI [of _ "[]"]) simp

lemma reads_bnd:
  assumes m: "reads m f" and k: "\<And>x. reads (k x) (g x)"
  shows "reads (bnd m k) (\<lambda>w. g (f w) w)"
  unfolding reads_def
proof
  fix s
  obtain es where es: "m s = (Ret (f (world s)), s\<lparr>trace := trace s @ es\<rparr>)" using m by (rule readsE)
  obtain fs where "k (f (world s)) (s\<lparr>trace := trace s @ es\<rparr>) =
      (Ret (g (f (world s)) (world s)), s\<lparr>trace := trace s @ es @ fs\<rparr>)"
    using readsE [OF k, of "f (world s)" "s\<lparr>trace := trace s @ es\<rparr>"] by auto
  with es show "\<exists>es. bnd m k s = (Ret (g (f (world s)) (world s)), s\<lparr>trace := trace s @ es\<rparr>)"
    by (auto simp: bnd_Ret)
qed

lemma reads_cong: "reads m f \<Longrightarrow> (\<And>w. f w = g w) \<Longrightarrow> reads m g"
  by (simp add: reads_def)

lemma reads_svc:
  fixes f :: "('w, 'r) sem" and mk :: "'r outcome \<Rightarrow> 'dp event"
  assumes "pure_lookup f"
  shows "reads (svc f mk) (\<lambda>w. the (ret_val (f w)))"
  unfolding reads_def
proof
  fix s :: "('w, 'dp) st"
  obtain r where "f (world s) = (Ret r, world s)" using assms unfolding pure_lookup_def by blast
  then show "\<exists>es. svc f mk s = (Ret (the (ret_val (f (world s)))), s\<lparr>trace := trace s @ es\<rparr>)"
    by (auto simp: svc_def)
qed

lemma reads_locate:
  "pure_lookups fw \<Longrightarrow> reads (locate_handle_buffer fw sr) (handles_found fw sr)"
  using reads_svc [of "fw_locate_handle_buffer fw sr"]
  by (simp add: pure_lookups_def locate_handle_buffer_def handles_found_def [abs_def])

lemma reads_handle_protocol:
  "pure_lookups fw \<Longrightarrow> reads (handle_protocol fw h g) (protocol_found fw h g)"
  using reads_svc [of "fw_handle_protocol fw h g"]
  by (simp add: pure_lookups_def handle_protocol_def protocol_found_def [abs_def])

lemma reads_handle_device_path:
  assumes "pure_lookups fw"
  shows "reads (handle_device_path fw h) (\<lambda>w. path_found fw w h)"
proof -
  have "reads (case r of Inl _ \<Rightarrow> ret None
      | Inr dp_ptr \<Rightarrow> peek (\<lambda>w. dp_from_ptr (fw_lib fw) (fw_mem fw w dp_ptr)))
      (\<lambda>w. case r of Inl _ \<Rightarrow> None | Inr dp_ptr \<Rightarrow> dp_from_ptr (fw_lib fw) (fw_mem fw w dp_ptr))" for r
    by (cases r) (simp_all add: reads_ret reads_peek)
  from reads_bnd [OF reads_handle_protocol [OF assms] this]
  show ?thesis by (simp add: handle_device_path_def path_found_def)
qed

primrec fold_until :: "('x \<Rightarrow> 'a \<Rightarrow> 'a + 'r) \<Rightarrow> 'x list \<Rightarrow> 'a \<Rightarrow> 'a + 'r" where
  "fold_until f [] a = Inl a"
| "fold_until f (x # xs) a = (case f x a of Inl a' \<Rightarrow> fold_until f xs a' | Inr y \<Rightarrow> Inr y)"

lemma reads_each_acc_until:
  assumes "\<And>x a. reads (body x a) (f x a)"
  shows "reads (each_acc_until body xs a) (\<lambda>w. fold_until (\<lambda>x a. f x a w) xs a)"
proof (induction xs arbitrary: a)
  case (Cons x xs)
  have "reads (case r of Inl a' \<Rightarrow> each_acc_until body xs a' | Inr y \<Rightarrow> ret (Inr y))
      (\<lambda>w. case r of Inl a' \<Rightarrow> fold_until (\<lambda>x a. f x a w) xs a' | Inr y \<Rightarrow> Inr y)" for r
    using Cons by (cases r) (simp_all add: reads_ret)
  from reads_bnd [OF assms this] show ?case by simp
qed (simp add: reads_ret)

subsection \<open>The contract\<close>

definition has_identity :: "'dp patina \<Rightarrow> hard_drive \<Rightarrow> dp_node \<Rightarrow> bool" where
  "has_identity lib target n = (case hd_of_node lib n of
     Some drive \<Rightarrow> hard_drive_identity_matches drive target | None \<Rightarrow> False)"

text \<open>The nodes up to and including the first that names the partition, none past the end node.\<close>

definition up_to_partition :: "'dp patina \<Rightarrow> hard_drive \<Rightarrow> dp_node list \<Rightarrow> dp_node list option" where
  "up_to_partition lib target ns = (let body = takeWhile (\<lambda>n. ntype n \<noteq> T_END) ns in
     case dropWhile (\<lambda>n. \<not> has_identity lib target n) body of
       [] \<Rightarrow> None
     | n # _ \<Rightarrow> Some (takeWhile (\<lambda>n. \<not> has_identity lib target n) body @ [n]))"

definition after_partition :: "'dp patina \<Rightarrow> dp_node list \<Rightarrow> dp_node list" where
  "after_partition lib ns = filter (\<lambda>n. ntype n \<noteq> T_END) (drop 1 (dropWhile (\<lambda>n. hd_of_node lib n = None) ns))"

definition expansion_at :: "('w, 'dp) firmware \<Rightarrow> 'w \<Rightarrow> hard_drive \<Rightarrow> 'dp \<Rightarrow> handle \<Rightarrow> 'dp option" where
  "expansion_at fw w target rest h = (case path_found fw w h of
       None \<Rightarrow> None
     | Some p \<Rightarrow> map_option (\<lambda>ns. dp_append (fw_lib fw) (dp_of_nodes (fw_lib fw) ns) rest)
         (up_to_partition (fw_lib fw) target (dp_nodes (fw_lib fw) p)))"

definition expand_spec :: "('w, 'dp) firmware \<Rightarrow> 'w \<Rightarrow> 'dp \<Rightarrow> efi_error + 'dp" where
  "expand_spec fw w partial_path = (let lib = fw_lib fw; nodes = dp_nodes lib partial_path in
     if nodes = [] \<or> ntype (hd nodes) = T_END then Inl InvalidParameter
     else if \<not> is_partial_device_path lib partial_path then Inr partial_path
     else case List.map_filter (hd_of_node lib) nodes of
       [] \<Rightarrow> Inl InvalidParameter
     | target # _ \<Rightarrow> (case handles_found fw (ByProtocol DevicePathProtocol) w of
         Inl status \<Rightarrow> Inl (err_of lib status)
       | Inr hs \<Rightarrow> (case List.map_filter (expansion_at fw w target
             (dp_of_nodes lib (after_partition lib nodes))) hs of
           [] \<Rightarrow> Inl NotFound
         | [p] \<Rightarrow> Inr p
         | _ \<Rightarrow> Inl SecurityViolation)))"

lemma up_to_partition_simps:
  "up_to_partition lib target [] = None"
  "up_to_partition lib target (n # ns) = (if ntype n = T_END then None
     else if has_identity lib target n then Some [n]
     else map_option ((#) n) (up_to_partition lib target ns))"
  by (simp_all add: up_to_partition_def Let_def del: dropWhile_eq_Nil_conv split: list.split)

lemma prefix_walk_eq:
  "prefix_walk lib target ns acc = (case up_to_partition lib target ns of
     Some pre \<Rightarrow> (acc @ pre, True)
   | None \<Rightarrow> (acc @ takeWhile (\<lambda>n. ntype n \<noteq> T_END) ns, False))"
proof (induction ns arbitrary: acc)
  case (Cons n ns)
  have "prefix_walk lib target (n # ns) acc =
      (if ntype n = T_END then (acc, False)
       else if has_identity lib target n then (acc @ [n], True)
       else prefix_walk lib target ns (acc @ [n]))"
    by (simp add: has_identity_def)
  then show ?case
    by (simp add: Cons.IH up_to_partition_simps split: option.split)
qed (simp add: up_to_partition_simps)

lemma remaining_past: "remaining_nodes lib True ns = filter (\<lambda>n. ntype n \<noteq> T_END) ns"
  by (induction ns) auto

lemma remaining_nodes_eq: "remaining_nodes lib False ns = after_partition lib ns"
  by (induction ns) (auto simp: after_partition_def remaining_past)

lemma find_map_eq: "find_map f xs = (case List.map_filter f xs of [] \<Rightarrow> None | y # _ \<Rightarrow> Some y)"
  by (induction xs) (auto simp: map_filter_simps split: option.splits list.splits)

lemma fold_until_unique:
  "fold_until (\<lambda>x m. case g x of None \<Rightarrow> Inl m | Some y \<Rightarrow> if m \<noteq> None then Inr e else Inl (Some y)) xs m =
     (case (m, List.map_filter g xs) of
        (m, []) \<Rightarrow> Inl m
      | (None, [y]) \<Rightarrow> Inl (Some y)
      | _ \<Rightarrow> Inr e)"
  by (induction xs arbitrary: m) (auto simp: map_filter_simps split: option.splits list.splits)

lemma reads_map_err: "reads m f \<Longrightarrow> reads (map_err g m) (\<lambda>w. case f w of Inl e \<Rightarrow> Inl (g e) | Inr x \<Rightarrow> Inr x)"
  unfolding map_err_def
  by (rule reads_bnd [where g = "\<lambda>r _. case r of Inl e \<Rightarrow> Inl (g e) | Inr x \<Rightarrow> Inr x"])
    (auto split: sum.split intro: reads_ret)

lemma reads_tryE:
  "reads m f \<Longrightarrow> (\<And>x. reads (k x) (g x)) \<Longrightarrow>
   reads (tryE m k) (\<lambda>w. case f w of Inl e \<Rightarrow> Inl e | Inr x \<Rightarrow> g x w)"
  unfolding tryE_def
  by (rule reads_bnd [where g = "\<lambda>r w. case r of Inl e \<Rightarrow> Inl e | Inr x \<Rightarrow> g x w"])
    (auto split: sum.split intro: reads_ret)

text \<open>The search loop of the code, as a pure fold over what each handle's path expands to.\<close>

lemma reads_expand_step:
  assumes fw: "pure_lookups fw"
  shows "reads (expand_step fw target rest h m) (\<lambda>w. case expansion_at fw w target rest h of
     None \<Rightarrow> Inl m | Some y \<Rightarrow> if m \<noteq> None then Inr SecurityViolation else Inl (Some y))"
  unfolding expand_step_def
  by (rule reads_cong [OF reads_bnd [OF reads_handle_device_path [OF fw], where g = "\<lambda>r _. case r of
        None \<Rightarrow> Inl m | Some p \<Rightarrow> (case up_to_partition (fw_lib fw) target (dp_nodes (fw_lib fw) p) of
          None \<Rightarrow> Inl m | Some ns \<Rightarrow> if m \<noteq> None then Inr SecurityViolation
            else Inl (Some (dp_append (fw_lib fw) (dp_of_nodes (fw_lib fw) ns) rest)))"]])
    (auto simp: prefix_walk_eq reads_ret expansion_at_def split: option.splits)

lemma reads_search:
  assumes fw: "pure_lookups fw"
  shows "reads (bnd (each_acc_until (expand_step fw target rest) hs None) (\<lambda>r. case r of
      Inr e \<Rightarrow> ret (Inl e)
    | Inl matched_path \<Rightarrow> (case matched_path of Some path \<Rightarrow> ret (Inr path) | None \<Rightarrow> ret (Inl NotFound))))
    (\<lambda>w. case List.map_filter (expansion_at fw w target rest) hs of
       [] \<Rightarrow> Inl NotFound | [p] \<Rightarrow> Inr p | _ \<Rightarrow> Inl SecurityViolation)"
  by (rule reads_cong [OF reads_bnd [OF reads_each_acc_until [OF reads_expand_step [OF fw]], where g = "\<lambda>r _. case r of
        Inr e \<Rightarrow> Inl e | Inl matched \<Rightarrow> (case matched of Some path \<Rightarrow> Inr path | None \<Rightarrow> Inl NotFound)"]])
    (auto simp: fold_until_unique reads_ret split: list.split sum.split option.split)

lemma reads_expand_device_path:
  assumes fw: "pure_lookups fw"
  shows "reads (expand_device_path fw dp) (\<lambda>w. expand_spec fw w dp)"
proof -
  have "reads (tryE (map_err (err_of (fw_lib fw)) (locate_handle_buffer fw (ByProtocol DevicePathProtocol)))
      (\<lambda>hs. bnd (each_acc_until (expand_step fw target rest) hs None) (\<lambda>r. case r of
      Inr e \<Rightarrow> ret (Inl e)
    | Inl matched_path \<Rightarrow> (case matched_path of Some path \<Rightarrow> ret (Inr path) | None \<Rightarrow> ret (Inl NotFound)))))
      (\<lambda>w. case handles_found fw (ByProtocol DevicePathProtocol) w of
         Inl status \<Rightarrow> Inl (err_of (fw_lib fw) status)
       | Inr hs \<Rightarrow> (case List.map_filter (expansion_at fw w target rest) hs of
           [] \<Rightarrow> Inl NotFound | [p] \<Rightarrow> Inr p | _ \<Rightarrow> Inl SecurityViolation))" for target rest
    by (rule reads_cong [OF reads_tryE [OF reads_map_err [OF reads_locate [OF fw]] reads_search [OF fw]]])
      (auto split: sum.split)
  note search = this
  have real: "\<not> (case ns of [] \<Rightarrow> False | node # _ \<Rightarrow> ntype node \<noteq> T_END) \<longleftrightarrow> ns = [] \<or> ntype (hd ns) = T_END" for ns
    by (cases ns) auto
  show ?thesis
    unfolding expand_device_path_def expand_spec_def Let_def real find_map_eq remaining_nodes_eq
    by (cases "List.map_filter (hd_of_node (fw_lib fw)) (dp_nodes (fw_lib fw) dp)") (simp_all add: reads_ret search)
qed

end
