(* ===== verification/Fallback.thy ===== *)
theory Fallback
  imports BootExpand
begin

text \<open>
  \<open>fallback_boot_options\<close> of \<open>helpers.rs\<close>: boot candidates made from the connected filesystem
  volumes a policy approves, for a device without usable \<open>Boot####\<close> variables.
\<close>

text \<open>The target architecture picks the removable-media loader.\<close>

datatype arch = Aarch64 | X86_64

definition from_root :: "string list \<Rightarrow> ustr" where
  "from_root parts = concat (map (\<lambda>p. 0x5C # str_of p) parts)"

definition FALLBACK_OS_LOADER_PATHS :: "arch \<Rightarrow> ustr list" where
  "FALLBACK_OS_LOADER_PATHS a =
     [from_root [''EFI'', ''Microsoft'', ''Boot'', ''bootmgfw.efi''],
      case a of Aarch64 \<Rightarrow> from_root [''EFI'', ''Boot'', ''bootaa64.efi'']
        | X86_64 \<Rightarrow> from_root [''EFI'', ''Boot'', ''bootx64.efi'']]"

definition approved_volume ::
  "('w, 'dp) firmware \<Rightarrow> 'dp boot_source_policy \<Rightarrow> handle \<Rightarrow> 'dp list \<Rightarrow> ('w, 'dp, 'dp list) boot" where
  "approved_volume fw policy h volumes = bnd (handle_device_path fw h) (\<lambda>r. case r of
      None \<Rightarrow> ret volumes
    | Some volume_path \<Rightarrow> if allows_device (fw_lib fw) policy volume_path then ret (volumes @ [volume_path])
        else ret volumes)"

definition fallback_candidate :: "'dp patina \<Rightarrow> ustr \<Rightarrow> 'dp \<Rightarrow> 'dp" where
  "fallback_candidate lib loader volume = dp_append lib volume (dp_of_nodes lib [file_path_node lib loader])"

definition fallback_boot_options ::
  "arch \<Rightarrow> ('w, 'dp) firmware \<Rightarrow> 'dp boot_source_policy \<Rightarrow> ('w, 'dp, efi_error + 'dp list) boot" where
  "fallback_boot_options a fw policy = (let lib = fw_lib fw in
     if \<not> has_sources lib policy then ret (Inl NotFound)
     else tryE (secure_boot_state fw) (\<lambda>security_state.
       if \<not> allows_security_state policy security_state then ret (Inl SecurityViolation)
       else tryE (map_err (err_of lib) (locate_handle_buffer fw (ByProtocol SimpleFileSystem))) (\<lambda>handles.
         bnd (each_acc (approved_volume fw policy) handles []) (\<lambda>volumes.
           if volumes = [] then ret (Inl NotFound)
           else ret (Inr (concat (map (\<lambda>loader. map (fallback_candidate lib loader) volumes)
             (FALLBACK_OS_LOADER_PATHS a))))))))"

subsection \<open>The contract\<close>

definition secure_state_of :: "'dp patina \<Rightarrow> (string \<Rightarrow> efi_status + bytes) \<Rightarrow> efi_error + secure_boot_state" where
  "secure_state_of lib vars = (case (vars ''SecureBoot'', vars ''SetupMode'') of
      (Inl e, _) \<Rightarrow> Inl (err_of lib e)
    | (Inr _, v) \<Rightarrow> (case state_byte (vars ''SecureBoot'') of None \<Rightarrow> Inl SecurityViolation
        | Some a \<Rightarrow> (case v of Inl e \<Rightarrow> Inl (err_of lib e)
            | Inr _ \<Rightarrow> (case state_byte v of None \<Rightarrow> Inl SecurityViolation
                | Some b \<Rightarrow> if a = 1 \<and> b = 0 then Inr Enabled else if a = 0 \<and> b = 0 then Inr Disabled
                    else if a = 0 \<and> b = 1 then Inr SetupMode else Inl SecurityViolation))))"

text \<open>The volumes of the listed handles that the policy approves, in the order listed.\<close>

definition volumes_of :: "('w, 'dp) firmware \<Rightarrow> 'dp boot_source_policy \<Rightarrow> 'w \<Rightarrow> handle list \<Rightarrow> 'dp list" where
  "volumes_of fw policy w hs = filter (allows_device (fw_lib fw) policy) (List.map_filter (path_found fw w) hs)"

definition fallback_spec ::
  "arch \<Rightarrow> ('w, 'dp) firmware \<Rightarrow> 'dp boot_source_policy \<Rightarrow> (string \<Rightarrow> efi_status + bytes) \<Rightarrow> 'w \<Rightarrow> efi_error + 'dp list" where
  "fallback_spec a fw policy vars w =
     (if \<not> has_sources (fw_lib fw) policy then Inl NotFound
      else case secure_state_of (fw_lib fw) vars of
        Inl e \<Rightarrow> Inl e
      | Inr st \<Rightarrow> if \<not> allows_security_state policy st then Inl SecurityViolation
          else case handles_found fw (ByProtocol SimpleFileSystem) w of
            Inl e \<Rightarrow> Inl (err_of (fw_lib fw) e)
          | Inr hs \<Rightarrow> (case volumes_of fw policy w hs of
              [] \<Rightarrow> Inl NotFound
            | vs \<Rightarrow> Inr [fallback_candidate (fw_lib fw) l v. l \<leftarrow> FALLBACK_OS_LOADER_PATHS a, v \<leftarrow> vs]))"

lemma reads_secure_boot_state:
  assumes "reads_vars fw vars"
  shows "reads (secure_boot_state fw) (\<lambda>_. secure_state_of (fw_lib fw) vars)"
proof -
  have read: "reads (read_state_variable fw n) (\<lambda>_. case vars n of Inl e \<Rightarrow> Inl (err_of (fw_lib fw) e)
      | Inr _ \<Rightarrow> (case state_byte (vars n) of Some b \<Rightarrow> Inr b | None \<Rightarrow> Inl SecurityViolation))" for n
    unfolding reads_def read_state_variable_eq [OF assms] by auto
  show ?thesis
    unfolding secure_boot_state_def
    by (rule reads_cong [OF reads_tryE [OF read reads_tryE [OF read], where g1 = "\<lambda>a b _.
        if a = 1 \<and> b = 0 then Inr Enabled else if a = 0 \<and> b = 0 then Inr Disabled
        else if a = 0 \<and> b = 1 then Inr SetupMode else Inl SecurityViolation"]])
      (auto simp: reads_ret secure_state_of_def split: sum.splits option.splits)
qed

lemma reads_volumes:
  assumes fw: "pure_lookups fw"
  shows "reads (each_acc (approved_volume fw policy) hs vs) (\<lambda>w. vs @ volumes_of fw policy w hs)"
proof (induction hs arbitrary: vs)
  case (Cons h hs)
  have "reads (approved_volume fw policy h vs) (\<lambda>w. vs @ volumes_of fw policy w [h])"
    unfolding approved_volume_def
    by (rule reads_cong [OF reads_bnd [OF reads_handle_device_path [OF fw], where g = "\<lambda>r _. case r of
        None \<Rightarrow> vs | Some p \<Rightarrow> if allows_device (fw_lib fw) policy p then vs @ [p] else vs"]])
      (auto simp: reads_ret volumes_of_def map_filter_simps split: option.split)
  from reads_bnd [OF this, where k = "each_acc (approved_volume fw policy) hs"
      and g = "\<lambda>vs w. vs @ volumes_of fw policy w hs", OF Cons] show ?case
    unfolding each_acc.simps
    by (rule reads_cong) (auto simp: volumes_of_def map_filter_simps split: option.split)
qed (simp add: reads_ret volumes_of_def)

lemma reads_fallback_boot_options:
  assumes fw: "pure_lookups fw" and vars: "reads_vars fw vars"
  shows "reads (fallback_boot_options a fw policy) (fallback_spec a fw policy vars)"
proof -
  let ?lib = "fw_lib fw"
  have collect: "reads (bnd (each_acc (approved_volume fw policy) hs []) (\<lambda>volumes.
        if volumes = [] then ret (Inl NotFound)
        else ret (Inr (concat (map (\<lambda>loader. map (fallback_candidate ?lib loader) volumes)
           (FALLBACK_OS_LOADER_PATHS a))))))
      (\<lambda>w. case volumes_of fw policy w hs of [] \<Rightarrow> Inl NotFound
        | vs \<Rightarrow> Inr [fallback_candidate ?lib l v. l \<leftarrow> FALLBACK_OS_LOADER_PATHS a, v \<leftarrow> vs])" for hs
    by (rule reads_cong [OF reads_bnd [OF reads_volumes [OF fw], where g = "\<lambda>vs _.
        if vs = [] then Inl NotFound else Inr (concat (map (\<lambda>loader. map (fallback_candidate ?lib loader) vs)
           (FALLBACK_OS_LOADER_PATHS a)))"]])
      (auto simp: reads_ret split: list.split)
  have "reads (tryE (secure_boot_state fw) (\<lambda>st.
       if \<not> allows_security_state policy st then ret (Inl SecurityViolation)
       else tryE (map_err (err_of ?lib) (locate_handle_buffer fw (ByProtocol SimpleFileSystem))) (\<lambda>hs.
         bnd (each_acc (approved_volume fw policy) hs []) (\<lambda>volumes.
           if volumes = [] then ret (Inl NotFound)
           else ret (Inr (concat (map (\<lambda>loader. map (fallback_candidate ?lib loader) volumes)
             (FALLBACK_OS_LOADER_PATHS a))))))))
     (\<lambda>w. case secure_state_of ?lib vars of Inl e \<Rightarrow> Inl e
      | Inr st \<Rightarrow> if \<not> allows_security_state policy st then Inl SecurityViolation
          else (case (case handles_found fw (ByProtocol SimpleFileSystem) w of
              Inl e \<Rightarrow> Inl (err_of ?lib e) | Inr x \<Rightarrow> Inr x) of
            Inl e \<Rightarrow> Inl e
          | Inr hs \<Rightarrow> (case volumes_of fw policy w hs of
              [] \<Rightarrow> Inl NotFound
            | vs \<Rightarrow> Inr [fallback_candidate ?lib l v. l \<leftarrow> FALLBACK_OS_LOADER_PATHS a, v \<leftarrow> vs])))"
    by (rule reads_tryE [OF reads_secure_boot_state [OF vars]])
      (simp add: reads_ret reads_tryE [OF reads_map_err [OF reads_locate [OF fw]] collect])
  note allowed = this
  show ?thesis
  proof (cases "has_sources ?lib policy")
    case True
    then have "fallback_boot_options a fw policy = tryE (secure_boot_state fw) (\<lambda>st.
       if \<not> allows_security_state policy st then ret (Inl SecurityViolation)
       else tryE (map_err (err_of ?lib) (locate_handle_buffer fw (ByProtocol SimpleFileSystem))) (\<lambda>hs.
         bnd (each_acc (approved_volume fw policy) hs []) (\<lambda>volumes.
           if volumes = [] then ret (Inl NotFound)
           else ret (Inr (concat (map (\<lambda>loader. map (fallback_candidate ?lib loader) volumes)
             (FALLBACK_OS_LOADER_PATHS a)))))))"
      unfolding fallback_boot_options_def Let_def by simp
    then show ?thesis
      by (simp only:, rule_tac reads_cong [OF allowed])
        (use True in \<open>auto simp: fallback_spec_def split: sum.split\<close>)
  next
    case False
    with reads_cong [OF reads_ret, of "Inl NotFound" "fallback_spec a fw policy vars"] show ?thesis
      by (simp add: fallback_boot_options_def fallback_spec_def)
  qed
qed

text \<open>Which candidates come out: a loader on a volume the policy allows, nothing else.\<close>

lemma fallback_spec_sound:
  assumes "fallback_spec a fw policy vars w = Inr options"
  shows "\<exists>st hs. secure_state_of (fw_lib fw) vars = Inr st \<and> allows_security_state policy st \<and>
    handles_found fw (ByProtocol SimpleFileSystem) w = Inr hs \<and> options \<noteq> [] \<and>
    (\<forall>c \<in> set options. \<exists>h \<in> set hs. \<exists>v. path_found fw w h = Some v \<and> allows_device (fw_lib fw) policy v \<and>
       (\<exists>l \<in> set (FALLBACK_OS_LOADER_PATHS a). c = fallback_candidate (fw_lib fw) l v))"
proof -
  from assms obtain st hs where st: "secure_state_of (fw_lib fw) vars = Inr st" "allows_security_state policy st"
    and hs: "handles_found fw (ByProtocol SimpleFileSystem) w = Inr hs" "volumes_of fw policy w hs \<noteq> []"
    and opts: "options = [fallback_candidate (fw_lib fw) l v. l \<leftarrow> FALLBACK_OS_LOADER_PATHS a, v \<leftarrow> volumes_of fw policy w hs]"
    by (auto simp: fallback_spec_def split: if_splits sum.splits list.splits)
  have vol: "\<exists>h \<in> set hs. path_found fw w h = Some v \<and> allows_device (fw_lib fw) policy v"
    if "v \<in> set (volumes_of fw policy w hs)" for v
    using that by (auto simp: volumes_of_def List.map_filter_def)
  have "options \<noteq> []" using hs(2) by (auto simp: opts FALLBACK_OS_LOADER_PATHS_def)
  with st hs(1) show ?thesis by (auto simp: opts dest!: vol)
qed

end
