(* ===== verification/RamDisk.thy ===== *)
theory RamDisk
  imports BpRead Connect Fallback
begin

text \<open>
  \<open>bp_recovery.rs\<close>, second part: the read-only RAM disk published as Block IO, its
  registration and teardown, the chainload of the default loader from it and the whole recovery
  flow. The block callbacks are functions of the installed state; the allocations a flow makes
  and frees are events of its log.
\<close>

subsection \<open>The block device\<close>

record media =
  media_id :: u32
  removable :: bool
  media_present :: bool
  logical_partition :: bool
  read_only :: bool
  write_caching :: bool
  block_size :: u32
  io_align :: u32
  last_block :: u64

record ram_disk_block_io =
  revision :: u64
  rd_media :: media
  buffer_ptr :: ptr
  buffer_size :: u64

definition BLOCK_IO_REVISION :: u64 where "BLOCK_IO_REVISION = 0x00010000"
definition RAM_DISK_BLOCK_SIZE :: u32 where "RAM_DISK_BLOCK_SIZE = 512"

definition saturating_mul :: "u64 \<Rightarrow> u64 \<Rightarrow> u64" where
  "saturating_mul a b = (if unat a * unat b < 2 ^ 64 then a * b else - 1)"

definition saturating_add :: "u64 \<Rightarrow> u64 \<Rightarrow> u64" where
  "saturating_add a b = (if unat a + unat b < 2 ^ 64 then a + b else - 1)"

definition saturating_sub :: "u64 \<Rightarrow> u64 \<Rightarrow> u64" where
  "saturating_sub a b = (if b \<le> a then a - b else 0)"

definition ram_disk_reset :: "bool \<Rightarrow> efi_status" where
  "ram_disk_reset extended = SUCCESS"

text \<open>
  \<open>this\<close> and \<open>buffer\<close> may be null; the bytes are what was copied to the caller's buffer.
\<close>

definition ram_disk_read_blocks ::
  "(ptr \<Rightarrow> nat \<Rightarrow> u8) \<Rightarrow> ram_disk_block_io option \<Rightarrow> u32 \<Rightarrow> u64 \<Rightarrow> nat \<Rightarrow> bool \<Rightarrow> efi_status \<times> bytes" where
  "ram_disk_read_blocks mem this requested_id lba nbytes buffer_null = (case this of
      None \<Rightarrow> (INVALID_PARAMETER, [])
    | Some st \<Rightarrow>
        if buffer_null then (INVALID_PARAMETER, [])
        else if requested_id \<noteq> media_id (rd_media st) then (MEDIA_CHANGED, [])
        else let offset = saturating_mul lba (ucast (block_size (rd_media st)));
                 end_off = saturating_add offset (word_of_nat nbytes) in
          if end_off > buffer_size st then (INVALID_PARAMETER, [])
          else if \<not> unat (block_size (rd_media st)) dvd nbytes then (BAD_BUFFER_SIZE, [])
          else (SUCCESS, read_bytes (\<lambda>i. mem (buffer_ptr st) (unat offset + i)) nbytes))"

definition ram_disk_write_blocks :: "u32 \<Rightarrow> u64 \<Rightarrow> bytes \<Rightarrow> efi_status" where
  "ram_disk_write_blocks requested_id lba data = WRITE_PROTECTED"

definition ram_disk_flush_blocks :: "efi_status" where
  "ram_disk_flush_blocks = SUCCESS"

subsection \<open>Registration and teardown\<close>

record ram_disk_install =
  rd_handle :: handle
  rd_device_path :: ptr
  rd_state :: ptr

definition ram_disk_state_new :: "ptr \<Rightarrow> nat \<Rightarrow> ram_disk_block_io" where
  "ram_disk_state_new dram_ptr dram_len = \<lparr>revision = BLOCK_IO_REVISION,
     rd_media = \<lparr>media_id = 0, removable = False, media_present = True, logical_partition = True,
       read_only = True, write_caching = False, block_size = RAM_DISK_BLOCK_SIZE, io_align = 0,
       last_block = saturating_sub (word_of_nat dram_len div ucast RAM_DISK_BLOCK_SIZE) 1\<rparr>,
     buffer_ptr = dram_ptr, buffer_size = word_of_nat dram_len\<rparr>"

text \<open>The synthetic device path: a Media/Vendor node and the end node.\<close>

definition ram_disk_dp_bytes :: bytes where
  "ram_disk_dp_bytes = [0x04, 0x03, 0x14, 0x00,
     0x7e, 0x1c, 0x0b, 0x5d, 0x2f, 0x8a, 0x5c, 0x4e, 0x9d, 0x3a, 0x7b, 0x8e, 0x9f, 0x1c, 0x2d, 0x4a,
     0x7f, 0xff, 0x04, 0x00]"

definition teardown :: "('w, 'dp) firmware \<Rightarrow> ram_disk_install \<Rightarrow> ('w, 'dp, efi_error + unit) boot" where
  "teardown fw install = thn (disconnect_controller fw (rd_handle install))
     (tryE (map_err (err_of (fw_lib fw))
        (uninstall_protocol fw (rd_handle install) DevicePathProtocol (rd_device_path install))) (\<lambda>_.
      tryE (map_err (err_of (fw_lib fw))
        (uninstall_protocol fw (rd_handle install) BlockIo (rd_state install))) (\<lambda>_.
      thn (log_event (EvFree (RamDiskState (rd_state install)))) (ret (Inr ())))))"

definition register_ram_disk ::
  "('w, 'dp) firmware \<Rightarrow> ptr \<Rightarrow> nat \<Rightarrow> ('w, 'dp, efi_error + ram_disk_install) boot" where
  "register_ram_disk fw dram_ptr dram_len = (let lib = fw_lib fw in
     bnd (peek (fw_box fw)) (\<lambda>state_ptr. thn (log_event (EvAlloc (RamDiskState state_ptr)))
     (bnd (peek (fw_leak fw)) (\<lambda>dp_ptr. thn (log_event (EvAlloc (LeakedPath dp_ptr)))
     (tryE (map_err (err_of lib) (install_protocol fw None BlockIo state_ptr)) (\<lambda>handle.
      bnd (install_protocol fw (Some handle) DevicePathProtocol dp_ptr) (\<lambda>r. case r of
        Inl s \<Rightarrow>
          bnd (uninstall_protocol fw handle BlockIo state_ptr) (\<lambda>rollback. case rollback of
            Inr _ \<Rightarrow> thn (log_event (EvFree (RamDiskState state_ptr))) (ret (Inl (err_of lib s)))
          | Inl _ \<Rightarrow> ret (Inl (err_of lib s)))
      | Inr _ \<Rightarrow>
          thn (connect_controller fw handle True)
            (ret (Inr \<lparr>rd_handle = handle, rd_device_path = dp_ptr, rd_state = state_ptr\<rparr>)))))))))"

subsection \<open>Chainloading\<close>

definition DEFAULT_BOOT_FILE_PATH :: "arch \<Rightarrow> ustr" where
  "DEFAULT_BOOT_FILE_PATH a = (case a of Aarch64 \<Rightarrow> from_root [''EFI'', ''Boot'', ''bootaa64.efi'']
     | X86_64 \<Rightarrow> from_root [''EFI'', ''Boot'', ''bootx64.efi''])"

definition checked_sub :: "nat \<Rightarrow> nat \<Rightarrow> nat option" where
  "checked_sub a b = (if b \<le> a then Some (a - b) else None)"

text \<open>The body of the search for a SimpleFileSystem handle below the RAM disk's path.\<close>

definition descends_from ::
  "('w, 'dp) firmware \<Rightarrow> nat \<Rightarrow> bytes \<Rightarrow> handle \<Rightarrow> ('w, 'dp, ptr option) boot" where
  "descends_from fw parent_payload_size parent_prefix h =
     bnd (handle_protocol fw h DevicePathProtocol) (\<lambda>r. case r of
       Inl _ \<Rightarrow> ret None
     | Inr dp_ptr \<Rightarrow>
         if dp_ptr = 0 then ret None
         else peek (\<lambda>w.
           if device_path_size (fw_lib fw) (fw_mem fw w dp_ptr) < parent_payload_size then None
           else if read_bytes (fw_mem fw w dp_ptr) parent_payload_size = parent_prefix then Some dp_ptr
           else None))"

definition chainload_from_ramdisk ::
  "arch \<Rightarrow> ('w, 'dp) firmware \<Rightarrow> (nat \<Rightarrow> u8) \<Rightarrow> locked_boot \<Rightarrow> handle \<Rightarrow> ptr \<Rightarrow> ('w, 'dp, efi_error + unit) boot" where
  "chainload_from_ramdisk a fw beyond locked image_handle parent_dp = (let lib = fw_lib fw in
     tryE (map_err (err_of lib) (locate_device_path fw DevicePathProtocol parent_dp)) (\<lambda>ram_handle.
     thn (connect_controller fw ram_handle True)
     (bnd (peek (\<lambda>w. device_path_size lib (fw_mem fw w parent_dp))) (\<lambda>parent_size.
      case checked_sub parent_size 4 of
        None \<Rightarrow> ret (Inl (err_of lib INVALID_PARAMETER))
      | Some parent_payload_size \<Rightarrow>
          bnd (peek (\<lambda>w. read_bytes (fw_mem fw w parent_dp) parent_payload_size)) (\<lambda>parent_prefix.
          tryE (map_err (err_of lib) (locate_handle_buffer fw (ByProtocol SimpleFileSystem))) (\<lambda>sfs_handles.
          bnd (each_until (descends_from fw parent_payload_size parent_prefix) sfs_handles) (\<lambda>chosen_sfs_dp.
          case chosen_sfs_dp of
            None \<Rightarrow> ret (Inl NotFound)
          | Some sfs_dp \<Rightarrow>
              bnd (peek (\<lambda>w. device_path_size lib (fw_mem fw w sfs_dp))) (\<lambda>sfs_total.
              case checked_sub sfs_total 4 of
                None \<Rightarrow> ret (Inl (err_of lib INVALID_PARAMETER))
              | Some sfs_payload_size \<Rightarrow>
                  bnd (peek (\<lambda>w. read_bytes (fw_mem fw w sfs_dp) sfs_payload_size
                         @ build_file_path_node lib (DEFAULT_BOOT_FILE_PATH a))) (\<lambda>full_path.
                  case dp_from_ptr lib (at_ptr full_path beyond) of
                    None \<Rightarrow> ret (Inl InvalidParameter)
                  | Some device_path \<Rightarrow>
                      locked_boot_from_device_path fw locked image_handle device_path)))))))))"

subsection \<open>The recovery flow\<close>

text \<open>Everything from the registered disk on: chainload, teardown, and the fate of the buffer.\<close>

definition boot_ram_disk ::
  "arch \<Rightarrow> ('w, 'dp) firmware \<Rightarrow> (nat \<Rightarrow> u8) \<Rightarrow> locked_boot \<Rightarrow> handle \<Rightarrow> ptr \<Rightarrow> nat \<Rightarrow> ('w, 'dp, efi_error + unit) boot" where
  "boot_ram_disk a fw beyond locked image_handle buf buf_len =
     bnd (register_ram_disk fw buf buf_len) (\<lambda>r. case r of
       Inl e \<Rightarrow> thn (log_event (EvFree (BpBuffer buf))) (ret (Inl e))
     | Inr install \<Rightarrow>
         bnd (chainload_from_ramdisk a fw beyond locked image_handle (rd_device_path install)) (\<lambda>result.
         bnd (teardown fw install) (\<lambda>torn. case torn of
           Inr _ \<Rightarrow> thn (log_event (EvFree (BpBuffer buf))) (ret result)
         | Inl _ \<Rightarrow> thn (log_event (EvForget (BpBuffer buf))) (ret result))))"

definition run_sre_flow ::
  "arch \<Rightarrow> ('w, 'dp) firmware \<Rightarrow> (nat \<Rightarrow> u8) \<Rightarrow> locked_boot \<Rightarrow> handle \<Rightarrow> ('w, 'dp, efi_error + unit) boot" where
  "run_sre_flow a fw beyond locked image_handle = (let lib = fw_lib fw in
     thn (connect_all fw)
     (tryE (map_err (err_of lib) (locate_protocol fw NvmePassThru)) (\<lambda>passthru.
      bnd (probe_max_transfer fw passthru) (\<lambda>chunk.
      bnd (try_reserve fw BPSIZE_BYTES) (\<lambda>reserved. case reserved of
        None \<Rightarrow> ret (Inl (err_of lib OUT_OF_RESOURCES))
      | Some buf \<Rightarrow> thn (log_event (EvAlloc (BpBuffer buf)))
          (bnd (read_bp_via_log_page fw passthru TARGET_BPID chunk (replicate BPSIZE_BYTES 0)) (\<lambda>r. case r of
             Inl e \<Rightarrow> thn (log_event (EvFree (BpBuffer buf))) (ret (Inl e))
           | Inr bytes \<Rightarrow> boot_ram_disk a fw beyond locked image_handle buf (length bytes))))))))"

subsection \<open>The callbacks never leave the buffer\<close>

lemma unat_lt_u32: "unat (x :: u32) < 2 ^ 32"
proof -
  have "unat x < 2 ^ LENGTH(32)" by (rule unsigned_less)
  then show ?thesis by simp
qed

lemma unat_lt_u64: "unat (x :: u64) < 2 ^ 64"
proof -
  have "unat x < 2 ^ LENGTH(64)" by (rule unsigned_less)
  then show ?thesis by simp
qed

lemma unat_max_u64: "unat (- 1 :: u64) = 2 ^ 64 - 1"
  by (simp add: unsigned_minus_1_eq_mask mask_eq_exp_minus_1)

lemma unat_saturating_mul: "unat (saturating_mul a b) = min (unat a * unat b) (2 ^ 64 - 1)"
  by (auto simp: saturating_mul_def unat_word_ariths unat_max_u64)

lemma unat_saturating_add: "unat (saturating_add a b) = min (unat a + unat b) (2 ^ 64 - 1)"
  by (auto simp: saturating_add_def unat_word_ariths unat_max_u64)

text \<open>The byte range a read names, in exact arithmetic.\<close>

definition read_start :: "ram_disk_block_io \<Rightarrow> u64 \<Rightarrow> nat" where
  "read_start st lba = unat lba * unat (block_size (rd_media st))"

definition inside_disk :: "ram_disk_block_io \<Rightarrow> u64 \<Rightarrow> nat \<Rightarrow> bool" where
  "inside_disk st lba nbytes \<longleftrightarrow> read_start st lba + nbytes \<le> unat (buffer_size st) \<and>
     unat (block_size (rd_media st)) dvd nbytes"

lemma range_check:
  assumes "nbytes < 2 ^ 64" and "unat (buffer_size st) < 2 ^ 64 - 1"
  shows "saturating_add (saturating_mul lba (ucast (block_size (rd_media st)))) (word_of_nat nbytes) > buffer_size st
    \<longleftrightarrow> unat (buffer_size st) < read_start st lba + nbytes"
proof -
  let ?bs = "block_size (rd_media st)"
  have "unat ?bs < 2 ^ 64" using unat_lt_u32 [of ?bs] by simp
  then have "unat (ucast ?bs :: u64) = unat ?bs" by (simp add: unsigned_ucast_eq take_bit_eq_mod)
  then have "unat (saturating_add (saturating_mul lba (ucast ?bs)) (word_of_nat nbytes)) =
      min (min (read_start st lba) (2 ^ 64 - 1) + nbytes) (2 ^ 64 - 1)"
    using assms(1) by (simp add: unat_saturating_add unat_saturating_mul unat_of_nat read_start_def)
  then show ?thesis using assms(2) by (auto simp: word_less_nat_alt)
qed

lemma read_offset:
  assumes "inside_disk st lba nbytes"
  shows "unat (saturating_mul lba (ucast (block_size (rd_media st)))) = read_start st lba"
proof -
  let ?bs = "block_size (rd_media st)"
  have "unat ?bs < 2 ^ 64" using unat_lt_u32 [of ?bs] by simp
  then have "unat (ucast ?bs :: u64) = unat ?bs" by (simp add: unsigned_ucast_eq take_bit_eq_mod)
  moreover have "read_start st lba < 2 ^ 64"
    using assms unat_lt_u64 [of "buffer_size st"] by (simp add: inside_disk_def)
  ultimately show ?thesis by (simp add: unat_saturating_mul read_start_def)
qed

lemma ram_disk_read_blocks_eq:
  assumes "nbytes < 2 ^ 64" and "unat (buffer_size st) < 2 ^ 64 - 1"
  shows "ram_disk_read_blocks mem (Some st) requested_id lba nbytes buffer_null =
    (if buffer_null then (INVALID_PARAMETER, [])
     else if requested_id \<noteq> media_id (rd_media st) then (MEDIA_CHANGED, [])
     else if unat (buffer_size st) < read_start st lba + nbytes then (INVALID_PARAMETER, [])
     else if \<not> unat (block_size (rd_media st)) dvd nbytes then (BAD_BUFFER_SIZE, [])
     else (SUCCESS, read_bytes (\<lambda>i. mem (buffer_ptr st) (read_start st lba + i)) nbytes))"
  using range_check [OF assms, of lba] read_offset [of st lba nbytes]
  by (simp add: ram_disk_read_blocks_def Let_def inside_disk_def)

subsection \<open>Block devices\<close>

text \<open>
  What a filesystem driver relies on of a block device: a read of whole blocks inside the
  medium yields its bytes there, and any other read fails and copies nothing.
\<close>

locale block_device =
  fixes read :: "u64 \<Rightarrow> nat \<Rightarrow> efi_status \<times> bytes"
    and block capacity :: nat
    and content :: "nat \<Rightarrow> u8"
  assumes block_pos: "0 < block"
    and read_inside: "nbytes < 2 ^ 64 \<Longrightarrow> block dvd nbytes \<Longrightarrow> unat lba * block + nbytes \<le> capacity \<Longrightarrow>
      read lba nbytes = (SUCCESS, map content [unat lba * block..<unat lba * block + nbytes])"
    and read_outside: "nbytes < 2 ^ 64 \<Longrightarrow> \<not> (block dvd nbytes \<and> unat lba * block + nbytes \<le> capacity) \<Longrightarrow>
      fst (read lba nbytes) \<noteq> SUCCESS \<and> snd (read lba nbytes) = []"
begin

lemma read_success:
  assumes "nbytes < 2 ^ 64" and "read lba nbytes = (SUCCESS, bs)"
  shows "length bs = nbytes" "unat lba * block + nbytes \<le> capacity"
    "\<forall>i < nbytes. bs ! i = content (unat lba * block + i)"
proof -
  have inside: "block dvd nbytes \<and> unat lba * block + nbytes \<le> capacity"
    using read_outside [OF assms(1), of lba] assms(2) by force
  then have "bs = map content [unat lba * block..<unat lba * block + nbytes]"
    using read_inside [OF assms(1), of lba] assms(2) by simp
  then show "length bs = nbytes" "\<forall>i < nbytes. bs ! i = content (unat lba * block + i)" by simp_all
  show "unat lba * block + nbytes \<le> capacity" using inside by simp
qed

text \<open>A read of consecutive blocks is the concatenation of the reads of its parts.\<close>

lemma read_split:
  assumes "m + n < 2 ^ 64" and "block dvd m" and "read lba (m + n) = (SUCCESS, bs)"
    and "unat lba + m div block < 2 ^ 64"
  shows "\<exists>xs ys. read lba m = (SUCCESS, xs) \<and> read (lba + word_of_nat (m div block)) n = (SUCCESS, ys) \<and> bs = xs @ ys"
proof -
  let ?a = "unat lba * block" and ?lba = "lba + word_of_nat (m div block)"
  have inside_disk: "block dvd m + n \<and> ?a + (m + n) \<le> capacity"
    using read_outside [OF assms(1), of lba] assms(3) by force
  then have n: "block dvd n" using assms(2) by (simp add: dvd_add_right_iff)
  have "unat ?lba = unat lba + m div block"
    using assms(4) by (simp add: unat_word_ariths unat_of_nat)
  then have b: "unat ?lba * block = ?a + m"
    using assms(2) by (simp add: distrib_right)
  have "bs = map content [?a..<?a + (m + n)]"
    using read_inside [OF assms(1), of lba] inside_disk assms(3) by simp
  also have "\<dots> = map content [?a..<?a + m] @ map content [?a + m..<?a + m + n]"
    unfolding map_append [symmetric] add.assoc [symmetric] by (subst upt_add_eq_append) simp_all
  finally have "bs = map content [?a..<?a + m] @ map content [?a + m..<?a + m + n]" .
  moreover have "read lba m = (SUCCESS, map content [?a..<?a + m])"
    using inside_disk assms(1,2) by (intro read_inside) simp_all
  moreover have "read ?lba n = (SUCCESS, map content [?a + m..<?a + m + n])"
    unfolding b [symmetric] using inside_disk assms(1) n by (intro read_inside) (simp_all add: b)
  ultimately show ?thesis by blast
qed

end

text \<open>The RAM disk is one, over the bytes its buffer points at.\<close>

definition installed_read :: "(ptr \<Rightarrow> nat \<Rightarrow> u8) \<Rightarrow> ptr \<Rightarrow> nat \<Rightarrow> u64 \<Rightarrow> nat \<Rightarrow> efi_status \<times> bytes" where
  "installed_read mem dram_ptr dram_len lba nbytes =
     ram_disk_read_blocks mem (Some (ram_disk_state_new dram_ptr dram_len)) 0 lba nbytes False"

lemma installed_read_eq:
  assumes "nbytes < 2 ^ 64" and "dram_len < 2 ^ 64 - 1"
  shows "installed_read mem dram_ptr dram_len lba nbytes =
    (if dram_len < unat lba * 512 + nbytes then (INVALID_PARAMETER, [])
     else if \<not> 512 dvd nbytes then (BAD_BUFFER_SIZE, [])
     else (SUCCESS, map (mem dram_ptr) [unat lba * 512..<unat lba * 512 + nbytes]))"
proof -
  let ?st = "ram_disk_state_new dram_ptr dram_len"
  have st: "unat (buffer_size ?st) = dram_len" "unat (block_size (rd_media ?st)) = 512"
      "media_id (rd_media ?st) = 0" "buffer_ptr ?st = dram_ptr"
    using assms(2) by (simp_all add: ram_disk_state_new_def RAM_DISK_BLOCK_SIZE_def unat_of_nat)
  have "read_bytes (\<lambda>i. mem dram_ptr (k + i)) nbytes = map (mem dram_ptr) [k..<k + nbytes]" for k
    unfolding read_bytes_def by (auto intro: nth_equalityI)
  then show ?thesis
    unfolding installed_read_def
    by (subst ram_disk_read_blocks_eq) (use assms in \<open>simp_all add: st read_start_def\<close>)
qed

interpretation ram_disk: block_device "installed_read mem dram_ptr (BPSIZE_BYTES)" 512 BPSIZE_BYTES "mem dram_ptr"
  for mem dram_ptr
  by unfold_locales (auto simp: installed_read_eq BPSIZE_BYTES_def)

subsection \<open>Nothing is freed under an installed interface\<close>

text \<open>The Block IO interfaces a log leaves installed, by their state.\<close>

fun note_install :: "'dp event \<Rightarrow> ptr set \<Rightarrow> ptr set" where
  "note_install (EvInstall h g p r) I = (if g = BlockIo then case r of Ret (Inr _) \<Rightarrow> insert p I | _ \<Rightarrow> I else I)"
| "note_install (EvUninstall h g p r) I = (if g = BlockIo then case r of Ret (Inr _) \<Rightarrow> I - {p} | _ \<Rightarrow> I else I)"
| "note_install _ I = I"

definition live_installs :: "'dp event list \<Rightarrow> ptr set" where
  "live_installs es = fold note_install es {}"

text \<open>The state is freed only when its interface is gone, the buffer only when all are.\<close>

fun may_free :: "ptr set \<Rightarrow> alloc \<Rightarrow> bool" where
  "may_free I (RamDiskState p) = (p \<notin> I)"
| "may_free I (BpBuffer b) = (I = {})"
| "may_free I (LeakedPath p) = True"

definition frees_safe :: "'dp event list \<Rightarrow> bool" where
  "frees_safe es \<longleftrightarrow> (\<forall>pre a post. es = pre @ EvFree a # post \<longrightarrow> may_free (live_installs pre) a)"

text \<open>The one exception: the rollback of a half-done registration was refused.\<close>

definition rollback_refused :: "'dp event list \<Rightarrow> bool" where
  "rollback_refused es \<longleftrightarrow> (\<exists>pre h q e h' p e' post. es = pre @
     EvInstall (Some h) DevicePathProtocol q (Ret (Inl e)) # EvUninstall h' BlockIo p (Ret (Inl e')) # post)"

lemma live_installs_snoc [simp]: "live_installs (es @ [e]) = note_install e (live_installs es)"
  by (simp add: live_installs_def)

lemma frees_safe_snoc:
  "frees_safe (es @ [e]) \<longleftrightarrow> frees_safe es \<and> (\<forall>a. e = EvFree a \<longrightarrow> may_free (live_installs es) a)"
proof
  assume "frees_safe (es @ [e])"
  then show "frees_safe es \<and> (\<forall>a. e = EvFree a \<longrightarrow> may_free (live_installs es) a)"
    unfolding frees_safe_def by auto
next
  assume r: "frees_safe es \<and> (\<forall>a. e = EvFree a \<longrightarrow> may_free (live_installs es) a)"
  show "frees_safe (es @ [e])"
    unfolding frees_safe_def
  proof (intro allI impI)
    fix pre a post assume "es @ [e] = pre @ EvFree a # post"
    then show "may_free (live_installs pre) a"
      using r unfolding frees_safe_def by (cases post rule: rev_cases) auto
  qed
qed

datatype live_phase = Live "ptr set" bool | Excused

fun live_step :: "live_phase \<Rightarrow> 'dp event \<Rightarrow> live_phase option" where
  "live_step Excused e = Some Excused"
| "live_step (Live I f) e = (case e of
      EvInstall h g p r \<Rightarrow> Some (Live (note_install e I)
        (h \<noteq> None \<and> g = DevicePathProtocol \<and> (case r of Ret (Inl _) \<Rightarrow> True | _ \<Rightarrow> False)))
    | EvUninstall h g p r \<Rightarrow> Some (
        if f \<and> g = BlockIo \<and> (case r of Ret (Inl _) \<Rightarrow> True | _ \<Rightarrow> False) then Excused
        else Live (note_install e I) False)
    | EvFree a \<Rightarrow> (if may_free I a then Some (Live I False) else None)
    | _ \<Rightarrow> Some (Live I False))"

fun live_holds :: "live_phase \<Rightarrow> 'dp event list \<Rightarrow> bool" where
  "live_holds Excused es = rollback_refused es"
| "live_holds (Live I f) es = (live_installs es = I \<and> frees_safe es \<and>
     (f \<longrightarrow> (\<exists>pre h p e. es = pre @ [EvInstall (Some h) DevicePathProtocol p (Ret (Inl e))])))"

lemma rollback_refused_append: "rollback_refused es \<Longrightarrow> rollback_refused (es @ fs)"
  unfolding rollback_refused_def by fastforce

lemma rollback_refusedI:
  "rollback_refused ((pre @ [EvInstall (Some h) DevicePathProtocol q (Ret (Inl e))]) @ [EvUninstall h' BlockIo p (Ret (Inl e'))])"
  unfolding rollback_refused_def by fastforce

lemma live_step_holds:
  assumes q: "live_holds q es" and step: "live_step q e = Some q'"
  shows "live_holds q' (es @ [e])"
proof (cases q)
  case Excused
  then show ?thesis using assms rollback_refused_append by auto
next
  case (Live I f)
  show ?thesis
  proof (cases "q' = Excused")
    case True
    then obtain h p e' where "f" "e = EvUninstall h BlockIo p (Ret (Inl e'))"
      using step Live by (cases e) (auto split: if_splits outcome.splits sum.splits)
    then show ?thesis using q Live True rollback_refusedI by auto
  next
    case False
    have es: "live_installs es = I" "frees_safe es" using q Live by simp_all
    show ?thesis
      using step False es unfolding Live
      by (cases e) (auto simp: frees_safe_snoc split: if_splits outcome.splits sum.splits)
  qed
qed

lemma monitor_live_holds:
  "live_holds q es \<Longrightarrow> monitor live_step q fs = Some q' \<Longrightarrow> live_holds q' (es @ fs)"
proof (induction fs arbitrary: q es)
  case (Cons f fs)
  obtain q1 where "live_step q f = Some q1" "monitor live_step q1 fs = Some q'"
    using Cons.prems(2) by (auto split: option.splits)
  then show ?case using Cons.IH [of q1 "es @ [f]"] live_step_holds [OF Cons.prems(1)] by simp
qed simp

lemma monitor_frees_safe:
  fixes es :: "'dp event list"
  assumes "monitor live_step (Live {} False) es = Some q"
  shows "rollback_refused es \<or> frees_safe es"
proof -
  have "live_holds (Live {} False) ([] :: 'dp event list)"
    by (simp add: live_installs_def frees_safe_def)
  from monitor_live_holds [OF this assms] show ?thesis by (cases q) auto
qed

subsection \<open>The flow against the monitor\<close>

abbreviation live :: "ptr set \<Rightarrow> live_phase \<Rightarrow> bool" where
  "live I q \<equiv> \<exists>f. q = Live I f"

abbreviation clean :: "live_phase \<Rightarrow> bool" where
  "clean q \<equiv> live {} q \<or> q = Excused"

fun owns_nothing :: "'dp event \<Rightarrow> bool" where
  "owns_nothing (EvInstall h g p r) = False"
| "owns_nothing (EvUninstall h g p r) = False"
| "owns_nothing (EvFree a) = False"
| "owns_nothing _ = True"

lemma owns_nothing_step: "owns_nothing e \<Longrightarrow> live_step (Live I f) e = Some (Live I False)"
  by (cases e) simp_all

lemma mtriple_live_other:
  assumes m: "emits owns_nothing m"
  shows "mtriple live_step (live I) m (\<lambda>_. live I)"
proof (rule mtripleI)
  fix s q assume q: "live I q"
  obtain r s' where ms: "m s = (r, s')" by force
  obtain es where es: "trace s' = trace s @ es" "\<forall>e \<in> set es. owns_nothing e"
    using m ms by (rule emitsE)
  have "\<exists>q'. monitor live_step (Live I f) es = Some q' \<and> live I q'" for f
    using es(2) by (induction es arbitrary: f) (auto simp: owns_nothing_step simp del: live_step.simps)
  with q obtain q' where "monitor live_step q es = Some q'" "live I q'" by blast
  with es ms show "\<exists>es q'. trace (snd (m s)) = trace s @ es \<and> monitor live_step q es = Some q' \<and>
      (\<forall>x. fst (m s) = Ret x \<longrightarrow> live I q')"
    by (intro exI [of _ es] exI [of _ q']) simp
qed

lemma mtriple_free_buffer:
  "mtriple live_step clean (thn (log_event (EvFree (BpBuffer b))) (ret r)) (\<lambda>_. clean)"
  by (rule mtriple_thn [OF mtriple_log mtriple_ret]) auto

text \<open>Registration leaves one interface behind, or none unless its rollback was refused.\<close>

lemma mtriple_rollback:
  "mtriple live_step (\<lambda>q. q = Live {p} True)
     (bnd (uninstall_protocol fw h BlockIo p) (\<lambda>rollback. case rollback of
        Inr _ \<Rightarrow> thn (log_event (EvFree (RamDiskState p))) (ret (Inl e))
      | Inl _ \<Rightarrow> ret (Inl e)))
     (\<lambda>r q. case r of Inl _ \<Rightarrow> clean q | Inr i \<Rightarrow> live {rd_state i} q)"
proof -
  have un: "mtriple live_step (\<lambda>q. q = Live {p} True) (uninstall_protocol fw h BlockIo p)
      (\<lambda>r q. case r of Inl _ \<Rightarrow> q = Excused | Inr _ \<Rightarrow> live {} q)"
    unfolding uninstall_protocol_def by (rule mtriple_svc) (auto split: outcome.splits sum.splits)
  have fr: "mtriple live_step (live {}) (thn (log_event (EvFree (RamDiskState p))) (ret (Inl e)))
      (\<lambda>r q. case r of Inl _ \<Rightarrow> clean q | Inr i \<Rightarrow> live {rd_state i} q)"
    by (rule mtriple_thn [where K = "live {}"], rule mtriple_log) (auto intro: mtriple_ret)
  show ?thesis
    by (rule mtriple_bnd [OF un], rule mtriple_sum) (simp_all add: mtriple_ret fr)
qed

lemma mtriple_register_ram_disk:
  "mtriple live_step (live {}) (register_ram_disk fw b n)
     (\<lambda>r q. case r of Inl _ \<Rightarrow> clean q | Inr i \<Rightarrow> live {rd_state i} q)"
proof -
  have peek: "mtriple live_step (live {}) (peek f) (\<lambda>_. live {})" for f
    by (rule mtriple_peek)
  have alloc: "mtriple live_step (live {}) (log_event (EvAlloc a)) (\<lambda>_. live {})" for a
    by (rule mtriple_log) auto
  have block: "mtriple live_step (live {})
      (map_err (err_of (fw_lib fw)) (install_protocol fw None BlockIo p))
      (\<lambda>r q. case r of Inl _ \<Rightarrow> clean q | Inr _ \<Rightarrow> live {p} q)" for p
    unfolding install_protocol_def
    by (rule mtriple_map_err_same, rule mtriple_svc) (auto split: outcome.splits sum.splits)
  have path: "mtriple live_step (live {p}) (install_protocol fw (Some h) DevicePathProtocol d)
      (\<lambda>r q. case r of Inl _ \<Rightarrow> q = Live {p} True | Inr _ \<Rightarrow> live {p} q)" for h p d
    unfolding install_protocol_def by (rule mtriple_svc) (auto split: outcome.splits sum.splits)
  have connect: "mtriple live_step (live {p}) (thn (connect_controller fw h True)
      (ret (Inr \<lparr>rd_handle = h, rd_device_path = d, rd_state = p\<rparr>)))
      (\<lambda>r q. case r of Inl _ \<Rightarrow> clean q | Inr i \<Rightarrow> live {rd_state i} q)" for h p d
    unfolding connect_controller_def
    by (rule mtriple_thn [where K = "live {p}"], rule mtriple_svc) (auto intro: mtriple_ret)
  have second: "mtriple live_step (live {p})
      (bnd (install_protocol fw (Some h) DevicePathProtocol d) (\<lambda>r. case r of
        Inl s \<Rightarrow> bnd (uninstall_protocol fw h BlockIo p) (\<lambda>rollback. case rollback of
            Inr _ \<Rightarrow> thn (log_event (EvFree (RamDiskState p))) (ret (Inl (err_of (fw_lib fw) s)))
          | Inl _ \<Rightarrow> ret (Inl (err_of (fw_lib fw) s)))
      | Inr _ \<Rightarrow> thn (connect_controller fw h True)
            (ret (Inr \<lparr>rd_handle = h, rd_device_path = d, rd_state = p\<rparr>))))
      (\<lambda>r q. case r of Inl _ \<Rightarrow> clean q | Inr i \<Rightarrow> live {rd_state i} q)" for h p d
    by (rule mtriple_bnd [OF path], rule mtriple_sum) (simp_all add: mtriple_rollback connect)
  have first: "mtriple live_step (live {})
      (tryE (map_err (err_of (fw_lib fw)) (install_protocol fw None BlockIo p)) (\<lambda>h.
       bnd (install_protocol fw (Some h) DevicePathProtocol d) (\<lambda>r. case r of
        Inl s \<Rightarrow> bnd (uninstall_protocol fw h BlockIo p) (\<lambda>rollback. case rollback of
            Inr _ \<Rightarrow> thn (log_event (EvFree (RamDiskState p))) (ret (Inl (err_of (fw_lib fw) s)))
          | Inl _ \<Rightarrow> ret (Inl (err_of (fw_lib fw) s)))
      | Inr _ \<Rightarrow> thn (connect_controller fw h True)
            (ret (Inr \<lparr>rd_handle = h, rd_device_path = d, rd_state = p\<rparr>)))))
      (\<lambda>r q. case r of Inl _ \<Rightarrow> clean q | Inr i \<Rightarrow> live {rd_state i} q)" for p d
    by (rule mtriple_try [OF block second]) simp
  show ?thesis
    unfolding register_ram_disk_def Let_def
    by (intro mtriple_bnd [OF peek] mtriple_thn [OF alloc] first)
qed

lemma mtriple_teardown:
  "mtriple live_step (live {rd_state i}) (teardown fw i) (\<lambda>r q. case r of Inl _ \<Rightarrow> True | Inr _ \<Rightarrow> live {} q)"
proof -
  let ?p = "rd_state i"
  have disconnect: "mtriple live_step (live {?p}) (disconnect_controller fw (rd_handle i)) (\<lambda>_. live {?p})"
    unfolding disconnect_controller_def by (rule mtriple_svc) auto
  have path: "mtriple live_step (live {?p})
      (map_err (err_of (fw_lib fw)) (uninstall_protocol fw (rd_handle i) DevicePathProtocol (rd_device_path i)))
      (\<lambda>r q. case r of Inl _ \<Rightarrow> True | Inr _ \<Rightarrow> live {?p} q)"
    unfolding uninstall_protocol_def
    by (rule mtriple_map_err_same, rule mtriple_svc) (auto split: outcome.splits sum.splits)
  have block: "mtriple live_step (live {?p})
      (map_err (err_of (fw_lib fw)) (uninstall_protocol fw (rd_handle i) BlockIo ?p))
      (\<lambda>r q. case r of Inl _ \<Rightarrow> True | Inr _ \<Rightarrow> live {} q)"
    unfolding uninstall_protocol_def
    by (rule mtriple_map_err_same, rule mtriple_svc) (auto split: outcome.splits sum.splits)
  have free: "mtriple live_step (live {}) (thn (log_event (EvFree (RamDiskState ?p))) (ret (Inr ())))
      (\<lambda>r q. case r of Inl _ \<Rightarrow> True | Inr _ \<Rightarrow> live {} q)"
    by (rule mtriple_thn [OF mtriple_log mtriple_ret]) auto
  show ?thesis
    unfolding teardown_def
    by (rule mtriple_thn [OF disconnect], rule mtriple_try [OF path], rule mtriple_try [OF block free]) simp_all
qed

lemma emits_load_and_start: "emits owns_nothing (load_and_start fw parent p)"
  unfolding load_and_start_def call_defs by (intro emits_rules) simp_all

lemma is_lookup_owns_nothing: "is_lookup e \<Longrightarrow> owns_nothing e"
  by (cases e) simp_all

lemma emits_boot_owns_nothing: "emits owns_nothing (boot_from_device_path fw parent dp)"
  unfolding boot_from_device_path_alt
  by (intro emits_rules emits_load_and_start emits_mono [OF emits_expand_device_path is_lookup_owns_nothing])

lemma emits_chainload: "emits owns_nothing (chainload_from_ramdisk a fw beyond locked h dp)"
  unfolding chainload_from_ramdisk_def descends_from_def Let_def locked_boot_from_device_path_def call_defs
  by (intro emits_rules emits_boot_owns_nothing) simp_all

lemma live_step_forget: "\<exists>q'. live_step q (EvForget a) = Some q'"
  by (cases q) simp_all

lemma mtriple_boot_ram_disk:
  "mtriple live_step (live {}) (boot_ram_disk a fw beyond locked h b n) (\<lambda>_ _. True)"
proof -
  have freed: "mtriple live_step clean (thn (log_event (EvFree (BpBuffer b))) (ret r)) (\<lambda>_ _. True)" for r
    by (rule mtriple_post [OF mtriple_free_buffer]) simp
  have freed': "mtriple live_step (live {}) (thn (log_event (EvFree (BpBuffer b))) (ret r)) (\<lambda>_ _. True)" for r
    by (rule mtriple_conseq [OF freed]) auto
  have kept: "mtriple live_step (\<lambda>_. True) (thn (log_event (EvForget (BpBuffer b))) (ret r)) (\<lambda>_ _. True)" for r
    by (rule mtriple_thn [where K = "\<lambda>_. True"], rule mtriple_log) (simp_all add: mtriple_ret live_step_forget)
  have torn: "mtriple live_step (live {rd_state i}) (bnd (teardown fw i) (\<lambda>torn. case torn of
      Inr _ \<Rightarrow> thn (log_event (EvFree (BpBuffer b))) (ret r)
    | Inl _ \<Rightarrow> thn (log_event (EvForget (BpBuffer b))) (ret r))) (\<lambda>_ _. True)" for i r
    by (rule mtriple_bnd [OF mtriple_teardown], rule mtriple_sum) (simp_all add: freed' kept)
  have chain: "mtriple live_step (live {rd_state i})
      (chainload_from_ramdisk a fw beyond locked h (rd_device_path i)) (\<lambda>_. live {rd_state i})" for i
    by (rule mtriple_live_other [OF emits_chainload])
  have inst: "mtriple live_step (live {rd_state i})
      (bnd (chainload_from_ramdisk a fw beyond locked h (rd_device_path i)) (\<lambda>result.
       bnd (teardown fw i) (\<lambda>torn. case torn of
         Inr _ \<Rightarrow> thn (log_event (EvFree (BpBuffer b))) (ret result)
       | Inl _ \<Rightarrow> thn (log_event (EvForget (BpBuffer b))) (ret result)))) (\<lambda>_ _. True)" for i
    by (rule mtriple_bnd [OF chain torn])
  show ?thesis
    unfolding boot_ram_disk_def
    by (rule mtriple_bnd [OF mtriple_register_ram_disk], rule mtriple_sum) (simp_all add: freed inst)
qed

lemma enum_owns_nothing: "is_enum_event e \<Longrightarrow> owns_nothing e"
  by (cases e) simp_all

lemma nvme_owns_nothing: "is_nvme_event e \<Longrightarrow> owns_nothing e"
  by (cases e) simp_all

lemma mtriple_run_sre_flow:
  "mtriple live_step (live {}) (run_sre_flow a fw beyond locked h) (\<lambda>_ _. True)"
proof -
  have freed: "mtriple live_step (live {}) (thn (log_event (EvFree (BpBuffer b))) (ret r)) (\<lambda>_ _. True)" for b r
    by (rule mtriple_conseq [OF mtriple_free_buffer]) auto
  have connect: "mtriple live_step (live {}) (connect_all fw) (\<lambda>_. live {})"
    by (rule mtriple_live_other [OF emits_mono [OF emits_connect_all]]) (auto intro: enum_owns_nothing)
  have nvme: "mtriple live_step (live {}) (map_err (err_of (fw_lib fw)) (locate_protocol fw NvmePassThru))
      (\<lambda>r q. case r of Inl _ \<Rightarrow> True | Inr _ \<Rightarrow> live {} q)"
    unfolding call_defs
    by (rule mtriple_post [OF mtriple_live_other]) (auto intro!: emits_rules split: sum.split)
  have probe: "mtriple live_step (live {}) (probe_max_transfer fw p) (\<lambda>_. live {})" for p
    by (rule mtriple_live_other [OF emits_mono [OF emits_probe_max_transfer nvme_owns_nothing]])
  have reserve: "mtriple live_step (live {}) (try_reserve fw n) (\<lambda>_. live {})" for n
    unfolding call_defs by (rule mtriple_live_other) (auto intro!: emits_rules)
  have alloc: "mtriple live_step (live {}) (log_event (EvAlloc a)) (\<lambda>_. live {})" for a
    by (rule mtriple_log) auto
  have read: "mtriple live_step (live {}) (read_bp_via_log_page fw p bpid chunk buf) (\<lambda>_. live {})" for p bpid chunk buf
    by (rule mtriple_live_other [OF emits_mono [OF emits_read_bp nvme_owns_nothing]])
  show ?thesis
    unfolding run_sre_flow_def Let_def
    by (rule mtriple_thn [OF connect], rule mtriple_try [OF nvme], rule mtriple_bnd [OF probe],
        rule mtriple_bnd [OF reserve], rule mtriple_option, simp add: mtriple_ret,
        rule mtriple_thn [OF alloc], rule mtriple_bnd [OF read], rule mtriple_sum)
      (simp_all add: freed mtriple_boot_ram_disk)
qed

subsection \<open>A registration that is half undone\<close>

text \<open>
  The exception is real: when the second install fails and the rollback of the first is refused,
  the buffer is dropped by the error return while the Block IO interface over it is installed.
\<close>

lemma boot_ram_disk_half_registered:
  fixes s :: "('w, 'dp) st"
  assumes block: "fw_install_protocol fw None BlockIo (fw_box fw (world s)) (world s) = (Ret (Inr hnd), w1)"
    and path: "fw_install_protocol fw (Some hnd) DevicePathProtocol (fw_leak fw (world s)) w1 = (Ret (Inl e), w2)"
    and rollback: "fw_uninstall_protocol fw hnd BlockIo (fw_box fw (world s)) w2 = (Ret (Inl e'), w3)"
  shows "\<exists>es. boot_ram_disk a fw beyond locked h buf n s =
      (Ret (Inl (err_of (fw_lib fw) e)), s\<lparr>world := w3, trace := trace s @ es @ [EvFree (BpBuffer buf)]\<rparr>) \<and>
    live_installs es = {fw_box fw (world s)} \<and> \<not> frees_safe (es @ [EvFree (BpBuffer buf)])"
proof -
  let ?p = "fw_box fw (world s)" and ?d = "fw_leak fw (world s)"
  let ?es = "[EvAlloc (RamDiskState ?p), EvAlloc (LeakedPath ?d), EvInstall None BlockIo ?p (Ret (Inr hnd)),
    EvInstall (Some hnd) DevicePathProtocol ?d (Ret (Inl e)), EvUninstall hnd BlockIo ?p (Ret (Inl e'))]"
  have "boot_ram_disk a fw beyond locked h buf n s =
      (Ret (Inl (err_of (fw_lib fw) e)), s\<lparr>world := w3, trace := trace s @ ?es @ [EvFree (BpBuffer buf)]\<rparr>)"
    using block path rollback
    by (simp add: boot_ram_disk_def register_ram_disk_def Let_def thn_def tryE_def map_err_def bnd_def ret_run
        peek_def log_event_def install_protocol_def uninstall_protocol_def svc_def)
  moreover have live: "live_installs ?es = {?p}" by (simp add: live_installs_def)
  moreover have "\<not> frees_safe (?es @ [EvFree (BpBuffer buf)])"
    unfolding frees_safe_snoc by (simp only: live) simp
  ultimately show ?thesis by blast
qed

end
