(* ===== verification/Consoles.thy ===== *)
theory Consoles
  imports BootExpand
begin

text \<open>
  Hotkey detection and console discovery of \<open>helpers.rs\<close>. The key buffers are drained by a
  \<open>loop\<close> that the input protocol ends, so it runs on fuel; \<open>detect_hotkey_returns\<close> says which
  fuel is enough.
\<close>

subsection \<open>Hotkeys\<close>

text \<open>The body of the drain loop: \<open>Inr (Some True)\<close> is the early return, \<open>Inr None\<close> the break.\<close>

definition drain_step :: "('w, 'dp) firmware \<Rightarrow> ptr \<Rightarrow> u16 \<Rightarrow> unit \<Rightarrow> ('w, 'dp, unit + bool option) boot" where
  "drain_step fw protocol_ptr hotkey_scancode _ =
     bnd (read_key_stroke fw protocol_ptr) (\<lambda>(status, scan_code).
       if status = SUCCESS then
         if scan_code = hotkey_scancode then ret (Inr (Some True)) else ret (Inl ())
       else ret (Inr None))"

definition drain_handle :: "nat \<Rightarrow> ('w, 'dp) firmware \<Rightarrow> u16 \<Rightarrow> handle \<Rightarrow> ('w, 'dp, bool option) boot" where
  "drain_handle fuel fw hotkey_scancode h =
     bnd (handle_protocol fw h SimpleTextInput) (\<lambda>r. case r of
       Inl _ \<Rightarrow> ret None
     | Inr protocol_ptr \<Rightarrow> loop fuel (drain_step fw protocol_ptr hotkey_scancode) ())"

definition detect_hotkey_from_handles ::
  "nat \<Rightarrow> ('w, 'dp) firmware \<Rightarrow> handle list \<Rightarrow> u16 \<Rightarrow> ('w, 'dp, bool) boot" where
  "detect_hotkey_from_handles fuel fw handles hotkey_scancode =
     bnd (each_until (drain_handle fuel fw hotkey_scancode) handles) (\<lambda>r. case r of
       Some b \<Rightarrow> ret b | None \<Rightarrow> ret False)"

definition detect_hotkey :: "nat \<Rightarrow> ('w, 'dp) firmware \<Rightarrow> u16 \<Rightarrow> ('w, 'dp, bool) boot" where
  "detect_hotkey fuel fw hotkey_scancode =
     bnd (locate_handle_buffer fw (ByProtocol SimpleTextInput)) (\<lambda>r. case r of
       Inl _ \<Rightarrow> ret False
     | Inr handles \<Rightarrow> detect_hotkey_from_handles fuel fw handles hotkey_scancode)"

fun is_key_event :: "'dp event \<Rightarrow> bool" where
  "is_key_event (EvLocateHandles sr r) = True"
| "is_key_event (EvHandleProtocol h g r) = True"
| "is_key_event (EvReadKey p r) = True"
| "is_key_event _ = False"

lemma emits_detect_hotkey: "emits is_key_event (detect_hotkey fuel fw code)"
  unfolding detect_hotkey_def detect_hotkey_from_handles_def drain_handle_def drain_step_def call_defs
  by (intro emits_rules) simp_all

lemma is_key_event_quiet: "is_key_event e \<Longrightarrow> quiet e"
  by (cases e) simp_all

text \<open>The monitor: has the key been read? After it nothing more is read.\<close>

fun hot_step :: "u16 \<Rightarrow> bool \<Rightarrow> 'dp event \<Rightarrow> bool option" where
  "hot_step code q (EvReadKey p r) = (if q then None else Some (r = Ret (SUCCESS, code)))"
| "hot_step code q _ = Some q"

lemma monitor_hot_step:
  "monitor (hot_step code) q es = Some q' \<Longrightarrow> q' \<longleftrightarrow> q \<or> (\<exists>p. EvReadKey p (Ret (SUCCESS, code)) \<in> set es)"
proof (induction es arbitrary: q)
  case (Cons e es)
  then show ?case by (cases e) (auto split: if_splits)
qed simp

lemma mtriple_drain_handle:
  "mtriple (hot_step code) (\<lambda>q. \<not> q) (drain_handle fuel fw code h) (\<lambda>r q. r \<noteq> Some False \<and> (q \<longleftrightarrow> r = Some True))"
proof -
  have read: "mtriple (hot_step code) (\<lambda>q. \<not> q) (read_key_stroke fw p) (\<lambda>(st, c) q. q \<longleftrightarrow> st = SUCCESS \<and> c = code)" for p
    unfolding read_key_stroke_def by (rule mtriple_svc) auto
  have step: "mtriple (hot_step code) (\<lambda>q. \<not> q) (drain_step fw p code u)
      (\<lambda>r q. case r of Inl _ \<Rightarrow> \<not> q | Inr x \<Rightarrow> x \<noteq> Some False \<and> (q \<longleftrightarrow> x = Some True))" for p u
    unfolding drain_step_def by (rule mtriple_bnd [OF read]) (auto intro!: mtriple_ret)
  have drain: "mtriple (hot_step code) (\<lambda>q. \<not> q) (loop fuel (drain_step fw p code) ())
      (\<lambda>x q. x \<noteq> Some False \<and> (q \<longleftrightarrow> x = Some True))" for p
    by (rule mtriple_loop [OF step])
  show ?thesis
    unfolding drain_handle_def handle_protocol_def
    by (intro mtriple_bnd [where K = "\<lambda>_ q. \<not> q"] mtriple_svc mtriple_sum) (auto intro: mtriple_ret drain)
qed

lemma mtriple_detect_hotkey:
  "mtriple (hot_step code) (\<lambda>q. \<not> q) (detect_hotkey fuel fw code) (\<lambda>b q. q \<longleftrightarrow> b)"
proof -
  have handles: "mtriple (hot_step code) (\<lambda>q. \<not> q) (each_until (drain_handle fuel fw code) hs)
      (\<lambda>r q. r \<noteq> Some False \<and> (q \<longleftrightarrow> r = Some True))" for hs
  proof (induction hs)
    case (Cons h hs)
    show ?case
      unfolding each_until.simps
      by (rule mtriple_bnd [OF mtriple_drain_handle], rule mtriple_option)
        (use Cons in \<open>auto intro!: mtriple_ret intro: mtriple_conseq\<close>)
  qed (auto intro: mtriple_ret)
  have "mtriple (hot_step code) (\<lambda>q. \<not> q) (detect_hotkey_from_handles fuel fw hs code) (\<lambda>b q. q \<longleftrightarrow> b)" for hs
    unfolding detect_hotkey_from_handles_def
    by (rule mtriple_bnd [OF handles], rule mtriple_option) (auto intro!: mtriple_ret)
  then show ?thesis
    unfolding detect_hotkey_def locate_handle_buffer_def
    by (intro mtriple_bnd [where K = "\<lambda>_ q. \<not> q"] mtriple_svc mtriple_sum) (auto intro: mtriple_ret)
qed

text \<open>The reads of a log that yield the key.\<close>

definition is_hit :: "u16 \<Rightarrow> 'dp event \<Rightarrow> bool" where
  "is_hit code e \<longleftrightarrow> (\<exists>p. e = EvReadKey p (Ret (SUCCESS, code)))"

lemma monitor_hit_last:
  "monitor (hot_step code) q es = Some q' \<Longrightarrow>
   (if q then filter (\<lambda>e. \<exists>p r. e = EvReadKey p r) es = [] \<and> q'
    else length (filter (is_hit code) es) = of_bool q')"
proof (induction es arbitrary: q)
  case (Cons e es)
  obtain q1 where q1: "hot_step code q e = Some q1" "monitor (hot_step code) q1 es = Some q'"
    using Cons.prems by (auto split: option.splits)
  have none: "filter (is_hit code) es = []" if "filter (\<lambda>e. \<exists>p r. e = EvReadKey p r) es = []"
    using that by (auto simp: filter_empty_conv is_hit_def)
  have hit: "is_hit code e \<longleftrightarrow> \<not> q \<and> q1 \<or> is_hit code e \<and> q" "q \<Longrightarrow> q1 \<and> \<not> (\<exists>p r. e = EvReadKey p r)"
    using q1(1) by (cases e; auto simp: is_hit_def split: if_splits)+
  have miss: "q \<Longrightarrow> \<not> is_hit code e" using hit(2) by (auto simp: is_hit_def)
  show ?case
  proof (cases q)
    case True
    then show ?thesis using Cons.IH [OF q1(2)] hit(2) by simp
  next
    case False
    then show ?thesis using Cons.IH [OF q1(2)] hit(1) none by (cases q1) simp_all
  qed
qed simp

text \<open>
  Keyboards whose buffers run dry: every read returns, and a successful one uses up one of the
  \<open>pending\<close> keystrokes of the platform.
\<close>

definition finite_keys :: "('w, 'dp) firmware \<Rightarrow> ('w \<Rightarrow> nat) \<Rightarrow> bool" where
  "finite_keys fw pending \<longleftrightarrow> (\<forall>p w. \<exists>status c w'. fw_read_key_stroke fw p w = (Ret (status, c), w') \<and>
     pending w' \<le> pending w \<and> (status = SUCCESS \<longrightarrow> pending w' < pending w))"

lemma drain_returns:
  assumes "finite_keys fw pending"
  shows "pending (world s) < fuel \<Longrightarrow>
    \<exists>x s'. loop fuel (drain_step fw p code) () s = (Ret x, s') \<and> pending (world s') \<le> pending (world s)"
proof (induction fuel arbitrary: s)
  case (Suc fuel)
  obtain status c w' where read: "fw_read_key_stroke fw p (world s) = (Ret (status, c), w')"
    "pending w' \<le> pending (world s)" "status = SUCCESS \<longrightarrow> pending w' < pending (world s)"
    using assms unfolding finite_keys_def by blast
  let ?s = "s\<lparr>world := w', trace := trace s @ [EvReadKey p (Ret (status, c))]\<rparr>"
  have step: "drain_step fw p code () s = (Ret (if status = SUCCESS then
      if c = code then Inr (Some True) else Inl () else Inr None), ?s)"
    by (simp add: drain_step_def read_key_stroke_def bnd_def svc_def read(1) ret_run)
  show ?case
  proof (cases "status = SUCCESS \<and> c \<noteq> code")
    case True
    then have "pending (world ?s) < fuel" using read Suc.prems by simp
    from Suc.IH [OF this] True read(2) show ?thesis by (fastforce simp: bnd_def step)
  next
    case False
    then show ?thesis using read(2) by (auto simp: bnd_def step ret_run)
  qed
qed simp

lemma drain_handles_return:
  assumes keys: "finite_keys fw pending" and fw: "pure_lookups fw"
  shows "pending (world s) < fuel \<Longrightarrow> \<exists>x s'. each_until (drain_handle fuel fw code) hs s = (Ret x, s')"
proof (induction hs arbitrary: s)
  case (Cons h hs)
  obtain es where h: "handle_protocol fw h SimpleTextInput s =
      (Ret (protocol_found fw h SimpleTextInput (world s)), s\<lparr>trace := trace s @ es\<rparr>)"
    by (rule readsE [OF reads_handle_protocol [OF fw]])
  obtain x s' where x: "drain_handle fuel fw code h s = (Ret x, s')" "pending (world s') \<le> pending (world s)"
  proof (cases "protocol_found fw h SimpleTextInput (world s)")
    case (Inl e)
    then show thesis using that h by (simp add: drain_handle_def bnd_def ret_run)
  next
    case (Inr p)
    then show thesis
      using that h drain_returns [OF keys, of "s\<lparr>trace := trace s @ es\<rparr>" fuel p code] Cons.prems
      by (auto simp: drain_handle_def bnd_def)
  qed
  then show ?case
    using Cons.IH [of s'] Cons.prems by (cases x) (simp_all add: bnd_def ret_run)
qed (simp add: ret_run)

lemma detect_hotkey_returns:
  assumes keys: "finite_keys fw pending" and fw: "pure_lookups fw" and fuel: "pending (world s) < fuel"
  shows "\<exists>b s'. detect_hotkey fuel fw code s = (Ret b, s')"
proof -
  obtain es where h: "locate_handle_buffer fw (ByProtocol SimpleTextInput) s =
      (Ret (handles_found fw (ByProtocol SimpleTextInput) (world s)), s\<lparr>trace := trace s @ es\<rparr>)"
    by (rule readsE [OF reads_locate [OF fw]])
  show ?thesis
  proof (cases "handles_found fw (ByProtocol SimpleTextInput) (world s)")
    case (Inr hs)
    obtain x s' where "each_until (drain_handle fuel fw code) hs (s\<lparr>trace := trace s @ es\<rparr>) = (Ret x, s')"
      using drain_handles_return [OF keys fw, of "s\<lparr>trace := trace s @ es\<rparr>" fuel code hs] fuel by auto
    then show ?thesis
      using h Inr
      by (cases x) (auto simp: detect_hotkey_def detect_hotkey_from_handles_def bnd_def ret_run)
  qed (use h in \<open>auto simp: detect_hotkey_def bnd_def ret_run\<close>)
qed

subsection \<open>Console variables\<close>

text \<open>The body of the inner loop: the path so far and the handles already seen.\<close>

definition add_console ::
  "('w, 'dp) firmware \<Rightarrow> handle \<Rightarrow> 'dp option \<times> handle list \<Rightarrow> ('w, 'dp, 'dp option \<times> handle list) boot" where
  "add_console fw h = (\<lambda>(result, seen_handles).
     if h \<in> set seen_handles then ret (result, seen_handles)
     else bnd (handle_device_path fw h) (\<lambda>r. case r of
       None \<Rightarrow> ret (result, seen_handles @ [h])
     | Some device_path \<Rightarrow> ret (case result of
           Some multi \<Rightarrow> Some (dp_append_instances (fw_lib fw) multi device_path)
         | None \<Rightarrow> Some device_path, seen_handles @ [h])))"

definition build_multi_instance_device_path ::
  "('w, 'dp) firmware \<Rightarrow> guid list \<Rightarrow> ('w, 'dp, 'dp option) boot" where
  "build_multi_instance_device_path fw protocol_guids =
     bnd (each_acc (\<lambda>guid acc. bnd (locate_handle_buffer fw (ByProtocol guid)) (\<lambda>r. case r of
            Inl _ \<Rightarrow> ret acc
          | Inr handles \<Rightarrow> each_acc (add_console fw) handles acc)) protocol_guids (None, []))
       (\<lambda>(result, _). ret result)"

definition console_vars :: "(string \<times> guid list) list" where
  "console_vars = [(''ConIn'', [SimpleTextInput]), (''ConOut'', [SimpleTextOutput, GraphicsOutput]),
     (''ErrOut'', [SimpleTextOutput])]"

definition discover_console_devices :: "('w, 'dp) firmware \<Rightarrow> ('w, 'dp, efi_error + unit) boot" where
  "discover_console_devices fw =
     thn (each (\<lambda>(name, guids). bnd (build_multi_instance_device_path fw guids) (\<lambda>device_path.
            case device_path of
              None \<Rightarrow> ret ()
            | Some dp \<Rightarrow> bnd (set_variable fw name (dp_bytes (fw_lib fw) dp)) (\<lambda>_. ret ()))) console_vars)
       (ret (Inr ()))"

fun is_console_event :: "'dp event \<Rightarrow> bool" where
  "is_console_event (EvLocateHandles sr r) = True"
| "is_console_event (EvHandleProtocol h g r) = True"
| "is_console_event (EvSetVariable n bs r) = (n \<in> {''ConIn'', ''ConOut'', ''ErrOut''})"
| "is_console_event _ = False"

lemma is_console_event_quiet: "is_console_event e \<Longrightarrow> quiet e"
  by (cases e) simp_all

lemma is_lookup_console: "is_lookup e \<Longrightarrow> is_console_event e"
  by (cases e) simp_all

lemma emits_build_multi: "emits is_lookup (build_multi_instance_device_path fw guids)"
  unfolding build_multi_instance_device_path_def add_console_def locate_handle_buffer_def
  by (intro emits_rules emits_handle_device_path) simp_all

lemma emits_discover_console_devices: "emits is_console_event (discover_console_devices fw)"
  unfolding discover_console_devices_def console_vars_def each.simps set_variable_def prod.case
  by (intro emits_rules emits_mono [OF emits_build_multi is_lookup_console]) simp_all

subsection \<open>The console path: every handle once, in the order it was first listed\<close>

definition first_seen :: "'a list \<Rightarrow> 'a list" where
  "first_seen xs = rev (remdups (rev xs))"

definition console_handles :: "('w, 'dp) firmware \<Rightarrow> 'w \<Rightarrow> guid list \<Rightarrow> handle list" where
  "console_handles fw w guids = first_seen (concat (map (\<lambda>g.
     case handles_found fw (ByProtocol g) w of Inl _ \<Rightarrow> [] | Inr hs \<Rightarrow> hs) guids))"

definition join_instances :: "'dp patina \<Rightarrow> 'dp list \<Rightarrow> 'dp option" where
  "join_instances lib ps = (case ps of [] \<Rightarrow> None | p # qs \<Rightarrow> Some (foldl (dp_append_instances lib) p qs))"

definition console_path :: "('w, 'dp) firmware \<Rightarrow> 'w \<Rightarrow> handle list \<Rightarrow> 'dp option" where
  "console_path fw w hs = join_instances (fw_lib fw) (List.map_filter (path_found fw w) hs)"

lemma first_seen_snoc: "first_seen (xs @ [x]) = (if x \<in> set xs then first_seen xs else first_seen xs @ [x])"
  by (simp add: first_seen_def)

lemma set_first_seen [simp]: "set (first_seen xs) = set xs"
  by (simp add: first_seen_def)

lemma distinct_first_seen [simp]: "distinct (first_seen xs)"
  by (simp add: first_seen_def)

lemma join_instances_snoc: "join_instances lib (ps @ [p]) = (case join_instances lib ps of
    Some multi \<Rightarrow> Some (dp_append_instances lib multi p) | None \<Rightarrow> Some p)"
  by (simp add: join_instances_def split: list.split)

lemma map_filter_snoc: "List.map_filter f (xs @ [x]) =
    List.map_filter f xs @ (case f x of None \<Rightarrow> [] | Some y \<Rightarrow> [y])"
  by (simp add: List.map_filter_def split: option.split)

lemma reads_each_acc:
  assumes "\<And>x a. reads (body x a) (f x a)"
  shows "reads (each_acc body xs a) (\<lambda>w. fold (\<lambda>x a. f x a w) xs a)"
proof (induction xs arbitrary: a)
  case (Cons x xs)
  from reads_bnd [OF assms Cons.IH] show ?case by simp
qed (simp add: reads_ret)

lemma reads_add_console:
  assumes "pure_lookups fw"
  shows "reads (add_console fw h acc) (\<lambda>w. if h \<in> set (snd acc) then acc
    else (case path_found fw w h of None \<Rightarrow> fst acc
      | Some p \<Rightarrow> (case fst acc of Some multi \<Rightarrow> Some (dp_append_instances (fw_lib fw) multi p) | None \<Rightarrow> Some p),
      snd acc @ [h]))"
proof (cases "h \<in> set (snd acc)")
  case False
  have "reads (bnd (handle_device_path fw h) (\<lambda>r. case r of None \<Rightarrow> ret (fst acc, snd acc @ [h])
      | Some p \<Rightarrow> ret (case fst acc of Some multi \<Rightarrow> Some (dp_append_instances (fw_lib fw) multi p)
          | None \<Rightarrow> Some p, snd acc @ [h])))
      (\<lambda>w. (case path_found fw w h of None \<Rightarrow> fst acc
      | Some p \<Rightarrow> (case fst acc of Some multi \<Rightarrow> Some (dp_append_instances (fw_lib fw) multi p) | None \<Rightarrow> Some p),
      snd acc @ [h]))"
    by (rule reads_bnd [OF reads_handle_device_path [OF assms], where g = "\<lambda>r _. (case r of None \<Rightarrow> fst acc
      | Some p \<Rightarrow> (case fst acc of Some multi \<Rightarrow> Some (dp_append_instances (fw_lib fw) multi p) | None \<Rightarrow> Some p),
      snd acc @ [h])"]) (auto simp: reads_ret split: option.split)
  with False show ?thesis by (simp add: add_console_def split_beta)
qed (simp add: add_console_def split_beta reads_ret)

text \<open>Adding a handle moves the accumulator from one prefix of the listing to the next.\<close>

lemma fold_add_console:
  "fold (\<lambda>h acc. if h \<in> set (snd acc) then acc
      else (case path_found fw w h of None \<Rightarrow> fst acc
        | Some p \<Rightarrow> (case fst acc of Some multi \<Rightarrow> Some (dp_append_instances (fw_lib fw) multi p) | None \<Rightarrow> Some p),
        snd acc @ [h])) hs (console_path fw w (first_seen done), first_seen done) =
   (console_path fw w (first_seen (done @ hs)), first_seen (done @ hs))"
proof (induction hs arbitrary: "done")
  case (Cons h hs)
  from Cons [of "done @ [h]"] show ?case
    by (auto simp: first_seen_snoc console_path_def map_filter_snoc join_instances_snoc split: option.splits)
qed simp

lemma reads_build_multi:
  assumes fw: "pure_lookups fw"
  shows "reads (build_multi_instance_device_path fw guids) (\<lambda>w. console_path fw w (console_handles fw w guids))"
proof -
  let ?add = "\<lambda>h acc w. if h \<in> set (snd acc) then acc
      else (case path_found fw w h of None \<Rightarrow> fst acc
        | Some p \<Rightarrow> (case fst acc of Some multi \<Rightarrow> Some (dp_append_instances (fw_lib fw) multi p) | None \<Rightarrow> Some p),
        snd acc @ [h])"
  let ?list = "\<lambda>w g. case handles_found fw (ByProtocol g) w of Inl _ \<Rightarrow> [] | Inr hs \<Rightarrow> hs"
  let ?guid = "\<lambda>g acc. bnd (locate_handle_buffer fw (ByProtocol g)) (\<lambda>r. case r of
      Inl _ \<Rightarrow> ret acc | Inr handles \<Rightarrow> each_acc (add_console fw) handles acc)"
  have body: "reads (?guid g acc) (\<lambda>w. fold (\<lambda>h acc. ?add h acc w) (?list w g) acc)" for g acc
    by (rule reads_cong [OF reads_bnd [OF reads_locate [OF fw], where g = "\<lambda>r w. case r of Inl _ \<Rightarrow> acc
        | Inr hs \<Rightarrow> fold (\<lambda>h acc. ?add h acc w) hs acc"]])
      (auto split: sum.split simp: reads_ret intro: reads_each_acc reads_add_console [OF fw])
  have spec: "fold (\<lambda>g acc. fold (\<lambda>h acc. ?add h acc w) (?list w g) acc) guids
      (console_path fw w (first_seen done), first_seen done) =
      (console_path fw w (first_seen (done @ concat (map (?list w) guids))),
       first_seen (done @ concat (map (?list w) guids)))" for w "done"
  proof (induction guids arbitrary: "done")
    case (Cons g guids)
    show ?case unfolding fold_simps fold_add_console Cons.IH by simp
  qed simp
  have "reads (build_multi_instance_device_path fw guids)
      (\<lambda>w. fst (fold (\<lambda>g acc. fold (\<lambda>h acc. ?add h acc w) (?list w g) acc) guids (None, [])))"
    unfolding build_multi_instance_device_path_def
    by (rule reads_cong [OF reads_bnd [OF reads_each_acc [OF body], where g = "\<lambda>r _. fst r"]])
      (auto simp: reads_ret split_beta)
  then show ?thesis
    using spec [of _ "[]"] by (simp add: console_handles_def first_seen_def console_path_def join_instances_def)
qed

end
