(* ===== verification/SimpleBoot.thy ===== *)
theory SimpleBoot
  imports Connect Consoles
begin

text \<open>
  \<open>orchestrators/simple_boot_manager.rs\<close> and \<open>boot_dispatcher.rs\<close>: the default boot flow and
  the component that installs the BDS protocol and runs a flow when the DXE core asks for it.
  \<open>Result<Infallible, EfiError>\<close> has no \<open>Ok\<close> values, so a flow returns the error itself.
\<close>

subsection \<open>The flow\<close>

record ('w, 'dp) simple_boot_manager =
  sbm_config :: "('w, 'dp) boot_config"
  sbm_connect_strategy :: "('w, 'dp) strategy"

definition simple_new :: "('w, 'dp) boot_config \<Rightarrow> ('w, 'dp) simple_boot_manager" where
  "simple_new config = \<lparr>sbm_config = config, sbm_connect_strategy = ConnectAllStrategy\<rparr>"

lemma simple_new_simps [simp]:
  "sbm_config (simple_new config) = config"
  "sbm_connect_strategy (simple_new config) = ConnectAllStrategy"
  by (simp_all add: simple_new_def)

definition with_connect_strategy ::
  "('w, 'dp) boot_config \<Rightarrow> ('w, 'dp) strategy \<Rightarrow> ('w, 'dp) simple_boot_manager" where
  "with_connect_strategy config strategy = \<lparr>sbm_config = config, sbm_connect_strategy = strategy\<rparr>"

text \<open>One turn of the boot loop; what ReadyToBoot or the image say is logged only.\<close>

definition attempt_device :: "('w, 'dp) firmware \<Rightarrow> locked_boot \<Rightarrow> handle \<Rightarrow> 'dp \<Rightarrow> ('w, 'dp, unit) boot" where
  "attempt_device fw locked image_handle device_path =
     bnd (signal_ready_to_boot fw) (\<lambda>_.
     bnd (locked_boot_from_device_path fw locked image_handle device_path) (\<lambda>_. ret ()))"

definition hotkey_pressed :: "nat \<Rightarrow> ('w, 'dp) firmware \<Rightarrow> ('w, 'dp) boot_config \<Rightarrow> ('w, 'dp, bool) boot" where
  "hotkey_pressed fuel fw config = (case cfg_hotkey config of
      Some hotkey \<Rightarrow> detect_hotkey fuel fw hotkey
    | None \<Rightarrow> ret False)"

definition execute_with ::
  "nat \<Rightarrow> ('w, 'dp) firmware \<Rightarrow> ('w, 'dp) simple_boot_manager \<Rightarrow> handle \<Rightarrow>
   ('w, 'dp, efi_error + locked_boot) boot \<Rightarrow> ('w, 'dp, efi_error) boot" where
  "execute_with fuel fw mgr image_handle enter = (let config = sbm_config mgr in
     bnd (interleave_connect_and_dispatch fuel fw (strategy_connect fw (sbm_connect_strategy mgr))) (\<lambda>_.
     bnd enter (\<lambda>entered. case entered of
       Inl e \<Rightarrow> ret e
     | Inr locked \<Rightarrow>
         bnd (discover_console_devices fw) (\<lambda>_.
         bnd (hotkey_pressed fuel fw config) (\<lambda>use_hotkey_devices.
         thn (each (attempt_device fw locked image_handle)
               (if use_hotkey_devices then cfg_hotkey_devices config else cfg_devices config))
           (thn (handle_failure config) (ret NotFound)))))))"

definition simple_execute ::
  "nat \<Rightarrow> ('w, 'dp) firmware \<Rightarrow> ('w, 'dp) simple_boot_manager \<Rightarrow> handle \<Rightarrow> ('w, 'dp, efi_error) boot" where
  "simple_execute fuel fw mgr image_handle = execute_with fuel fw mgr image_handle (enter_locked_boot fw)"

subsection \<open>The dispatcher\<close>

type_synonym ('w, 'dp) orchestrator = "handle \<Rightarrow> ('w, 'dp, efi_error) boot"

text \<open>\<open>BDS_CONTEXT\<close>: set once, by the first entry point that gets an image handle.\<close>

type_synonym ('w, 'dp) bds_context = "(('w, 'dp) orchestrator \<times> handle) option"

definition call_once :: "'a \<Rightarrow> 'a option \<Rightarrow> 'a option" where
  "call_once x ctx = (case ctx of None \<Rightarrow> Some x | Some y \<Rightarrow> Some y)"

definition entry_point ::
  "('w, 'dp) firmware \<Rightarrow> ('w, 'dp) orchestrator \<Rightarrow> handle option \<Rightarrow> ('w, 'dp) bds_context \<Rightarrow>
   ('w, 'dp, (efi_error + unit) \<times> ('w, 'dp) bds_context) boot" where
  "entry_point fw orchestrator image_handle ctx = (case image_handle of
      None \<Rightarrow> ret (Inl InvalidParameter, ctx)
    | Some h \<Rightarrow>
        let ctx' = call_once (orchestrator, h) ctx in
        bnd (peek (fw_leak fw)) (\<lambda>protocol.
        bnd (install_protocol fw None BdsArch protocol) (\<lambda>r. case r of
          Inl status \<Rightarrow> ret (Inl (err_of (fw_lib fw) status), ctx')
        | Inr _ \<Rightarrow> ret (Inr (), ctx'))))"

text \<open>\<open>bds_fatal\<close> parks the processor: control is gone for good.\<close>

definition bds_fatal :: "('w, 'dp, 'a) boot" where
  "bds_fatal = (\<lambda>s. (Gone, s))"

definition bds_entry_point :: "('w, 'dp) bds_context \<Rightarrow> ('w, 'dp, unit) boot" where
  "bds_entry_point ctx = (case ctx of
      None \<Rightarrow> bds_fatal
    | Some (orchestrator, image_handle) \<Rightarrow> bnd (orchestrator image_handle) (\<lambda>e. bds_fatal))"

lemma mtriple_accepts:
  "mtriple \<delta> I m J \<Longrightarrow> I q \<Longrightarrow> \<exists>es q'. trace (snd (m s)) = trace s @ es \<and> monitor \<delta> q es = Some q'"
  unfolding mtriple_def by blast

lemma secure_guarded_trace:
  assumes "mtriple lock_step (\<lambda>q. q = Unlocked) m J" and "wd_keeps m"
  shows "\<exists>es. trace (snd (m s)) = trace s @ es \<and> images_after_lock es \<and> starts_guarded es"
proof -
  obtain es q where es: "trace (snd (m s)) = trace s @ es" "monitor lock_step Unlocked es = Some q"
    using mtriple_accepts [OF assms(1), of Unlocked s] by auto
  moreover obtain fs q' where "trace (snd (m s)) = trace s @ fs" "monitor wd_step Idle fs = Some q'"
    using mtriple_accepts [OF assms(2), of Idle s] by auto
  ultimately show ?thesis
    using monitor_images_after_lock [OF es(2)] monitor_starts_guarded [of es q'] by auto
qed

subsection \<open>The orchestrator interface\<close>

text \<open>
  What the dispatcher may rely on of a boot flow: image events only after the security
  transition, and every start under its watchdog.
\<close>

locale boot_orchestrator =
  fixes execute :: "('w, 'dp) orchestrator"
  assumes secure: "mtriple lock_step (\<lambda>q. q = Unlocked) (execute h) (\<lambda>_ _. True)"
    and guarded: "wd_keeps (execute h)"
begin

lemma bds_never_returns: "fst (bds_entry_point (Some (execute, h)) s) \<noteq> Ret x"
  by (auto simp: bds_entry_point_def bnd_def bds_fatal_def split: prod.split outcome.split)

lemma bds_trace:
  "\<exists>es. trace (snd (bds_entry_point (Some (execute, h)) s)) = trace s @ es \<and>
     images_after_lock es \<and> starts_guarded es"
proof -
  have "snd (bds_entry_point (Some (execute, h)) s) = snd (execute h s)"
    by (simp add: bds_entry_point_def bnd_def bds_fatal_def split: prod.split outcome.split)
  then show ?thesis using secure_guarded_trace [OF secure guarded] by simp
qed

lemma bds_contract:
  "\<exists>es. (\<forall>x. fst (bds_entry_point (Some (execute, h)) s) \<noteq> Ret x) \<and>
     trace (snd (bds_entry_point (Some (execute, h)) s)) = trace s @ es \<and>
     images_after_lock es \<and> starts_guarded es"
  using bds_trace [of h s] bds_never_returns [of h s] by auto

end

lemma bds_uninitialised: "bds_entry_point None s = (Gone, s)"
  by (simp add: bds_entry_point_def bds_fatal_def)

subsection \<open>The simple flow keeps the interface\<close>

lemma is_signal_quiet: "g \<noteq> EndOfDxeGroup \<Longrightarrow> is_signal_event g e \<Longrightarrow> quiet e"
  by (cases e) simp_all

lemma emits_any: "emits P m \<Longrightarrow> emits (\<lambda>_. True) m"
  by (erule emits_mono) simp

lemma emits_boot_from_device_path: "emits (\<lambda>_. True) (boot_from_device_path fw parent dp)"
  unfolding boot_from_device_path_alt load_and_start_def call_defs
  by (intro emits_rules emits_any [OF emits_expand_device_path]) simp_all

lemma emits_attempt_device: "emits (\<lambda>_. True) (attempt_device fw locked image_handle dp)"
  unfolding attempt_device_def signal_ready_to_boot_def locked_boot_from_device_path_def
  by (intro emits_rules emits_boot_from_device_path emits_any [OF emits_signal_event_group])

lemma emits_handle_failure: "(\<And>r. P (EvFailureHandler r)) \<Longrightarrow> emits P (handle_failure config)"
  unfolding handle_failure_def by (intro emits_rules)

lemma emits_hotkey_pressed: "emits is_key_event (hotkey_pressed fuel fw config)"
  unfolding hotkey_pressed_def by (intro emits_rules emits_detect_hotkey)

lemma wd_keeps_bnd: "wd_keeps m \<Longrightarrow> (\<And>x. wd_keeps (k x)) \<Longrightarrow> wd_keeps (bnd m k)"
  by (rule mtriple_bnd)

lemma wd_keeps_each: "(\<And>x. wd_keeps (f x)) \<Longrightarrow> wd_keeps (each f xs)"
  by (rule mtriple_each)

lemma wd_keeps_attempt_device: "wd_keeps (attempt_device fw locked image_handle dp)"
  unfolding attempt_device_def locked_boot_from_device_path_def signal_ready_to_boot_def
  by (intro wd_keeps_bnd wd_keeps_boot_from_device_path mtriple_ret
      wd_keeps_quiet [OF emits_mono [OF emits_signal_event_group is_signal_quiet]]) simp_all

definition quiet_strategy :: "('w, 'dp) firmware \<Rightarrow> ('w, 'dp) strategy \<Rightarrow> bool" where
  "quiet_strategy fw strategy \<longleftrightarrow> connect_strategy (strategy_connect fw strategy)"

lemma stock_strategy_quiet: "quiet_strategy fw ConnectAllStrategy"
  unfolding quiet_strategy_def by (rule connect_all.connect_strategy_axioms)

lemma emits_after_lock:
  "emits (\<lambda>_. True) (bnd (discover_console_devices fw) (\<lambda>_.
     bnd (hotkey_pressed fuel fw config) (\<lambda>use_hotkey_devices.
     thn (each (attempt_device fw locked image_handle) (devices use_hotkey_devices))
       (thn (handle_failure config) (ret NotFound)))))"
  by (intro emits_rules emits_any [OF emits_discover_console_devices] emits_any [OF emits_hotkey_pressed]
      emits_attempt_device emits_handle_failure TrueI)

lemma wd_keeps_after_lock:
  "wd_keeps (bnd (discover_console_devices fw) (\<lambda>_.
     bnd (hotkey_pressed fuel fw config) (\<lambda>use_hotkey_devices.
     thn (each (attempt_device fw locked image_handle) (devices use_hotkey_devices))
       (thn (handle_failure config) (ret NotFound)))))"
  unfolding thn_def
  by (intro wd_keeps_bnd wd_keeps_each wd_keeps_attempt_device mtriple_ret
      wd_keeps_quiet [OF emits_mono [OF emits_discover_console_devices is_console_event_quiet]]
      wd_keeps_quiet [OF emits_mono [OF emits_hotkey_pressed is_key_event_quiet]]
      wd_keeps_quiet [OF emits_handle_failure]) simp_all

lemma wd_keeps_enter_locked_boot: "wd_keeps (enter_locked_boot fw)"
proof (rule wd_keeps_other)
  show "emits (\<lambda>e. \<not> is_image_event e) (enter_locked_boot fw)"
    unfolding enter_locked_boot_def enter_locked_boot_with_def signal_bds_phase_entry_def
      signal_event_group_def install_dxe_smm_ready_to_lock_def proxy_locate_def call_defs
    by (intro emits_rules) simp_all
qed

lemma simple_execute_secure:
  assumes "quiet_strategy fw (sbm_connect_strategy mgr)"
  shows "mtriple lock_step (\<lambda>q. q = Unlocked) (simple_execute fuel fw mgr h) (\<lambda>_ _. True)"
proof -
  have quiet: "emits quiet (interleave_connect_and_dispatch fuel fw (strategy_connect fw (sbm_connect_strategy mgr)))"
    using assms unfolding quiet_strategy_def by (rule connect_strategy.interleave_quiet)
  have "mtriple lock_step (inr_then (\<lambda>q. q = Locked) entered) (case entered of Inl e \<Rightarrow> ret e
      | Inr locked \<Rightarrow> bnd (discover_console_devices fw) (\<lambda>_.
         bnd (hotkey_pressed fuel fw (sbm_config mgr)) (\<lambda>use_hotkey_devices.
         thn (each (attempt_device fw locked h)
               (if use_hotkey_devices then cfg_hotkey_devices (sbm_config mgr) else cfg_devices (sbm_config mgr)))
           (thn (handle_failure (sbm_config mgr)) (ret NotFound))))) (\<lambda>_ _. True)" for entered
    by (cases entered) (auto intro: mtriple_ret mtriple_post [OF mtriple_lock_locked [OF emits_after_lock]])
  then show ?thesis
    unfolding simple_execute_def execute_with_def Let_def
    by (intro mtriple_bnd [OF mtriple_lock_quiet [OF quiet]] mtriple_bnd [OF mtriple_enter_locked_boot])
qed

lemma simple_execute_guarded:
  assumes "quiet_strategy fw (sbm_connect_strategy mgr)"
  shows "wd_keeps (simple_execute fuel fw mgr h)"
proof -
  have quiet: "emits quiet (interleave_connect_and_dispatch fuel fw (strategy_connect fw (sbm_connect_strategy mgr)))"
    using assms unfolding quiet_strategy_def by (rule connect_strategy.interleave_quiet)
  show ?thesis
    unfolding simple_execute_def execute_with_def Let_def
    by (intro wd_keeps_bnd wd_keeps_quiet [OF quiet] wd_keeps_enter_locked_boot mtriple_sum mtriple_ret
        wd_keeps_after_lock)
qed

interpretation stock: boot_orchestrator "simple_execute fuel fw (simple_new config)" for fuel fw config
  by unfold_locales
    (simp_all add: simple_execute_secure simple_execute_guarded simple_new_def stock_strategy_quiet)

subsection \<open>Which images are tried, and in which order\<close>

text \<open>The paths a log asks LoadImage for.\<close>

fun loads :: "'dp event list \<Rightarrow> 'dp list" where
  "loads [] = []"
| "loads (EvLoadImage parent p r # es) = p # loads es"
| "loads (_ # es) = loads es"

definition key_read :: "u16 \<Rightarrow> 'dp event list \<Rightarrow> bool" where
  "key_read code es \<longleftrightarrow> (\<exists>p. EvReadKey p (Ret (SUCCESS, code)) \<in> set es)"

lemma loads_append [simp]: "loads (es @ fs) = loads es @ loads fs"
  by (induction es rule: loads.induct) simp_all

lemma loads_no_image: "\<forall>e \<in> set es. \<not> is_image_event e \<Longrightarrow> loads es = []"
  by (induction es rule: loads.induct) simp_all

lemma key_read_append [simp]: "key_read code (es @ fs) \<longleftrightarrow> key_read code es \<or> key_read code fs"
  by (auto simp: key_read_def)

fun reads_key :: "'dp event \<Rightarrow> bool" where
  "reads_key (EvReadKey p r) = True"
| "reads_key _ = False"

lemma no_key_read: "\<forall>e \<in> set es. \<not> reads_key e \<Longrightarrow> \<not> key_read code es"
  unfolding key_read_def by force

lemma signal_other: "is_signal_event g e \<Longrightarrow> \<not> is_image_event e \<and> \<not> reads_key e"
  by (cases e) simp_all

lemma emits_boot_no_key: "emits (\<lambda>e. \<not> reads_key e) (boot_from_device_path fw parent dp)"
proof -
  have "emits (\<lambda>e. \<not> reads_key e) (expand_device_path fw dp)"
    by (rule emits_mono [OF emits_expand_device_path]) (auto elim: is_lookup.elims)
  then show ?thesis
    unfolding boot_from_device_path_alt load_and_start_def call_defs by (intro emits_rules) simp_all
qed

lemma attempt_log_loads: "attempt_log lib parent p r es \<Longrightarrow> loads es = [p]"
  by (induction rule: attempt_log.induct) simp_all

lemma attempt_device_loads:
  assumes full: "\<not> is_partial_device_path (fw_lib fw) dp"
    and run: "attempt_device fw locked h dp s = (Ret u, s')"
  shows "\<exists>es. trace s' = trace s @ es \<and> loads es = [dp] \<and> (\<forall>code. \<not> key_read code es)"
proof -
  from run obtain r1 s1 r2 where 1: "signal_event_group fw ReadyToBootGroup s = (Ret r1, s1)"
    and 2: "boot_from_device_path fw h dp s1 = (Ret r2, s')"
    unfolding attempt_device_def signal_ready_to_boot_def locked_boot_from_device_path_def
    by (elim bnd_RetE) auto
  obtain es1 where es1: "trace s1 = trace s @ es1" "\<forall>e \<in> set es1. is_signal_event ReadyToBootGroup e"
    using emits_signal_event_group 1 by (rule emitsE)
  obtain es2 where es2: "trace s' = trace s1 @ es2" "\<forall>e \<in> set es2. \<not> reads_key e"
    using emits_boot_no_key 2 by (rule emitsE)
  from 2 full obtain es3 where "trace s' = trace s1 @ es3" "attempt_log (fw_lib fw) h dp r2 es3"
    by (cases rule: boot_from_device_path_cases) auto
  then have "loads es2 = [dp]" using es2(1) attempt_log_loads by simp
  moreover have "loads es1 = []" using es1(2) signal_other by (blast intro: loads_no_image)
  moreover have "\<not> key_read code es1" for code
    by (rule no_key_read) (use es1(2) signal_other in blast)
  moreover have "\<not> key_read code es2" for code
    using es2(2) by (rule no_key_read)
  ultimately show ?thesis using es1(1) es2(1) by (intro exI [of _ "es1 @ es2"]) simp
qed

lemma attempts_load:
  assumes "\<forall>d \<in> set ds. \<not> is_partial_device_path (fw_lib fw) d"
    and "each (attempt_device fw locked h) ds s = (Ret u, s')"
  shows "\<exists>es. trace s' = trace s @ es \<and> loads es = ds \<and> (\<forall>code. \<not> key_read code es)"
  using assms
proof (induction ds arbitrary: s)
  case (Cons d ds)
  from Cons.prems(2) obtain v s1 where 1: "attempt_device fw locked h d s = (Ret v, s1)"
    and 2: "each (attempt_device fw locked h) ds s1 = (Ret u, s')"
    by (auto simp: thn_def elim: bnd_RetE)
  obtain es1 where "trace s1 = trace s @ es1" "loads es1 = [d]" "\<forall>code. \<not> key_read code es1"
    using attempt_device_loads [OF _ 1] Cons.prems(1) by auto
  moreover obtain es2 where "trace s' = trace s1 @ es2" "loads es2 = ds" "\<forall>code. \<not> key_read code es2"
    using Cons.IH [OF _ 2] Cons.prems(1) by auto
  ultimately show ?case by (intro exI [of _ "es1 @ es2"]) simp
qed (auto simp: key_read_def)

lemma hotkey_pressed_iff:
  assumes "hotkey_pressed fuel fw config s = (Ret b, s')"
  shows "\<exists>es. trace s' = trace s @ es \<and> loads es = [] \<and>
    (b \<longleftrightarrow> (\<exists>code. cfg_hotkey config = Some code \<and> key_read code es))"
proof (cases "cfg_hotkey config")
  case None
  then show ?thesis using assms by (intro exI [of _ "[]"]) (simp add: hotkey_pressed_def)
next
  case (Some code)
  then have run: "detect_hotkey fuel fw code s = (Ret b, s')" using assms by (simp add: hotkey_pressed_def)
  obtain es q where es: "trace s' = trace s @ es" "monitor (hot_step code) False es = Some q" and q: "q \<longleftrightarrow> b"
    using mtripleE [OF mtriple_detect_hotkey _ run, of False] by auto
  obtain fs where "trace s' = trace s @ fs" "\<forall>e \<in> set fs. is_key_event e"
    using emits_detect_hotkey run by (rule emitsE)
  then have "loads es = []"
    using es(1) is_key_event_quiet quiet_not_image by (auto intro!: loads_no_image)
  then show ?thesis
    using monitor_hot_step [OF es(2)] q es(1) Some unfolding key_read_def by (intro exI [of _ es]) auto
qed

text \<open>Which device list the configuration yields, given the keys a log shows.\<close>

definition selected_devices :: "('w, 'dp) boot_config \<Rightarrow> 'dp event list \<Rightarrow> 'dp list" where
  "selected_devices config es = (if \<exists>code. cfg_hotkey config = Some code \<and> key_read code es
     then cfg_hotkey_devices config else cfg_devices config)"

fun is_plain_event :: "'dp event \<Rightarrow> bool" where
  "is_plain_event e = (\<not> is_image_event e \<and> \<not> reads_key e)"

lemma emits_plain:
  "emits is_plain_event (interleave_connect_and_dispatch fuel fw (connect_all fw))"
  "emits is_plain_event (enter_locked_boot fw)"
  "emits is_plain_event (discover_console_devices fw)"
  "emits is_plain_event (handle_failure config)"
proof -
  have "emits is_plain_event (connect_all fw)"
    by (rule emits_mono [OF emits_connect_all]) (auto elim: is_enum_event.elims)
  then show "emits is_plain_event (interleave_connect_and_dispatch fuel fw (connect_all fw))"
    unfolding interleave_connect_and_dispatch_def interleave_round_def total_handle_count_def call_defs
    by (intro emits_rules) simp_all
  show "emits is_plain_event (enter_locked_boot fw)"
    unfolding enter_locked_boot_def enter_locked_boot_with_def signal_bds_phase_entry_def
      signal_event_group_def install_dxe_smm_ready_to_lock_def proxy_locate_def call_defs
    by (intro emits_rules) simp_all
  show "emits is_plain_event (discover_console_devices fw)"
    by (rule emits_mono [OF emits_discover_console_devices]) (auto elim: is_console_event.elims)
  show "emits is_plain_event (handle_failure config)"
    by (rule emits_handle_failure) simp
qed

lemma plain_log:
  assumes "emits is_plain_event m" and "m s = (r, s')"
  obtains es where "trace s' = trace s @ es" and "loads es = []" and "\<forall>code. \<not> key_read code es"
proof -
  obtain es where "trace s' = trace s @ es" "\<forall>e \<in> set es. is_plain_event e"
    using assms by (rule emitsE)
  with that show thesis using loads_no_image [of es] no_key_read [of es] by auto
qed

lemma simple_execute_loads:
  assumes full: "\<forall>d \<in> set (cfg_devices config) \<union> set (cfg_hotkey_devices config).
      \<not> is_partial_device_path (fw_lib fw) d"
    and run: "simple_execute fuel fw (simple_new config) h s = (Ret e, s')"
  shows "\<exists>es. trace s' = trace s @ es \<and>
    (if secured es then e = NotFound \<and> loads es = selected_devices config es else loads es = [])"
proof -
  from run obtain r1 s1 r2 s2 where 1: "interleave_connect_and_dispatch fuel fw (connect_all fw) s = (Ret r1, s1)"
    and 2: "enter_locked_boot fw s1 = (Ret r2, s2)"
    and rest: "(case r2 of Inl e \<Rightarrow> ret e | Inr locked \<Rightarrow>
         bnd (discover_console_devices fw) (\<lambda>_.
         bnd (hotkey_pressed fuel fw config) (\<lambda>use_hotkey_devices.
         thn (each (attempt_device fw locked h)
               (if use_hotkey_devices then cfg_hotkey_devices config else cfg_devices config))
           (thn (handle_failure config) (ret NotFound))))) s2 = (Ret e, s')"
    unfolding simple_execute_def execute_with_def Let_def simple_new_simps strategy_connect.simps
    by (elim bnd_RetE) blast
  obtain es1 where es1: "trace s1 = trace s @ es1" "loads es1 = []" "\<forall>code. \<not> key_read code es1"
    using emits_plain(1) 1 by (rule plain_log)
  obtain es2 where es2: "trace s2 = trace s1 @ es2" "loads es2 = []" "\<forall>code. \<not> key_read code es2"
    using emits_plain(2) 2 by (rule plain_log)
  have es1_quiet: "\<not> ready_to_lock_done es1"
  proof -
    obtain fs where "trace s1 = trace s @ fs" "\<forall>e \<in> set fs. quiet e"
      using connect_all.interleave_quiet [unfolded strategy_connect.simps] 1 by (rule emitsE)
    then show ?thesis using es1(1) quiet_not_locked by simp
  qed
  from 2 show ?thesis
  proof (cases rule: enter_locked_boot_cases)
    case (failed es e')
    then have "\<not> secured (es1 @ es2)" using es1_quiet es2(1) secured_proxy [of "es1 @ es2"] by auto
    then show ?thesis using rest failed(1) es1 es2 by (intro exI [of _ "es1 @ es2"]) simp
  next
    case (locked es)
    from rest obtain r3 s3 b s4 s5 u v where 3: "discover_console_devices fw s2 = (Ret r3, s3)"
      and 4: "hotkey_pressed fuel fw config s3 = (Ret b, s4)"
      and 5: "each (attempt_device fw LockedBoot h)
          (if b then cfg_hotkey_devices config else cfg_devices config) s4 = (Ret u, s5)"
      and 6: "handle_failure config s5 = (Ret v, s')" and e: "e = NotFound"
      unfolding locked(1) thn_def by (auto elim!: bnd_RetE)
    obtain es3 where es3: "trace s3 = trace s2 @ es3" "loads es3 = []" "\<forall>code. \<not> key_read code es3"
      using emits_plain(3) 3 by (rule plain_log)
    obtain es4 where es4: "trace s4 = trace s3 @ es4" "loads es4 = []"
      and b: "b \<longleftrightarrow> (\<exists>code. cfg_hotkey config = Some code \<and> key_read code es4)"
      using hotkey_pressed_iff [OF 4] by blast
    obtain es5 where es5: "trace s5 = trace s4 @ es5"
      "loads es5 = (if b then cfg_hotkey_devices config else cfg_devices config)"
      "\<forall>code. \<not> key_read code es5"
      using attempts_load [OF _ 5] full by (cases b) auto
    obtain es6 where es6: "trace s' = trace s5 @ es6" "loads es6 = []" "\<forall>code. \<not> key_read code es6"
      using emits_plain(4) 6 by (rule plain_log)
    let ?es = "es1 @ es2 @ es3 @ es4 @ es5 @ es6"
    have "secured es2" using lock_log_secured locked(2,3) es2(1) by simp
    then have "secured ?es" unfolding secured_def by (metis append.assoc append_Cons)
    moreover have "selected_devices config ?es = (if b then cfg_hotkey_devices config else cfg_devices config)"
      using es1(3) es2(3) es3(3) es5(3) es6(3) b by (simp add: selected_devices_def)
    moreover have "trace s' = trace s @ ?es" "loads ?es = loads es5"
      using es1 es2 es3 es4 es5(1) es6 by simp_all
    ultimately show ?thesis using e es5(2) by (intro exI [of _ ?es]) simp
  qed
qed

end
