(* ===== verification/SreBoot.thy ===== *)
theory SreBoot
  imports RamDisk SimpleBoot
begin

text \<open>
  The boot manager of \<open>patina_sre\<close>: \<open>events.rs\<close>, \<open>capsule.rs\<close> and \<open>sre_boot_manager.rs\<close>.
  Its flow announces the start of BDS, dispatches drivers, connects everything but the USB host
  controllers, processes capsules, locks, serves a recovery or front-page button, and goes
  through the boot options twice before the recovery image of the boot partition is tried.
\<close>

subsection \<open>Events and capsules\<close>

definition sre_signal_event_group :: "('w, 'dp) firmware \<Rightarrow> guid \<Rightarrow> ('w, 'dp, efi_error + unit) boot" where
  "sre_signal_event_group fw group_guid =
     tryE (map_err (err_of (fw_lib fw)) (create_event_ex fw group_guid)) (\<lambda>event.
       bnd (signal_event fw event) (\<lambda>signal_result.
       bnd (close_event fw event) (\<lambda>close_result.
         case signal_result of
           Inl e \<Rightarrow> ret (Inl (err_of (fw_lib fw) e))
         | Inr _ \<Rightarrow> (case close_result of
               Inl e \<Rightarrow> ret (Inl (err_of (fw_lib fw) e))
             | Inr _ \<Rightarrow> ret (Inr ())))))"

lemma sre_signal_event_group_same: "sre_signal_event_group fw g = signal_event_group fw g"
  by (simp add: sre_signal_event_group_def signal_event_group_def)

text \<open>\<open>flash_update\<close> is the flag \<open>boot_mode.rs\<close> keeps.\<close>

definition capsule_process :: "('w, 'dp) firmware \<Rightarrow> bool \<Rightarrow> ('w, 'dp, unit) boot" where
  "capsule_process fw flash_update =
     thn (if is_flash_update_boot flash_update then bnd (display_boot_logo fw) (\<lambda>_. ret ()) else ret ())
         (bnd (sre_signal_event_group fw MuReadyToProcessCapsules) (\<lambda>_. ret ()))"

subsection \<open>The latched buttons\<close>

datatype sre_hotkey = VolumeUp | VolumeDown | NoHotkey

definition probe_sre_hotkey :: "('w, 'dp) firmware \<Rightarrow> ('w, 'dp, sre_hotkey) boot" where
  "probe_sre_hotkey fw = bnd (locate_protocol fw MsButtonServices) (\<lambda>r. case r of
      Inl _ \<Rightarrow> ret NoHotkey
    | Inr protocol \<Rightarrow>
        if protocol = 0 then ret NoHotkey
        else bnd (button fw protocol VolumeUpCheck) (\<lambda>(up_status, vol_up).
             bnd (button fw protocol VolumeDownCheck) (\<lambda>(down_status, vol_down).
             bnd (button fw protocol ClearVolumeState) (\<lambda>_.
               ret (if vol_up \<noteq> 0 then VolumeUp else if vol_down \<noteq> 0 then VolumeDown else NoHotkey)))))"

subsection \<open>The manager and its builder\<close>

record 'dp sre_boot_manager =
  main_os_path :: 'dp
  sre_app_path :: "'dp option"
  frontpage_app_path :: "'dp option"
  bp_sre_fallback :: bool
  dfci_bds_signal :: bool
  capsule_processing :: bool
  sre_policy :: "'dp boot_source_policy"

definition sre_new :: "'dp \<Rightarrow> 'dp sre_boot_manager" where
  "sre_new main_os = \<lparr>main_os_path = main_os, sre_app_path = None, frontpage_app_path = None,
     bp_sre_fallback = False, dfci_bds_signal = False, capsule_processing = False, sre_policy = policy_new\<rparr>"

definition with_sre_app_path :: "'dp \<Rightarrow> 'dp sre_boot_manager \<Rightarrow> 'dp sre_boot_manager" where
  "with_sre_app_path p m = m\<lparr>sre_app_path := Some p\<rparr>"
definition with_frontpage_app_path :: "'dp \<Rightarrow> 'dp sre_boot_manager \<Rightarrow> 'dp sre_boot_manager" where
  "with_frontpage_app_path p m = m\<lparr>frontpage_app_path := Some p\<rparr>"
definition with_bp_sre_fallback :: "'dp sre_boot_manager \<Rightarrow> 'dp sre_boot_manager" where
  "with_bp_sre_fallback m = m\<lparr>bp_sre_fallback := True\<rparr>"
definition with_dfci_bds_signal :: "'dp sre_boot_manager \<Rightarrow> 'dp sre_boot_manager" where
  "with_dfci_bds_signal m = m\<lparr>dfci_bds_signal := True\<rparr>"
definition with_capsule_processing :: "'dp sre_boot_manager \<Rightarrow> 'dp sre_boot_manager" where
  "with_capsule_processing m = m\<lparr>capsule_processing := True\<rparr>"
definition with_boot_source_policy :: "'dp boot_source_policy \<Rightarrow> 'dp sre_boot_manager \<Rightarrow> 'dp sre_boot_manager" where
  "with_boot_source_policy p m = m\<lparr>sre_policy := p\<rparr>"

subsection \<open>Firmware-volume paths\<close>

text \<open>
  \<open>vol_node\<close> is patina's \<open>MediaFwVolDevicePath::new\<close>, the bytes of a node for a GUID and a
  sub-type; \<open>fv_file\<close> is \<open>FvPiWgDevicePath::new_file\<close>. \<open>None\<close> is the panic of \<open>expect\<close>.
\<close>

definition fv_file_device_path ::
  "'dp patina \<Rightarrow> (bytes \<Rightarrow> bytes) \<Rightarrow> (nat \<Rightarrow> u8) \<Rightarrow> bytes \<Rightarrow> 'dp option" where
  "fv_file_device_path lib fv_file beyond file_guid = dp_from_ptr lib (at_ptr (fv_file file_guid) beyond)"

definition fv_volume_file_device_path ::
  "'dp patina \<Rightarrow> (bytes \<Rightarrow> u8 \<Rightarrow> bytes) \<Rightarrow> (nat \<Rightarrow> u8) \<Rightarrow> bytes \<Rightarrow> bytes \<Rightarrow> 'dp option" where
  "fv_volume_file_device_path lib vol_node beyond fv_guid file_guid =
     dp_from_ptr lib (at_ptr (vol_node fv_guid S_FW_VOLUME @ vol_node file_guid S_FW_FILE
       @ [T_END, S_END_ENTIRE, 4, 0]) beyond)"

subsection \<open>A bootable USB volume\<close>

definition usb_sfs_candidate ::
  "arch \<Rightarrow> ('w, 'dp) firmware \<Rightarrow> (nat \<Rightarrow> u8) \<Rightarrow> handle \<Rightarrow> ('w, 'dp, 'dp option) boot" where
  "usb_sfs_candidate a fw beyond h = (let lib = fw_lib fw in
     bnd (handle_protocol fw h DevicePathProtocol) (\<lambda>r. case r of
       Inl _ \<Rightarrow> ret None
     | Inr dp_ptr \<Rightarrow>
         if dp_ptr = 0 then ret None
         else peek (\<lambda>w. case dp_from_ptr lib (fw_mem fw w dp_ptr) of
             None \<Rightarrow> None
           | Some dp_ref \<Rightarrow>
               if device_path_has_usb_node lib dp_ref then
                 let base_total = device_path_size lib (fw_mem fw w dp_ptr) in
                 if base_total < 4 then None
                 else let prefix_size = base_total - 4;
                          full = read_bytes (fw_mem fw w dp_ptr) prefix_size
                            @ build_file_path_node lib (DEFAULT_BOOT_FILE_PATH a) in
                   dp_from_ptr lib (at_ptr full beyond)
               else None)))"

definition find_first_usb_sfs_device_path ::
  "arch \<Rightarrow> ('w, 'dp) firmware \<Rightarrow> (nat \<Rightarrow> u8) \<Rightarrow> ('w, 'dp, 'dp option) boot" where
  "find_first_usb_sfs_device_path a fw beyond =
     bnd (locate_handle_buffer fw (ByProtocol SimpleFileSystem)) (\<lambda>r. case r of
       Inl _ \<Rightarrow> ret None
     | Inr handles \<Rightarrow> each_until (usb_sfs_candidate a fw beyond) handles)"

subsection \<open>The flow\<close>

definition run_pre_lock_phase ::
  "('w, 'dp) firmware \<Rightarrow> bool \<Rightarrow> ('w, 'dp, unit) boot \<Rightarrow> ('w, 'dp, 'a) boot \<Rightarrow> ('w, 'dp, 'a) boot" where
  "run_pre_lock_phase fw signal_dfci_start pre_lock_work enter =
     bnd (sre_signal_event_group fw MsStartOfBds) (\<lambda>_.
     thn (if signal_dfci_start then bnd (sre_signal_event_group fw DfciStartOfBds) (\<lambda>_. ret ()) else ret ())
     (thn pre_lock_work enter))"

text \<open>\<open>Ok(true)\<close> dispatches again; \<open>Ok(false)\<close> and errors end the loop.\<close>

definition dispatch_all :: "nat \<Rightarrow> ('w, 'dp) firmware \<Rightarrow> ('w, 'dp, unit) boot" where
  "dispatch_all fuel fw = loop fuel (\<lambda>_. bnd (dispatch fw) (\<lambda>r. case r of
      Inr True \<Rightarrow> ret (Inl ()) | Inr False \<Rightarrow> ret (Inr ()) | Inl e \<Rightarrow> ret (Inr ()))) ()"

definition pre_lock_work :: "nat \<Rightarrow> ('w, 'dp) firmware \<Rightarrow> bool \<Rightarrow> 'dp sre_boot_manager \<Rightarrow> ('w, 'dp, unit) boot" where
  "pre_lock_work fuel fw flash_update m =
     thn (dispatch_all fuel fw)
     (bnd (connect_all_skip_usb fw) (\<lambda>_.
        if capsule_processing m then capsule_process fw flash_update else ret ()))"

definition sre_dispatch_hotkey ::
  "arch \<Rightarrow> ('w, 'dp) firmware \<Rightarrow> (nat \<Rightarrow> u8) \<Rightarrow> 'dp sre_boot_manager \<Rightarrow> locked_boot \<Rightarrow> handle \<Rightarrow>
   sre_hotkey \<Rightarrow> ('w, 'dp, unit) boot" where
  "sre_dispatch_hotkey a fw beyond m locked image_handle hotkey =
     thn (if hotkey \<noteq> NoHotkey
          then bnd (connect_all fw) (\<lambda>_. bnd (discover_console_devices fw) (\<lambda>_. ret ()))
          else ret ())
     (case hotkey of
        VolumeUp \<Rightarrow> (case sre_app_path m of
            Some path \<Rightarrow> attempt_device fw locked image_handle path
          | None \<Rightarrow> bnd (signal_ready_to_boot fw) (\<lambda>_.
                    bnd (run_sre_flow a fw beyond locked image_handle) (\<lambda>_. ret ())))
      | VolumeDown \<Rightarrow> bnd (find_first_usb_sfs_device_path a fw beyond) (\<lambda>usb_path. case usb_path of
            Some path \<Rightarrow> attempt_device fw locked image_handle path
          | None \<Rightarrow> (case frontpage_app_path m of
                Some path \<Rightarrow> attempt_device fw locked image_handle path
              | None \<Rightarrow> ret ()))
      | NoHotkey \<Rightarrow> ret ())"

text \<open>One discovered boot option; the accumulator is \<open>tried_any\<close>.\<close>

definition try_option ::
  "('w, 'dp) firmware \<Rightarrow> locked_boot \<Rightarrow> handle \<Rightarrow> bool \<Rightarrow> 'dp \<Rightarrow> bool \<Rightarrow> ('w, 'dp, bool) boot" where
  "try_option fw locked image_handle bp_has_sre device_path tried_any =
     (if bp_has_sre \<and> device_path_has_usb_node (fw_lib fw) device_path then ret tried_any
      else if bp_has_sre \<and> device_path_has_fw_file_node (fw_lib fw) device_path then ret tried_any
      else thn (attempt_device fw locked image_handle device_path) (ret True))"

definition try_fallback_option ::
  "('w, 'dp) firmware \<Rightarrow> locked_boot \<Rightarrow> handle \<Rightarrow> bool \<Rightarrow> 'dp \<Rightarrow> ('w, 'dp, unit) boot" where
  "try_fallback_option fw locked image_handle bp_has_sre device_path =
     (if bp_has_sre \<and> device_path_has_usb_node (fw_lib fw) device_path then ret ()
      else bnd (locked_boot_from_device_path fw locked image_handle device_path) (\<lambda>_. ret ()))"

definition sre_boot_pass ::
  "arch \<Rightarrow> ('w, 'dp) firmware \<Rightarrow> (nat \<Rightarrow> u8) \<Rightarrow> 'dp sre_boot_manager \<Rightarrow> locked_boot \<Rightarrow> handle \<Rightarrow>
   bool \<Rightarrow> nat \<Rightarrow> ('w, 'dp, unit) boot" where
  "sre_boot_pass a fw beyond m locked image_handle bp_has_sre pass =
     thn (if pass = 1 then bnd (connect_all fw) (\<lambda>_. ret ()) else ret ())
     (bnd (discover_boot_options fw beyond) (\<lambda>r.
      bnd (case r of
          Inr config \<Rightarrow> each_acc (try_option fw locked image_handle bp_has_sre) (cfg_devices config) False
        | Inl _ \<Rightarrow> ret False) (\<lambda>tried_any.
      if tried_any then ret ()
      else thn (attempt_device fw locked image_handle (main_os_path m))
        (bnd (fallback_boot_options a fw (sre_policy m)) (\<lambda>r. case r of
            Inr candidates \<Rightarrow> each (try_fallback_option fw locked image_handle bp_has_sre) candidates
          | Inl _ \<Rightarrow> ret ())))))"

definition sre_after_lock ::
  "arch \<Rightarrow> ('w, 'dp) firmware \<Rightarrow> (nat \<Rightarrow> u8) \<Rightarrow> 'dp sre_boot_manager \<Rightarrow> handle \<Rightarrow> locked_boot \<Rightarrow>
   ('w, 'dp, efi_error) boot" where
  "sre_after_lock a fw beyond m image_handle locked =
     bnd (probe_sre_hotkey fw) (\<lambda>hotkey.
     thn (sre_dispatch_hotkey a fw beyond m locked image_handle hotkey)
     (bnd (if bp_sre_fallback m then bp_has_sre_payload fw else ret False) (\<lambda>bp_has_sre.
      thn (each (sre_boot_pass a fw beyond m locked image_handle bp_has_sre) [0..<2])
      (thn (if bp_has_sre then bnd (run_sre_flow a fw beyond locked image_handle) (\<lambda>_. ret ()) else ret ())
        (ret NotFound)))))"

definition sre_execute ::
  "arch \<Rightarrow> nat \<Rightarrow> ('w, 'dp) firmware \<Rightarrow> (nat \<Rightarrow> u8) \<Rightarrow> bool \<Rightarrow> 'dp sre_boot_manager \<Rightarrow> handle \<Rightarrow>
   ('w, 'dp, efi_error) boot" where
  "sre_execute a fuel fw beyond flash_update m image_handle =
     bnd (run_pre_lock_phase fw (dfci_bds_signal m) (pre_lock_work fuel fw flash_update m) (enter_locked_boot fw))
       (\<lambda>entered. case entered of
          Inl e \<Rightarrow> ret e
        | Inr locked \<Rightarrow> sre_after_lock a fw beyond m image_handle locked)"

subsection \<open>The flow keeps the orchestrator interface\<close>

lemma wd_keeps_thn: "wd_keeps m \<Longrightarrow> wd_keeps n \<Longrightarrow> wd_keeps (thn m n)"
  by (rule mtriple_thn)

lemma wd_keeps_ret: "wd_keeps (ret x)"
  by (rule mtriple_ret)

lemma wd_keeps_tryE: "wd_keeps m \<Longrightarrow> (\<And>x. wd_keeps (f x)) \<Longrightarrow> wd_keeps (tryE m f)"
  by (rule mtriple_tryE)

lemma wd_keeps_each_acc: "(\<And>x a. wd_keeps (f x a)) \<Longrightarrow> wd_keeps (each_acc f xs a)"
  by (rule mtriple_each_acc [where I = "\<lambda>_ q. q = Idle"])

lemmas wd_keeps_rules = wd_keeps_bnd wd_keeps_thn wd_keeps_ret wd_keeps_tryE wd_keeps_each wd_keeps_each_acc
  mtriple_sum mtriple_option mtriple_if wd_keeps_boot_from_device_path wd_keeps_attempt_device

lemma emits_quiet:
  "emits quiet (connect_all fw)" "emits quiet (connect_all_skip_usb fw)" "emits quiet (discover_console_devices fw)"
  "g \<noteq> EndOfDxeGroup \<Longrightarrow> emits quiet (signal_event_group fw g)"
  "emits quiet (probe_max_transfer fw p)" "emits quiet (read_bp_via_log_page fw p bp chunk dest)"
  "emits quiet (bp_has_sre_payload fw)"
  by (rule emits_mono [OF emits_connect_all] emits_mono [OF emits_connect_all_skip_usb is_enum_event_quiet]
      emits_mono [OF emits_discover_console_devices is_console_event_quiet]
      emits_mono [OF emits_signal_event_group is_signal_quiet]
      emits_mono [OF emits_probe_max_transfer is_nvme_event_quiet] emits_mono [OF emits_read_bp is_nvme_event_quiet]
      emits_mono [OF emits_bp_has_sre_payload is_nvme_event_quiet]; simp add: is_enum_event_quiet)+

lemma emits_display_boot_logo_quiet: "emits quiet (display_boot_logo fw)"
  unfolding display_boot_logo_def proxy_locate_def call_defs by (intro emits_rules) simp_all

lemma emits_quiet_pre_lock:
  "emits quiet (pre_lock_work fuel fw flash_update m)"
  unfolding pre_lock_work_def dispatch_all_def capsule_process_def sre_signal_event_group_same dispatch_def
  by (intro emits_rules emits_quiet emits_display_boot_logo_quiet) (simp_all add: emits_ret split: bool.splits)

text \<open>After the lock anything may be logged; every start in it is guarded.\<close>

lemma emits_run_sre_flow: "emits (\<lambda>_. True) (run_sre_flow a fw beyond locked h)"
proof -
  have register: "emits (\<lambda>_. True) (register_ram_disk fw b n)" for b n
    unfolding register_ram_disk_def Let_def call_defs by (intro emits_rules) simp_all
  have teardown: "emits (\<lambda>_. True) (teardown fw i)" for i
    unfolding teardown_def call_defs by (intro emits_rules) simp_all
  show ?thesis
    unfolding run_sre_flow_def boot_ram_disk_def Let_def locate_protocol_def try_reserve_def
    by (intro emits_rules register teardown emits_any [OF emits_chainload] emits_quiet [THEN emits_any] TrueI)
qed

lemma emits_find_first_usb: "emits is_lookup (find_first_usb_sfs_device_path a fw beyond)"
  unfolding find_first_usb_sfs_device_path_def usb_sfs_candidate_def Let_def call_defs
  by (intro emits_rules) simp_all

lemma emits_probe_sre_hotkey: "emits (\<lambda>e. quiet e \<and> \<not> is_lookup e) (probe_sre_hotkey fw)"
  unfolding probe_sre_hotkey_def call_defs by (intro emits_rules) simp_all

lemma emits_fallback_boot_options: "emits quiet (fallback_boot_options a fw policy)"
  unfolding fallback_boot_options_def approved_volume_def Let_def locate_handle_buffer_def
  by (intro emits_rules emits_mono [OF emits_handle_device_path is_lookup_quiet]) simp_all

lemma emits_sre_boot_pass:
  "emits (\<lambda>_. True) (sre_boot_pass a fw beyond m locked h bp_has_sre pass)"
  unfolding sre_boot_pass_def try_option_def try_fallback_option_def locked_boot_from_device_path_def
  by (intro emits_rules emits_quiet [THEN emits_any] emits_attempt_device emits_boot_from_device_path
      emits_any [OF emits_fallback_boot_options] TrueI)

lemma emits_sre_dispatch_hotkey:
  "emits (\<lambda>_. True) (sre_dispatch_hotkey a fw beyond m locked h hotkey)"
proof -
  have ready: "emits (\<lambda>_. True) (signal_ready_to_boot fw)"
    unfolding signal_ready_to_boot_def by (rule emits_any [OF emits_signal_event_group])
  show ?thesis
    unfolding sre_dispatch_hotkey_def
    by (cases hotkey; simp only: sre_hotkey.case; intro emits_rules emits_quiet [THEN emits_any] emits_attempt_device
        ready emits_run_sre_flow emits_any [OF emits_find_first_usb])
qed

lemma emits_sre_after_lock: "emits (\<lambda>_. True) (sre_after_lock a fw beyond m h locked)"
  unfolding sre_after_lock_def
  by (intro emits_rules emits_any [OF emits_probe_sre_hotkey] emits_sre_dispatch_hotkey emits_sre_boot_pass
      emits_run_sre_flow emits_quiet [THEN emits_any])

lemma wd_keeps_run_sre_flow: "wd_keeps (run_sre_flow a fw beyond locked h)"
proof -
  have register: "emits quiet (register_ram_disk fw b n)" for b n
    unfolding register_ram_disk_def Let_def call_defs by (intro emits_rules) simp_all
  have teardown: "emits quiet (teardown fw i)" for i
    unfolding teardown_def call_defs by (intro emits_rules) simp_all
  have note_alloc: "emits quiet (log_event (EvAlloc x))" "emits quiet (log_event (EvFree x))"
    "emits quiet (log_event (EvForget x))" for x
    by (intro emits_rules; simp)+
  have peeks: "emits quiet (peek g)" for g by (rule emits_peek)
  have calls: "emits quiet (map_err (err_of (fw_lib fw)) (locate_protocol fw g))" "emits quiet (try_reserve fw n)"
    "emits quiet (connect_controller fw c True)" "emits quiet (handle_protocol fw c g)"
    "emits quiet (map_err (err_of (fw_lib fw)) (locate_device_path fw g p))"
    "emits quiet (map_err (err_of (fw_lib fw)) (locate_handle_buffer fw sr))" for g n c p sr
    unfolding call_defs by (intro emits_rules; simp)+
  have desc: "emits quiet (each_until (descends_from fw n pre) hs)" for n pre hs
    unfolding descends_from_def by (intro emits_rules calls)
  have chain: "wd_keeps (chainload_from_ramdisk a fw beyond locked h dp)" for dp
    unfolding chainload_from_ramdisk_def Let_def locked_boot_from_device_path_def
    by (intro wd_keeps_rules wd_keeps_quiet peeks calls desc)
  show ?thesis
    unfolding run_sre_flow_def boot_ram_disk_def Let_def
    by (intro wd_keeps_rules chain register [THEN wd_keeps_quiet] teardown [THEN wd_keeps_quiet]
        note_alloc [THEN wd_keeps_quiet] calls [THEN wd_keeps_quiet] emits_quiet [THEN wd_keeps_quiet])
qed

lemma wd_keeps_sre_boot_pass: "wd_keeps (sre_boot_pass a fw beyond m locked h bp_has_sre pass)"
proof -
  have discover: "emits quiet (discover_boot_options fw beyond)" by (intro emits_rules) simp
  show ?thesis
    unfolding sre_boot_pass_def try_option_def try_fallback_option_def locked_boot_from_device_path_def
    by (intro wd_keeps_rules wd_keeps_quiet [OF discover] wd_keeps_quiet [OF emits_fallback_boot_options]
        emits_quiet [THEN wd_keeps_quiet])
qed

lemma wd_keeps_sre_after_lock: "wd_keeps (sre_after_lock a fw beyond m h locked)"
proof -
  have probe: "wd_keeps (probe_sre_hotkey fw)"
    by (rule wd_keeps_quiet [OF emits_mono [OF emits_probe_sre_hotkey]]) simp
  have ready: "wd_keeps (signal_ready_to_boot fw)"
    unfolding signal_ready_to_boot_def by (rule wd_keeps_quiet [OF emits_quiet(4)]) simp
  have usb: "wd_keeps (find_first_usb_sfs_device_path a fw beyond)"
    by (rule wd_keeps_quiet [OF emits_mono [OF emits_find_first_usb is_lookup_quiet]])
  have hotkey: "wd_keeps (sre_dispatch_hotkey a fw beyond m locked h hotkey)" for hotkey
    unfolding sre_dispatch_hotkey_def
    by (cases hotkey; simp only: sre_hotkey.case; intro wd_keeps_rules wd_keeps_run_sre_flow ready usb
        emits_quiet [THEN wd_keeps_quiet])
  show ?thesis
    unfolding sre_after_lock_def
    by (intro wd_keeps_rules probe hotkey wd_keeps_sre_boot_pass wd_keeps_run_sre_flow
        emits_quiet [THEN wd_keeps_quiet])
qed

lemma sre_execute_secure:
  "mtriple lock_step (\<lambda>q. q = Unlocked) (sre_execute a fuel fw beyond flash_update m h) (\<lambda>_ _. True)"
proof -
  have pre: "mtriple lock_step (\<lambda>q. q = Unlocked)
      (run_pre_lock_phase fw dfci (pre_lock_work fuel fw flash_update m) (enter_locked_boot fw))
      (inr_then (\<lambda>q. q = Locked))" for dfci
    unfolding run_pre_lock_phase_def sre_signal_event_group_same
    by (intro mtriple_bnd [OF mtriple_lock_quiet] mtriple_thn [OF mtriple_lock_quiet] mtriple_enter_locked_boot
        emits_rules emits_quiet emits_quiet_pre_lock) simp_all
  show ?thesis
    unfolding sre_execute_def
    by (rule mtriple_bnd [OF pre], rule mtriple_sum)
      (simp_all add: mtriple_ret mtriple_post [OF mtriple_lock_locked [OF emits_sre_after_lock]])
qed

lemma sre_execute_guarded: "wd_keeps (sre_execute a fuel fw beyond flash_update m h)"
  unfolding sre_execute_def run_pre_lock_phase_def sre_signal_event_group_same
  by (intro wd_keeps_rules emits_quiet [THEN wd_keeps_quiet] emits_quiet_pre_lock [THEN wd_keeps_quiet]
      wd_keeps_enter_locked_boot wd_keeps_sre_after_lock) simp_all

interpretation sre: boot_orchestrator "sre_execute a fuel fw beyond flash_update m"
  for a fuel fw beyond flash_update m
  by unfold_locales (rule sre_execute_secure sre_execute_guarded)+

end
