(* ===== verification/SreFlow.thy ===== *)
theory SreFlow
  imports SreBoot
begin

text \<open>
  What the flow of \<open>SreBoot\<close> does, call by call: the button probe, the order of the pre-lock
  work and the security transition, the images the two boot passes ask for and in which order,
  and the result the flow comes back with.
\<close>

subsection \<open>The button probe\<close>

definition hotkey_of :: "u8 \<Rightarrow> u8 \<Rightarrow> sre_hotkey" where
  "hotkey_of up down = (if up \<noteq> 0 then VolumeUp else if down \<noteq> 0 then VolumeDown else NoHotkey)"

lemma probe_sre_hotkey_cases:
  assumes "probe_sre_hotkey fw s = (Ret k, s')"
  obtains (absent) e where "k = NoHotkey" and "trace s' = trace s @ [EvLocateProtocol MsButtonServices (Ret (Inl e))]"
  | (null) "k = NoHotkey" and "trace s' = trace s @ [EvLocateProtocol MsButtonServices (Ret (Inr 0))]"
  | (read) p a up b down c where "p \<noteq> 0" and "k = hotkey_of up down"
      and "trace s' = trace s @ [EvLocateProtocol MsButtonServices (Ret (Inr p)),
        EvButton p VolumeUpCheck (Ret (a, up)), EvButton p VolumeDownCheck (Ret (b, down)),
        EvButton p ClearVolumeState (Ret c)]"
  using assms unfolding probe_sre_hotkey_def hotkey_of_def call_defs
  by (auto elim!: bnd_RetE simp: svc_def split: sum.splits prod.splits if_splits)

subsection \<open>Everything that needs the unlocked flash comes first\<close>

fun pre_lock_signal :: "'dp event \<Rightarrow> bool" where
  "pre_lock_signal (EvCreateEvent g r) = (g \<in> {MsStartOfBds, DfciStartOfBds, MuReadyToProcessCapsules})"
| "pre_lock_signal (EvDispatch r) = True"
| "pre_lock_signal (EvProxy p f r) = (f = DisplayBootLogo)"
| "pre_lock_signal _ = False"

fun creates_eod :: "'dp event \<Rightarrow> bool" where
  "creates_eod (EvCreateEvent g r) = (g = EndOfDxeGroup)"
| "creates_eod _ = False"

definition flash_work_first :: "'dp event list \<Rightarrow> bool" where
  "flash_work_first es \<longleftrightarrow> (\<forall>pre e post. es = pre @ e # post \<longrightarrow> pre_lock_signal e \<longrightarrow>
     (\<forall>f \<in> set pre. \<not> creates_eod f))"

definition order_step :: "bool \<Rightarrow> 'dp event \<Rightarrow> bool option" where
  "order_step q e = (if pre_lock_signal e \<and> q then None else Some (q \<or> creates_eod e))"

lemma monitor_order_step:
  "monitor order_step q es = Some q' \<Longrightarrow> q' \<longleftrightarrow> q \<or> (\<exists>e \<in> set es. creates_eod e)"
  by (induction es arbitrary: q) (auto simp: order_step_def split: if_splits)

lemma monitor_flash_work_first:
  assumes "monitor order_step False es = Some q"
  shows "flash_work_first es"
  unfolding flash_work_first_def
proof (intro allI impI)
  fix pre e post assume "es = pre @ e # post" and e: "pre_lock_signal e"
  then obtain q1 where q1: "monitor order_step False pre = Some q1" "order_step q1 e \<noteq> None"
    using assms by (auto simp: monitor_append split: option.splits)
  then have "\<not> q1" using e by (auto simp: order_step_def split: if_splits)
  with monitor_order_step [OF q1(1)] show "\<forall>f \<in> set pre. \<not> creates_eod f" by simp
qed

lemma mtriple_accept:
  assumes m: "emits P m" and ok: "\<And>q e. P e \<Longrightarrow> \<delta> q e \<noteq> None"
  shows "mtriple \<delta> I m (\<lambda>_ _. True)"
proof (rule mtripleI)
  fix s q
  obtain r s' where ms: "m s = (r, s')" by force
  obtain es where es: "trace s' = trace s @ es" "\<forall>e \<in> set es. P e"
    using m ms by (rule emitsE)
  have "\<exists>q'. monitor \<delta> q es = Some q'"
    using es(2) ok by (induction es arbitrary: q) (auto split: option.split)
  with es ms show "\<exists>es q'. trace (snd (m s)) = trace s @ es \<and> monitor \<delta> q es = Some q' \<and>
      (\<forall>x. fst (m s) = Ret x \<longrightarrow> True)" by auto
qed

lemma quiet_order: "quiet e \<Longrightarrow> order_step False e = Some False"
  by (cases e) (simp_all add: order_step_def)

lemma mtriple_order_quiet: "emits quiet m \<Longrightarrow> mtriple order_step (\<lambda>q. \<not> q) m (\<lambda>_ q. \<not> q)"
  by (erule mtriple_emits) (simp add: quiet_order)

lemma mtriple_order_late:
  "emits (\<lambda>e. \<not> pre_lock_signal e) m \<Longrightarrow> mtriple order_step I m (\<lambda>_ _. True)"
  by (erule mtriple_accept) (simp add: order_step_def)

abbreviation late :: "'dp event \<Rightarrow> bool" where
  "late e \<equiv> \<not> pre_lock_signal e"

lemma late_event:
  "is_enum_event e \<Longrightarrow> late e" "is_console_event e \<Longrightarrow> late e" "is_nvme_event e \<Longrightarrow> late e" "is_lookup e \<Longrightarrow> late e"
  "g \<notin> {MsStartOfBds, DfciStartOfBds, MuReadyToProcessCapsules} \<Longrightarrow> is_signal_event g e \<Longrightarrow> late e"
  by (cases e; simp)+

lemma emits_late:
  "emits late (connect_all fw)" "emits late (discover_console_devices fw)" "emits late (bp_has_sre_payload fw)"
  "emits late (probe_max_transfer fw p)" "emits late (read_bp_via_log_page fw p bp chunk dest)"
  "emits late (expand_device_path fw dp)" "emits late (handle_device_path fw h)"
  "emits late (find_first_usb_sfs_device_path a fw beyond)"
  by (rule emits_mono [OF emits_connect_all] emits_mono [OF emits_discover_console_devices]
      emits_mono [OF emits_bp_has_sre_payload] emits_mono [OF emits_probe_max_transfer]
      emits_mono [OF emits_read_bp] emits_mono [OF emits_expand_device_path]
      emits_mono [OF emits_handle_device_path] emits_mono [OF emits_find_first_usb]; simp add: late_event)+

lemma emits_late_signal:
  "g \<notin> {MsStartOfBds, DfciStartOfBds, MuReadyToProcessCapsules} \<Longrightarrow> emits late (signal_event_group fw g)"
  by (rule emits_mono [OF emits_signal_event_group]) (rule late_event(5))

lemma emits_late_boot: "emits late (boot_from_device_path fw parent dp)"
  unfolding boot_from_device_path_alt load_and_start_def call_defs by (intro emits_rules emits_late) simp_all

lemma emits_late_attempt: "emits late (attempt_device fw locked h dp)"
  unfolding attempt_device_def signal_ready_to_boot_def locked_boot_from_device_path_def
  by (intro emits_rules emits_late_signal emits_late_boot) simp_all

lemma emits_late_run_sre_flow: "emits late (run_sre_flow a fw beyond locked h)"
  unfolding run_sre_flow_def boot_ram_disk_def register_ram_disk_def chainload_from_ramdisk_def descends_from_def
    teardown_def Let_def locked_boot_from_device_path_def call_defs
  by (intro emits_rules emits_late emits_late_boot) simp_all

lemma emits_late_fallback: "emits late (fallback_boot_options a fw policy)"
  unfolding fallback_boot_options_def approved_volume_def Let_def locate_handle_buffer_def
  by (intro emits_rules emits_late) simp_all

lemma emits_late_boot_pass: "emits late (sre_boot_pass a fw beyond m locked h bp_has_sre pass)"
  unfolding sre_boot_pass_def try_option_def try_fallback_option_def locked_boot_from_device_path_def
  by (intro emits_rules emits_late emits_late_attempt emits_late_boot emits_late_fallback) simp

lemma emits_late_hotkey: "emits late (sre_dispatch_hotkey a fw beyond m locked h hotkey)"
  unfolding sre_dispatch_hotkey_def signal_ready_to_boot_def
  by (cases hotkey; simp only: sre_hotkey.case;
      intro emits_rules emits_late emits_late_signal emits_late_attempt emits_late_run_sre_flow; simp)

lemma emits_late_after_lock: "emits late (sre_after_lock a fw beyond m h locked)"
proof -
  have "emits late (probe_sre_hotkey fw)"
    unfolding probe_sre_hotkey_def call_defs by (intro emits_rules) simp_all
  then show ?thesis
    unfolding sre_after_lock_def
    by (intro emits_rules emits_late emits_late_hotkey emits_late_boot_pass emits_late_run_sre_flow)
qed

lemma emits_late_enter: "emits late (enter_locked_boot fw)"
  unfolding enter_locked_boot_def enter_locked_boot_with_def signal_bds_phase_entry_def
    install_dxe_smm_ready_to_lock_def proxy_locate_def call_defs
  by (intro emits_rules emits_late_signal) simp_all

lemma mtriple_order_sre_execute:
  "mtriple order_step (\<lambda>q. \<not> q) (sre_execute a fuel fw beyond flash_update m h) (\<lambda>_ _. True)"
proof -
  let ?pre = "pre_lock_work fuel fw flash_update m"
  have assoc: "run_pre_lock_phase fw dfci ?pre (enter_locked_boot fw) =
      thn (run_pre_lock_phase fw dfci ?pre (ret ())) (enter_locked_boot fw)" for dfci
    unfolding run_pre_lock_phase_def thn_def by (simp add: bnd_assoc)
  have pre: "mtriple order_step (\<lambda>q. \<not> q) (run_pre_lock_phase fw dfci ?pre (ret ())) (\<lambda>_ q. \<not> q)" for dfci
    unfolding run_pre_lock_phase_def sre_signal_event_group_same
    by (rule mtriple_order_quiet) (intro emits_rules emits_quiet emits_quiet_pre_lock; simp)
  have rest: "mtriple order_step (\<lambda>q. \<not> q) (bnd (enter_locked_boot fw) (\<lambda>entered. case entered of
      Inl e \<Rightarrow> ret e | Inr locked \<Rightarrow> sre_after_lock a fw beyond m h locked)) (\<lambda>_ _. True)"
    by (rule mtriple_order_late) (intro emits_rules emits_late_enter emits_late_after_lock)
  show ?thesis
    unfolding sre_execute_def assoc thn_def bnd_assoc
    by (rule mtriple_bnd [OF pre rest])
qed

subsection \<open>The images a pass asks for\<close>

text \<open>What \<open>discover_boot_options\<close> yields over a store of variables, as a list.\<close>

definition discovered :: "'dp patina \<Rightarrow> (nat \<Rightarrow> u8) \<Rightarrow> (string \<Rightarrow> efi_status + bytes) \<Rightarrow> 'dp list" where
  "discovered lib beyond vars = (case vars ''BootOrder'' of
      Inl _ \<Rightarrow> []
    | Inr bs \<Rightarrow> if odd (length bs) \<or> bs = [] then [] else boot_devices lib beyond vars (chunks2 bs))"

text \<open>With a recovery image committed, USB and firmware-file options are left out.\<close>

definition sre_options :: "'dp patina \<Rightarrow> bool \<Rightarrow> 'dp list \<Rightarrow> 'dp list" where
  "sre_options lib bp_has_sre = filter (\<lambda>d. \<not> (bp_has_sre \<and>
     (device_path_has_usb_node lib d \<or> device_path_has_fw_file_node lib d)))"

definition sre_candidates ::
  "arch \<Rightarrow> ('w, 'dp) firmware \<Rightarrow> 'dp sre_boot_manager \<Rightarrow> (string \<Rightarrow> efi_status + bytes) \<Rightarrow> bool \<Rightarrow> 'w \<Rightarrow> 'dp list" where
  "sre_candidates a fw m vars bp_has_sre w = (case fallback_spec a fw (sre_policy m) vars w of
      Inl _ \<Rightarrow> []
    | Inr cs \<Rightarrow> filter (\<lambda>d. \<not> (bp_has_sre \<and> device_path_has_usb_node (fw_lib fw) d)) cs)"

definition pass_loads ::
  "arch \<Rightarrow> ('w, 'dp) firmware \<Rightarrow> (nat \<Rightarrow> u8) \<Rightarrow> 'dp sre_boot_manager \<Rightarrow> (string \<Rightarrow> efi_status + bytes) \<Rightarrow>
   bool \<Rightarrow> 'w \<Rightarrow> 'dp list" where
  "pass_loads a fw beyond m vars bp_has_sre w =
     (let options = sre_options (fw_lib fw) bp_has_sre (discovered (fw_lib fw) beyond vars) in
      if options \<noteq> [] then options else main_os_path m # sre_candidates a fw m vars bp_has_sre w)"

text \<open>No short forms: every path the passes may ask for is complete.\<close>

definition complete_paths ::
  "('w, 'dp) firmware \<Rightarrow> (nat \<Rightarrow> u8) \<Rightarrow> 'dp sre_boot_manager \<Rightarrow> (string \<Rightarrow> efi_status + bytes) \<Rightarrow> bool" where
  "complete_paths fw beyond m vars \<longleftrightarrow>
     (\<forall>d \<in> insert (main_os_path m) (set (discovered (fw_lib fw) beyond vars)). \<not> is_partial_device_path (fw_lib fw) d) \<and>
     (\<forall>w h v l. path_found fw w h = Some v \<longrightarrow> \<not> is_partial_device_path (fw_lib fw) (fallback_candidate (fw_lib fw) l v))"

lemma quiet_loads:
  assumes "emits quiet m" and "m s = (r, s')"
  obtains es where "trace s' = trace s @ es" and "loads es = []"
proof -
  obtain es where "trace s' = trace s @ es" "\<forall>e \<in> set es. quiet e" using assms by (rule emitsE)
  then show thesis using that loads_no_image [of es] quiet_not_image by blast
qed

lemma try_option_loads:
  assumes "\<not> is_partial_device_path (fw_lib fw) d" and "try_option fw locked h bp d t s = (Ret t', s')"
  shows "\<exists>es. trace s' = trace s @ es \<and> loads es = sre_options (fw_lib fw) bp [d] \<and>
    (t' \<longleftrightarrow> t \<or> sre_options (fw_lib fw) bp [d] \<noteq> [])"
proof (cases "sre_options (fw_lib fw) bp [d] = []")
  case True
  then show ?thesis using assms(2)
    by (intro exI [of _ "[]"]) (auto simp: try_option_def sre_options_def split: if_splits)
next
  case False
  then have "thn (attempt_device fw locked h d) (ret True) s = (Ret t', s')"
    using assms(2) by (auto simp: try_option_def sre_options_def split: if_splits)
  then obtain u where "attempt_device fw locked h d s = (Ret u, s')" "t'"
    unfolding thn_def by (auto elim!: bnd_RetE)
  with attempt_device_loads [OF assms(1)] False show ?thesis by (force simp: sre_options_def split: if_splits)
qed

lemma sre_options_append: "sre_options lib bp (xs @ ys) = sre_options lib bp xs @ sre_options lib bp ys"
  by (simp add: sre_options_def)

lemma try_options_load:
  assumes "\<forall>d \<in> set ds. \<not> is_partial_device_path (fw_lib fw) d"
    and "each_acc (try_option fw locked h bp) ds t s = (Ret t', s')"
  shows "\<exists>es. trace s' = trace s @ es \<and> loads es = sre_options (fw_lib fw) bp ds \<and>
    (t' \<longleftrightarrow> t \<or> sre_options (fw_lib fw) bp ds \<noteq> [])"
  using assms
proof (induction ds arbitrary: t s)
  case (Cons d ds)
  from Cons.prems(2) obtain t1 s1 where 1: "try_option fw locked h bp d t s = (Ret t1, s1)"
    and 2: "each_acc (try_option fw locked h bp) ds t1 s1 = (Ret t', s')"
    by (auto elim: bnd_RetE)
  obtain es1 where es1: "trace s1 = trace s @ es1" "loads es1 = sre_options (fw_lib fw) bp [d]"
    "t1 \<longleftrightarrow> t \<or> sre_options (fw_lib fw) bp [d] \<noteq> []"
    using try_option_loads [OF _ 1] Cons.prems(1) by auto
  obtain es2 where es2: "trace s' = trace s1 @ es2" "loads es2 = sre_options (fw_lib fw) bp ds"
    "t' \<longleftrightarrow> t1 \<or> sre_options (fw_lib fw) bp ds \<noteq> []"
    using Cons.IH [OF _ 2] Cons.prems(1) by auto
  show ?case
    using es1 es2 sre_options_append [of "fw_lib fw" bp "[d]" ds] by (intro exI [of _ "es1 @ es2"]) auto
qed (auto simp: sre_options_def)

lemma fallback_options_load:
  assumes "\<forall>d \<in> set ds. \<not> is_partial_device_path (fw_lib fw) d"
    and "each (try_fallback_option fw locked h bp) ds s = (Ret u, s')"
  shows "\<exists>es. trace s' = trace s @ es \<and>
    loads es = filter (\<lambda>d. \<not> (bp \<and> device_path_has_usb_node (fw_lib fw) d)) ds"
  using assms
proof (induction ds arbitrary: s)
  case (Cons d ds)
  from Cons.prems(2) obtain v s1 where 1: "try_fallback_option fw locked h bp d s = (Ret v, s1)"
    and 2: "each (try_fallback_option fw locked h bp) ds s1 = (Ret u, s')"
    by (auto simp: thn_def elim: bnd_RetE)
  have "\<exists>es. trace s1 = trace s @ es \<and>
      loads es = filter (\<lambda>d. \<not> (bp \<and> device_path_has_usb_node (fw_lib fw) d)) [d]"
  proof (cases "bp \<and> device_path_has_usb_node (fw_lib fw) d")
    case False
    then obtain r where "boot_from_device_path fw h d s = (Ret r, s1)"
      using 1 unfolding try_fallback_option_def locked_boot_from_device_path_def by (auto elim!: bnd_RetE)
    then show ?thesis using Cons.prems(1) False
      by (cases rule: boot_from_device_path_cases) (auto dest: attempt_log_loads)
  qed (use 1 in \<open>auto simp: try_fallback_option_def\<close>)
  then obtain es1 where "trace s1 = trace s @ es1"
    "loads es1 = filter (\<lambda>d. \<not> (bp \<and> device_path_has_usb_node (fw_lib fw) d)) [d]" by blast
  moreover obtain es2 where "trace s' = trace s1 @ es2"
    "loads es2 = filter (\<lambda>d. \<not> (bp \<and> device_path_has_usb_node (fw_lib fw) d)) ds"
    using Cons.IH [OF _ 2] Cons.prems(1) by auto
  ultimately show ?case by (intro exI [of _ "es1 @ es2"]) auto
qed auto

lemma discovered_run:
  assumes vars: "reads_vars fw vars" and run: "discover_boot_options fw beyond s = (Ret r, s')"
  shows "(case r of Inr config \<Rightarrow> cfg_devices config | Inl _ \<Rightarrow> []) = discovered (fw_lib fw) beyond vars"
  using discover_boot_options_eq [OF vars, of beyond s] run
  by (auto simp: discovered_def split: sum.splits list.splits if_splits)

lemma fallback_run_complete:
  assumes fw: "pure_lookups fw" and vars: "reads_vars fw vars" and full: "complete_paths fw beyond m vars"
    and run: "fallback_boot_options a fw (sre_policy m) s = (Ret r, s')"
  shows "r = fallback_spec a fw (sre_policy m) vars (world s)"
    and "\<And>cs. r = Inr cs \<Longrightarrow> \<forall>d \<in> set cs. \<not> is_partial_device_path (fw_lib fw) d"
proof -
  obtain es where "fallback_boot_options a fw (sre_policy m) s =
      (Ret (fallback_spec a fw (sre_policy m) vars (world s)), s\<lparr>trace := trace s @ es\<rparr>)"
    by (rule readsE [OF reads_fallback_boot_options [OF fw vars]])
  with run show r: "r = fallback_spec a fw (sre_policy m) vars (world s)" by simp
  show "\<forall>d \<in> set cs. \<not> is_partial_device_path (fw_lib fw) d" if "r = Inr cs" for cs
    using fallback_spec_sound [of a fw "sre_policy m" vars "world s" cs] r that full
    unfolding complete_paths_def by metis
qed

lemma sre_boot_pass_loads:
  assumes fw: "pure_lookups fw" and vars: "reads_vars fw vars" and full: "complete_paths fw beyond m vars"
    and run: "sre_boot_pass a fw beyond m locked h bp pass s = (Ret u, s')"
  shows "\<exists>es w. trace s' = trace s @ es \<and> loads es = pass_loads a fw beyond m vars bp w"
proof -
  let ?opts = "sre_options (fw_lib fw) bp (discovered (fw_lib fw) beyond vars)"
  from run obtain v s1 r s2 t s3 where
        1: "(if pass = 1 then bnd (connect_all fw) (\<lambda>_. ret ()) else ret ()) s = (Ret v, s1)"
    and 2: "discover_boot_options fw beyond s1 = (Ret r, s2)"
    and 3: "(case r of
          Inr config \<Rightarrow> each_acc (try_option fw locked h bp) (cfg_devices config) False
        | Inl _ \<Rightarrow> ret False) s2 = (Ret t, s3)"
    and 4: "(if t then ret () else thn (attempt_device fw locked h (main_os_path m))
        (bnd (fallback_boot_options a fw (sre_policy m)) (\<lambda>r. case r of
            Inr candidates \<Rightarrow> each (try_fallback_option fw locked h bp) candidates
          | Inl _ \<Rightarrow> ret ()))) s3 = (Ret u, s')"
    unfolding sre_boot_pass_def thn_def [of "if _ then _ else _"] by (elim bnd_RetE) blast
  have "emits quiet (if pass = 1 then bnd (connect_all fw) (\<lambda>_. ret ()) else ret ())"
    by (intro emits_rules emits_quiet)
  then obtain es1 where es1: "trace s1 = trace s @ es1" "loads es1 = []" using 1 by (rule quiet_loads)
  have "emits quiet (discover_boot_options fw beyond)" by (intro emits_rules) simp
  then obtain es2 where es2: "trace s2 = trace s1 @ es2" "loads es2 = []" using 2 by (rule quiet_loads)
  have "each_acc (try_option fw locked h bp) (discovered (fw_lib fw) beyond vars) False s2 = (Ret t, s3)"
    using 3 discovered_run [OF vars 2] by (cases r) auto
  with full obtain es3 where es3: "trace s3 = trace s2 @ es3" "loads es3 = ?opts" "t \<longleftrightarrow> ?opts \<noteq> []"
    using try_options_load [of _ fw locked h bp False] unfolding complete_paths_def by blast
  show ?thesis
  proof (cases t)
    case True
    then have "s' = s3" using 4 by simp
    then show ?thesis using True es1 es2 es3
      by (intro exI [of _ "es1 @ es2 @ es3"] exI) (auto simp: pass_loads_def)
  next
    case False
    with 4 obtain s4 r5 s5 where 5: "attempt_device fw locked h (main_os_path m) s3 = (Ret (), s4)"
      and 6: "fallback_boot_options a fw (sre_policy m) s4 = (Ret r5, s5)"
      and 7: "(case r5 of Inr candidates \<Rightarrow> each (try_fallback_option fw locked h bp) candidates
          | Inl _ \<Rightarrow> ret ()) s5 = (Ret u, s')"
      unfolding thn_def by (auto elim!: bnd_RetE)
    obtain es4 where es4: "trace s4 = trace s3 @ es4" "loads es4 = [main_os_path m]"
      using attempt_device_loads [OF _ 5] full unfolding complete_paths_def by blast
    obtain es5 where es5: "trace s5 = trace s4 @ es5" "loads es5 = []"
      using emits_fallback_boot_options 6 by (rule quiet_loads)
    have "\<exists>es. trace s' = trace s5 @ es \<and> loads es = sre_candidates a fw m vars bp (world s4)"
      using 7 fallback_run_complete [OF fw vars full 6] fallback_options_load [of _ fw locked h bp s5]
      by (cases r5) (auto simp: sre_candidates_def dest: sym)
    then obtain es6 where es6: "trace s' = trace s5 @ es6" "loads es6 = sre_candidates a fw m vars bp (world s4)"
      by blast
    show ?thesis using False es1 es2 es3 es4 es5 es6
      by (intro exI [of _ "es1 @ es2 @ es3 @ es4 @ es5 @ es6"] exI [of _ "world s4"]) (simp add: pass_loads_def)
  qed
qed

lemma sre_passes_load:
  assumes "pure_lookups fw" and "reads_vars fw vars" and "complete_paths fw beyond m vars"
    and run: "each (sre_boot_pass a fw beyond m locked h bp) [0..<2] s = (Ret u, s')"
  shows "\<exists>es w0 w1. trace s' = trace s @ es \<and>
    loads es = pass_loads a fw beyond m vars bp w0 @ pass_loads a fw beyond m vars bp w1"
proof -
  have "[0..<2] = [0, 1 :: nat]" by (simp add: numeral_2_eq_2)
  with run obtain s1 where "sre_boot_pass a fw beyond m locked h bp 0 s = (Ret (), s1)"
    and "sre_boot_pass a fw beyond m locked h bp 1 s1 = (Ret (), s')"
    by (auto simp: thn_def elim!: bnd_RetE)
  with sre_boot_pass_loads [OF assms(1-3)] obtain es0 w0 es1 w1 where
    "trace s1 = trace s @ es0" "loads es0 = pass_loads a fw beyond m vars bp w0"
    "trace s' = trace s1 @ es1" "loads es1 = pass_loads a fw beyond m vars bp w1" by metis
  then show ?thesis by (intro exI [of _ "es0 @ es1"] exI [of _ w0] exI [of _ w1]) simp
qed

text \<open>With a recovery image committed, the passes reach no USB path but the configured main one.\<close>

lemma pass_loads_no_usb:
  "p \<in> set (pass_loads a fw beyond m vars True w) \<Longrightarrow>
   p = main_os_path m \<or> \<not> device_path_has_usb_node (fw_lib fw) p"
  by (auto simp: pass_loads_def sre_options_def sre_candidates_def Let_def split: if_splits sum.splits)

subsection \<open>The result\<close>

lemma sre_execute_result:
  assumes run: "sre_execute a fuel fw beyond flash_update m h s = (Ret e, s')"
  shows "\<exists>es. trace s' = trace s @ es \<and> (if secured es then e = NotFound else loads es = [])"
proof -
  let ?pre = "run_pre_lock_phase fw (dfci_bds_signal m) (pre_lock_work fuel fw flash_update m) (ret ())"
  have assoc: "run_pre_lock_phase fw (dfci_bds_signal m) (pre_lock_work fuel fw flash_update m) (enter_locked_boot fw) =
      thn ?pre (enter_locked_boot fw)"
    unfolding run_pre_lock_phase_def thn_def by (simp add: bnd_assoc)
  from run obtain s1 r s2 where 1: "?pre s = (Ret (), s1)" and 2: "enter_locked_boot fw s1 = (Ret r, s2)"
    and 3: "(case r of Inl e \<Rightarrow> ret e | Inr locked \<Rightarrow> sre_after_lock a fw beyond m h locked) s2 = (Ret e, s')"
    unfolding sre_execute_def assoc thn_def bnd_assoc by (auto elim!: bnd_RetE)
  have "emits quiet ?pre"
    unfolding run_pre_lock_phase_def sre_signal_event_group_same
    by (intro emits_rules emits_quiet emits_quiet_pre_lock; simp)
  then obtain es1 where es1: "trace s1 = trace s @ es1" "\<forall>e \<in> set es1. quiet e" using 1 by (rule emitsE)
  from 2 show ?thesis
  proof (cases rule: enter_locked_boot_cases)
    case (failed es e')
    have "emits (\<lambda>e. \<not> is_image_event e) (enter_locked_boot fw)"
      unfolding enter_locked_boot_def enter_locked_boot_with_def signal_bds_phase_entry_def
        signal_event_group_def install_dxe_smm_ready_to_lock_def proxy_locate_def call_defs
      by (intro emits_rules) simp_all
    then obtain es' where "trace s2 = trace s1 @ es'" "\<forall>e \<in> set es'. \<not> is_image_event e" using 2 by (rule emitsE)
    then have "loads (es1 @ es) = []"
      using loads_no_image [of es1] loads_no_image [of es'] es1(2) quiet_not_image failed(2) by auto
    moreover have "\<not> secured (es1 @ es)"
      using secured_proxy [of "es1 @ es"] quiet_not_locked [OF es1(2)] failed(3) by auto
    ultimately show ?thesis using 3 failed es1(1) by (intro exI [of _ "es1 @ es"]) simp
  next
    case (locked es)
    then have "e = NotFound"
      using 3 unfolding sre_after_lock_def thn_def by (auto elim!: bnd_RetE)
    moreover obtain es' where "trace s' = trace s2 @ es'"
      using emits_sre_after_lock 3 unfolding locked(1) sum.case by (rule emitsE)
    moreover have "secured (es1 @ es @ es')"
      using lock_log_secured [OF locked(3)] unfolding secured_def by (metis append.assoc append_Cons)
    ultimately show ?thesis using es1(1) locked(2) by (intro exI [of _ "es1 @ es @ es'"]) simp
  qed
qed

end
