(* ===== verification/Returns.thy ===== *)
theory Returns
  imports SreFlow
begin

text \<open>
  Termination of the boot flows: on a platform whose services come back, both flows come back
  with their error, whatever the services answer. \<open>goes R m\<close> says that \<open>m\<close> returns from every
  state and moves the platform by \<open>R\<close>; loops need a measure.
\<close>

subsection \<open>Programs that return\<close>

named_theorems goes_rules \<open>introduction rules for programs that return\<close>

definition goes :: "('w \<Rightarrow> 'w \<Rightarrow> bool) \<Rightarrow> ('w, 'dp, 'a) boot \<Rightarrow> bool" where
  "goes R m \<longleftrightarrow> (\<forall>s. \<exists>r s'. m s = (Ret r, s') \<and> R (world s) (world s'))"

definition steps_by :: "('w \<Rightarrow> 'w \<Rightarrow> bool) \<Rightarrow> ('w, 'r) sem \<Rightarrow> bool" where
  "steps_by R f \<longleftrightarrow> (\<forall>w. \<exists>x w'. f w = (Ret x, w') \<and> R w w')"

definition preorder :: "('w \<Rightarrow> 'w \<Rightarrow> bool) \<Rightarrow> bool" where
  "preorder R \<longleftrightarrow> (\<forall>w. R w w) \<and> (\<forall>u v w. R u v \<longrightarrow> R v w \<longrightarrow> R u w)"

lemma preorder_trivial [simp]: "preorder (\<lambda>_ _. True)"
  by (simp add: preorder_def)

lemma preorder_le: "preorder (\<lambda>w w'. (f w :: nat) \<le> f w')"
  by (auto simp: preorder_def)

lemma goesE:
  assumes "goes R m" obtains r s' where "m s = (Ret r, s')" and "R (world s) (world s')"
  using assms unfolding goes_def by blast

lemma goes_svc:
  fixes f :: "('w, 'r) sem" and mk :: "'r outcome \<Rightarrow> 'dp event"
  assumes "steps_by R f"
  shows "goes R (svc f mk)"
  unfolding goes_def
proof
  fix s :: "('w, 'dp) st"
  from assms obtain x w' where "f (world s) = (Ret x, w')" "R (world s) w'" unfolding steps_by_def by blast
  then show "\<exists>r s'. svc f mk s = (Ret r, s') \<and> R (world s) (world s')" by (simp add: svc_def)
qed

lemma goes_ret [goes_rules]: "preorder R \<Longrightarrow> goes R (ret x)"
  by (simp add: goes_def preorder_def)

lemma goes_peek [goes_rules]: "preorder R \<Longrightarrow> goes R (peek f)"
  by (simp add: goes_def preorder_def peek_def)

lemma goes_log [goes_rules]: "preorder R \<Longrightarrow> goes R (log_event e)"
  by (simp add: goes_def preorder_def log_event_def)

lemma goes_bnd [goes_rules]:
  assumes R: "preorder R" and m: "goes R m" and f: "\<And>x. goes R (f x)"
  shows "goes R (bnd m f)"
  unfolding goes_def
proof
  fix s
  obtain x s1 where 1: "m s = (Ret x, s1)" "R (world s) (world s1)" using m by (rule goesE)
  obtain y s2 where "f x s1 = (Ret y, s2)" "R (world s1) (world s2)" using f by (rule goesE)
  with 1 R show "\<exists>r s'. bnd m f s = (Ret r, s') \<and> R (world s) (world s')"
    unfolding preorder_def by (auto simp: bnd_Ret)
qed

lemma goes_thn [goes_rules]: "preorder R \<Longrightarrow> goes R m \<Longrightarrow> goes R n \<Longrightarrow> goes R (thn m n)"
  unfolding thn_def by (rule goes_bnd)

lemma goes_sum [goes_rules]:
  "(\<And>e. goes R (f e)) \<Longrightarrow> (\<And>x. goes R (g x)) \<Longrightarrow> goes R (case r of Inl e \<Rightarrow> f e | Inr x \<Rightarrow> g x)"
  by (cases r) auto

lemma goes_option [goes_rules]:
  "goes R f \<Longrightarrow> (\<And>x. goes R (g x)) \<Longrightarrow> goes R (case r of None \<Rightarrow> f | Some x \<Rightarrow> g x)"
  by (cases r) auto

lemma goes_prod [goes_rules]: "(\<And>a b. goes R (f a b)) \<Longrightarrow> goes R (case r of (a, b) \<Rightarrow> f a b)"
  by (cases r) auto

lemma goes_if [goes_rules]: "(b \<Longrightarrow> goes R m) \<Longrightarrow> (\<not> b \<Longrightarrow> goes R n) \<Longrightarrow> goes R (if b then m else n)"
  by simp

lemma goes_tryE [goes_rules]: "preorder R \<Longrightarrow> goes R m \<Longrightarrow> (\<And>x. goes R (f x)) \<Longrightarrow> goes R (tryE m f)"
  unfolding tryE_def by (intro goes_rules)

lemma goes_map_err [goes_rules]: "preorder R \<Longrightarrow> goes R m \<Longrightarrow> goes R (map_err g m)"
  unfolding map_err_def by (intro goes_rules)

lemma goes_each [goes_rules]: "preorder R \<Longrightarrow> (\<And>x. goes R (f x)) \<Longrightarrow> goes R (each f xs)"
  by (induction xs) (auto intro: goes_rules)

lemma goes_each_until [goes_rules]: "preorder R \<Longrightarrow> (\<And>x. goes R (f x)) \<Longrightarrow> goes R (each_until f xs)"
  by (induction xs) (auto intro!: goes_rules)

lemma goes_each_acc [goes_rules]: "preorder R \<Longrightarrow> (\<And>x a. goes R (f x a)) \<Longrightarrow> goes R (each_acc f xs a)"
  by (induction xs arbitrary: a) (auto intro!: goes_rules)

lemma goes_each_acc_until [goes_rules]:
  "preorder R \<Longrightarrow> (\<And>x a. goes R (f x a)) \<Longrightarrow> goes R (each_acc_until f xs a)"
  by (induction xs arbitrary: a) (auto intro!: goes_rules)

text \<open>A loop whose measure falls whenever it goes round again, and is below the fuel.\<close>

lemma goes_loop_from:
  assumes R: "preorder R"
    and body: "\<And>a s. \<exists>r s'. body a s = (Ret r, s') \<and> R (world s) (world s') \<and>
      (\<forall>a'. r = Inl a' \<longrightarrow> \<mu> a' (world s') < (\<mu> a (world s) :: nat))"
  shows "\<mu> a (world s) < fuel \<Longrightarrow> \<exists>x s'. loop fuel body a s = (Ret x, s') \<and> R (world s) (world s')"
proof (induction fuel arbitrary: a s)
  case (Suc n)
  obtain r s1 where 1: "body a s = (Ret r, s1)" "R (world s) (world s1)"
    "\<forall>a'. r = Inl a' \<longrightarrow> \<mu> a' (world s1) < \<mu> a (world s)" using body by blast
  show ?case
  proof (cases r)
    case (Inl a')
    with 1(3) Suc.prems have "\<mu> a' (world s1) < n" by fastforce
    from Suc.IH [OF this] 1(2) R obtain x s' where "loop n body a' s1 = (Ret x, s')" "R (world s) (world s')"
      unfolding preorder_def by blast
    then show ?thesis by (simp add: bnd_Ret [where m = "body a", OF 1(1)] Inl)
  qed (use 1 in \<open>simp add: bnd_Ret [where m = "body a", OF 1(1)]\<close>)
qed simp

subsection \<open>A platform that answers\<close>

text \<open>Every service returns and moves the platform by \<open>R\<close>; what it answers is left open.\<close>

definition answers :: "('w \<Rightarrow> 'w \<Rightarrow> bool) \<Rightarrow> ('w, 'dp) firmware \<Rightarrow> bool" where
  "answers R fw \<longleftrightarrow> (\<forall>sr. steps_by R (fw_locate_handle_buffer fw sr)) \<and> (\<forall>h g. steps_by R (fw_handle_protocol fw h g)) \<and>
     (\<forall>g. steps_by R (fw_locate_protocol fw g)) \<and> (\<forall>g p. steps_by R (fw_locate_device_path fw g p)) \<and>
     (\<forall>h b. steps_by R (fw_connect_controller fw h b)) \<and> (\<forall>h. steps_by R (fw_disconnect_controller fw h)) \<and>
     (\<forall>g. steps_by R (fw_create_event_ex fw g)) \<and> (\<forall>e. steps_by R (fw_signal_event fw e)) \<and>
     (\<forall>e. steps_by R (fw_close_event fw e)) \<and> (\<forall>h p. steps_by R (fw_load_image fw h p)) \<and>
     (\<forall>n. steps_by R (fw_set_watchdog_timer fw n)) \<and> (\<forall>h. steps_by R (fw_start_image fw h)) \<and>
     (\<forall>h g p. steps_by R (fw_install_protocol fw h g p)) \<and> (\<forall>h g p. steps_by R (fw_uninstall_protocol fw h g p)) \<and>
     (\<forall>n. steps_by R (fw_get_variable fw n)) \<and> (\<forall>n b. steps_by R (fw_set_variable fw n b)) \<and>
     steps_by R (fw_dispatch fw) \<and> (\<forall>p. steps_by R (fw_read_key_stroke fw p)) \<and>
     (\<forall>p. steps_by R (fw_pci_read_class fw p)) \<and> (\<forall>p b. steps_by R (fw_button fw p b)) \<and>
     (\<forall>p. steps_by R (fw_proxy_revision fw p)) \<and> (\<forall>p f. steps_by R (fw_proxy_call fw p f)) \<and>
     (\<forall>p k. steps_by R (fw_nvme_pass_thru fw p k)) \<and> (\<forall>n. steps_by R (fw_try_reserve fw n))"

lemma answers_goes:
  assumes "answers R fw"
  shows "goes R (locate_handle_buffer fw sr)" "goes R (handle_protocol fw h g)" "goes R (locate_protocol fw g)"
    "goes R (locate_device_path fw g p)" "goes R (connect_controller fw h b)" "goes R (disconnect_controller fw h)"
    "goes R (create_event_ex fw g)" "goes R (signal_event fw e)" "goes R (close_event fw e)"
    "goes R (load_image fw h dp)" "goes R (set_watchdog_timer fw n)" "goes R (start_image fw h)"
    "goes R (install_protocol fw oh g p)" "goes R (uninstall_protocol fw h g p)" "goes R (get_variable fw vn)"
    "goes R (set_variable fw vn bs)" "goes R (dispatch fw)" "goes R (read_key_stroke fw p)"
    "goes R (pci_read_class fw p)" "goes R (button fw p bt)" "goes R (proxy_revision fw p)"
    "goes R (proxy_call fw p pf)" "goes R (nvme_pass_thru fw p pkt)" "goes R (try_reserve fw n)"
  using assms unfolding answers_def call_defs by (simp_all add: goes_svc)

subsection \<open>The pieces\<close>

lemma goes_connect:
  assumes R: "preorder R" and fw: "answers R fw"
  shows "goes R (connect_all fw)" "goes R (connect_all_skip_usb fw)"
  unfolding connect_all_def connect_all_skip_usb_def connect_passes_def connect_pass_def connect_one_def
    connect_one_skip_usb_def is_usb_host_controller_def pci_class_def
  by (intro goes_rules R answers_goes [OF fw])+

lemma goes_signal:
  assumes R: "preorder R" and fw: "answers R fw"
  shows "goes R (signal_event_group fw g)"
  unfolding signal_event_group_def by (intro goes_rules R answers_goes [OF fw])

lemma goes_locking:
  assumes R: "preorder R" and fw: "answers R fw"
  shows "goes R (enter_locked_boot fw)" "goes R (display_boot_logo fw)"
  unfolding enter_locked_boot_def enter_locked_boot_with_def signal_bds_phase_entry_def proxy_defs proxy_locate_def
  by (intro goes_rules R answers_goes [OF fw] goes_signal [OF assms])+

lemma goes_handle_device_path:
  assumes R: "preorder R" and fw: "answers R fw"
  shows "goes R (handle_device_path fw h)"
  unfolding handle_device_path_def by (intro goes_rules R answers_goes [OF fw])

lemma goes_boot_from_device_path:
  assumes R: "preorder R" and fw: "answers R fw"
  shows "goes R (boot_from_device_path fw h dp)"
  unfolding boot_from_device_path_alt load_and_start_def expand_device_path_def expand_step_def Let_def
  by (intro goes_rules R answers_goes [OF fw] goes_handle_device_path [OF assms])

lemma goes_attempt_device:
  assumes R: "preorder R" and fw: "answers R fw"
  shows "goes R (attempt_device fw locked h dp)"
  unfolding attempt_device_def signal_ready_to_boot_def locked_boot_from_device_path_def
  by (intro goes_rules R goes_signal [OF assms] goes_boot_from_device_path [OF assms])

lemma goes_consoles:
  assumes R: "preorder R" and fw: "answers R fw"
  shows "goes R (discover_console_devices fw)"
  unfolding discover_console_devices_def build_multi_instance_device_path_def add_console_def
  by (intro goes_rules R answers_goes [OF fw] goes_handle_device_path [OF assms])

lemma goes_variables:
  assumes R: "preorder R" and fw: "answers R fw"
  shows "goes R (discover_boot_options fw beyond)" "goes R (secure_boot_state fw)"
proof -
  show "goes R (secure_boot_state fw)"
    unfolding secure_boot_state_def read_state_variable_def
    by (intro goes_rules R answers_goes [OF fw]) (auto intro!: goes_rules R split: list.split)
  show "goes R (discover_boot_options fw beyond)"
    unfolding discover_boot_options_def
    by (intro goes_rules R answers_goes [OF fw]) (auto intro!: goes_rules R split: list.split)
qed

lemma goes_fallback:
  assumes R: "preorder R" and fw: "answers R fw"
  shows "goes R (fallback_boot_options a fw policy)"
  unfolding fallback_boot_options_def approved_volume_def Let_def
  by (intro goes_rules R answers_goes [OF fw] goes_variables [OF assms] goes_handle_device_path [OF assms])

subsection \<open>The recovery flow\<close>

lemma goes_read_bp:
  assumes "answers (\<lambda>_ _. True) fw"
  shows "goes (\<lambda>_ _. True) (read_bp_via_log_page fw p bp chunk dest)"
proof -
  have "nvme_answers fw p"
    using assms unfolding answers_def nvme_answers_def steps_by_def by auto
  from read_bp_via_log_page_returns [OF this] show ?thesis unfolding goes_def by blast
qed

lemma goes_run_sre_flow:
  assumes fw: "answers (\<lambda>_ _. True) fw"
  shows "goes (\<lambda>_ _. True) (run_sre_flow a fw beyond locked h)"
proof -
  note R = preorder_trivial
  have teardown: "goes (\<lambda>_ _. True) (teardown fw i)" for i
    unfolding teardown_def by (intro goes_rules R answers_goes [OF fw])
  have register: "goes (\<lambda>_ _. True) (register_ram_disk fw b n)" for b n
    unfolding register_ram_disk_def Let_def by (intro goes_rules R answers_goes [OF fw])
  have chain: "goes (\<lambda>_ _. True) (chainload_from_ramdisk a fw beyond locked h dp)" for dp
    unfolding chainload_from_ramdisk_def descends_from_def Let_def locked_boot_from_device_path_def
    by (intro goes_rules R answers_goes [OF fw] goes_boot_from_device_path [OF R fw])
  show ?thesis
    unfolding run_sre_flow_def boot_ram_disk_def probe_max_transfer_def Let_def
    by (intro goes_rules R answers_goes [OF fw] goes_connect [OF R fw] goes_read_bp [OF fw] teardown register chain)
qed

subsection \<open>Both flows come back\<close>

text \<open>Dispatch reports progress at most \<open>drivers\<close> times.\<close>

definition finite_drivers :: "('w, 'dp) firmware \<Rightarrow> ('w \<Rightarrow> nat) \<Rightarrow> bool" where
  "finite_drivers fw drivers \<longleftrightarrow> (\<forall>w w'. fw_dispatch fw w = (Ret (Inr True), w') \<longrightarrow> drivers w' < drivers w)"

lemma goes_dispatch_all:
  assumes fw: "answers (\<lambda>_ _. True) fw" and drv: "finite_drivers fw drivers" and fuel: "\<And>w. drivers w < fuel"
  shows "goes (\<lambda>_ _. True) (dispatch_all fuel fw)"
  unfolding goes_def
proof
  fix s :: "('a, 'b) st"
  let ?body = "\<lambda>_. bnd (dispatch fw) (\<lambda>r. case r of
      Inr True \<Rightarrow> ret (Inl ()) | Inr False \<Rightarrow> ret (Inr ()) | Inl e \<Rightarrow> ret (Inr ()))"
  have body: "\<exists>r s'. ?body u t = (Ret r, s') \<and> True \<and> (\<forall>a'. r = Inl a' \<longrightarrow> drivers (world s') < drivers (world t))"
    for u :: unit and t :: "('a, 'b) st"
  proof -
    have "steps_by (\<lambda>_ _. True) (fw_dispatch fw)" using fw by (simp add: answers_def)
    then obtain r w' where d: "fw_dispatch fw (world t) = (Ret r, w')" unfolding steps_by_def by blast
    show ?thesis
      using drv d unfolding finite_drivers_def dispatch_def
      by (cases r) (auto simp: bnd_def svc_def ret_run split: bool.split)
  qed
  show "\<exists>r s'. dispatch_all fuel fw s = (Ret r, s') \<and> True"
    using goes_loop_from [where R = "\<lambda>_ _. True" and \<mu> = "\<lambda>_ w. drivers w", OF preorder_trivial body fuel]
    unfolding dispatch_all_def by blast
qed

lemma sre_execute_returns:
  assumes fw: "answers (\<lambda>_ _. True) fw" and drv: "finite_drivers fw drivers" and fuel: "\<And>w. drivers w < fuel"
  shows "goes (\<lambda>_ _. True) (sre_execute a fuel fw beyond flash_update m h)"
proof -
  note R = preorder_trivial
  note leaf = goes_rules R answers_goes [OF fw] goes_signal [OF R fw] goes_connect [OF R fw] goes_consoles [OF R fw]
    goes_attempt_device [OF R fw] goes_locking [OF R fw] goes_run_sre_flow [OF fw]
  have usb: "goes (\<lambda>_ _. True) (find_first_usb_sfs_device_path a fw beyond)"
    unfolding find_first_usb_sfs_device_path_def usb_sfs_candidate_def Let_def by (intro leaf)
  have hotkey: "goes (\<lambda>_ _. True) (sre_dispatch_hotkey a fw beyond m locked h k)" for locked k
    unfolding sre_dispatch_hotkey_def signal_ready_to_boot_def
    by (cases k; simp only: sre_hotkey.case; intro leaf usb)
  have pass: "goes (\<lambda>_ _. True) (sre_boot_pass a fw beyond m locked h bp n)" for locked bp n
    unfolding sre_boot_pass_def try_option_def try_fallback_option_def locked_boot_from_device_path_def
    by (intro leaf goes_boot_from_device_path [OF R fw] goes_variables [OF R fw] goes_fallback [OF R fw])
  have after: "goes (\<lambda>_ _. True) (sre_after_lock a fw beyond m h locked)" for locked
    unfolding sre_after_lock_def probe_sre_hotkey_def bp_has_sre_payload_def
    by (intro leaf hotkey pass goes_read_bp [OF fw])
  show ?thesis
    unfolding sre_execute_def run_pre_lock_phase_def pre_lock_work_def capsule_process_def sre_signal_event_group_same
    by (intro leaf after goes_dispatch_all [OF assms])
qed

lemma goes_hotkey:
  assumes fw: "answers (\<lambda>_ _. True) fw" and keys: "finite_keys fw pending" and fuel: "\<And>w. pending w < fuel"
  shows "goes (\<lambda>_ _. True) (hotkey_pressed fuel fw config)"
proof -
  have drain: "goes (\<lambda>_ _. True) (loop fuel (drain_step fw p code) ())" for p code
    using drain_returns [OF keys fuel] unfolding goes_def by blast
  show ?thesis
    unfolding hotkey_pressed_def detect_hotkey_def detect_hotkey_from_handles_def drain_handle_def
    by (intro goes_rules preorder_trivial answers_goes [OF fw] drain)
qed

lemma answers_weaken: "answers R fw \<Longrightarrow> answers (\<lambda>_ _. True) fw"
  unfolding answers_def steps_by_def by meson

lemma simple_execute_returns:
  assumes fw: "answers (\<lambda>w w'. count w \<le> count w') fw" and count: "counts_handles fw count"
    and bound: "\<And>w. count w \<le> most" "most < fuel"
    and keys: "finite_keys fw pending" "\<And>w. pending w < fuel"
    and handler: "\<forall>f. cfg_failure_handler config = Some f \<longrightarrow> steps_by (\<lambda>_ _. True) f"
  shows "\<exists>e s'. simple_execute fuel fw (simple_new config) h s = (Ret e, s')"
proof -
  note R = preorder_le [of count] and T = preorder_trivial
  note fw' = answers_weaken [OF fw]
  have adds: "only_adds count most m" if "goes (\<lambda>w w'. count w \<le> count w') m"
    for m :: "('a, 'b, efi_error + 'c) boot"
    using that bound unfolding goes_def only_adds_def by blast
  have "most - count (world s) < fuel" using bound by simp
  from interleave_returns [OF count adds [OF goes_connect(1) [OF R fw]] adds [OF answers_goes(17) [OF fw]] bound(1) this]
  obtain x s1 where 1: "interleave_connect_and_dispatch fuel fw (connect_all fw) s = (Ret x, s1)" by blast
  have fail: "goes (\<lambda>_ _. True) (handle_failure config)"
    using handler unfolding handle_failure_def by (cases "cfg_failure_handler config") (simp_all add: goes_svc goes_ret)
  have "goes (\<lambda>_ _. True) (bnd (enter_locked_boot fw) (\<lambda>entered. case entered of
       Inl e \<Rightarrow> ret e
     | Inr locked \<Rightarrow>
         bnd (discover_console_devices fw) (\<lambda>_.
         bnd (hotkey_pressed fuel fw config) (\<lambda>use_hotkey_devices.
         thn (each (attempt_device fw locked h)
               (if use_hotkey_devices then cfg_hotkey_devices config else cfg_devices config))
           (thn (handle_failure config) (ret NotFound))))))"
    by (intro goes_rules T goes_locking [OF T fw'] goes_consoles [OF T fw'] goes_hotkey [OF fw' keys]
        goes_attempt_device [OF T fw'] fail)
  then show ?thesis
    unfolding simple_execute_def execute_with_def Let_def simple_new_simps strategy_connect.simps
    by (simp add: bnd_Ret [where m = "interleave_connect_and_dispatch fuel fw (connect_all fw)", OF 1])
      (auto simp: goes_def)
qed

end
