(* ===== verification/ExamplePlatform.thy ===== *)
theory ExamplePlatform
  imports Returns
begin

text \<open>
  A concrete platform the conditional properties are instantiated on: paths are lists of nodes
  parsed from memory by a walk with fuel, the platform's state is the key not yet
  read, if any, and every service is a small function. It has three handles: a keyboard, a disk with a
  GPT partition, and a USB volume; two boot options; a boot partition with a payload.
\<close>

subsection \<open>Device paths as node lists\<close>

fun ex_parse :: "nat \<Rightarrow> (nat \<Rightarrow> u8) \<Rightarrow> dp_node list option" where
  "ex_parse 0 m = None"
| "ex_parse (Suc k) m = (let len = le_nat [m 2, m 3] in
     if len < 4 then None
     else let n = \<lparr>node_hdr = \<lparr>nh_type = m 0, nh_sub = m 1, nh_len = len\<rparr>, node_data = map m [4..<len]\<rparr> in
       if m 0 = T_END \<and> m 1 = S_END_ENTIRE then Some [n]
       else map_option ((#) n) (ex_parse k (\<lambda>i. m (len + i))))"

definition ex_hard_drive :: "dp_node \<Rightarrow> hard_drive option" where
  "ex_hard_drive n = (if ntype n = T_MEDIA \<and> nsub n = 1 \<and> length (node_data n) = 38
     then Some \<lparr>partition_number = word_of_nat (le_nat (slice 0 4 (node_data n))),
       partition_signature = slice 20 16 (node_data n),
       partition_format = node_data n ! 36, signature_type = node_data n ! 37\<rparr>
     else None)"

definition ex_lib :: "dp_node list patina" where
  "ex_lib = \<lparr>dp_nodes = (\<lambda>p. p), dp_of_nodes = (\<lambda>ns. filter (\<lambda>n. ntype n \<noteq> T_END) ns @ [end_node]),
     dp_append = (\<lambda>p q. filter (\<lambda>n. ntype n \<noteq> T_END) p @ q), dp_append_instances = (\<lambda>p q. p @ q),
     dp_bytes = enc_nodes, dp_from_ptr = ex_parse 64,
     hd_of_node = ex_hard_drive, file_path_node = file_node,
     hdr_decode = (\<lambda>bs. case bs of [a, b, c, d] \<Rightarrow> Some \<lparr>nh_type = a, nh_sub = b, nh_len = le_nat [c, d]\<rparr> | _ \<Rightarrow> None),
     hdr_encode = (\<lambda>h. [nh_type h, nh_sub h] @ nat_le 2 (nh_len h)),
     err_of = (\<lambda>st. case st of INVALID_PARAMETER \<Rightarrow> InvalidParameter | _ \<Rightarrow> OtherError 0)\<rparr>"

lemma ex_lib_codec: "header_codec ex_lib"
  by (simp add: header_codec_def ex_lib_def)

lemma ex_parse_agree:
  assumes "list_all plain_node ns" and "node_fits l" and "is_end_entire (node_hdr l)"
  shows "(\<And>i. i < length (enc_nodes ns @ enc_node l) \<Longrightarrow> m i = (enc_nodes ns @ enc_node l) ! i) \<Longrightarrow>
    (\<And>i. i < length (enc_nodes ns @ enc_node l) \<Longrightarrow> m' i = (enc_nodes ns @ enc_node l) ! i) \<Longrightarrow>
    ex_parse k m = ex_parse k m'"
  using assms(1)
proof (induction ns arbitrary: k m m')
  case Nil
  note h = enc_node_hd [OF assms(2)] and len = length_enc_node [OF assms(2)]
  show ?case
  proof (cases k)
    case (Suc j)
    have eq: "m i = m' i" if "i < length (enc_node l)" for i
      using that Nil.prems(1,2) by simp
    have at: "m i = enc_node l ! i" if "i < length (enc_node l)" for i
      using that Nil.prems(1) [of i] by simp
    have nz: "0 < length (enc_node l)" "1 < length (enc_node l)" "2 < length (enc_node l)" "3 < length (enc_node l)"
      using h(1) by linarith+
    have "m 0 = T_END" "m 1 = S_END_ENTIRE"
      using h at [OF nz(1)] at [OF nz(2)] assms(3) by (simp_all add: is_end_entire_def)
    moreover have "le_nat [m 2, m 3] = length (enc_node l)"
      using h len at [OF nz(3)] at [OF nz(4)] by simp
    moreover have "map m [4..<length (enc_node l)] = map m' [4..<length (enc_node l)]" using eq by simp
    ultimately show ?thesis
      using Suc eq [OF nz(1)] eq [OF nz(2)] eq [OF nz(3)] eq [OF nz(4)] by (simp add: Let_def del: le_nat.simps)
  qed simp
next
  case (Cons n ns)
  then have n: "node_fits n" by (simp add: plain_node_def [of n])
  note h = enc_node_hd [OF n] and len = length_enc_node [OF n]
  show ?case
  proof (cases k)
    case (Suc j)
    have eq: "m i = m' i" if "i < length (enc_node n)" for i
      using that Cons.prems(1,2) [of i] by simp
    have at: "m i = enc_node n ! i" if "i < length (enc_node n)" for i
      using that Cons.prems(1) [of i] by (simp add: nth_append)
    have l: "le_nat [m 2, m 3] = length (enc_node n)"
      using h len at [of 2] at [of 3] by auto
    have "ex_parse j (\<lambda>i. m (length (enc_node n) + i)) = ex_parse j (\<lambda>i. m' (length (enc_node n) + i))"
    proof (rule Cons.IH)
      fix i assume "i < length (enc_nodes ns @ enc_node l)"
      then show "m (length (enc_node n) + i) = (enc_nodes ns @ enc_node l) ! i"
        and "m' (length (enc_node n) + i) = (enc_nodes ns @ enc_node l) ! i"
        using Cons.prems(1,2) [of "length (enc_node n) + i"] by simp_all
    next
      show "list_all plain_node ns" using Cons.prems(3) by simp
    qed
    moreover have "map m [4..<length (enc_node n)] = map m' [4..<length (enc_node n)]" using eq by simp
    moreover have "m i = m' i" if "i < 4" for i
      using eq [of i] h(1) that by linarith
    ultimately show ?thesis
      using Suc l by (simp add: Let_def del: le_nat.simps map_eq_conv)
  qed simp
qed

lemma ex_lib_local: "ptr_local ex_lib"
  unfolding ptr_local_def
proof (intro allI impI)
  fix ns l and m m' :: "nat \<Rightarrow> u8"
  let ?c = "enc_nodes ns @ enc_node l"
  assume ns: "list_all plain_node ns" and l: "node_fits l" "is_end_entire (node_hdr l)"
    and r: "read_bytes m (length ?c) = ?c" "read_bytes m' (length ?c) = ?c"
  have at: "f i = ?c ! i" if "read_bytes f (length ?c) = ?c" "i < length ?c" for f i
    using arg_cong [OF that(1), of "\<lambda>xs. xs ! i"] that(2) by (simp add: read_bytes_def del: length_append)
  show "dp_from_ptr ex_lib m = dp_from_ptr ex_lib m'"
    unfolding ex_lib_def patina.simps
    by (rule ex_parse_agree [OF ns l]) (rule at [OF r(1)] at [OF r(2)], assumption)+
qed

subsection \<open>The platform\<close>

definition ex_root :: dp_node where
  "ex_root = \<lparr>node_hdr = \<lparr>nh_type = T_ACPI, nh_sub = 1, nh_len = 6\<rparr>, node_data = [1, 2]\<rparr>"
definition ex_usb :: dp_node where
  "ex_usb = \<lparr>node_hdr = \<lparr>nh_type = T_MESSAGING, nh_sub = S_USB, nh_len = 6\<rparr>, node_data = [0, 1]\<rparr>"
definition ex_gpt :: dp_node where
  "ex_gpt = \<lparr>node_hdr = \<lparr>nh_type = T_MEDIA, nh_sub = 1, nh_len = 42\<rparr>,
     node_data = [1, 0, 0, 0, 0, 0, 0, 0, 0, 0, 0, 0, 0, 0, 0, 0, 0, 0, 0, 0,
       1, 2, 3, 4, 5, 6, 7, 8, 9, 10, 11, 12, 13, 14, 15, 16, 2, 2]\<rparr>"

definition ex_disk_path :: "dp_node list" where "ex_disk_path = [ex_root, ex_gpt, end_node]"
definition ex_usb_path :: "dp_node list" where "ex_usb_path = [ex_root, ex_usb, end_node]"
definition ex_short_path :: "dp_node list" where "ex_short_path = [ex_gpt, file_node (str_of ''os.efi''), end_node]"
definition ex_main_path :: "dp_node list" where
  "ex_main_path = [ex_root, ex_gpt, file_node (str_of ''main.efi''), end_node]"

definition ex_image :: "nat \<Rightarrow> u8" where
  "ex_image i = (if i = 510 then 0x55 else if i = 511 then 0xAA else word_of_nat i)"

definition ex_vars :: "string \<Rightarrow> efi_status + bytes" where
  "ex_vars n = (if n = ''BootOrder'' then Inr [1, 0, 2, 0, 9, 0]
     else if n = ''Boot0001'' then Inr (encode_load_option 1 [65, 66] (enc_path [ex_root, ex_usb]) [])
     else if n = ''Boot0002'' then Inr (encode_load_option 1 [67] (enc_path [ex_root, ex_gpt]) [7, 7])
     else if n = ''SecureBoot'' then Inr [0] else if n = ''SetupMode'' then Inr [0]
     else Inl (OTHER_STATUS 14))"

definition ex_memory :: "ptr \<Rightarrow> nat \<Rightarrow> u8" where
  "ex_memory p = at_ptr (if p = 0x100 then enc_nodes ex_disk_path
     else if p = 0x110 then enc_nodes ex_usb_path else if p = 0x120 then enc_nodes [ex_root, end_node]
     else if p = 0x130 then ram_disk_dp_bytes else []) (\<lambda>_. 0)"

definition ex_fw :: "(u16 option, dp_node list) firmware" where
  "ex_fw = \<lparr>fw_lib = ex_lib,
     fw_mem = (\<lambda>w. ex_memory),
     fw_locate_handle_buffer = (\<lambda>sr w. (Ret (case sr of AllHandle \<Rightarrow> Inr [1, 2, 3]
       | ByProtocol g \<Rightarrow> if g = DevicePathProtocol then Inr [1, 2, 3] else if g = SimpleFileSystem then Inr [3, 2]
           else if g = SimpleTextInput then Inr [1] else Inl (OTHER_STATUS 14)), w)),
     fw_handle_protocol = (\<lambda>h g w. (Ret (
       if g = DevicePathProtocol then (if h = 1 then Inr 0x120 else if h = 2 then Inr 0x100 else if h = 3 then Inr 0x110
         else Inl (OTHER_STATUS 3))
       else if g = SimpleTextInput \<and> h = 1 then Inr 0x200
       else if g = PciIo \<and> h = 3 then Inr 0x210 else Inl (OTHER_STATUS 3)), w)),
     fw_locate_protocol = (\<lambda>g w. (Ret (if g = BootMgrLibProxy then Inr 0x300
       else if g = NvmePassThru then Inr 0x310 else Inl (OTHER_STATUS 14)), w)),
     fw_locate_device_path = (\<lambda>g p w. (Ret (Inr 5), w)),
     fw_connect_controller = (\<lambda>h r w. (Ret (Inr ()), w)),
     fw_disconnect_controller = (\<lambda>h w. (Ret (Inr ()), w)),
     fw_create_event_ex = (\<lambda>g w. (Ret (Inr 7), w)),
     fw_signal_event = (\<lambda>e w. (Ret (Inr ()), w)),
     fw_close_event = (\<lambda>e w. (Ret (Inr ()), w)),
     fw_load_image = (\<lambda>h p w. (Ret (Inr 9), w)),
     fw_set_watchdog_timer = (\<lambda>n w. (Ret (Inr ()), w)),
     fw_start_image = (\<lambda>h w. (Ret (Inl (OTHER_STATUS 1)), w)),
     fw_install_protocol = (\<lambda>h g p w. (Ret (if g = BlockIo then Inr 5 else Inl OUT_OF_RESOURCES), w)),
     fw_uninstall_protocol = (\<lambda>h g p w. (Ret (Inl (OTHER_STATUS 15)), w)),
     fw_get_variable = (\<lambda>n w. (Ret (ex_vars n), w)),
     fw_set_variable = (\<lambda>n b w. (Ret (Inr ()), w)),
     fw_dispatch = (\<lambda>w. (Ret (Inr False), w)),
     fw_read_key_stroke = (\<lambda>p w. case w of None \<Rightarrow> (Ret (NOT_READY, 0), None) | Some k \<Rightarrow> (Ret (SUCCESS, k), None)),
     fw_pci_read_class = (\<lambda>p w. (Ret (SUCCESS, 0x0c033000), w)),
     fw_button = (\<lambda>p b w. (Ret (SUCCESS, 0), w)),
     fw_proxy_revision = (\<lambda>p w. (Ret 0x00010002, w)),
     fw_proxy_call = (\<lambda>p f w. (Ret (SUCCESS, 0), w)),
     fw_nvme_pass_thru = (\<lambda>p pkt w. (Ret (SUCCESS,
        map (\<lambda>i. ex_image (lpol_of (nvme_cmd pkt) - 16 + i)) [0..<4 * (numd_of (nvme_cmd pkt) + 1)]), w)),
     fw_try_reserve = (\<lambda>n w. (Ret (Some 0x10000), w)),
     fw_box = (\<lambda>w. 0x500), fw_leak = (\<lambda>w. 0x130)\<rparr>"

definition ex_start :: "u16 option \<Rightarrow> (u16 option, dp_node list) st" where
  "ex_start key = \<lparr>world = key, trace = []\<rparr>"

text \<open>The hypotheses of the development hold of it.\<close>

lemma ex_fw_lib [simp]: "fw_lib ex_fw = ex_lib"
  by (simp add: ex_fw_def)

lemma ex_fw_disk:
  "fw_install_protocol ex_fw oh BlockIo p w = (Ret (Inr 5), w)"
  "fw_install_protocol ex_fw oh DevicePathProtocol p w = (Ret (Inl OUT_OF_RESOURCES), w)"
  "fw_uninstall_protocol ex_fw h g p w = (Ret (Inl (OTHER_STATUS 15)), w)"
  "fw_box ex_fw w = 0x500" "err_of ex_lib OUT_OF_RESOURCES = OtherError 0"
  by (simp_all add: ex_fw_def ex_lib_def)

lemma ex_fw_vars: "reads_vars ex_fw ex_vars"
  by (simp add: reads_vars_def ex_fw_def)

lemma ex_fw_lookups: "pure_lookups ex_fw"
  by (simp add: pure_lookups_def pure_lookup_def ex_fw_def)

lemma ex_fw_answers:
  assumes "\<And>w. R w w" and "\<And>k. R (Some k) None"
  shows "answers R ex_fw"
  unfolding answers_def ex_fw_def firmware.simps steps_by_def using assms by (auto split: option.split)

lemma ex_fw_counts: "counts_handles ex_fw (\<lambda>_. 3)"
  by (simp add: counts_handles_def ex_fw_def)

definition ex_pending :: "u16 option \<Rightarrow> nat" where
  "ex_pending w = (case w of None \<Rightarrow> 0 | Some _ \<Rightarrow> 1)"

lemma ex_fw_keys: "finite_keys ex_fw ex_pending"
  by (auto simp: finite_keys_def ex_fw_def ex_pending_def split: option.split)

lemma ex_fw_drivers: "finite_drivers ex_fw (\<lambda>_. 0)"
  by (simp add: finite_drivers_def ex_fw_def)

lemma ex_fw_serves: "serves_bp ex_fw p bp ex_image"
  by (auto simp: serves_bp_def ex_fw_def Let_def)

subsection \<open>What the variables and paths of the platform evaluate to\<close>

lemma ex_usb_bytes: "enc_path [ex_root, ex_usb] = [2, 1, 6, 0, 1, 2, 3, 5, 6, 0, 0, 1, 0x7F, 0xFF, 4, 0]"
  by (simp add: enc_node_def ex_root_def ex_usb_def end_node_def node_numbers numeral_2_eq_2)

lemma ex_disk_bytes: "enc_path [ex_root, ex_gpt] = [2, 1, 6, 0, 1, 2, 4, 1, 42, 0,
    1, 0, 0, 0, 0, 0, 0, 0, 0, 0, 0, 0, 0, 0, 0, 0, 0, 0, 0, 0,
    1, 2, 3, 4, 5, 6, 7, 8, 9, 10, 11, 12, 13, 14, 15, 16, 2, 2, 0x7F, 0xFF, 4, 0]"
  by (simp add: enc_node_def ex_root_def ex_gpt_def end_node_def node_numbers numeral_2_eq_2)

lemma ex_parsed:
  "dp_from_ptr ex_lib (at_ptr [2, 1, 6, 0, 1, 2, 3, 5, 6, 0, 0, 1, 0x7F, 0xFF, 4, 0] (\<lambda>_. 0)) = Some ex_usb_path"
  "dp_from_ptr ex_lib (at_ptr [2, 1, 6, 0, 1, 2, 4, 1, 42, 0,
    1, 0, 0, 0, 0, 0, 0, 0, 0, 0, 0, 0, 0, 0, 0, 0, 0, 0, 0, 0,
    1, 2, 3, 4, 5, 6, 7, 8, 9, 10, 11, 12, 13, 14, 15, 16, 2, 2, 0x7F, 0xFF, 4, 0] (\<lambda>_. 0)) = Some ex_disk_path"
  "dp_from_ptr ex_lib (at_ptr [2, 1, 6, 0, 1, 2, 4, 1, 42, 0,
    1, 0, 0, 0, 0, 0, 0, 0, 0, 0, 0, 0, 0, 0, 0, 0, 0, 0, 0, 0,
    1, 2, 3, 4, 5, 6, 7, 8, 9, 10, 11, 12, 13, 14, 15, 16, 2, 2, 0x7F, 0xFF, 4, 0, 7, 7] (\<lambda>_. 0)) = Some ex_disk_path"
  "dp_from_ptr ex_lib (at_ptr [2, 1, 6, 0, 1, 2, 0x7F, 0xFF, 4, 0] (\<lambda>_. 0)) = Some [ex_root, end_node]"
  by code_simp+

lemma ex_plain: "plain_node ex_root" "plain_node ex_usb" "plain_node ex_gpt"
  by (simp_all add: plain_node_def node_fits_def is_end_entire_def ex_root_def ex_usb_def ex_gpt_def node_numbers)

lemma ex_boot1: "parse_load_option ex_lib (\<lambda>_. 0) (encode_load_option 1 [65, 66] (enc_path [ex_root, ex_usb]) []) = Some ex_usb_path"
  by (subst parse_load_option_enc) (simp_all add: ex_plain ex_usb_bytes ex_parsed LOAD_OPTION_ACTIVE_def del: enc_path_simps)

lemma ex_boot2: "parse_load_option ex_lib (\<lambda>_. 0) (encode_load_option 1 [67] (enc_path [ex_root, ex_gpt]) [7, 7]) = Some ex_disk_path"
  by (subst parse_load_option_enc) (simp_all add: ex_plain ex_disk_bytes ex_parsed LOAD_OPTION_ACTIVE_def del: enc_path_simps)

lemma ex_names:
  "boot_option_variable_name 1 = ''Boot0001''" "boot_option_variable_name 2 = ''Boot0002''"
  "boot_option_variable_name 9 = ''Boot0009''"
  by (simp_all add: boot_option_variable_name_def hex_digit_def)

lemma ex_boot_devices: "boot_devices ex_lib (\<lambda>_. 0) ex_vars [1, 2, 9] = [ex_usb_path, ex_disk_path]"
  by (simp add: boot_devices_def map_filter_simps ex_names ex_vars_def ex_boot1 ex_boot2 del: enc_path_simps)

lemma ex_discovered: "discovered ex_lib (\<lambda>_. 0) ex_vars = [ex_usb_path, ex_disk_path]"
  using ex_boot_devices by (simp add: discovered_def ex_vars_def [of "''BootOrder''"])

lemma ex_complete_paths:
  "\<not> is_partial_device_path ex_lib (ex_root # p)"
  by (simp add: is_partial_device_path_def ex_lib_def ex_root_def is_fw_node_def node_numbers)

lemma ex_memory_paths:
  "dp_from_ptr ex_lib (ex_memory 0x120) = Some [ex_root, end_node]"
  "dp_from_ptr ex_lib (ex_memory 0x100) = Some ex_disk_path"
  "dp_from_ptr ex_lib (ex_memory 0x110) = Some ex_usb_path"
proof -
  have "enc_nodes ex_disk_path = enc_path [ex_root, ex_gpt]" "enc_nodes ex_usb_path = enc_path [ex_root, ex_usb]"
    by (simp_all add: ex_disk_path_def ex_usb_path_def)
  moreover have "enc_nodes [ex_root, end_node] = [2, 1, 6, 0, 1, 2, 0x7F, 0xFF, 4, 0]"
    by (simp add: enc_node_def ex_root_def end_node_def node_numbers numeral_2_eq_2)
  ultimately show "dp_from_ptr ex_lib (ex_memory 0x120) = Some [ex_root, end_node]"
    "dp_from_ptr ex_lib (ex_memory 0x100) = Some ex_disk_path"
    "dp_from_ptr ex_lib (ex_memory 0x110) = Some ex_usb_path"
    by (simp_all add: ex_memory_def ex_usb_bytes ex_disk_bytes ex_parsed del: enc_path_simps enc_nodes_simps)
qed

lemma ex_path_found:
  "path_found ex_fw w (Suc 0) = Some [ex_root, end_node]" "path_found ex_fw w 2 = Some ex_disk_path"
  "path_found ex_fw w 3 = Some ex_usb_path"
  using ex_memory_paths by (simp_all add: path_found_def protocol_found_def ex_fw_def)

lemma ex_path_starts: "path_found ex_fw w h = Some v \<Longrightarrow> \<exists>p. v = ex_root # p"
  using ex_memory_paths
  by (auto simp: path_found_def protocol_found_def ex_fw_def ex_disk_path_def ex_usb_path_def split: if_splits)

definition ex_manager :: "dp_node list sre_boot_manager" where
  "ex_manager = with_bp_sre_fallback (with_capsule_processing (with_boot_source_policy
     (allow_when_secure_boot_disabled (allow_removable_media policy_new)) (sre_new ex_main_path)))"

lemma ex_main_path_of: "main_os_path ex_manager = ex_main_path"
  by (simp add: ex_manager_def with_bp_sre_fallback_def with_capsule_processing_def with_boot_source_policy_def sre_new_def)

lemma ex_complete: "complete_paths ex_fw (\<lambda>_. 0) ex_manager ex_vars"
proof -
  have "\<not> is_partial_device_path ex_lib (fallback_candidate ex_lib l v)" if "path_found ex_fw w h = Some v" for w h v l
    using ex_path_starts [OF that]
    by (auto simp: is_partial_device_path_def fallback_candidate_def ex_lib_def ex_root_def is_fw_node_def node_numbers)
  then show ?thesis
    using ex_complete_paths
    by (simp add: complete_paths_def ex_main_path_of ex_discovered ex_main_path_def ex_disk_path_def ex_usb_path_def)
qed

lemma ex_passes_run:
  "\<exists>s'. each (sre_boot_pass X86_64 ex_fw (\<lambda>_. 0) ex_manager LockedBoot 1 bp) [0..<2] s = (Ret (), s')"
proof -
  have fw: "answers (\<lambda>_ _. True) ex_fw" by (rule ex_fw_answers) simp_all
  note T = preorder_trivial
  have "goes (\<lambda>_ _. True) (each (sre_boot_pass X86_64 ex_fw (\<lambda>_. 0) ex_manager LockedBoot 1 bp) [0..<2])"
    unfolding sre_boot_pass_def try_option_def try_fallback_option_def locked_boot_from_device_path_def
    by (intro goes_rules T goes_connect [OF T fw] goes_attempt_device [OF T fw] goes_boot_from_device_path [OF T fw]
        goes_variables [OF T fw] goes_fallback [OF T fw])
  then show ?thesis unfolding goes_def by auto
qed

definition ex_config :: "(u16 option, dp_node list) boot_config" where
  "ex_config = with_hotkey 12 (with_hotkey_device ex_usb_path (with_device ex_main_path (boot_config_new ex_disk_path)))"

lemma ex_config_simps:
  "cfg_devices ex_config = [ex_disk_path, ex_main_path]" "cfg_hotkey_devices ex_config = [ex_usb_path]"
  "cfg_failure_handler ex_config = None"
  by (simp_all add: ex_config_def with_hotkey_def with_hotkey_device_def with_device_def boot_config_new_def)

lemma ex_config_full:
  "\<forall>d \<in> set (cfg_devices ex_config) \<union> set (cfg_hotkey_devices ex_config). \<not> is_partial_device_path (fw_lib ex_fw) d"
  using ex_complete_paths by (simp add: ex_config_simps ex_disk_path_def ex_main_path_def ex_usb_path_def)

lemma ex_pending_bound: "ex_pending w < 2"
  by (simp add: ex_pending_def split: option.split)

lemma ex_simple_runs: "\<exists>e s'. simple_execute 5 ex_fw (simple_new ex_config) 1 s = (Ret e, s')"
  by (rule simple_execute_returns [where count = "\<lambda>_. 3" and most = 3 and pending = ex_pending])
    (simp_all add: ex_fw_answers ex_fw_counts ex_fw_keys ex_config_simps order_less_trans [OF ex_pending_bound])

lemma ex_usb_nodes: "is_usb_device_path ex_lib ex_usb_path" "\<not> is_usb_device_path ex_lib ex_disk_path"
  by (simp_all add: is_usb_device_path_def ex_lib_def ex_usb_path_def ex_disk_path_def is_usb_node_def ex_root_def
      ex_usb_def ex_gpt_def end_node_def node_numbers)

lemma ex_policy_simps:
  "removable_media (sre_policy ex_manager)" "secure_boot_disabled (sre_policy ex_manager)"
  by (simp_all add: ex_manager_def with_bp_sre_fallback_def with_capsule_processing_def with_boot_source_policy_def
      sre_new_def allow_removable_media_def allow_when_secure_boot_disabled_def policy_new_def)

lemma ex_fallback_runs:
  "\<exists>options s'. fallback_boot_options X86_64 ex_fw (sre_policy ex_manager) s = (Ret (Inr options), s')"
proof -
  have state: "secure_state_of ex_lib ex_vars = Inr Disabled"
    by (simp add: secure_state_of_def ex_vars_def state_byte_def)
  have hs: "handles_found ex_fw (ByProtocol SimpleFileSystem) w = Inr [3, 2]" for w
    by (simp add: handles_found_def ex_fw_def)
  have vol: "volumes_of ex_fw (sre_policy ex_manager) w [3, 2] \<noteq> []" for w
    by (simp add: volumes_of_def map_filter_simps ex_path_found allows_device_def ex_usb_nodes ex_policy_simps)
  obtain vs where "fallback_spec X86_64 ex_fw (sre_policy ex_manager) ex_vars (world s) = Inr vs"
    using vol [of "world s"]
    by (auto simp: fallback_spec_def state hs has_sources_def ex_policy_simps allows_security_state_def
        neq_Nil_conv)
  moreover obtain es where "fallback_boot_options X86_64 ex_fw (sre_policy ex_manager) s =
      (Ret (fallback_spec X86_64 ex_fw (sre_policy ex_manager) ex_vars (world s)), s\<lparr>trace := trace s @ es\<rparr>)"
    by (rule readsE [OF reads_fallback_boot_options [OF ex_fw_lookups ex_fw_vars]])
  ultimately show ?thesis by auto
qed

end
