(* ===== verification/Float64.thy ===== *)
theory Float64
  imports Complex_Main Prelude
begin

text \<open>
  The \<open>f64\<close> of the language: binary64 as far as the sources use it. A finite value is the rational it
  stands for, so the two zeros are one value; nothing under src/ tells them apart but for printing.
  Arithmetic is the exact operation rounded to nearest, ties to even (\<open>round64\<close>), with overflow to
  infinity and gradual underflow.
\<close>

section \<open>Rounding\<close>

text \<open>The integer part of the binary logarithm.\<close>

fun lg :: "nat \<Rightarrow> nat" where
  "lg n = (if n \<le> 1 then 0 else Suc (lg (n div 2)))"

declare lg.simps [simp del]

definition ilog2 :: "rat \<Rightarrow> int" where
  "ilog2 q = (case quotient_of q of (n, d) \<Rightarrow>
     let k = int (lg (nat n)) - int (lg (nat d)) in if 2 powi k \<le> q then k else k - 1)"

definition round_even :: "rat \<Rightarrow> int" where
  "round_even q = (let f = \<lfloor>q\<rfloor>; r = q - of_int f in
     if r < 1 / 2 \<or> r = 1 / 2 \<and> even f then f else f + 1)"

datatype f64 = NaN | Inf bool | Fin rat

definition round64 :: "rat \<Rightarrow> f64" where
  "round64 q = (if q = 0 then Fin 0
     else let e = max (ilog2 \<bar>q\<bar> - 52) (- 1074); r = of_int (round_even (q / 2 powi e)) * 2 powi e in
       if 2 powi 1024 \<le> \<bar>r\<bar> then Inf (q < 0) else Fin r)"

section \<open>Operations\<close>

fun is_finite :: "f64 \<Rightarrow> bool" where
  "is_finite (Fin q) = True"
| "is_finite _ = False"

fun fneg :: "f64 \<Rightarrow> f64" where
  "fneg NaN = NaN" | "fneg (Inf s) = Inf (\<not> s)" | "fneg (Fin q) = Fin (- q)"

fun fadd :: "f64 \<Rightarrow> f64 \<Rightarrow> f64" where
  "fadd (Fin a) (Fin b) = round64 (a + b)"
| "fadd (Inf s) (Fin b) = Inf s"
| "fadd (Fin a) (Inf t) = Inf t"
| "fadd (Inf s) (Inf t) = (if s = t then Inf s else NaN)"
| "fadd _ _ = NaN"

definition fsub :: "f64 \<Rightarrow> f64 \<Rightarrow> f64" where "fsub a b = fadd a (fneg b)"

fun fmul :: "f64 \<Rightarrow> f64 \<Rightarrow> f64" where
  "fmul (Fin a) (Fin b) = round64 (a * b)"
| "fmul (Inf s) (Fin b) = (if b = 0 then NaN else Inf (s \<noteq> (b < 0)))"
| "fmul (Fin a) (Inf t) = (if a = 0 then NaN else Inf (t \<noteq> (a < 0)))"
| "fmul (Inf s) (Inf t) = Inf (s \<noteq> t)"
| "fmul _ _ = NaN"

text \<open>The zero divided by is taken as the positive one.\<close>

fun fdiv :: "f64 \<Rightarrow> f64 \<Rightarrow> f64" where
  "fdiv (Fin a) (Fin b) = (if b = 0 then if a = 0 then NaN else Inf (a < 0) else round64 (a / b))"
| "fdiv (Inf s) (Fin b) = Inf (s \<noteq> (b < 0))"
| "fdiv (Fin a) (Inf t) = Fin 0"
| "fdiv _ _ = NaN"

fun fabs64 :: "f64 \<Rightarrow> f64" where
  "fabs64 NaN = NaN" | "fabs64 (Inf s) = Inf False" | "fabs64 (Fin q) = Fin \<bar>q\<bar>"

text \<open>Comparisons are false on NaN, but for \<open>!=\<close>, which is \<open>\<not> feq\<close>.\<close>

fun flt :: "f64 \<Rightarrow> f64 \<Rightarrow> bool" where
  "flt (Fin a) (Fin b) = (a < b)"
| "flt (Inf s) (Fin b) = s"
| "flt (Fin a) (Inf t) = (\<not> t)"
| "flt (Inf s) (Inf t) = (s \<and> \<not> t)"
| "flt _ _ = False"

fun feq :: "f64 \<Rightarrow> f64 \<Rightarrow> bool" where
  "feq NaN _ = False"
| "feq _ NaN = False"
| "feq a b = (a = b)"

definition fle :: "f64 \<Rightarrow> f64 \<Rightarrow> bool" where "fle a b \<longleftrightarrow> flt a b \<or> feq a b"

text \<open>\<open>as f64\<close> of an integer, \<open>as u32\<close> (truncating and saturating) and \<open>round\<close> (ties away from zero).\<close>

definition f64_of_nat :: "nat \<Rightarrow> f64" where "f64_of_nat n = round64 (of_nat n)"

definition f64_of_int :: "int \<Rightarrow> f64" where "f64_of_int n = round64 (of_int n)"

fun f64_to_nat :: "nat \<Rightarrow> f64 \<Rightarrow> nat" where
  "f64_to_nat w NaN = 0"
| "f64_to_nat w (Inf s) = (if s then 0 else 2 ^ w - 1)"
| "f64_to_nat w (Fin q) = min (nat \<lfloor>q\<rfloor>) (2 ^ w - 1)"

definition f64_to_u32 :: "f64 \<Rightarrow> u32" where "f64_to_u32 x = word_of_nat (f64_to_nat 32 x)"

fun fround :: "f64 \<Rightarrow> f64" where
  "fround (Fin q) = Fin (if q < 0 then - of_int \<lfloor>- q + 1 / 2\<rfloor> else of_int \<lfloor>q + 1 / 2\<rfloor>)"
| "fround x = x"

section \<open>Rounding is close, and exact on small integers\<close>

lemma lg_bounds: "0 < n \<Longrightarrow> 2 ^ lg n \<le> n \<and> n < 2 * 2 ^ lg n"
proof (induction n rule: lg.induct)
  case (1 n)
  show ?case
  proof (cases "n \<le> 1")
    case True
    then show ?thesis using 1 by (simp add: lg.simps)
  next
    case False
    then have "2 ^ lg (n div 2) \<le> n div 2 \<and> n div 2 < 2 * 2 ^ lg (n div 2)" using 1 by simp
    then show ?thesis using False by (subst (1 2) lg.simps) auto
  qed
qed

lemma two_powi_pos: "0 < (2 :: rat) powi k"
  by simp

lemma two_powi_less: "(2 :: rat) powi j < 2 powi k \<longleftrightarrow> j < k"
proof
  show "j < k" if "(2 :: rat) powi j < 2 powi k"
    using that power_int_increasing [of k j "2 :: rat"] by (cases "j < k") auto
qed (rule power_int_strict_increasing, simp_all)

lemma ilog2_bounds:
  assumes "0 < q"
  shows "2 powi ilog2 q \<le> q" and "q < 2 powi (ilog2 q + 1)"
proof -
  obtain n d where nd: "quotient_of q = (n, d)" by force
  have d: "0 < d" and q: "q = of_int n / of_int d"
    using quotient_of_denom_pos [OF nd] quotient_of_div [OF nd] by simp_all
  have n: "0 < n" using assms d by (simp add: q zero_less_divide_iff)
  let ?l = "lg (nat n)" and ?m = "lg (nat d)"
  have nd': "rat_of_nat (nat n) = of_int n" "rat_of_nat (nat d) = of_int d" using n d by simp_all
  have "rat_of_nat (2 ^ ?l) \<le> rat_of_nat (nat n)" "rat_of_nat (nat n) < rat_of_nat (2 * 2 ^ ?l)"
      "rat_of_nat (2 ^ ?m) \<le> rat_of_nat (nat d)" "rat_of_nat (nat d) < rat_of_nat (2 * 2 ^ ?m)"
    unfolding of_nat_le_iff of_nat_less_iff using lg_bounds [of "nat n"] lg_bounds [of "nat d"] n d by simp_all
  then have l: "(2 :: rat) ^ ?l \<le> of_int n" "of_int n < (2 :: rat) * 2 ^ ?l"
    and m: "(2 :: rat) ^ ?m \<le> of_int d" "of_int d < (2 :: rat) * 2 ^ ?m"
    by (simp_all only: nd' of_nat_power of_nat_mult of_nat_numeral)
  let ?k = "int ?l - int ?m"
  have k: "(2 :: rat) powi ?k = 2 ^ ?l / 2 ^ ?m" by (simp add: power_int_diff)
  have dp: "(0 :: rat) < of_int d" using d by simp
  have up: "q < 2 powi (?k + 1)"
  proof -
    have "q < 2 * 2 ^ ?l / 2 ^ ?m"
      unfolding q using l m n by (intro frac_less) simp_all
    then show ?thesis by (simp add: k power_int_add mult.commute)
  qed
  have low: "2 powi (?k - 1) \<le> q"
  proof -
    have "(2 :: rat) ^ ?l / (2 * 2 ^ ?m) \<le> of_int n / of_int d"
      using l m n dp by (intro frac_le) simp_all
    moreover have "(2 :: rat) powi (?k - 1) = 2 powi ?k / 2" by (subst power_int_diff) simp_all
    ultimately show ?thesis by (simp add: k q mult.commute)
  qed
  have "ilog2 q = (if 2 powi ?k \<le> q then ?k else ?k - 1)" by (simp add: ilog2_def nd)
  then show "2 powi ilog2 q \<le> q" "q < 2 powi (ilog2 q + 1)" using up low by (auto split: if_splits)
qed

lemma round_even_int: "round_even (of_int n) = n"
  by (simp add: round_even_def)

lemma round_even_err: "\<bar>of_int (round_even q) - q\<bar> \<le> 1 / 2"
  using of_int_floor_le [of q] floor_correct [of q]
  by (auto simp: round_even_def Let_def abs_le_iff)

lemma scaled_err:
  assumes "0 < p"
  shows "\<bar>of_int (round_even (q / p)) * p - q\<bar> \<le> p / 2"
proof -
  have "of_int (round_even (q / p)) * p - q = (of_int (round_even (q / p)) - q / p) * p"
    using assms by (simp add: left_diff_distrib)
  then have "\<bar>of_int (round_even (q / p)) * p - q\<bar> = \<bar>of_int (round_even (q / p)) - q / p\<bar> * p"
    using assms by (simp add: abs_mult)
  also have "\<dots> \<le> 1 / 2 * p" using round_even_err assms by (intro mult_right_mono) simp_all
  finally show ?thesis by simp
qed

lemma int_scaled:
  assumes "e \<le> 0"
  shows "(of_int n :: rat) / 2 powi e = of_int (n * 2 ^ nat (- e))"
proof -
  obtain k where "e = - int k" using assms nonpos_int_cases by blast
  then show ?thesis by (simp add: power_int_minus field_simps)
qed

lemma round64_int:
  assumes "\<bar>n\<bar> < 2 ^ 53"
  shows "round64 (of_int n) = Fin (of_int n)"
proof (cases "n = 0")
  case False
  let ?q = "of_int n :: rat" and ?e = "max (ilog2 \<bar>of_int n\<bar> - 52) (- 1074)"
  have q: "0 < \<bar>?q\<bar>" using False by simp
  have "\<bar>?q\<bar> < 2 ^ 53" using assms by (metis of_int_abs of_int_less_iff of_int_numeral of_int_power)
  then have "2 powi ilog2 \<bar>?q\<bar> < (2 :: rat) powi 53"
    using ilog2_bounds (1) [OF q] by simp
  then have e: "?e \<le> 0" unfolding two_powi_less by simp
  have r: "round_even (?q / 2 powi ?e) = n * 2 ^ nat (- ?e)"
    unfolding int_scaled [OF e] by (rule round_even_int)
  have scaled: "of_int (n * 2 ^ nat (- ?e)) * 2 powi ?e = ?q"
    using int_scaled [OF e, of n] by (simp add: field_simps)
  have "\<bar>?q\<bar> < 2 powi 1024"
    using \<open>\<bar>?q\<bar> < 2 ^ 53\<close> by (rule order_less_trans) (simp add: power_int_def)
  then show ?thesis using False unfolding round64_def Let_def r scaled by simp
qed (simp add: round64_def)

lemma f64_of_nat_exact: "n < 2 ^ 53 \<Longrightarrow> f64_of_nat n = Fin (of_nat n)"
  using round64_int [of "int n"] by (simp add: f64_of_nat_def)

lemma f64_of_u32: "f64_of_nat (unat (x :: u32)) = Fin (of_nat (unat x))"
proof -
  have "unat x < 2 ^ LENGTH(32)" by (rule unsigned_less)
  then show ?thesis by (intro f64_of_nat_exact) simp
qed

lemma round64_err_wide:
  assumes "\<bar>q\<bar> \<le> 2 ^ 128"
  shows "\<exists>r. round64 q = Fin r \<and> \<bar>r - q\<bar> \<le> (\<bar>q\<bar> / 2 ^ 52 + 1 / 2 ^ 1074) / 2"
proof (cases "q = 0")
  case False
  let ?e = "max (ilog2 \<bar>q\<bar> - 52) (- 1074)"
  let ?r = "of_int (round_even (q / 2 powi ?e)) * (2 :: rat) powi ?e"
  have q: "0 < \<bar>q\<bar>" using False by simp
  have r: "\<bar>?r - q\<bar> \<le> 2 powi ?e / 2" by (rule scaled_err) simp
  have e: "2 powi ?e \<le> \<bar>q\<bar> / 2 ^ 52 + 1 / 2 ^ 1074"
  proof (cases "ilog2 \<bar>q\<bar> - 52 \<ge> - 1074")
    case True
    then have "?e = ilog2 \<bar>q\<bar> - 52" by simp
    then have "2 powi ?e = 2 powi ilog2 \<bar>q\<bar> / (2 :: rat) ^ 52" by (simp add: power_int_diff)
    also have "\<dots> \<le> \<bar>q\<bar> / 2 ^ 52" using ilog2_bounds (1) [OF q] by (intro divide_right_mono) simp_all
    finally show ?thesis by (rule order_trans) simp
  next
    case False
    then have "?e = - int 1074" by simp
    then have "2 powi ?e = (1 :: rat) / 2 ^ 1074" by (simp only: power_int_minus power_int_of_nat divide_inverse mult_1)
    then show ?thesis using q by simp
  qed
  have err: "\<bar>?r - q\<bar> \<le> (\<bar>q\<bar> / 2 ^ 52 + 1 / 2 ^ 1074) / 2"
    using r by (rule order_trans) (intro divide_right_mono e, simp)
  have tiny: "1 / (2 :: rat) ^ n \<le> 1" for n by simp
  have "\<bar>?r\<bar> \<le> \<bar>q\<bar> + \<bar>?r - q\<bar>" using abs_triangle_ineq [of q "?r - q"] by simp
  also have "\<dots> \<le> 2 ^ 128 + (2 ^ 128 / 2 ^ 52 + 1) / 2"
    by (intro add_mono assms order_trans [OF err] divide_right_mono tiny) simp_all
  also have "\<dots> < (2 :: rat) powi 129" by simp
  also have "\<dots> < (2 :: rat) powi 1024" unfolding two_powi_less by simp
  finally have "\<not> 2 powi 1024 \<le> \<bar>?r\<bar>" by (simp only: not_le)
  then have "round64 q = Fin ?r" unfolding round64_def Let_def by (simp only: if_not_P False if_False)
  with err show ?thesis by blast
qed (simp add: round64_def)

lemma round64_err:
  "\<bar>q\<bar> \<le> 2 ^ 64 \<Longrightarrow> \<exists>r. round64 q = Fin r \<and> \<bar>r - q\<bar> \<le> (\<bar>q\<bar> / 2 ^ 52 + 1 / 2 ^ 1074) / 2"
  by (rule round64_err_wide) (erule order_trans, simp)

end
