(* ===== verification/RustText.thy ===== *)
theory RustText
  imports DevicePaths Float64
begin

text \<open>
  What the sources use of the language's strings: a \<open>str\<close> is the list of its scalar values, so that
  slicing at a found ASCII character is splitting a list. Searching, trimming, splitting, reading
  numbers; and results of fallible functions without effects.
\<close>

section \<open>Fallible functions\<close>

text \<open>The question mark operator on a plain result.\<close>

definition thenE :: "'e + 'a \<Rightarrow> ('a \<Rightarrow> 'e + 'b) \<Rightarrow> 'e + 'b" where
  "thenE r f = (case r of Inl e \<Rightarrow> Inl e | Inr x \<Rightarrow> f x)"

lemma thenE_simps [simp]: "thenE (Inl e) f = Inl e" "thenE (Inr x) f = f x"
  by (simp_all add: thenE_def)

lemma thenE_Inr: "thenE r f = Inr y \<longleftrightarrow> (\<exists>x. r = Inr x \<and> f x = Inr y)"
  by (cases r) simp_all

text \<open>\<open>ok_or\<close>.\<close>

definition ok_or :: "'e \<Rightarrow> 'a option \<Rightarrow> 'e + 'a" where
  "ok_or e v = (case v of None \<Rightarrow> Inl e | Some x \<Rightarrow> Inr x)"

lemma ok_or_simps [simp]: "ok_or e None = Inl e" "ok_or e (Some x) = Inr x"
  by (simp_all add: ok_or_def)

text \<open>\<open>collect\<close> into a result: the first error, or all values.\<close>

fun map_try :: "('a \<Rightarrow> 'e + 'b) \<Rightarrow> 'a list \<Rightarrow> 'e + 'b list" where
  "map_try f [] = Inr []"
| "map_try f (x # xs) = thenE (f x) (\<lambda>y. thenE (map_try f xs) (\<lambda>ys. Inr (y # ys)))"

section \<open>Characters\<close>

definition is_whitespace :: "nat \<Rightarrow> bool" where
  "is_whitespace c \<longleftrightarrow> 9 \<le> c \<and> c \<le> 13 \<or> c = 0x20 \<or> c = 0x85 \<or> c = 0xA0 \<or> c = 0x1680 \<or>
     0x2000 \<le> c \<and> c \<le> 0x200A \<or> c = 0x2028 \<or> c = 0x2029 \<or> c = 0x202F \<or> c = 0x205F \<or> c = 0x3000"

definition is_ascii_digit :: "nat \<Rightarrow> bool" where
  "is_ascii_digit c \<longleftrightarrow> 48 \<le> c \<and> c \<le> 57"

definition is_ascii_alphabetic :: "nat \<Rightarrow> bool" where
  "is_ascii_alphabetic c \<longleftrightarrow> 65 \<le> c \<and> c \<le> 90 \<or> 97 \<le> c \<and> c \<le> 122"

definition to_ascii_lowercase :: "nat \<Rightarrow> nat" where
  "to_ascii_lowercase c = (if 65 \<le> c \<and> c \<le> 90 then c + 32 else c)"

text \<open>\<open>char::to_digit\<close> for a radix of at most 36.\<close>

definition to_digit :: "nat \<Rightarrow> nat \<Rightarrow> nat option" where
  "to_digit radix c = (let d = if is_ascii_digit c then c - 48
       else if is_ascii_alphabetic c then to_ascii_lowercase c - 87 else radix in
     if d < radix then Some d else None)"

section \<open>Strings\<close>

definition trim_start :: "ustr \<Rightarrow> ustr" where "trim_start = dropWhile is_whitespace"

definition trim_end :: "ustr \<Rightarrow> ustr" where "trim_end s = rev (dropWhile is_whitespace (rev s))"

definition trim :: "ustr \<Rightarrow> ustr" where "trim s = trim_end (trim_start s)"

definition strip_prefix :: "ustr \<Rightarrow> ustr \<Rightarrow> ustr option" where
  "strip_prefix p s = (if take (length p) s = p then Some (drop (length p) s) else None)"

definition strip_suffix :: "ustr \<Rightarrow> ustr \<Rightarrow> ustr option" where
  "strip_suffix p s = (if length p \<le> length s \<and> drop (length s - length p) s = p
     then Some (take (length s - length p) s) else None)"

text \<open>\<open>split_once\<close> at the first character with a property, the character left out of both parts.\<close>

fun split_once_by :: "(nat \<Rightarrow> bool) \<Rightarrow> ustr \<Rightarrow> (ustr \<times> ustr) option" where
  "split_once_by P [] = None"
| "split_once_by P (c # s) = (if P c then Some ([], s)
     else case split_once_by P s of None \<Rightarrow> None | Some (a, b) \<Rightarrow> Some (c # a, b))"

abbreviation split_once :: "nat \<Rightarrow> ustr \<Rightarrow> (ustr \<times> ustr) option" where
  "split_once c \<equiv> split_once_by (\<lambda>x. x = c)"

text \<open>\<open>split_once\<close> at the first occurrence of a string.\<close>

fun split_once_str :: "ustr \<Rightarrow> ustr \<Rightarrow> (ustr \<times> ustr) option" where
  "split_once_str p s = (case strip_prefix p s of
      Some rest \<Rightarrow> Some ([], rest)
    | None \<Rightarrow> (case s of [] \<Rightarrow> None
        | c # s' \<Rightarrow> (case split_once_str p s' of None \<Rightarrow> None | Some (a, b) \<Rightarrow> Some (c # a, b))))"

declare split_once_str.simps [simp del]

text \<open>\<open>split\<close> at every occurrence of a character: never empty.\<close>

fun split_char :: "nat \<Rightarrow> ustr \<Rightarrow> ustr list" where
  "split_char x [] = [[]]"
| "split_char x (c # s) = (if c = x then [] # split_char x s
     else case split_char x s of p # ps \<Rightarrow> (c # p) # ps)"

text \<open>\<open>lines\<close>: a final newline opens no line, and a carriage return before a newline belongs to it.\<close>

fun lines_from :: "ustr \<Rightarrow> ustr \<Rightarrow> ustr list" where
  "lines_from cur [] = (if cur = [] then [] else [rev cur])"
| "lines_from cur (c # s) =
     (if c = 10 then rev (if cur \<noteq> [] \<and> hd cur = 13 then tl cur else cur) # lines_from [] s
      else lines_from (c # cur) s)"

definition lines :: "ustr \<Rightarrow> ustr list" where "lines s = lines_from [] s"

section \<open>Reading numbers\<close>

definition digits_val :: "nat \<Rightarrow> ustr \<Rightarrow> nat" where
  "digits_val radix s = foldl (\<lambda>a c. radix * a + (case to_digit radix c of Some d \<Rightarrow> d | None \<Rightarrow> 0)) 0 s"

text \<open>\<open>parse\<close> at an unsigned type of \<open>w\<close> bits: an optional plus and at least one digit.\<close>

definition parse_unsigned :: "nat \<Rightarrow> ustr \<Rightarrow> nat option" where
  "parse_unsigned w s = (let ds = (case strip_prefix [43] s of Some r \<Rightarrow> r | None \<Rightarrow> s) in
     if ds \<noteq> [] \<and> list_all is_ascii_digit ds \<and> digits_val 10 ds < 2 ^ w then Some (digits_val 10 ds) else None)"

text \<open>
  \<open>f64::from_str\<close>: an optional sign, then digits with an optional fraction and exponent, at least one
  digit before the exponent, or \<open>inf\<close>, \<open>infinity\<close> or \<open>nan\<close> in any case. The value is the exact decimal,
  rounded once.
\<close>

definition split_sign :: "ustr \<Rightarrow> bool \<times> ustr" where
  "split_sign s = (case strip_prefix [43] s of Some r \<Rightarrow> (False, r)
     | None \<Rightarrow> (case strip_prefix [45] s of Some r \<Rightarrow> (True, r) | None \<Rightarrow> (False, s)))"

definition parse_exponent :: "ustr \<Rightarrow> int option" where
  "parse_exponent s = (case s of [] \<Rightarrow> Some 0
     | c # r \<Rightarrow> if c \<noteq> 101 \<and> c \<noteq> 69 then None
         else let (neg, ds) = split_sign r in
           if ds \<noteq> [] \<and> list_all is_ascii_digit ds
           then Some (if neg then - int (digits_val 10 ds) else int (digits_val 10 ds)) else None)"

definition parse_decimal :: "ustr \<Rightarrow> rat option" where
  "parse_decimal s = (let ip = takeWhile is_ascii_digit s; r = dropWhile is_ascii_digit s;
       (fp, ex) = (case strip_prefix [46] r of
           Some r' \<Rightarrow> (takeWhile is_ascii_digit r', dropWhile is_ascii_digit r') | None \<Rightarrow> ([], r)) in
     if ip @ fp = [] then None
     else map_option (\<lambda>e. of_nat (digits_val 10 (ip @ fp)) * 10 powi (e - int (length fp))) (parse_exponent ex))"

definition parse_special :: "ustr \<Rightarrow> f64 option" where
  "parse_special s = (let l = map to_ascii_lowercase s in
     if l = str_of ''nan'' then Some NaN
     else if l = str_of ''inf'' \<or> l = str_of ''infinity'' then Some (Inf False) else None)"

definition parse_f64 :: "ustr \<Rightarrow> f64 option" where
  "parse_f64 s = (let (neg, r) = split_sign s in
     case parse_decimal r of
       Some q \<Rightarrow> Some (round64 (if neg then - q else q))
     | None \<Rightarrow> map_option (\<lambda>x. if neg then fneg x else x) (parse_special r))"

end
