(* ===== verification/EcSource.thy ===== *)
theory EcSource
  imports RustText
begin

text \<open>
  The embedded controller data sources, src/ec/test-lib/src/lib.rs and common.rs: the traits as a record
  of operations over the state behind a source. The structures and identifiers of the firmware's
  service crates appear with the fields the sources use, bit fields as their 32-bit words.
\<close>

section \<open>The traits\<close>

datatype error_kind = UnexpectedResponseKind | InvalidDataKind | IoKind | ProtocolKind | SerializationKind | OtherKind

datatype lib_threshold = On | Ramping | Max

datatype timer_id = AcPower | DcPower

record bst_return =
  battery_state :: u32
  battery_present_rate :: u32
  battery_remaining_capacity :: u32
  battery_present_voltage :: u32

record bix_fixed_strings =
  bix_revision :: u32
  power_unit :: u32
  design_capacity :: u32
  last_full_charge_capacity :: u32
  battery_technology :: u32
  design_voltage :: u32
  design_cap_of_warning :: u32
  design_cap_of_low :: u32
  cycle_count :: u32
  measurement_accuracy :: u32
  max_sampling_time :: u32
  min_sampling_time :: u32
  max_averaging_interval :: u32
  min_averaging_interval :: u32
  battery_capacity_granularity_1 :: u32
  battery_capacity_granularity_2 :: u32
  model_number :: bytes
  serial_number :: bytes
  battery_type :: bytes
  oem_info :: bytes
  battery_swapping_capability :: u32

type_synonym ('s, 'e, 'a) ec_op = "'s \<Rightarrow> ('e + 'a) \<times> 's"

text \<open>
  \<open>ThermalSource\<close>, \<open>BatterySource\<close> and \<open>RtcSource\<close>. A wake policy and a timer value are their words.
  \<open>src_wait\<close> is what sleeping for a number of nanoseconds does to the state behind the source.
\<close>

record ('s, 'e, 'ts) source =
  src_kind :: "'e \<Rightarrow> error_kind"
  src_get_temperature :: "('s, 'e, f64) ec_op"
  src_get_rpm :: "('s, 'e, f64) ec_op"
  src_get_min_rpm :: "('s, 'e, f64) ec_op"
  src_get_max_rpm :: "('s, 'e, f64) ec_op"
  src_get_threshold :: "lib_threshold \<Rightarrow> ('s, 'e, f64) ec_op"
  src_set_threshold :: "lib_threshold \<Rightarrow> f64 \<Rightarrow> ('s, 'e, unit) ec_op"
  src_set_rpm :: "f64 \<Rightarrow> ('s, 'e, unit) ec_op"
  src_get_bst :: "('s, 'e, bst_return) ec_op"
  src_get_bix :: "('s, 'e, bix_fixed_strings) ec_op"
  src_set_btp :: "u32 \<Rightarrow> ('s, 'e, unit) ec_op"
  src_get_capabilities :: "('s, 'e, u32) ec_op"
  src_get_real_time :: "('s, 'e, 'ts) ec_op"
  src_get_wake_status :: "timer_id \<Rightarrow> ('s, 'e, u32) ec_op"
  src_get_expired_timer_wake_policy :: "timer_id \<Rightarrow> ('s, 'e, u32) ec_op"
  src_get_timer_value :: "timer_id \<Rightarrow> ('s, 'e, u32) ec_op"
  src_set_real_time :: "'ts \<Rightarrow> ('s, 'e, unit) ec_op"
  src_set_timer_value :: "timer_id \<Rightarrow> u32 \<Rightarrow> ('s, 'e, unit) ec_op"
  src_set_expired_timer_wake_policy :: "timer_id \<Rightarrow> u32 \<Rightarrow> ('s, 'e, unit) ec_op"
  src_clear_wake_status :: "timer_id \<Rightarrow> ('s, 'e, unit) ec_op"
  src_wait :: "nat \<Rightarrow> 's \<Rightarrow> 's"

text \<open>
  What the sources use of the crates battery_service_interface and time_alarm_service_interface, which are not
  under src/: which words their conversions accept, the words of four constants, the initial time of the mock's
  clock, and the bytes of a timestamp.
\<close>

record 'ts ec_iface =
  ei_battery_state :: "u32 \<Rightarrow> bool"
  ei_power_unit :: "u32 \<Rightarrow> bool"
  ei_technology :: "u32 \<Rightarrow> bool"
  ei_swap :: "u32 \<Rightarrow> bool"
  ei_milli_watts :: u32
  ei_primary :: u32
  ei_cold_swappable :: u32
  ei_instantly :: u32
  ei_initial_time :: 'ts
  ei_ts_bytes :: "'ts \<Rightarrow> bytes"
  ei_ts_of_bytes :: "bytes \<Rightarrow> 'ts option"

text \<open>The value of a timer identifier, as the tests of acpi.rs give it.\<close>

fun timer_index :: "timer_id \<Rightarrow> nat" where
  "timer_index AcPower = 0" | "timer_index DcPower = 1"

text \<open>The operators of fallible code over such operations.\<close>

definition op_ret :: "'a \<Rightarrow> ('s, 'e, 'a) ec_op" where "op_ret x s = (Inr x, s)"

definition op_fail :: "'e \<Rightarrow> ('s, 'e, 'a) ec_op" where "op_fail e s = (Inl e, s)"

definition op_then :: "('s, 'e, 'a) ec_op \<Rightarrow> ('a \<Rightarrow> ('s, 'e, 'b) ec_op) \<Rightarrow> ('s, 'e, 'b) ec_op" where
  "op_then m f s = (case m s of (Inl e, s') \<Rightarrow> (Inl e, s') | (Inr x, s') \<Rightarrow> f x s')"

definition op_lift :: "'e + 'a \<Rightarrow> ('s, 'e, 'a) ec_op" where "op_lift r s = (r, s)"

definition op_map :: "('e \<Rightarrow> 'f) \<Rightarrow> ('s, 'e, 'a) ec_op \<Rightarrow> ('s, 'f, 'a) ec_op" where
  "op_map f m s = (case m s of (Inl e, s') \<Rightarrow> (Inl (f e), s') | (Inr x, s') \<Rightarrow> (Inr x, s'))"

lemma op_simps [simp]:
  "op_ret x s = (Inr x, s)" "op_fail e s = (Inl e, s)" "op_lift r s = (r, s)"
  by (simp_all add: op_ret_def op_fail_def op_lift_def)

lemma op_then_Inr: "op_then m f s = (Inr y, s2) \<longleftrightarrow> (\<exists>x s1. m s = (Inr x, s1) \<and> f x s1 = (Inr y, s2))"
  by (auto simp: op_then_def split: prod.splits sum.splits)

lemma op_then_Inl:
  "op_then m f s = (Inl e, s2) \<longleftrightarrow> m s = (Inl e, s2) \<or> (\<exists>x s1. m s = (Inr x, s1) \<and> f x s1 = (Inl e, s2))"
  by (auto simp: op_then_def split: prod.splits sum.splits)

section \<open>Settable quantities\<close>

text \<open>The contract of a family of quantities that can be read and set: a map kept behind the source.\<close>

definition put_all :: "('k \<Rightarrow> 'v \<Rightarrow> ('s, 'e, unit) ec_op) \<Rightarrow> ('k \<times> 'v) list \<Rightarrow> 's \<Rightarrow> 's" where
  "put_all put kvs s = fold (\<lambda>(k, v) s. snd (put k v s)) kvs s"

locale settable =
  fixes inv :: "'s \<Rightarrow> bool" and get :: "'k \<Rightarrow> ('s, 'e, 'v) ec_op" and put :: "'k \<Rightarrow> 'v \<Rightarrow> ('s, 'e, unit) ec_op"
  assumes get_pure: "snd (get k s) = s"
    and put_ok: "inv s \<Longrightarrow> fst (put k v s) = Inr () \<and> inv (snd (put k v s))"
    and get_put: "inv s \<Longrightarrow> fst (get k' (snd (put k v s))) = (if k' = k then Inr v else fst (get k' s))"
begin

lemma put_all_inv: "inv s \<Longrightarrow> inv (put_all put kvs s)"
  by (induction kvs arbitrary: s) (auto simp: put_all_def put_ok)

lemma get_put_all:
  "inv s \<Longrightarrow> fst (get k (put_all put kvs s)) = (case map_of (rev kvs) k of Some v \<Rightarrow> Inr v | None \<Rightarrow> fst (get k s))"
proof (induction kvs rule: rev_induct)
  case (snoc kv kvs)
  obtain k' v where kv: "kv = (k', v)" by fastforce
  show ?case using snoc put_all_inv [of s kvs] get_put [of "put_all put kvs s" k k' v] kv
    by (simp add: put_all_def)
qed (simp add: put_all_def)

end

section \<open>Variables of the thermal service\<close>

text \<open>A UUID and its mixed-endian bytes, and the variables of common.rs.\<close>

record uuid =
  uuid_1 :: u32
  uuid_2 :: u16
  uuid_3 :: u16
  uuid_4 :: bytes

definition to_bytes_le :: "uuid \<Rightarrow> bytes" where
  "to_bytes_le g = nat_le 4 (unat (uuid_1 g)) @ nat_le 2 (unat (uuid_2 g)) @ nat_le 2 (unat (uuid_3 g)) @ uuid_4 g"

definition FAN_ON_TEMP :: uuid where
  "FAN_ON_TEMP = \<lparr>uuid_1 = 0xba17b567, uuid_2 = 0xc368, uuid_3 = 0x48d5,
     uuid_4 = [0xbc, 0x6f, 0xa3, 0x12, 0xa4, 0x15, 0x83, 0xc1]\<rparr>"

definition FAN_RAMP_TEMP :: uuid where
  "FAN_RAMP_TEMP = \<lparr>uuid_1 = 0x3a62688c, uuid_2 = 0xd95b, uuid_3 = 0x4d2d,
     uuid_4 = [0xba, 0xcc, 0x90, 0xd7, 0xa5, 0x81, 0x6b, 0xcd]\<rparr>"

definition FAN_MAX_TEMP :: uuid where
  "FAN_MAX_TEMP = \<lparr>uuid_1 = 0xdcb758b1, uuid_2 = 0xf0fd, uuid_3 = 0x4ec7,
     uuid_4 = [0xb2, 0xc0, 0xef, 0x1e, 0x2a, 0x54, 0x7b, 0x76]\<rparr>"

definition FAN_MIN_RPM :: uuid where
  "FAN_MIN_RPM = \<lparr>uuid_1 = 0xdb261c77, uuid_2 = 0x934b, uuid_3 = 0x45e2,
     uuid_4 = [0x97, 0x42, 0x25, 0x6c, 0x62, 0xba, 0xdb, 0x7a]\<rparr>"

definition FAN_MAX_RPM :: uuid where
  "FAN_MAX_RPM = \<lparr>uuid_1 = 0x5cf839df, uuid_2 = 0x8be7, uuid_3 = 0x42b9,
     uuid_4 = [0x9a, 0xc5, 0x34, 0x03, 0xca, 0x2c, 0x8a, 0x6a]\<rparr>"

definition FAN_CURRENT_RPM :: uuid where
  "FAN_CURRENT_RPM = \<lparr>uuid_1 = 0xadf95492, uuid_2 = 0x0776, uuid_3 = 0x4ffc,
     uuid_4 = [0x84, 0xf3, 0xb6, 0xc8, 0xb5, 0x26, 0x96, 0x83]\<rparr>"

fun threshold_guid :: "lib_threshold \<Rightarrow> uuid" where
  "threshold_guid On = FAN_ON_TEMP" | "threshold_guid Ramping = FAN_RAMP_TEMP" | "threshold_guid Max = FAN_MAX_TEMP"

lemma threshold_guid_inj [simp]: "threshold_guid i = threshold_guid j \<longleftrightarrow> i = j"
  by (cases i; cases j) (simp_all add: FAN_ON_TEMP_def FAN_RAMP_TEMP_def FAN_MAX_TEMP_def)

section \<open>Temperatures\<close>

text \<open>The unsigned decikelvin of the controller and degrees Celsius, common.rs.\<close>

definition dk_to_c :: "u32 \<Rightarrow> f64" where
  "dk_to_c dk = fsub (fdiv (f64_of_nat (unat dk)) (round64 10)) (round64 273.15)"

definition u32_max_f64 :: f64 where "u32_max_f64 = f64_of_nat (2 ^ 32 - 1)"

definition c_to_dk :: "f64 \<Rightarrow> u32" where
  "c_to_dk c = (let dk = fmul (fadd c (round64 273.15)) (round64 10) in
     if \<not> is_finite dk \<or> fle dk (Fin 0) then 0
     else if fle u32_max_f64 dk then - 1
     else f64_to_u32 (fround dk))"

lemma round64_near:
  assumes "- 1000000000000 \<le> q" "q \<le> 1000000000000"
  shows "\<exists>r. round64 q = Fin r \<and> q - 1 / 4096 \<le> r \<and> r \<le> q + 1 / 4096"
proof -
  have "\<bar>q\<bar> \<le> 2 ^ 64" using assms by simp
  then obtain r where r: "round64 q = Fin r" "\<bar>r - q\<bar> \<le> (\<bar>q\<bar> / 2 ^ 52 + 1 / 2 ^ 1074) / 2" using round64_err by blast
  have "(1 :: rat) / 2 ^ 1074 \<le> 1 / 2 ^ 13" by (intro divide_left_mono power_increasing) simp_all
  moreover have "\<bar>q\<bar> / 2 ^ 52 \<le> 1 / 2 ^ 12" using assms by simp
  ultimately have "(\<bar>q\<bar> / 2 ^ 52 + 1 / 2 ^ 1074) / 2 \<le> (1 / 2 ^ 12 + 1 / 2 ^ 13) / 2" by (intro divide_right_mono add_mono) simp_all
  also have "\<dots> \<le> (1 / 2 ^ 12 :: rat)" by simp
  finally have "\<bar>r - q\<bar> \<le> 1 / 4096" using r(2) by simp
  then have "q - 1 / 4096 \<le> r" "r \<le> q + 1 / 4096" by (simp_all only: abs_le_iff) linarith+
  then show ?thesis using r(1) by blast
qed

lemma decikelvin_roundtrip: "c_to_dk (dk_to_c dk) = dk"
proof -
  define N where "N = unat dk"
  define n :: rat where "n = of_nat N"
  have "unat dk < 2 ^ LENGTH(32)" by (rule unsigned_less)
  then have N: "N \<le> 4294967295" by (simp add: N_def)
  have dkN: "dk = word_of_nat N" by (simp add: N_def)
  have n: "0 \<le> n" "n \<le> 4294967295" using of_nat_le_iff [of N 4294967295, where 'a = rat] N by (simp_all add: n_def)
  obtain K :: rat where K: "round64 273.15 = Fin K" "273 \<le> K" "K \<le> 274"
    using round64_near [of "273.15"] by fastforce
  have ten: "round64 10 = Fin 10" using round64_int [of 10] by simp
  have dk: "f64_of_nat (unat dk) = Fin n" unfolding n_def N_def by (rule f64_of_u32)
  obtain a where a: "round64 (n / 10) = Fin a" "n / 10 - 1 / 4096 \<le> a" "a \<le> n / 10 + 1 / 4096"
    using round64_near [of "n / 10"] n by auto
  have "- 1000000000000 \<le> a - K" "a - K \<le> 1000000000000" using a K n by linarith+
  then obtain c where c: "round64 (a - K) = Fin c" "a - K - 1 / 4096 \<le> c" "c \<le> a - K + 1 / 4096"
    using round64_near [of "a - K"] by blast
  have "- 1000000000000 \<le> c + K" "c + K \<le> 1000000000000" using c a K n by linarith+
  then obtain d where d: "round64 (c + K) = Fin d" "c + K - 1 / 4096 \<le> d" "d \<le> c + K + 1 / 4096"
    using round64_near [of "c + K"] by blast
  have "- 1000000000000 \<le> d * 10" "d * 10 \<le> 1000000000000" using d c a K n by linarith+
  then obtain m where m: "round64 (d * 10) = Fin m" "d * 10 - 1 / 4096 \<le> m" "m \<le> d * 10 + 1 / 4096"
    using round64_near [of "d * 10"] by blast
  have m_near: "n - 1 / 2 < m" "m < n + 1 / 2" using m d c a K by linarith+
  have "dk_to_c dk = Fin c" using a(1) c(1) K(1) by (simp add: dk_to_c_def fsub_def dk ten)
  then have prod: "fmul (fadd (dk_to_c dk) (round64 273.15)) (round64 10) = Fin m"
    using d(1) m(1) K(1) by (simp add: ten)
  have fl: "\<lfloor>m + 1 / 2\<rfloor> = int N" using m_near by (intro floor_unique) (simp_all add: n_def)
  have u: "u32_max_f64 = Fin (2 ^ 32 - 1)" using f64_of_nat_exact [of "2 ^ 32 - 1"] by (simp add: u32_max_f64_def)
  show ?thesis
  proof (cases "m \<le> 0")
    case True
    then have "n < 1" using m_near by linarith
    then have "dk = 0" by (simp add: n_def dkN)
    then show ?thesis using True prod by (auto simp: c_to_dk_def fle_def Let_def)
  next
    case False
    show ?thesis
    proof (cases "2 ^ 32 - 1 \<le> m")
      case True
      then have "2 ^ 32 - 2 < n" using m_near by linarith
      then have "N = 4294967295" using N of_nat_less_iff [of 4294967294 N, where 'a = rat] by (simp add: n_def)
      then have "dk = - 1" by (simp add: dkN)
      moreover have "fle u32_max_f64 (Fin m)" unfolding u fle_def using True by auto
      ultimately show ?thesis using False prod by (auto simp: c_to_dk_def Let_def fle_def [of _ "Fin 0"])
    next
      case False
      have "f64_to_u32 (fround (Fin m)) = dk"
        using fl \<open>\<not> m \<le> 0\<close> N by (simp add: f64_to_u32_def dkN)
      moreover have "\<not> fle u32_max_f64 (Fin m)" unfolding u fle_def using False by auto
      ultimately show ?thesis using \<open>\<not> m \<le> 0\<close> prod by (auto simp: c_to_dk_def Let_def fle_def [of _ "Fin 0"])
    qed
  qed
qed

end
