(* ===== verification/ScriptParse.thy ===== *)
theory ScriptParse
  imports EcSource
begin

text \<open>
  The parser of the integration-test language, src/ec/test-script/src/parser.rs. Error texts are
  values of \<open>msg\<close> with the parts the source formats into them. \<open>uni_alpha\<close> is the Unicode property
  Alphabetic beyond ASCII. The other functions belong to the crate time_alarm_service_interface, which is not
  under src/: the decoder of timestamps, their Unix time, and the accessors of two bit fields by name.
\<close>

record 'ts script_host =
  uni_alpha :: "nat \<Rightarrow> bool"
  ts_of_bytes :: "bytes \<Rightarrow> 'ts option"
  unix_timestamp :: "'ts \<Rightarrow> int"
  cap_flag :: "ustr \<Rightarrow> u32 \<Rightarrow> bool"
  wake_flag :: "ustr \<Rightarrow> u32 \<Rightarrow> bool"

section \<open>Statements\<close>

datatype threshold = ThOn | ThRamping | ThMax

datatype target = Thermal | Battery | Rtc

datatype operand = OpNum f64 | OpBool bool | OpVar ustr

datatype 'ts script_method =
    GetTemperature | GetRpm | GetMinRpm | GetMaxRpm
  | GetThreshold threshold | SetThreshold threshold operand | SetRpm operand
  | GetBst | GetBix | SetBtp operand
  | GetCapabilities | GetRealTime | SetRealTime 'ts
  | GetWakeStatus timer_id | GetExpiredTimerWakePolicy timer_id | GetTimerValue timer_id
  | SetTimerValue timer_id operand | SetExpiredTimerWakePolicy timer_id operand | ClearWakeStatus timer_id

record 'ts call =
  call_target :: target
  call_method :: "'ts script_method"
  call_projection :: "ustr list"

datatype verb =
    VEq operand | VNe operand | VGt operand | VGe operand | VLt operand | VLe operand
  | VInRange f64 f64 bool | VIsOk | VIsErr
  | VOkEq operand | VOkGt operand | VOkGe operand | VOkLt operand | VOkLe operand
  | VOkInRange f64 f64 bool

text \<open>A duration is its nanoseconds.\<close>

datatype 'ts stmt =
    Check nat ustr "'ts call" verb
  | Let nat ustr ustr "'ts call"
  | Sleep nat nat

datatype msg =
    LetSyntax ustr | InvalidName ustr | NoSeparator ustr | Unbalanced ustr | NoMethod ustr
  | UnknownTarget ustr | InvalidAccessor ustr | MissingParen ustr | MalformedCall ustr
  | TrailingChars ustr | NoArgument ustr ustr | NeedsArgument ustr | UnknownThreshold ustr
  | ThresholdSyntax ustr | UnknownMethod ustr target | BufferSyntax | BufferSize | BufferBytes nat
  | Milliseconds u16 | BadTimestamp | ByteLiteral ustr | ByteRange ustr | UnknownTimer ustr
  | TimerSyntax ustr ustr | VerbOperand ustr | VerbRange ustr | UnknownVerb ustr | BadOperand ustr
  | BadNumber ustr | BadRange ustr | BadDuration ustr | UnknownUnit ustr | Unterminated ustr

record parse_error =
  err_line :: nat
  err_message :: msg

section \<open>Words of the language\<close>

definition is_ident :: "ustr \<Rightarrow> bool" where
  "is_ident s = (case s of [] \<Rightarrow> False
     | c # cs \<Rightarrow> (is_ascii_alphabetic c \<or> c = 95) \<and>
         list_all (\<lambda>c. is_ascii_alphabetic c \<or> is_ascii_digit c \<or> c = 95) cs)"

definition parse_operand :: "ustr \<Rightarrow> msg + operand" where
  "parse_operand src = (let s = trim src in
     if s = str_of ''true'' then Inr (OpBool True)
     else if s = str_of ''false'' then Inr (OpBool False)
     else case parse_f64 s of
       Some n \<Rightarrow> Inr (OpNum n)
     | None \<Rightarrow> if is_ident s then Inr (OpVar s) else Inl (BadOperand s))"

definition parse_num :: "ustr \<Rightarrow> msg + f64" where
  "parse_num s = ok_or (BadNumber s) (parse_f64 (trim s))"

definition parse_range :: "ustr \<Rightarrow> msg + f64 \<times> f64 \<times> bool" where
  "parse_range src = (let s = trim src in
     case split_once_str (str_of ''..='') s of
       Some (l, h) \<Rightarrow> thenE (parse_num l) (\<lambda>lo. thenE (parse_num h) (\<lambda>hi. Inr (lo, hi, True)))
     | None \<Rightarrow> (case split_once_str (str_of ''..'') s of
           Some (l, h) \<Rightarrow> thenE (parse_num l) (\<lambda>lo. thenE (parse_num h) (\<lambda>hi. Inr (lo, hi, False)))
         | None \<Rightarrow> Inl (BadRange s)))"

definition is_alphabetic :: "'ts script_host \<Rightarrow> nat \<Rightarrow> bool" where
  "is_alphabetic host c = (if c < 128 then is_ascii_alphabetic c else uni_alpha host c)"

definition parse_duration :: "'ts script_host \<Rightarrow> ustr \<Rightarrow> msg + nat" where
  "parse_duration host src = (let s = trim src;
     num_part = takeWhile (\<lambda>c. \<not> is_alphabetic host c) s; rest = dropWhile (\<lambda>c. \<not> is_alphabetic host c) s;
     u = (if rest = [] then str_of ''ms'' else trim rest) in
     case parse_unsigned 64 (trim num_part) of
       None \<Rightarrow> Inl (BadDuration s)
     | Some n \<Rightarrow>
         if u = str_of ''ms'' then Inr (n * 1000000)
         else if u = str_of ''s'' then Inr (n * 1000000000)
         else if u = str_of ''us'' then Inr (n * 1000)
         else Inl (UnknownUnit u))"

section \<open>Verbs\<close>

definition need_operand :: "ustr \<Rightarrow> ustr \<Rightarrow> msg + operand" where
  "need_operand tail v = (if tail = [] then Inl (VerbOperand v) else parse_operand tail)"

definition need_range :: "ustr \<Rightarrow> ustr \<Rightarrow> msg + f64 \<times> f64 \<times> bool" where
  "need_range tail v = (if tail = [] then Inl (VerbRange v) else parse_range tail)"

text \<open>The verbs that take an operand, and those that take a range.\<close>

definition operand_verbs :: "(ustr \<times> (operand \<Rightarrow> verb)) list" where
  "operand_verbs = map (\<lambda>(n, v). (str_of n, v))
     [(''eq'', VEq), (''ne'', VNe), (''gt'', VGt), (''ge'', VGe), (''lt'', VLt), (''le'', VLe),
      (''ok_eq'', VOkEq), (''ok_gt'', VOkGt), (''ok_ge'', VOkGe), (''ok_lt'', VOkLt), (''ok_le'', VOkLe)]"

definition range_verbs :: "(ustr \<times> (f64 \<Rightarrow> f64 \<Rightarrow> bool \<Rightarrow> verb)) list" where
  "range_verbs = map (\<lambda>(n, v). (str_of n, v)) [(''in_range'', VInRange), (''ok_in_range'', VOkInRange)]"

definition parse_verb :: "ustr \<Rightarrow> msg + verb" where
  "parse_verb src = (let (head, tail) = (case split_once_by is_whitespace src of
         Some (h, t) \<Rightarrow> (h, trim t) | None \<Rightarrow> (src, [])) in
     case map_of operand_verbs head of
       Some v \<Rightarrow> thenE (need_operand tail head) (\<lambda>op. Inr (v op))
     | None \<Rightarrow> (case map_of range_verbs head of
         Some v \<Rightarrow> thenE (need_range tail head) (\<lambda>(lo, hi, inclusive). Inr (v lo hi inclusive))
       | None \<Rightarrow> if head = str_of ''is_ok'' then Inr VIsOk
           else if head = str_of ''is_err'' then Inr VIsErr
           else Inl (UnknownVerb head)))"

section \<open>Methods and their arguments\<close>

definition parse_u8_literal :: "ustr \<Rightarrow> msg + u8" where
  "parse_u8_literal src = (let s = trim src;
     (digits, radix) = (case strip_prefix (str_of ''0x'') s of Some hex \<Rightarrow> (hex, 16)
        | None \<Rightarrow> (case strip_prefix (str_of ''0X'') s of Some hex \<Rightarrow> (hex, 16) | None \<Rightarrow> (s, 10))) in
     if digits = [] \<or> \<not> list_all (\<lambda>c. to_digit radix c \<noteq> None) digits then Inl (ByteLiteral s)
     else if digits_val radix digits < 2 ^ 8 then Inr (word_of_nat (digits_val radix digits))
     else Inl (ByteRange s))"

definition parse_timestamp_buffer :: "'ts script_host \<Rightarrow> ustr \<Rightarrow> msg + 'ts" where
  "parse_timestamp_buffer host s =
     thenE (ok_or BufferSyntax
       (Option.bind (strip_prefix (str_of ''Buffer'') s) (\<lambda>r.
        Option.bind (strip_prefix (str_of ''('') (trim_start r)) (split_once 41)))) (\<lambda>(sz, rest).
     thenE (parse_u8_literal sz) (\<lambda>n.
     if n \<noteq> 16 then Inl BufferSize
     else thenE (ok_or BufferSyntax
       (Option.bind (strip_prefix (str_of ''{'') (trim rest)) (strip_suffix (str_of ''}'')))) (\<lambda>inner.
     let initializer = trim inner;
         items = split_char 44 (case strip_suffix (str_of '','') initializer of Some i \<Rightarrow> i | None \<Rightarrow> initializer) in
     thenE (map_try parse_u8_literal items) (\<lambda>bs.
     if length bs \<noteq> 16 then Inl (BufferBytes (length bs))
     else let ms = word_of_nat (le_nat [bs ! 8, bs ! 9]) :: u16 in
       if 999 < ms then Inl (Milliseconds ms)
       else ok_or BadTimestamp (ts_of_bytes host bs)))))"

definition parse_timer :: "ustr \<Rightarrow> msg + timer_id" where
  "parse_timer s = (if s = str_of ''ac'' then Inr AcPower else if s = str_of ''dc'' then Inr DcPower
     else Inl (UnknownTimer s))"

definition split_timer_operand :: "ustr \<Rightarrow> ustr \<Rightarrow> msg + timer_id \<times> operand" where
  "split_timer_operand name s = thenE (ok_or (TimerSyntax name s) (split_once 44 s)) (\<lambda>(id_str, val_str).
     thenE (parse_timer (trim id_str)) (\<lambda>i.
     thenE (parse_operand (trim val_str)) (\<lambda>op. Inr (i, op))))"

definition parse_threshold :: "ustr \<Rightarrow> ustr \<Rightarrow> msg + threshold" where
  "parse_threshold shown s = (if s = str_of ''on'' then Inr ThOn else if s = str_of ''ramping'' then Inr ThRamping
     else if s = str_of ''max'' then Inr ThMax else Inl (UnknownThreshold shown))"

definition need_no_arg :: "ustr \<Rightarrow> ustr option \<Rightarrow> msg + unit" where
  "need_no_arg name arg = (case arg of None \<Rightarrow> Inr () | Some a \<Rightarrow> if a = [] then Inr () else Inl (NoArgument name a))"

definition need_arg :: "ustr \<Rightarrow> ustr option \<Rightarrow> msg + ustr" where
  "need_arg name arg = (case arg of
     Some a \<Rightarrow> if a = [] then Inl (NeedsArgument name) else Inr a | None \<Rightarrow> Inl (NeedsArgument name))"

text \<open>The methods without an argument, and those with one timer.\<close>

definition plain_methods :: "((target \<times> ustr) \<times> 'ts script_method) list" where
  "plain_methods = map (\<lambda>(t, n, m). ((t, str_of n), m))
     [(Thermal, ''get_temperature'', GetTemperature), (Thermal, ''get_rpm'', GetRpm),
      (Thermal, ''get_min_rpm'', GetMinRpm), (Thermal, ''get_max_rpm'', GetMaxRpm),
      (Battery, ''get_bst'', GetBst), (Battery, ''get_bix'', GetBix),
      (Rtc, ''get_capabilities'', GetCapabilities), (Rtc, ''get_real_time'', GetRealTime)]"

definition timer_methods :: "((target \<times> ustr) \<times> (timer_id \<Rightarrow> 'ts script_method)) list" where
  "timer_methods = map (\<lambda>(n, m). ((Rtc, str_of n), m))
     [(''get_wake_status'', GetWakeStatus), (''get_expired_timer_wake_policy'', GetExpiredTimerWakePolicy),
      (''get_timer_value'', GetTimerValue), (''clear_wake_status'', ClearWakeStatus)]"

definition timer_setters :: "((target \<times> ustr) \<times> (timer_id \<Rightarrow> operand \<Rightarrow> 'ts script_method)) list" where
  "timer_setters = map (\<lambda>(n, m). ((Rtc, str_of n), m))
     [(''set_timer_value'', SetTimerValue), (''set_expired_timer_wake_policy'', SetExpiredTimerWakePolicy)]"

definition operand_setters :: "((target \<times> ustr) \<times> (operand \<Rightarrow> 'ts script_method)) list" where
  "operand_setters = map (\<lambda>(t, n, m). ((t, str_of n), m))
     [(Thermal, ''set_rpm'', SetRpm), (Battery, ''set_btp'', SetBtp)]"

definition build_method :: "'ts script_host \<Rightarrow> target \<Rightarrow> ustr \<Rightarrow> ustr option \<Rightarrow> msg + 'ts script_method" where
  "build_method host t name arg =
     (case map_of plain_methods (t, name) of
        Some m \<Rightarrow> thenE (need_no_arg name arg) (\<lambda>_. Inr m)
      | None \<Rightarrow>
     (case map_of operand_setters (t, name) of
        Some m \<Rightarrow> thenE (need_arg name arg) (\<lambda>a. thenE (parse_operand a) (\<lambda>op. Inr (m op)))
      | None \<Rightarrow>
     (case map_of timer_methods (t, name) of
        Some m \<Rightarrow> thenE (need_arg name arg) (\<lambda>a. thenE (parse_timer a) (\<lambda>i. Inr (m i)))
      | None \<Rightarrow>
     (case map_of timer_setters (t, name) of
        Some m \<Rightarrow> thenE (need_arg name arg) (\<lambda>a. thenE (split_timer_operand name a) (\<lambda>(i, op). Inr (m i op)))
      | None \<Rightarrow>
     if (t, name) = (Thermal, str_of ''get_threshold'') then
       thenE (need_arg name arg) (\<lambda>a. thenE (parse_threshold a a) (\<lambda>th. Inr (GetThreshold th)))
     else if (t, name) = (Thermal, str_of ''set_threshold'') then
       thenE (need_arg name arg) (\<lambda>a.
       thenE (ok_or (ThresholdSyntax a) (split_once 44 a)) (\<lambda>(th_str, val_str).
       thenE (parse_threshold th_str (trim th_str)) (\<lambda>th.
       thenE (parse_operand (trim val_str)) (\<lambda>op. Inr (SetThreshold th op)))))
     else if (t, name) = (Rtc, str_of ''set_real_time'') then
       thenE (need_arg name arg) (\<lambda>a. thenE (parse_timestamp_buffer host a) (\<lambda>ts. Inr (SetRealTime ts)))
     else Inl (UnknownMethod name t)))))"

section \<open>Calls\<close>

text \<open>The loop over the characters: split at the dots outside parentheses.\<close>

fun split_dots :: "ustr \<Rightarrow> nat \<Rightarrow> ustr list \<Rightarrow> ustr \<Rightarrow> unit + ustr list" where
  "split_dots [] depth parts cur = (if depth \<noteq> 0 then Inl () else Inr (parts @ [cur]))"
| "split_dots (ch # s) depth parts cur =
     (if ch = 40 then split_dots s (depth + 1) parts (cur @ [ch])
      else if ch = 41 then if depth = 0 then Inl () else split_dots s (depth - 1) parts (cur @ [ch])
      else if ch = 46 \<and> depth = 0 then split_dots s depth (parts @ [cur]) []
      else split_dots s depth parts (cur @ [ch]))"

text \<open>\<open>rfind\<close>: the text up to and behind the last occurrence.\<close>

definition rsplit_once :: "nat \<Rightarrow> ustr \<Rightarrow> (ustr \<times> ustr) option" where
  "rsplit_once c s = map_option (\<lambda>(a, b). (rev b, rev a)) (split_once c (rev s))"

definition split_call :: "ustr \<Rightarrow> msg + ustr \<times> ustr option" where
  "split_call s = (case split_once 40 s of
     None \<Rightarrow> Inr (s, None)
   | Some (before, behind) \<Rightarrow> thenE (ok_or (MissingParen s) (rsplit_once 41 s)) (\<lambda>(upto, rest).
       if length upto < length before then Inl (MalformedCall s)
       else if rest \<noteq> [] then Inl (TrailingChars s)
       else Inr (trim before, Some (trim (drop (length before + 1) upto)))))"

definition parse_target :: "ustr \<Rightarrow> msg + target" where
  "parse_target s = (if s = str_of ''thermal'' then Inr Thermal else if s = str_of ''battery'' then Inr Battery
     else if s = str_of ''rtc'' then Inr Rtc else Inl (UnknownTarget s))"

definition accessor :: "ustr \<Rightarrow> ustr" where
  "accessor s = (case strip_suffix (str_of ''()'') (trim s) of Some p \<Rightarrow> p | None \<Rightarrow> trim s)"

definition parse_call :: "'ts script_host \<Rightarrow> ustr \<Rightarrow> msg + 'ts call" where
  "parse_call host src = (case split_dots src 0 [] [] of
     Inl _ \<Rightarrow> Inl (Unbalanced src)
   | Inr parts \<Rightarrow>
       if length parts < 2 then Inl (NoMethod src)
       else thenE (parse_target (trim (parts ! 0))) (\<lambda>t.
         thenE (split_call (trim (parts ! 1))) (\<lambda>(method_name, arg).
         thenE (build_method host t method_name arg) (\<lambda>m.
         let projection = map accessor (drop 2 parts) in
         case find (\<lambda>p. \<not> is_ident p \<and> \<not> list_all is_ascii_digit p) projection of
           Some p \<Rightarrow> Inl (InvalidAccessor p)
         | None \<Rightarrow> Inr \<lparr>call_target = t, call_method = m, call_projection = projection\<rparr>))))"

section \<open>Statements and scripts\<close>

definition parse_stmt :: "'ts script_host \<Rightarrow> nat \<Rightarrow> ustr \<Rightarrow> msg + 'ts stmt" where
  "parse_stmt host line src = (case strip_prefix (str_of ''sleep '') src of
     Some rest \<Rightarrow> thenE (parse_duration host (trim rest)) (\<lambda>d. Inr (Sleep line d))
   | None \<Rightarrow> (case strip_prefix (str_of ''let '') src of
       Some rest \<Rightarrow> thenE (ok_or (LetSyntax src) (split_once 61 rest)) (\<lambda>(n, expr).
         let name = trim n in
         if \<not> is_ident name then Inl (InvalidName name)
         else thenE (parse_call host (trim expr)) (\<lambda>call. Inr (Let line src name call)))
     | None \<Rightarrow> thenE (ok_or (NoSeparator src) (split_once_str (str_of ''=>'') src)) (\<lambda>(call_src, verb_src).
         thenE (parse_call host (trim call_src)) (\<lambda>call.
         thenE (parse_verb (trim verb_src)) (\<lambda>verb. Inr (Check line src call verb))))))"

text \<open>The inner loop: take the statements off the front of the buffer.\<close>

lemma split_once_by_length: "split_once_by P s = Some (a, b) \<Longrightarrow> length s = Suc (length a + length b)"
  by (induction s arbitrary: a) (auto split: if_splits option.splits)

lemma length_trim_start: "length (trim_start s) \<le> length s"
  by (simp add: trim_start_def length_dropWhile_le)

function take_stmts ::
  "'ts script_host \<Rightarrow> nat \<Rightarrow> ustr \<Rightarrow> nat \<Rightarrow> 'ts stmt list \<Rightarrow> parse_error + ustr \<times> nat \<times> 'ts stmt list" where
  "take_stmts host lineno buf start_line out = (case split_once 59 buf of
     None \<Rightarrow> Inr (buf, start_line, out)
   | Some (a, b) \<Rightarrow> let stmt_src = trim a; buf' = trim_start b in
       if stmt_src = [] then take_stmts host lineno buf' lineno out
       else case parse_stmt host start_line stmt_src of
         Inl m \<Rightarrow> Inl \<lparr>err_line = start_line, err_message = m\<rparr>
       | Inr stmt \<Rightarrow> take_stmts host lineno buf' lineno (out @ [stmt]))"
  by pat_completeness auto
termination
  by (relation "measure (\<lambda>(host, lineno, buf, start_line, out). length buf)")
    (auto dest!: split_once_by_length simp: le_imp_less_Suc length_trim_start le_SucI trans_le_add2)

declare take_stmts.simps [simp del]

text \<open>What is left of a line: up to a comment, and without blanks around it.\<close>

definition clean_line :: "ustr \<Rightarrow> ustr" where
  "clean_line raw = trim (case split_once 35 raw of Some (a, _) \<Rightarrow> a | None \<Rightarrow> raw)"

fun parse_lines ::
  "'ts script_host \<Rightarrow> (nat \<times> ustr) list \<Rightarrow> ustr \<Rightarrow> nat \<Rightarrow> 'ts stmt list \<Rightarrow> parse_error + 'ts stmt list" where
  "parse_lines host [] buf start_line out =
     (if trim buf \<noteq> [] then Inl \<lparr>err_line = start_line, err_message = Unterminated (trim buf)\<rparr> else Inr out)"
| "parse_lines host ((idx, raw) # ls) buf start_line out =
     (let lineno = idx + 1; line = clean_line raw in
      if line = [] then parse_lines host ls buf start_line out
      else let (start_line, buf) = (if buf = [] then (lineno, []) else (start_line, buf @ [32])) in
        thenE (take_stmts host lineno (buf @ line) start_line out) (\<lambda>(buf, start_line, out).
        parse_lines host ls buf start_line out))"

definition parse :: "'ts script_host \<Rightarrow> ustr \<Rightarrow> parse_error + 'ts stmt list" where
  "parse host src = parse_lines host (enumerate 0 (lines src)) [] 0 []"

end
