(* ===== verification/ScriptExec.thy ===== *)
theory ScriptExec
  imports ScriptParse
begin

text \<open>
  Running scripts: src/ec/test-script/src/value.rs, verbs.rs, runner.rs, exec.rs and \<open>run_script\<close> of
  lib.rs. The lines the runner prints are the list \<open>printed\<close>; texts formatted from errors are values,
  and the detail of a passed row, which is not printed, is dropped.
\<close>

section \<open>Values\<close>

datatype val = VUnit | VNum f64 | VBool bool | VStruct "(ustr \<times> val) list"

datatype 'e fault =
    NoField ustr "ustr list" | CannotProject ustr string | Expected string string
  | Undefined ustr | BoolArgument | OutOfU32 f64 | SourceFault 'e error_kind

fun kind_name :: "val \<Rightarrow> string" where
  "kind_name VUnit = ''unit''"
| "kind_name (VNum n) = ''number''"
| "kind_name (VBool b) = ''bool''"
| "kind_name (VStruct fs) = ''struct''"

fun project :: "val \<Rightarrow> ustr list \<Rightarrow> 'e fault + val" where
  "project v [] = Inr v"
| "project v (seg # path) = (case v of
     VStruct fs \<Rightarrow> (case map_of fs seg of
         Some w \<Rightarrow> project w path
       | None \<Rightarrow> Inl (NoField seg (map fst fs)))
   | _ \<Rightarrow> Inl (CannotProject seg (kind_name v)))"

fun as_num :: "val \<Rightarrow> 'e fault + f64" where
  "as_num (VNum n) = Inr n"
| "as_num v = Inl (Expected ''number'' (kind_name v))"

fun as_bool :: "val \<Rightarrow> 'e fault + bool" where
  "as_bool (VBool b) = Inr b"
| "as_bool v = Inl (Expected ''bool'' (kind_name v))"

section \<open>The runner\<close>

datatype outcome_kind = Passed | Failed

datatype 'e detail =
    NoDetail | LetBound ustr val | LetFailed ustr "'e fault"
  | ExpectedOk "'e fault" | ExpectedErr val | CallFailed "'e fault" | OkGotErr "'e fault"
  | Faulty "'e fault" | BoolMismatch bool string bool | NumMismatch f64 string f64 | NotInRange f64 f64 f64 bool

record 'e runner =
  passed :: u32
  failed :: u32
  printed :: "(nat \<times> ustr \<times> outcome_kind \<times> 'e detail) list"

record summary =
  sum_passed :: u32
  sum_failed :: u32

definition runner_new :: "'e runner" where
  "runner_new = \<lparr>passed = 0, failed = 0, printed = []\<rparr>"

definition record_row :: "nat \<Rightarrow> ustr \<Rightarrow> outcome_kind \<Rightarrow> 'e detail \<Rightarrow> 'e runner \<Rightarrow> 'e runner" where
  "record_row line name res detail r = (case res of
     Passed \<Rightarrow> r\<lparr>passed := passed r + 1, printed := printed r @ [(line, name, res, NoDetail)]\<rparr>
   | Failed \<Rightarrow> r\<lparr>failed := failed r + 1, printed := printed r @ [(line, name, res, detail)]\<rparr>)"

definition into_summary :: "'e runner \<Rightarrow> summary" where
  "into_summary r = \<lparr>sum_passed = passed r, sum_failed = failed r\<rparr>"

definition summary_total :: "summary \<Rightarrow> u32" where "summary_total s = sum_passed s + sum_failed s"

definition all_passed :: "summary \<Rightarrow> bool" where "all_passed s \<longleftrightarrow> sum_failed s = 0"

section \<open>Calling the source\<close>

type_synonym env = "ustr \<Rightarrow> val option"

definition num_arg :: "operand \<Rightarrow> env \<Rightarrow> 'e fault + f64" where
  "num_arg op env = (case op of
     OpNum n \<Rightarrow> Inr n
   | OpBool b \<Rightarrow> Inl BoolArgument
   | OpVar name \<Rightarrow> thenE (ok_or (Undefined name) (env name)) as_num)"

definition u32_arg :: "operand \<Rightarrow> env \<Rightarrow> 'e fault + u32" where
  "u32_arg op env = thenE (num_arg op env) (\<lambda>n.
     if \<not> is_finite n \<or> flt n (Fin 0) \<or> flt u32_max_f64 n then Inl (OutOfU32 n) else Inr (f64_to_u32 n))"

definition num_u32 :: "u32 \<Rightarrow> val" where "num_u32 x = VNum (f64_of_nat (unat x))"

definition bst_to_value :: "bst_return \<Rightarrow> val" where
  "bst_to_value b = VStruct
     [(str_of ''battery_state'', num_u32 (battery_state b)),
      (str_of ''battery_present_rate'', num_u32 (battery_present_rate b)),
      (str_of ''battery_remaining_capacity'', num_u32 (battery_remaining_capacity b)),
      (str_of ''battery_present_voltage'', num_u32 (battery_present_voltage b))]"

definition bix_to_value :: "bix_fixed_strings \<Rightarrow> val" where
  "bix_to_value b = VStruct
     [(str_of ''revision'', num_u32 (bix_revision b)),
      (str_of ''design_capacity'', num_u32 (design_capacity b)),
      (str_of ''last_full_charge_capacity'', num_u32 (last_full_charge_capacity b)),
      (str_of ''design_voltage'', num_u32 (design_voltage b)),
      (str_of ''design_cap_of_warning'', num_u32 (design_cap_of_warning b)),
      (str_of ''design_cap_of_low'', num_u32 (design_cap_of_low b)),
      (str_of ''cycle_count'', num_u32 (cycle_count b)),
      (str_of ''measurement_accuracy'', num_u32 (measurement_accuracy b)),
      (str_of ''max_sampling_time'', num_u32 (max_sampling_time b)),
      (str_of ''min_sampling_time'', num_u32 (min_sampling_time b)),
      (str_of ''max_averaging_interval'', num_u32 (max_averaging_interval b)),
      (str_of ''min_averaging_interval'', num_u32 (min_averaging_interval b)),
      (str_of ''battery_capacity_granularity_1'', num_u32 (battery_capacity_granularity_1 b)),
      (str_of ''battery_capacity_granularity_2'', num_u32 (battery_capacity_granularity_2 b))]"

definition flag_struct :: "(ustr \<Rightarrow> u32 \<Rightarrow> bool) \<Rightarrow> string list \<Rightarrow> u32 \<Rightarrow> val" where
  "flag_struct flag names w = VStruct (map (\<lambda>n. (str_of n, VBool (flag (str_of n) w))) names)"

definition caps_to_value :: "'ts script_host \<Rightarrow> u32 \<Rightarrow> val" where
  "caps_to_value host = flag_struct (cap_flag host)
     [''ac_wake_implemented'', ''dc_wake_implemented'', ''realtime_implemented'',
      ''realtime_accuracy_in_milliseconds'', ''get_wake_status_supported'', ''ac_s4_wake_supported'',
      ''ac_s5_wake_supported'', ''dc_s4_wake_supported'', ''dc_s5_wake_supported'']"

definition wake_status_to_value :: "'ts script_host \<Rightarrow> u32 \<Rightarrow> val" where
  "wake_status_to_value host = flag_struct (wake_flag host) [''timer_expired'', ''timer_triggered_wake'']"

definition timestamp_to_value :: "'ts script_host \<Rightarrow> 'ts \<Rightarrow> val" where
  "timestamp_to_value host t = (let unix = f64_of_int (unix_timestamp host t) in VStruct
     [(str_of ''datetime'', VStruct [(str_of ''unix_timestamp'', VNum unix), (str_of ''to_unix_time_seconds'', VNum unix)]),
      (str_of ''unix_timestamp'', VNum unix)])"

definition word_to_value :: "u32 \<Rightarrow> val" where
  "word_to_value w = VStruct [(str_of ''0'', num_u32 w), (str_of ''value'', num_u32 w)]"

fun lib_threshold_of :: "threshold \<Rightarrow> lib_threshold" where
  "lib_threshold_of ThOn = On" | "lib_threshold_of ThRamping = Ramping" | "lib_threshold_of ThMax = Max"

text \<open>A call with its error formatted, and its value converted.\<close>

definition called :: "('s, 'e, 'ts) source \<Rightarrow> ('a \<Rightarrow> val) \<Rightarrow> ('s, 'e, 'a) ec_op \<Rightarrow> ('s, 'e fault, val) ec_op" where
  "called src conv m = op_then (op_map (\<lambda>e. SourceFault e (src_kind src e)) m) (\<lambda>x. op_ret (conv x))"

fun invoke :: "'ts script_host \<Rightarrow> ('s, 'e, 'ts) source \<Rightarrow> 'ts script_method \<Rightarrow> env \<Rightarrow> ('s, 'e fault, val) ec_op" where
  "invoke host src GetTemperature env = called src VNum (src_get_temperature src)"
| "invoke host src GetRpm env = called src VNum (src_get_rpm src)"
| "invoke host src GetMinRpm env = called src VNum (src_get_min_rpm src)"
| "invoke host src GetMaxRpm env = called src VNum (src_get_max_rpm src)"
| "invoke host src (GetThreshold t) env = called src VNum (src_get_threshold src (lib_threshold_of t))"
| "invoke host src (SetRpm rpm) env =
     op_then (op_lift (num_arg rpm env)) (\<lambda>n. called src (\<lambda>_. VUnit) (src_set_rpm src n))"
| "invoke host src (SetThreshold t v) env =
     op_then (op_lift (num_arg v env)) (\<lambda>n. called src (\<lambda>_. VUnit) (src_set_threshold src (lib_threshold_of t) n))"
| "invoke host src GetBst env = called src bst_to_value (src_get_bst src)"
| "invoke host src GetBix env = called src bix_to_value (src_get_bix src)"
| "invoke host src (SetBtp v) env =
     op_then (op_lift (u32_arg v env)) (\<lambda>n. called src (\<lambda>_. VUnit) (src_set_btp src n))"
| "invoke host src GetCapabilities env = called src (caps_to_value host) (src_get_capabilities src)"
| "invoke host src GetRealTime env = called src (timestamp_to_value host) (src_get_real_time src)"
| "invoke host src (SetRealTime ts) env = called src (\<lambda>_. VUnit) (src_set_real_time src ts)"
| "invoke host src (GetWakeStatus i) env = called src (wake_status_to_value host) (src_get_wake_status src i)"
| "invoke host src (GetExpiredTimerWakePolicy i) env =
     called src word_to_value (src_get_expired_timer_wake_policy src i)"
| "invoke host src (GetTimerValue i) env = called src word_to_value (src_get_timer_value src i)"
| "invoke host src (SetTimerValue i v) env =
     op_then (op_lift (u32_arg v env)) (\<lambda>n. called src (\<lambda>_. VUnit) (src_set_timer_value src i n))"
| "invoke host src (SetExpiredTimerWakePolicy i v) env =
     op_then (op_lift (u32_arg v env)) (\<lambda>n. called src (\<lambda>_. VUnit) (src_set_expired_timer_wake_policy src i n))"
| "invoke host src (ClearWakeStatus i) env = called src (\<lambda>_. VUnit) (src_clear_wake_status src i)"

definition eval_call :: "'ts script_host \<Rightarrow> ('s, 'e, 'ts) source \<Rightarrow> 'ts call \<Rightarrow> env \<Rightarrow> ('s, 'e fault, val) ec_op" where
  "eval_call host src call env =
     op_then (invoke host src (call_method call) env) (\<lambda>v. op_lift (project v (call_projection call)))"

section \<open>Verbs\<close>

definition resolve :: "env \<Rightarrow> operand \<Rightarrow> 'e fault + val" where
  "resolve env op = (case op of OpNum n \<Rightarrow> Inr (VNum n) | OpBool b \<Rightarrow> Inr (VBool b)
     | OpVar name \<Rightarrow> ok_or (Undefined name) (env name))"

definition cmp :: "env \<Rightarrow> val \<Rightarrow> operand \<Rightarrow> (f64 \<Rightarrow> f64 \<Rightarrow> bool) \<Rightarrow> string \<Rightarrow> bool \<times> 'e detail" where
  "cmp env value op f rel = (case resolve env op of
     Inl e \<Rightarrow> (False, Faulty e)
   | Inr rhs \<Rightarrow>
       let nums = (case as_num value of Inl e \<Rightarrow> (False, Faulty e)
            | Inr a \<Rightarrow> (case as_num rhs of Inl e \<Rightarrow> (False, Faulty e)
                | Inr b \<Rightarrow> if f a b then (True, NoDetail) else (False, NumMismatch a rel b))) in
       case value of VBool a \<Rightarrow> (case rhs of
           VBool b \<Rightarrow>
             if rel = ''=='' then if a = b then (True, NoDetail) else (False, BoolMismatch a rel b)
             else if rel = ''!='' then if a \<noteq> b then (True, NoDetail) else (False, BoolMismatch a rel b)
             else nums
         | _ \<Rightarrow> nums)
       | _ \<Rightarrow> nums)"

definition in_range :: "f64 \<Rightarrow> f64 \<Rightarrow> f64 \<Rightarrow> bool \<Rightarrow> bool" where
  "in_range a lo hi inclusive \<longleftrightarrow> fle lo a \<and> (if inclusive then fle a hi else flt a hi)"

definition value_in_range :: "val \<Rightarrow> f64 \<Rightarrow> f64 \<Rightarrow> bool \<Rightarrow> bool \<times> 'e detail" where
  "value_in_range value lo hi inclusive = (case as_num value of
     Inl e \<Rightarrow> (False, Faulty e)
   | Inr a \<Rightarrow> if in_range a lo hi inclusive then (True, NoDetail) else (False, NotInRange a lo hi inclusive))"

text \<open>\<open>is_ok\<close> and \<open>is_err\<close> do not reach it: the code panics there.\<close>

fun apply_value_verb :: "verb \<Rightarrow> val \<Rightarrow> env \<Rightarrow> (bool \<times> 'e detail) option" where
  "apply_value_verb (VEq op) v env = Some (cmp env v op feq ''=='')"
| "apply_value_verb (VNe op) v env = Some (cmp env v op (\<lambda>a b. \<not> feq a b) ''!='')"
| "apply_value_verb (VGt op) v env = Some (cmp env v op (\<lambda>a b. flt b a) ''>'')"
| "apply_value_verb (VGe op) v env = Some (cmp env v op (\<lambda>a b. fle b a) ''>='')"
| "apply_value_verb (VLt op) v env = Some (cmp env v op flt ''<'')"
| "apply_value_verb (VLe op) v env = Some (cmp env v op fle ''<='')"
| "apply_value_verb (VInRange lo hi inclusive) v env = Some (value_in_range v lo hi inclusive)"
| "apply_value_verb (VOkEq op) v env = Some (cmp env v op feq ''=='')"
| "apply_value_verb (VOkGt op) v env = Some (cmp env v op (\<lambda>a b. flt b a) ''>'')"
| "apply_value_verb (VOkGe op) v env = Some (cmp env v op (\<lambda>a b. fle b a) ''>='')"
| "apply_value_verb (VOkLt op) v env = Some (cmp env v op flt ''<'')"
| "apply_value_verb (VOkLe op) v env = Some (cmp env v op fle ''<='')"
| "apply_value_verb (VOkInRange lo hi inclusive) v env = Some (value_in_range v lo hi inclusive)"
| "apply_value_verb VIsOk v env = None"
| "apply_value_verb VIsErr v env = None"

fun is_ok_verb :: "verb \<Rightarrow> bool" where
  "is_ok_verb (VOkEq _) = True" | "is_ok_verb (VOkGt _) = True" | "is_ok_verb (VOkGe _) = True"
| "is_ok_verb (VOkLt _) = True" | "is_ok_verb (VOkLe _) = True" | "is_ok_verb (VOkInRange _ _ _) = True"
| "is_ok_verb _ = False"

text \<open>\<open>None\<close> is the panic of \<open>unreachable!\<close>.\<close>

definition apply_verb :: "verb \<Rightarrow> 'e fault + val \<Rightarrow> env \<Rightarrow> (bool \<times> 'e detail) option" where
  "apply_verb verb actual env = (case verb of
     VIsOk \<Rightarrow> Some (case actual of Inr v \<Rightarrow> (True, NoDetail) | Inl e \<Rightarrow> (False, ExpectedOk e))
   | VIsErr \<Rightarrow> Some (case actual of Inl e \<Rightarrow> (True, NoDetail) | Inr v \<Rightarrow> (False, ExpectedErr v))
   | _ \<Rightarrow> (case actual of
       Inl e \<Rightarrow> Some (False, if is_ok_verb verb then OkGotErr e else CallFailed e)
     | Inr value \<Rightarrow> apply_value_verb verb value env))"

section \<open>Statements\<close>

type_synonym ('s, 'e) exec_state = "'s \<times> env \<times> 'e runner"

fun execute :: "'ts script_host \<Rightarrow> ('s, 'e, 'ts) source \<Rightarrow> 'ts stmt \<Rightarrow> ('s, 'e) exec_state \<Rightarrow> ('s, 'e) exec_state option" where
  "execute host src (Sleep line duration) (s, env, runner) = Some (src_wait src duration s, env, runner)"
| "execute host src (Let line text name call) (s, env, runner) = (case eval_call host src call env s of
     (Inr v, s') \<Rightarrow> Some (s', env(name \<mapsto> v), record_row line text Passed (LetBound name v) runner)
   | (Inl e, s') \<Rightarrow> Some (s', env, record_row line text Failed (LetFailed name e) runner))"
| "execute host src (Check line text call verb) (s, env, runner) = (case eval_call host src call env s of
     (result, s') \<Rightarrow> (case apply_verb verb result env of
        None \<Rightarrow> None
      | Some (ok, detail) \<Rightarrow> Some (s', env, record_row line text (if ok then Passed else Failed) detail runner)))"

fun execute_all ::
  "'ts script_host \<Rightarrow> ('s, 'e, 'ts) source \<Rightarrow> 'ts stmt list \<Rightarrow> ('s, 'e) exec_state \<Rightarrow> ('s, 'e) exec_state option" where
  "execute_all host src [] st = Some st"
| "execute_all host src (stmt # stmts) st = Option.bind (execute host src stmt st) (execute_all host src stmts)"

text \<open>The outer option is a panic, the sum the result; the printed rows and the source state come along.\<close>

definition run_script ::
  "'ts script_host \<Rightarrow> ('s, 'e, 'ts) source \<Rightarrow> ustr \<Rightarrow> 's \<Rightarrow> (parse_error + summary \<times> ('s, 'e) exec_state) option" where
  "run_script host src script s = (case parse host script of
     Inl e \<Rightarrow> Some (Inl e)
   | Inr stmts \<Rightarrow> map_option (\<lambda>st. Inr (into_summary (snd (snd st)), st))
       (execute_all host src stmts (s, Map.empty, runner_new)))"

end
