(* ===== verification/ScriptRun.thy ===== *)
theory ScriptRun
  imports ScriptExec
begin

text \<open>
  What running a script does: no statement reaches the panic, the rows printed are the statements in
  order, the summary counts them, and a static type discipline for scripts is sound.
\<close>

section \<open>Rows and counts\<close>

fun row_of :: "'ts stmt \<Rightarrow> (nat \<times> ustr) list" where
  "row_of (Sleep line duration) = []"
| "row_of (Let line text name call) = [(line, text)]"
| "row_of (Check line text call verb) = [(line, text)]"

definition outcomes :: "outcome_kind \<Rightarrow> 'e runner \<Rightarrow> nat" where
  "outcomes k r = length (filter (\<lambda>(_, _, res, _). res = k) (printed r))"

definition tallied :: "'e runner \<Rightarrow> bool" where
  "tallied r \<longleftrightarrow> passed r = of_nat (outcomes Passed r) \<and> failed r = of_nat (outcomes Failed r)"

lemma record_row_printed [simp]:
  "map (\<lambda>(l, t, _). (l, t)) (printed (record_row line name res d r)) =
   map (\<lambda>(l, t, _). (l, t)) (printed r) @ [(line, name)]"
  by (simp add: record_row_def split: outcome_kind.split)

lemma record_row_tallied [intro]: "tallied r \<Longrightarrow> tallied (record_row line name res d r)"
  by (simp add: tallied_def outcomes_def record_row_def split: outcome_kind.split)

lemma tallied_new [simp]: "tallied runner_new"
  by (simp add: tallied_def outcomes_def runner_new_def)

lemma outcomes_sum: "outcomes Passed r + outcomes Failed r = length (printed r)"
proof -
  have "length (filter (\<lambda>(_, _, res, _). res = Passed) xs) + length (filter (\<lambda>(_, _, res, _). res = Failed) xs)
      = length xs" for xs :: "(nat \<times> ustr \<times> outcome_kind \<times> 'a detail) list"
    by (induction xs) (auto, metis outcome_kind.exhaust)
  then show ?thesis by (simp add: outcomes_def)
qed

text \<open>The verbs that reach \<open>apply_value_verb\<close> are those it covers.\<close>

lemma apply_verb_total: "apply_verb verb result env \<noteq> None"
  by (cases verb) (auto simp: apply_verb_def split: sum.split)

lemma execute_step:
  "\<exists>s' env' r'. execute host src stmt (s, env, r) = Some (s', env', r')
     \<and> map (\<lambda>(l, t, _). (l, t)) (printed r') = map (\<lambda>(l, t, _). (l, t)) (printed r) @ row_of stmt
     \<and> (tallied r \<longrightarrow> tallied r')"
proof (cases stmt)
  case (Check num nm call verb)
  obtain res s' where ev: "eval_call host src call env s = (res, s')" by fastforce
  obtain ok d where av: "apply_verb verb res env = Some (ok, d)" using apply_verb_total [of verb res env] by auto
  then show ?thesis using Check ev by (auto simp: record_row_tallied)
next
  case (Let num nm name call)
  then show ?thesis by (cases "eval_call host src call env s"; cases "fst (eval_call host src call env s)")
      (auto simp: record_row_tallied)
qed simp

lemma execute_all_total:
  "\<exists>s' env' r'. execute_all host src stmts (s, env, r) = Some (s', env', r')
     \<and> map (\<lambda>(l, t, _). (l, t)) (printed r') = map (\<lambda>(l, t, _). (l, t)) (printed r) @ concat (map row_of stmts)
     \<and> (tallied r \<longrightarrow> tallied r')"
proof (induction stmts arbitrary: s env r)
  case (Cons stmt stmts)
  obtain s1 env1 r1 where 1: "execute host src stmt (s, env, r) = Some (s1, env1, r1)"
    "map (\<lambda>(l, t, _). (l, t)) (printed r1) = map (\<lambda>(l, t, _). (l, t)) (printed r) @ row_of stmt"
    "tallied r \<longrightarrow> tallied r1"
    using execute_step [of host src stmt s env r] by blast
  then show ?case using Cons.IH [of s1 env1 r1] by auto
qed simp

section \<open>Types\<close>

datatype ty = TyUnit | TyNum | TyBool | TyStruct "(ustr \<times> ty) list"

fun type_of :: "val \<Rightarrow> ty" where
  "type_of VUnit = TyUnit"
| "type_of (VNum n) = TyNum"
| "type_of (VBool b) = TyBool"
| "type_of (VStruct fs) = TyStruct (map (\<lambda>(k, v). (k, type_of v)) fs)"

definition struct_type :: "ty \<Rightarrow> string list \<Rightarrow> ty" where
  "struct_type t names = TyStruct (map (\<lambda>n. (str_of n, t)) names)"

fun method_type :: "'ts script_method \<Rightarrow> ty" where
  "method_type GetBst = struct_type TyNum
     [''battery_state'', ''battery_present_rate'', ''battery_remaining_capacity'', ''battery_present_voltage'']"
| "method_type GetBix = struct_type TyNum
     [''revision'', ''design_capacity'', ''last_full_charge_capacity'', ''design_voltage'',
      ''design_cap_of_warning'', ''design_cap_of_low'', ''cycle_count'', ''measurement_accuracy'',
      ''max_sampling_time'', ''min_sampling_time'', ''max_averaging_interval'', ''min_averaging_interval'',
      ''battery_capacity_granularity_1'', ''battery_capacity_granularity_2'']"
| "method_type GetCapabilities = struct_type TyBool
     [''ac_wake_implemented'', ''dc_wake_implemented'', ''realtime_implemented'',
      ''realtime_accuracy_in_milliseconds'', ''get_wake_status_supported'', ''ac_s4_wake_supported'',
      ''ac_s5_wake_supported'', ''dc_s4_wake_supported'', ''dc_s5_wake_supported'']"
| "method_type GetRealTime = TyStruct
     [(str_of ''datetime'', struct_type TyNum [''unix_timestamp'', ''to_unix_time_seconds'']),
      (str_of ''unix_timestamp'', TyNum)]"
| "method_type (GetWakeStatus i) = struct_type TyBool [''timer_expired'', ''timer_triggered_wake'']"
| "method_type (GetExpiredTimerWakePolicy i) = struct_type TyNum [''0'', ''value'']"
| "method_type (GetTimerValue i) = struct_type TyNum [''0'', ''value'']"
| "method_type GetTemperature = TyNum" | "method_type GetRpm = TyNum" | "method_type GetMinRpm = TyNum"
| "method_type GetMaxRpm = TyNum" | "method_type (GetThreshold t) = TyNum"
| "method_type (SetRpm r) = TyUnit" | "method_type (SetThreshold t v) = TyUnit"
| "method_type (SetBtp v) = TyUnit" | "method_type (SetRealTime t) = TyUnit"
| "method_type (SetTimerValue i v) = TyUnit" | "method_type (SetExpiredTimerWakePolicy i v) = TyUnit"
| "method_type (ClearWakeStatus i) = TyUnit"

fun proj_type :: "ty \<Rightarrow> ustr list \<Rightarrow> ty option" where
  "proj_type t [] = Some t"
| "proj_type t (seg # path) = (case t of
     TyStruct fs \<Rightarrow> Option.bind (map_of fs seg) (\<lambda>u. proj_type u path)
   | _ \<Rightarrow> None)"

type_synonym ty_env = "ustr \<Rightarrow> ty option"

fun operand_type :: "ty_env \<Rightarrow> operand \<Rightarrow> ty option" where
  "operand_type G (OpNum n) = Some TyNum"
| "operand_type G (OpBool b) = Some TyBool"
| "operand_type G (OpVar x) = G x"

fun args_ok :: "ty_env \<Rightarrow> 'ts script_method \<Rightarrow> bool" where
  "args_ok G (SetRpm v) \<longleftrightarrow> operand_type G v = Some TyNum"
| "args_ok G (SetThreshold t v) \<longleftrightarrow> operand_type G v = Some TyNum"
| "args_ok G (SetBtp v) \<longleftrightarrow> operand_type G v = Some TyNum"
| "args_ok G (SetTimerValue i v) \<longleftrightarrow> operand_type G v = Some TyNum"
| "args_ok G (SetExpiredTimerWakePolicy i v) \<longleftrightarrow> operand_type G v = Some TyNum"
| "args_ok G _ \<longleftrightarrow> True"

definition call_type :: "ty_env \<Rightarrow> 'ts call \<Rightarrow> ty option" where
  "call_type G call = (if args_ok G (call_method call)
     then proj_type (method_type (call_method call)) (call_projection call) else None)"

fun verb_ok :: "ty_env \<Rightarrow> ty \<Rightarrow> verb \<Rightarrow> bool" where
  "verb_ok G t (VEq x) \<longleftrightarrow> operand_type G x = Some t \<and> t \<in> {TyNum, TyBool}"
| "verb_ok G t (VNe x) \<longleftrightarrow> operand_type G x = Some t \<and> t \<in> {TyNum, TyBool}"
| "verb_ok G t (VOkEq x) \<longleftrightarrow> operand_type G x = Some t \<and> t \<in> {TyNum, TyBool}"
| "verb_ok G t (VGt x) \<longleftrightarrow> operand_type G x = Some TyNum \<and> t = TyNum"
| "verb_ok G t (VGe x) \<longleftrightarrow> operand_type G x = Some TyNum \<and> t = TyNum"
| "verb_ok G t (VLt x) \<longleftrightarrow> operand_type G x = Some TyNum \<and> t = TyNum"
| "verb_ok G t (VLe x) \<longleftrightarrow> operand_type G x = Some TyNum \<and> t = TyNum"
| "verb_ok G t (VOkGt x) \<longleftrightarrow> operand_type G x = Some TyNum \<and> t = TyNum"
| "verb_ok G t (VOkGe x) \<longleftrightarrow> operand_type G x = Some TyNum \<and> t = TyNum"
| "verb_ok G t (VOkLt x) \<longleftrightarrow> operand_type G x = Some TyNum \<and> t = TyNum"
| "verb_ok G t (VOkLe x) \<longleftrightarrow> operand_type G x = Some TyNum \<and> t = TyNum"
| "verb_ok G t (VInRange a b i) \<longleftrightarrow> t = TyNum"
| "verb_ok G t (VOkInRange a b i) \<longleftrightarrow> t = TyNum"
| "verb_ok G t VIsOk \<longleftrightarrow> True"
| "verb_ok G t VIsErr \<longleftrightarrow> True"

fun typed_stmt :: "ty_env \<Rightarrow> 'ts stmt \<Rightarrow> ty_env option" where
  "typed_stmt G (Sleep line duration) = Some G"
| "typed_stmt G (Let line text name call) = (case call_type G call of None \<Rightarrow> None
     | Some t \<Rightarrow> if G name = None \<or> G name = Some t then Some (G(name \<mapsto> t)) else None)"
| "typed_stmt G (Check line text call verb) = (case call_type G call of None \<Rightarrow> None
     | Some t \<Rightarrow> if verb_ok G t verb then Some G else None)"

fun typed_stmts :: "ty_env \<Rightarrow> 'ts stmt list \<Rightarrow> ty_env option" where
  "typed_stmts G [] = Some G"
| "typed_stmts G (stmt # stmts) = Option.bind (typed_stmt G stmt) (\<lambda>G'. typed_stmts G' stmts)"

section \<open>Faults of typing\<close>

fun type_fault :: "'e fault \<Rightarrow> bool" where
  "type_fault (NoField a b) = True" | "type_fault (CannotProject a b) = True"
| "type_fault (Expected a b) = True" | "type_fault BoolArgument = True" | "type_fault _ = False"

fun fault_in :: "'e detail \<Rightarrow> 'e fault option" where
  "fault_in (LetFailed x e) = Some e" | "fault_in (ExpectedOk e) = Some e" | "fault_in (CallFailed e) = Some e"
| "fault_in (OkGotErr e) = Some e" | "fault_in (Faulty e) = Some e" | "fault_in _ = None"

definition sound_detail :: "'e detail \<Rightarrow> bool" where
  "sound_detail d \<longleftrightarrow> (case fault_in d of Some e \<Rightarrow> \<not> type_fault e | None \<Rightarrow> True)"

definition sound_rows :: "'e runner \<Rightarrow> bool" where
  "sound_rows r \<longleftrightarrow> list_all (\<lambda>(_, _, _, d). sound_detail d) (printed r)"

definition env_ok :: "ty_env \<Rightarrow> env \<Rightarrow> bool" where
  "env_ok G env \<longleftrightarrow> (\<forall>x v. env x = Some v \<longrightarrow> G x = Some (type_of v))"


lemma sound_record [simp]:
  "sound_rows (record_row num name res d r) \<longleftrightarrow> sound_rows r \<and> (res = Failed \<longrightarrow> sound_detail d)"
  by (auto simp: sound_rows_def record_row_def sound_detail_def split: outcome_kind.split)

section \<open>Soundness\<close>

lemma map_of_typed: "map_of (map (\<lambda>(k, v). (k, type_of v)) fs) seg = map_option type_of (map_of fs seg)"
  by (induction fs) auto

lemma project_typed:
  "case proj_type (type_of v) path of
     Some t \<Rightarrow> \<exists>w. (project v path :: 'e fault + val) = Inr w \<and> type_of w = t
   | None \<Rightarrow> \<exists>e. (project v path :: 'e fault + val) = Inl e \<and> type_fault e"
proof (induction path arbitrary: v)
  case (Cons seg path)
  show ?case
  proof (cases v)
    case (VStruct fs)
    then show ?thesis using Cons.IH [of "the (map_of fs seg)"]
      by (cases "map_of fs seg") (auto simp: map_of_typed split: option.splits)
  qed auto
qed simp

lemma num_u32_typed [simp]: "type_of (num_u32 x) = TyNum" by (simp add: num_u32_def)

lemma called_typed:
  assumes "called src conv m s = (res, s')"
  shows "(\<exists>x. res = Inr (conv x)) \<or> (\<exists>e. res = Inl (SourceFault e (src_kind src e)))"
  using assms by (auto simp: called_def op_then_def op_map_def op_ret_def split: sum.splits prod.splits)

text \<open>What a call through the source may return, given the type of the converted value.\<close>

definition well_answered :: "ty \<Rightarrow> 'e fault + val \<Rightarrow> bool" where
  "well_answered t res \<longleftrightarrow> (case res of Inr v \<Rightarrow> type_of v = t | Inl e \<Rightarrow> \<not> type_fault e)"

lemma called_answers: "(\<And>x. type_of (conv x) = t) \<Longrightarrow> well_answered t (fst (called src conv m s))"
  using called_typed [of src conv m s] by (cases "called src conv m s") (auto simp: well_answered_def)

lemma lift_called_answers:
  assumes "\<And>e. r = Inl e \<Longrightarrow> \<not> type_fault e" "\<And>n x. type_of (conv n x) = t"
  shows "well_answered t (fst (op_then (op_lift r) (\<lambda>n. called src (conv n) (m n)) s))"
proof (cases r)
  case (Inr n)
  then show ?thesis using called_answers [of "conv n" t src "m n" s] assms(2) by (simp add: op_then_def)
qed (use assms(1) in \<open>simp add: op_then_def well_answered_def\<close>)

lemma num_arg_sound:
  assumes "env_ok G env" "operand_type G op = Some TyNum" "num_arg op env = Inl e"
  shows "\<not> type_fault e"
proof (cases op)
  case (OpVar x)
  with assms show ?thesis
  proof (cases "env x")
    case (Some v)
    then have "type_of v = TyNum" using assms(1,2) OpVar by (auto simp: env_ok_def)
    then show ?thesis using assms(3) OpVar Some by (cases v) (auto simp: num_arg_def thenE_def ok_or_def)
  qed (auto simp: num_arg_def thenE_def ok_or_def)
qed (use assms in \<open>auto simp: num_arg_def\<close>)

lemma u32_arg_sound:
  assumes "env_ok G env" "operand_type G op = Some TyNum" "u32_arg op env = Inl e"
  shows "\<not> type_fault e"
proof (cases "num_arg op env :: 'a fault + f64")
  case (Inl e')
  then show ?thesis using num_arg_sound [OF assms(1,2) Inl] assms(3) by (simp add: u32_arg_def thenE_def)
next
  case (Inr n)
  then show ?thesis using assms(3) by (auto simp: u32_arg_def thenE_def split: if_splits)
qed

lemma conversions_typed [simp]:
  "type_of (bst_to_value b) = method_type GetBst" "type_of (bix_to_value x) = method_type GetBix"
  "type_of (caps_to_value host w) = method_type GetCapabilities"
  "type_of (wake_status_to_value host w) = method_type (GetWakeStatus i)"
  "type_of (timestamp_to_value host t) = method_type GetRealTime"
  "type_of (word_to_value w) = method_type (GetTimerValue i)"
  "type_of (word_to_value w) = method_type (GetExpiredTimerWakePolicy i)"
  by (simp_all add: bst_to_value_def bix_to_value_def caps_to_value_def wake_status_to_value_def flag_struct_def
      timestamp_to_value_def word_to_value_def struct_type_def Let_def)

lemma invoke_answers:
  assumes "env_ok G env" "args_ok G m"
  shows "well_answered (method_type m) (fst (invoke host src m env s))"
  using assms
  by (cases m)
     (auto simp del: method_type.simps(1-7) intro!: called_answers lift_called_answers
       dest: num_arg_sound u32_arg_sound)

text \<open>A well-typed call; an ill-typed projection never yields a value.\<close>

lemma eval_call_answers:
  fixes src :: "('s, 'e, 'ts) source"
  assumes "env_ok G env" "call_type G call = Some t"
  shows "well_answered t (fst (eval_call host src call env s))"
proof -
  have ok: "args_ok G (call_method call)" and pt: "proj_type (method_type (call_method call)) (call_projection call) = Some t"
    using assms(2) by (auto simp: call_type_def split: if_splits)
  have iv: "well_answered (method_type (call_method call)) (fst (invoke host src (call_method call) env s))"
    by (rule invoke_answers [OF assms(1) ok])
  show ?thesis
  proof (cases "invoke host src (call_method call) env s")
    case (Pair res s')
    show ?thesis
    proof (cases res)
      case (Inr v)
      then have "type_of v = method_type (call_method call)" using iv Pair by (simp add: well_answered_def)
      then show ?thesis using project_typed [where 'e = 'e, of v "call_projection call"] pt Pair Inr
        by (auto simp: eval_call_def op_then_def well_answered_def)
    qed (use iv Pair in \<open>simp add: eval_call_def op_then_def well_answered_def\<close>)
  qed
qed

lemma eval_call_ill_projected:
  fixes src :: "('s, 'e, 'ts) source"
  assumes "env_ok G env" "args_ok G (call_method call)"
    "proj_type (method_type (call_method call)) (call_projection call) = None"
  shows "\<exists>e. fst (eval_call host src call env s) = Inl e"
proof (cases "invoke host src (call_method call) env s")
  case (Pair res s')
  show ?thesis
  proof (cases res)
    case (Inr v)
    then have "type_of v = method_type (call_method call)"
      using invoke_answers [OF assms(1,2), of host src s] Pair by (simp add: well_answered_def)
    then show ?thesis using project_typed [where 'e = 'e, of v "call_projection call"] assms(3) Pair Inr
      by (auto simp: eval_call_def op_then_def)
  qed (use Pair in \<open>simp add: eval_call_def op_then_def\<close>)
qed

lemma resolve_typed:
  assumes "env_ok G env" "operand_type G op = Some t"
  shows "well_answered t (resolve env op)"
  using assms by (cases op) (auto simp: resolve_def well_answered_def ok_or_def env_ok_def split: option.splits)

lemma type_of_cases:
  "type_of v = TyNum \<longleftrightarrow> (\<exists>n. v = VNum n)" "type_of v = TyBool \<longleftrightarrow> (\<exists>b. v = VBool b)"
  by (cases v; simp)+

lemma cmp_sound:
  fixes d :: "'e detail"
  assumes "env_ok G env" "operand_type G op = Some t" "type_of v = t" "t = TyNum \<or> (t = TyBool \<and> (rel = ''=='' \<or> rel = ''!=''))"
    "cmp env v op f rel = (ok, d)"
  shows "sound_detail d"
proof (cases "resolve env op :: 'e fault + val")
  case (Inl e)
  then show ?thesis using assms resolve_typed [where 'a = 'e, OF assms(1,2)] by (auto simp: cmp_def well_answered_def sound_detail_def)
next
  case (Inr w)
  then have "type_of w = t" using resolve_typed [where 'a = 'e, OF assms(1,2)] by (simp add: well_answered_def)
  then show ?thesis using assms(3-5) Inr
    by (elim disjE) (auto simp: cmp_def sound_detail_def type_of_cases split: if_splits)
qed

lemma value_in_range_sound:
  "type_of v = TyNum \<Longrightarrow> value_in_range v lo hi inclusive = (ok, d) \<Longrightarrow> sound_detail d"
  by (auto simp: value_in_range_def sound_detail_def type_of_cases split: if_splits)

lemma value_verb_sound:
  assumes "env_ok G env" "type_of v = t" "verb_ok G t verb" "apply_value_verb verb v env = Some (ok, d)"
  shows "sound_detail d"
  using assms by (cases verb) (auto intro: cmp_sound value_in_range_sound)

lemma apply_verb_value:
  "verb \<notin> {VIsOk, VIsErr} \<Longrightarrow> apply_verb verb (Inr v) env = apply_value_verb verb v env"
  by (cases verb) (auto simp: apply_verb_def)

lemma apply_verb_sound:
  assumes "env_ok G env" "well_answered t res" "verb_ok G t verb" "apply_verb verb res env = Some (ok, d)"
  shows "sound_detail d"
proof (cases res)
  case (Inl e)
  then have e: "\<not> type_fault e" using assms(2) by (simp add: well_answered_def)
  show ?thesis using assms(4) Inl e by (cases verb) (auto simp: apply_verb_def sound_detail_def)
next
  case (Inr v)
  then have v: "type_of v = t" using assms(2) by (simp add: well_answered_def)
  show ?thesis
  proof (cases "verb \<in> {VIsOk, VIsErr}")
    case True
    then show ?thesis using assms(4) Inr by (auto simp: apply_verb_def sound_detail_def)
  next
    case False
    then have "apply_value_verb verb v env = Some (ok, d)" using assms(4) Inr by (simp add: apply_verb_value)
    then show ?thesis using value_verb_sound [OF assms(1) v assms(3)] by blast
  qed
qed

lemma execute_sound:
  assumes "env_ok G env" "sound_rows r" "typed_stmt G stmt = Some G'"
    "execute host src stmt (s, env, r) = Some (s', env', r')"
  shows "env_ok G' env' \<and> sound_rows r'"
proof (cases stmt)
  case (Check num nm call verb)
  obtain t where t: "call_type G call = Some t" "verb_ok G t verb" "G' = G"
    using assms(3) Check by (auto split: option.splits if_splits)
  obtain res s1 where ev: "eval_call host src call env s = (res, s1)" by fastforce
  have "well_answered t res" using eval_call_answers [OF assms(1) t(1), of host src s] ev by simp
  moreover obtain ok d where av: "apply_verb verb res env = Some (ok, d)" using apply_verb_total [of verb res env] by auto
  ultimately have "sound_detail d" using apply_verb_sound [OF assms(1) _ t(2)] by blast
  then show ?thesis using assms(1,2,4) Check ev av t(3) by auto
next
  case (Let num nm name call)
  obtain t where t: "call_type G call = Some t" "G name = None \<or> G name = Some t" "G' = G(name \<mapsto> t)"
    using assms(3) Let by (auto split: option.splits if_splits)
  obtain res s1 where ev: "eval_call host src call env s = (res, s1)" by fastforce
  have an: "well_answered t res" using eval_call_answers [OF assms(1) t(1), of host src s] ev by simp
  show ?thesis
  proof (cases res)
    case (Inl e)
    have "env_ok G' env" using assms(1) t(2,3) by (fastforce simp: env_ok_def)
    then show ?thesis using assms(2,4) Let ev Inl an by (auto simp: well_answered_def sound_detail_def)
  next
    case (Inr v)
    have "env_ok G' (env(name \<mapsto> v))" using assms(1) t(3) an Inr by (auto simp: env_ok_def well_answered_def)
    then show ?thesis using assms(2,4) Let ev Inr by auto
  qed
qed (use assms in auto)

lemma execute_all_sound:
  "env_ok G env \<Longrightarrow> sound_rows r \<Longrightarrow> typed_stmts G stmts = Some G' \<Longrightarrow>
   execute_all host src stmts (s, env, r) = Some (s', env', r') \<Longrightarrow> sound_rows r'"
proof (induction stmts arbitrary: G s env r)
  case (Cons stmt stmts)
  obtain G1 where g: "typed_stmt G stmt = Some G1" "typed_stmts G1 stmts = Some G'"
    using Cons.prems(3) by (auto simp: bind_eq_Some_conv)
  obtain s1 env1 r1 where x: "execute host src stmt (s, env, r) = Some (s1, env1, r1)"
    "execute_all host src stmts (s1, env1, r1) = Some (s', env', r')"
    using Cons.prems(4) by (auto simp: bind_eq_Some_conv)
  from execute_sound [OF Cons.prems(1,2) g(1) x(1)] show ?case using Cons.IH [OF _ _ g(2) x(2)] by blast
qed simp

text \<open>The verbs of the \<open>ok_\<close> family, once the call has succeeded, are the bare ones.\<close>

fun bare :: "verb \<Rightarrow> verb" where
  "bare (VOkEq x) = VEq x" | "bare (VOkGt x) = VGt x" | "bare (VOkGe x) = VGe x"
| "bare (VOkLt x) = VLt x" | "bare (VOkLe x) = VLe x" | "bare (VOkInRange lo hi i) = VInRange lo hi i"
| "bare v = v"

lemma bare_outcome: "map_option fst (apply_verb verb res env) = map_option fst (apply_verb (bare verb) res env)"
  by (cases verb) (auto simp: apply_verb_def split: sum.split)

end
