(* ===== verification/EcMock.thy ===== *)
theory EcMock
  imports EcSource
begin

text \<open>
  The mock data source, src/ec/test-lib/src/mock.rs. The clock is a parameter: \<open>clock i\<close> is what the reading
  number \<open>i\<close> returns, in nanoseconds, and the state counts the readings made. The state behind the mutexes is
  one record; no operation panics while it holds a lock, so no lock is ever poisoned.
\<close>

section \<open>Ramps\<close>

record ramp =
  ramp_current :: f64
  ramp_target :: f64
  start_value :: f64
  start_time :: nat
  duration_secs :: f64

definition EPSILON :: f64 where "EPSILON = Fin (1 / 2 ^ 52)"

text \<open>\<open>as_secs_f64\<close> of the time elapsed between two readings.\<close>

definition secs_f64 :: "nat \<Rightarrow> f64" where
  "secs_f64 ns = fadd (f64_of_nat (ns div 1000000000)) (fdiv (f64_of_nat (ns mod 1000000000)) (f64_of_nat 1000000000))"

definition elapsed_secs :: "nat \<Rightarrow> nat \<Rightarrow> f64" where "elapsed_secs start_t t = secs_f64 (t - start_t)"

definition fclamp :: "f64 \<Rightarrow> f64 \<Rightarrow> f64 \<Rightarrow> f64" where
  "fclamp lo hi x = (if flt x lo then lo else if flt hi x then hi else x)"

definition ramp_new :: "f64 \<Rightarrow> nat \<Rightarrow> ramp" where
  "ramp_new initial t = \<lparr>ramp_current = initial, ramp_target = initial, start_value = initial,
     start_time = t, duration_secs = Fin 0\<rparr>"

text \<open>The three operations below return with the number of readings they made of the clock from reading \<open>i\<close>.\<close>

type_synonym clock = "nat \<Rightarrow> nat"

definition ramp_set_target :: "clock \<Rightarrow> f64 \<Rightarrow> f64 \<Rightarrow> ramp \<times> nat \<Rightarrow> ramp \<times> nat" where
  "ramp_set_target clock target duration = (\<lambda>(r, i).
     if flt EPSILON (fabs64 (fsub (ramp_target r) target))
     then (r\<lparr>start_value := ramp_current r, ramp_target := target, start_time := clock i, duration_secs := duration\<rparr>, Suc i)
     else (r, i))"

definition ramp_value :: "clock \<Rightarrow> ramp \<times> nat \<Rightarrow> f64 \<times> ramp \<times> nat" where
  "ramp_value clock = (\<lambda>(r, i).
     if fle (duration_secs r) (Fin 0) then (ramp_target r, r\<lparr>ramp_current := ramp_target r\<rparr>, i)
     else let t = fclamp (Fin 0) (Fin 1) (fdiv (elapsed_secs (start_time r) (clock i)) (duration_secs r));
              v = fadd (start_value r) (fmul (fsub (ramp_target r) (start_value r)) t)
          in (v, r\<lparr>ramp_current := v\<rparr>, Suc i))"

definition ramp_settled :: "clock \<Rightarrow> ramp \<times> nat \<Rightarrow> bool \<times> nat" where
  "ramp_settled clock = (\<lambda>(r, i).
     if fle (duration_secs r) (Fin 0) then (True, i)
     else (fle (duration_secs r) (elapsed_secs (start_time r) (clock i)), Suc i))"

section \<open>Temperature\<close>

definition xorshift64 :: "u64 \<Rightarrow> u64" where
  "xorshift64 s0 = (let s1 = s0 XOR push_bit 13 s0; s2 = s1 XOR drop_bit 7 s1 in s2 XOR push_bit 17 s2)"

record temp_state =
  temp_ramp :: ramp
  rng :: u64
  idle_temp :: f64

definition IDLE_TEMP :: f64 where "IDLE_TEMP = Fin 25"
definition TEMP_RAMP_SECS :: f64 where "TEMP_RAMP_SECS = Fin 5"

definition temp_new :: "clock \<Rightarrow> nat \<Rightarrow> temp_state \<times> nat" where
  "temp_new clock i = (let seed = (word_of_nat (clock (Suc i) - clock i) :: u64) OR 1 in
     (\<lparr>temp_ramp = ramp_new IDLE_TEMP (clock (i + 2)), rng = seed, idle_temp = IDLE_TEMP\<rparr>, i + 3))"

definition hundredths :: "u64 \<Rightarrow> nat \<Rightarrow> f64" where
  "hundredths r n = fdiv (f64_of_nat (unat r mod n)) (Fin 100)"

definition load_target :: "u64 \<Rightarrow> f64" where
  "load_target r = (let kind = unat r mod 10 in
     if kind \<le> 3 then fadd (Fin 30) (hundredths r 800)
     else if kind \<le> 6 then fadd (Fin 40) (hundredths r 400)
     else if kind \<le> 8 then fadd (Fin 44) (hundredths r 600)
     else fadd (Fin 50) (hundredths r 300))"

definition temp_poll :: "clock \<Rightarrow> temp_state \<times> nat \<Rightarrow> f64 \<times> temp_state \<times> nat" where
  "temp_poll clock = (\<lambda>(t, i). let (settled, i1) = ramp_settled clock (temp_ramp t, i);
     (t2, i2) = (if settled then
         let r = xorshift64 (rng t);
             target = (if unat r mod 100 < 40 then load_target r else fadd (idle_temp t) (hundredths r 400));
             (ramp', i') = ramp_set_target clock target TEMP_RAMP_SECS (temp_ramp t, i1)
         in (t\<lparr>rng := r, temp_ramp := ramp'\<rparr>, i')
       else (t, i1));
     (v, ramp'', i3) = ramp_value clock (temp_ramp t2, i2)
   in (v, t2\<lparr>temp_ramp := ramp''\<rparr>, i3))"

section \<open>The mock\<close>

record bst_state =
  bs_state :: u32
  bs_capacity :: u32

record mock_thresholds =
  th_on :: f64
  th_ramping :: f64
  th_max :: f64

record mock_timer =
  mt_value :: u32
  mt_wake_policy :: u32
  mt_status :: u32

record 'ts mock_rtc =
  rtc_time :: 'ts
  rtc_timers :: "mock_timer list"

record 'ts mock =
  rtc :: "'ts mock_rtc"
  rpm_set :: "f64 option"
  current_temp_c :: f64
  temp_st :: temp_state
  fan_state :: ramp
  bst_st :: bst_state
  thresholds :: mock_thresholds
  readings :: nat

datatype mock_error = MockInvalidData

definition mock_kind :: "mock_error \<Rightarrow> error_kind" where "mock_kind e = InvalidDataKind"

definition default_thresholds :: mock_thresholds where
  "default_thresholds = \<lparr>th_on = Fin 28, th_ramping = Fin 40, th_max = Fin 44\<rparr>"

definition default_timer :: "'ts ec_iface \<Rightarrow> mock_timer" where
  "default_timer ei = \<lparr>mt_value = 0, mt_wake_policy = ei_instantly ei, mt_status = 0\<rparr>"

definition rtc_new :: "'ts ec_iface \<Rightarrow> 'ts mock_rtc" where
  "rtc_new ei = \<lparr>rtc_time = ei_initial_time ei, rtc_timers = replicate 2 (default_timer ei)\<rparr>"

definition mock_new :: "'ts ec_iface \<Rightarrow> clock \<Rightarrow> 'ts mock" where
  "mock_new ei clock = (let (t, i) = temp_new clock 0 in
     \<lparr>rtc = rtc_new ei, rpm_set = None, current_temp_c = IDLE_TEMP, temp_st = t,
      fan_state = ramp_new (Fin 0) (clock i), bst_st = \<lparr>bs_state = 2, bs_capacity = 0\<rparr>,
      thresholds = default_thresholds, readings = Suc i\<rparr>)"

type_synonym ('ts, 'a) mock_op = "('ts mock, mock_error, 'a) ec_op"

subsection \<open>ThermalSource\<close>

definition mock_get_temperature :: "clock \<Rightarrow> ('ts, f64) mock_op" where
  "mock_get_temperature clock m = (let (v, t, i) = temp_poll clock (temp_st m, readings m) in
     (Inr v, m\<lparr>temp_st := t, readings := i, current_temp_c := v\<rparr>))"

definition mock_get_max_rpm :: "('ts, f64) mock_op" where "mock_get_max_rpm = op_ret (Fin 6000)"

definition mock_get_min_rpm :: "('ts, f64) mock_op" where "mock_get_min_rpm = op_ret (Fin 0)"

definition fan_goal :: "f64 \<Rightarrow> f64 \<Rightarrow> f64 \<times> f64" where
  "fan_goal temp_c max_rpm =
     (if fle (Fin 44) temp_c then (max_rpm, Fin 5)
      else if fle (Fin 40) temp_c then (Fin 3500, Fin 5)
      else if fle (Fin 28) temp_c then (Fin 1500, Fin 2)
      else (Fin 0, Fin 2))"

definition mock_get_rpm :: "clock \<Rightarrow> ('ts, f64) mock_op" where
  "mock_get_rpm clock m = (case rpm_set m of Some rpm \<Rightarrow> (Inr rpm, m)
   | None \<Rightarrow> op_then mock_get_max_rpm (\<lambda>max_rpm m.
       let (target, ramp_secs) = fan_goal (current_temp_c m) max_rpm;
           (v, fan, i) = ramp_value clock (ramp_set_target clock target ramp_secs (fan_state m, readings m))
       in (Inr v, m\<lparr>fan_state := fan, readings := i\<rparr>)) m)"

fun threshold_of :: "mock_thresholds \<Rightarrow> lib_threshold \<Rightarrow> f64" where
  "threshold_of t On = th_on t" | "threshold_of t Ramping = th_ramping t" | "threshold_of t Max = th_max t"

fun put_threshold :: "lib_threshold \<Rightarrow> f64 \<Rightarrow> mock_thresholds \<Rightarrow> mock_thresholds" where
  "put_threshold On v t = t\<lparr>th_on := v\<rparr>"
| "put_threshold Ramping v t = t\<lparr>th_ramping := v\<rparr>"
| "put_threshold Max v t = t\<lparr>th_max := v\<rparr>"

definition mock_get_threshold :: "lib_threshold \<Rightarrow> ('ts, f64) mock_op" where
  "mock_get_threshold th m = (Inr (threshold_of (thresholds m) th), m)"

definition mock_set_threshold :: "lib_threshold \<Rightarrow> f64 \<Rightarrow> ('ts, unit) mock_op" where
  "mock_set_threshold th v m = (Inr (), m\<lparr>thresholds := put_threshold th v (thresholds m)\<rparr>)"

definition mock_set_rpm :: "f64 \<Rightarrow> ('ts, unit) mock_op" where
  "mock_set_rpm rpm m = (Inr (), m\<lparr>rpm_set := Some rpm\<rparr>)"

subsection \<open>BatterySource\<close>

definition MAX_CAPACITY :: u32 where "MAX_CAPACITY = 10000"
definition RATE :: u32 where "RATE = 1000"

definition saturating_sub32 :: "u32 \<Rightarrow> u32 \<Rightarrow> u32" where
  "saturating_sub32 a b = (if a < b then 0 else a - b)"

definition bst_step :: "bst_state \<Rightarrow> bst_state" where
  "bst_step b = (if bs_state b = 2
     then let c = bs_capacity b + RATE in
       if MAX_CAPACITY < c then b\<lparr>bs_capacity := MAX_CAPACITY, bs_state := 1\<rparr> else b\<lparr>bs_capacity := c\<rparr>
     else let c = saturating_sub32 (bs_capacity b) RATE in
       if c < RATE then b\<lparr>bs_capacity := c, bs_state := 2\<rparr> else b\<lparr>bs_capacity := c\<rparr>)"

definition mock_get_bst :: "'ts ec_iface \<Rightarrow> ('ts, bst_return) mock_op" where
  "mock_get_bst ei m = (let b = bst_step (bst_st m); m' = m\<lparr>bst_st := b\<rparr> in
     if ei_battery_state ei (bs_state b)
     then (Inr \<lparr>battery_state = bs_state b, battery_present_rate = 3839,
                battery_remaining_capacity = bs_capacity b, battery_present_voltage = 12569\<rparr>, m')
     else (Inl MockInvalidData, m'))"

definition text_field :: "string \<Rightarrow> bytes" where
  "text_field s = (let b = map (\<lambda>c. word_of_nat (of_char c)) s in b @ replicate (8 - length b) 0)"

definition mock_get_bix :: "'ts ec_iface \<Rightarrow> ('ts, bix_fixed_strings) mock_op" where
  "mock_get_bix ei = op_ret
     \<lparr>bix_revision = 1, power_unit = ei_milli_watts ei, design_capacity = 10000, last_full_charge_capacity = 9890,
      battery_technology = ei_primary ei, design_voltage = 13000, design_cap_of_warning = 5000,
      design_cap_of_low = 3000, cycle_count = 1337, measurement_accuracy = 80000, max_sampling_time = 42,
      min_sampling_time = 7, max_averaging_interval = 5, min_averaging_interval = 1,
      battery_capacity_granularity_1 = 10, battery_capacity_granularity_2 = 10,
      model_number = text_field ''42.0'', serial_number = text_field ''123-45'',
      battery_type = text_field ''Li-on'', oem_info = text_field ''BatBros'',
      battery_swapping_capability = ei_cold_swappable ei\<rparr>"

definition mock_set_btp :: "u32 \<Rightarrow> ('ts, unit) mock_op" where "mock_set_btp trippoint = op_ret ()"

subsection \<open>RtcSource\<close>

definition get_timer :: "'ts mock_rtc \<Rightarrow> timer_id \<Rightarrow> mock_timer" where
  "get_timer r i = rtc_timers r ! timer_index i"

definition put_timer :: "timer_id \<Rightarrow> (mock_timer \<Rightarrow> mock_timer) \<Rightarrow> 'ts mock \<Rightarrow> 'ts mock" where
  "put_timer i f m = m\<lparr>rtc := (rtc m)\<lparr>rtc_timers := (rtc_timers (rtc m))[timer_index i := f (get_timer (rtc m) i)]\<rparr>\<rparr>"

definition mock_get_capabilities :: "('ts, u32) mock_op" where "mock_get_capabilities = op_ret 0xF7"

definition mock_get_real_time :: "('ts, 'ts) mock_op" where "mock_get_real_time m = (Inr (rtc_time (rtc m)), m)"

definition mock_set_real_time :: "'ts \<Rightarrow> ('ts, unit) mock_op" where
  "mock_set_real_time t m = (Inr (), m\<lparr>rtc := (rtc m)\<lparr>rtc_time := t\<rparr>\<rparr>)"

definition mock_get_wake_status :: "timer_id \<Rightarrow> ('ts, u32) mock_op" where
  "mock_get_wake_status i m = (Inr (mt_status (get_timer (rtc m) i)), m)"

definition mock_get_policy :: "timer_id \<Rightarrow> ('ts, u32) mock_op" where
  "mock_get_policy i m = (Inr (mt_wake_policy (get_timer (rtc m) i)), m)"

definition mock_get_timer_value :: "timer_id \<Rightarrow> ('ts, u32) mock_op" where
  "mock_get_timer_value i m = (Inr (mt_value (get_timer (rtc m) i)), m)"

definition mock_set_timer_value :: "timer_id \<Rightarrow> u32 \<Rightarrow> ('ts, unit) mock_op" where
  "mock_set_timer_value i v m = (Inr (), put_timer i (\<lambda>t. t\<lparr>mt_value := v\<rparr>) m)"

definition mock_set_policy :: "timer_id \<Rightarrow> u32 \<Rightarrow> ('ts, unit) mock_op" where
  "mock_set_policy i v m = (Inr (), put_timer i (\<lambda>t. t\<lparr>mt_wake_policy := v\<rparr>) m)"

definition mock_clear_wake_status :: "timer_id \<Rightarrow> ('ts, unit) mock_op" where
  "mock_clear_wake_status i m = (Inr (), put_timer i (\<lambda>t. t\<lparr>mt_status := 0\<rparr>) m)"

definition mock_source :: "'ts ec_iface \<Rightarrow> clock \<Rightarrow> ('ts mock, mock_error, 'ts) source" where
  "mock_source ei clock = \<lparr>src_kind = mock_kind,
     src_get_temperature = mock_get_temperature clock, src_get_rpm = mock_get_rpm clock,
     src_get_min_rpm = mock_get_min_rpm, src_get_max_rpm = mock_get_max_rpm,
     src_get_threshold = mock_get_threshold, src_set_threshold = mock_set_threshold, src_set_rpm = mock_set_rpm,
     src_get_bst = mock_get_bst ei, src_get_bix = mock_get_bix ei, src_set_btp = mock_set_btp,
     src_get_capabilities = mock_get_capabilities, src_get_real_time = mock_get_real_time,
     src_get_wake_status = mock_get_wake_status, src_get_expired_timer_wake_policy = mock_get_policy,
     src_get_timer_value = mock_get_timer_value, src_set_real_time = mock_set_real_time,
     src_set_timer_value = mock_set_timer_value, src_set_expired_timer_wake_policy = mock_set_policy,
     src_clear_wake_status = mock_clear_wake_status, src_wait = (\<lambda>ns m. m)\<rparr>"

section \<open>The invariant\<close>

definition bst_ok :: "bst_state \<Rightarrow> bool" where
  "bst_ok b \<longleftrightarrow> bs_state b \<in> {1, 2} \<and> bs_capacity b \<le> MAX_CAPACITY"

definition mock_ok :: "'ts mock \<Rightarrow> bool" where
  "mock_ok m \<longleftrightarrow> length (rtc_timers (rtc m)) = 2 \<and> bst_ok (bst_st m)"

lemma timer_index_less [simp]: "timer_index i < 2" by (cases i) auto

lemma timer_index_less_Suc [simp]: "timer_index i < Suc (Suc 0)" by (cases i) auto

lemma timer_index_inj [simp]: "timer_index i = timer_index j \<longleftrightarrow> i = j" by (cases i; cases j) auto

lemma capacity_step: "c \<le> MAX_CAPACITY \<Longrightarrow> unat (c + RATE) = unat c + 1000"
  by (subst unat_plus_simple [THEN iffD1]) (auto simp: MAX_CAPACITY_def RATE_def word_le_nat_alt unat_word_ariths)

lemma bst_step_ok: "bst_ok b \<Longrightarrow> bst_ok (bst_step b)"
  by (auto simp: bst_ok_def bst_step_def Let_def saturating_sub32_def MAX_CAPACITY_def RATE_def word_le_nat_alt
      word_less_nat_alt unat_sub_if')

lemma get_timer_put_timer:
  "mock_ok m \<Longrightarrow>
   get_timer (rtc (put_timer i f m)) j = (if j = i then f (get_timer (rtc m) j) else get_timer (rtc m) j)"
  by (auto simp: mock_ok_def get_timer_def put_timer_def nth_list_update)

lemma put_timer_ok [simp]: "mock_ok (put_timer i f m) \<longleftrightarrow> mock_ok m"
  by (simp add: mock_ok_def put_timer_def)

lemma mock_new_ok: "mock_ok (mock_new ei clock)"
  by (simp add: mock_ok_def mock_new_def rtc_new_def bst_ok_def Let_def split: prod.split)

interpretation mock_thresholds: settable "\<lambda>m. True" mock_get_threshold mock_set_threshold
proof
  fix k k' :: lib_threshold and v and m :: "'ts mock"
  show "fst (mock_get_threshold k' (snd (mock_set_threshold k v m))) =
      (if k' = k then Inr v else fst (mock_get_threshold k' m))"
    by (cases k; cases k') (simp_all add: mock_get_threshold_def mock_set_threshold_def)
qed (simp_all add: mock_get_threshold_def mock_set_threshold_def)

interpretation mock_timer_values: settable mock_ok mock_get_timer_value mock_set_timer_value
  by unfold_locales
     (auto simp: mock_get_timer_value_def mock_set_timer_value_def get_timer_put_timer)

interpretation mock_policies: settable mock_ok mock_get_policy mock_set_policy
  by unfold_locales
     (auto simp: mock_get_policy_def mock_set_policy_def get_timer_put_timer)

section \<open>The battery cycle\<close>

definition cycle :: "nat \<Rightarrow> bst_state" where
  "cycle n = (let k = n mod 21 in
     if k \<le> 10 then \<lparr>bs_state = 2, bs_capacity = of_nat (1000 * k)\<rparr>
     else if k = 11 then \<lparr>bs_state = 1, bs_capacity = 10000\<rparr>
     else \<lparr>bs_state = 1, bs_capacity = of_nat (21000 - 1000 * k)\<rparr>)"

lemma cycle_step: "bst_step (cycle n) = cycle (Suc n)"
proof -
  define k where "k = n mod 21"
  have s: "Suc n mod 21 = (if k = 20 then 0 else Suc k)" by (simp add: mod_Suc k_def)
  have small: "unat (word_of_nat n :: u32) = n" if "n < 30000" for n
    using that by (simp add: unat_of_nat)
  have "k < 21" by (simp add: k_def)
  then consider "k \<le> 9" | "k = 10" | "k = 11" | "12 \<le> k" "k \<le> 19" | "k = 20" by linarith
  then show ?thesis
  proof cases
    case 1
    then have u: "unat (of_nat (1000 * Suc k) :: u32) = 1000 * Suc k" by (intro small) simp
    have e: "of_nat (1000 * k) + 1000 = (of_nat (1000 * Suc k) :: u32)" by simp
    have "\<not> 10000 < of_nat (1000 * k) + (1000 :: u32)" unfolding e word_less_nat_alt u using 1 by simp
    then show ?thesis using 1 s
      by (simp add: cycle_def bst_step_def Let_def MAX_CAPACITY_def RATE_def del: of_nat_mult of_nat_Suc flip: k_def)
  next
    case 4
    define x :: u32 where "x = of_nat (21000 - 1000 * k)"
    have x: "unat x = 21000 - 1000 * k" unfolding x_def by (intro small) simp
    have y: "unat (of_nat (21000 - 1000 * Suc k) :: u32) = 21000 - 1000 * Suc k" by (intro small) simp
    have "\<not> x < 1000" "x - 1000 = of_nat (21000 - 1000 * Suc k)" "\<not> x - 1000 < 1000"
      unfolding word_unat_eq_iff y using x 4 by (simp_all add: word_less_nat_alt unat_sub_if', arith)
    then show ?thesis using 4 s
      by (simp add: cycle_def bst_step_def Let_def RATE_def saturating_sub32_def del: of_nat_diff flip: k_def x_def)
  qed (use s in \<open>simp_all add: cycle_def bst_step_def Let_def MAX_CAPACITY_def RATE_def saturating_sub32_def flip: k_def\<close>)
qed

lemma battery_cycle: "(bst_step ^^ n) \<lparr>bs_state = 2, bs_capacity = 0\<rparr> = cycle n"
  by (induction n) (simp_all add: cycle_step, simp add: cycle_def)

end
