(* ===== verification/ScriptMock.thy ===== *)
theory ScriptMock
  imports ScriptRun EcMock
begin

text \<open>
  Scripts over a source that never fails: the contract of such a source, what it gives to every script, and
  its instance, the mock.
\<close>

definition reliable :: "('s \<Rightarrow> bool) \<Rightarrow> ('s, 'e, 'a) ec_op \<Rightarrow> bool" where
  "reliable J m \<longleftrightarrow> (\<forall>s. J s \<longrightarrow> (\<exists>x s'. m s = (Inr x, s') \<and> J s'))"

lemma reliableI: "(\<And>s. J s \<Longrightarrow> \<exists>x s'. m s = (Inr x, s') \<and> J s') \<Longrightarrow> reliable J m"
  by (simp add: reliable_def)

definition not_source :: "'e fault \<Rightarrow> bool" where
  "not_source e \<longleftrightarrow> (\<forall>a k. e \<noteq> SourceFault a k)"

text \<open>The invariant kept, and no error of the source.\<close>

definition calm :: "('s \<Rightarrow> bool) \<Rightarrow> ('s, 'e fault, 'a) ec_op \<Rightarrow> bool" where
  "calm J m \<longleftrightarrow> (\<forall>s res s'. J s \<longrightarrow> m s = (res, s') \<longrightarrow> J s' \<and> (\<forall>e. res = Inl e \<longrightarrow> not_source e))"

definition no_source_detail :: "'e detail \<Rightarrow> bool" where
  "no_source_detail d \<longleftrightarrow> (case fault_in d of Some e \<Rightarrow> not_source e | None \<Rightarrow> True)"

definition no_source_rows :: "'e runner \<Rightarrow> bool" where
  "no_source_rows r \<longleftrightarrow> list_all (\<lambda>(_, _, _, d). no_source_detail d) (printed r)"

lemma no_source_record [simp]:
  "no_source_rows (record_row num name res d r) \<longleftrightarrow> no_source_rows r \<and> (res = Failed \<longrightarrow> no_source_detail d)"
  by (auto simp: no_source_rows_def record_row_def no_source_detail_def split: outcome_kind.split)

lemma not_source_simps [simp]:
  "not_source (NoField a b)" "not_source (CannotProject a c)" "not_source (Expected c d)"
  "not_source (Undefined a)" "not_source BoolArgument" "not_source (OutOfU32 n)" "\<not> not_source (SourceFault e k)"
  by (simp_all add: not_source_def)

lemma project_not_source: "project v path = Inl e \<Longrightarrow> not_source e"
  by (induction v path rule: project.induct) (auto split: val.splits option.splits)

lemma as_num_not_source: "as_num v = Inl e \<Longrightarrow> not_source e"
  by (cases v) auto

lemma num_arg_not_source: "num_arg op env = Inl e \<Longrightarrow> not_source e"
  by (auto simp: num_arg_def thenE_def ok_or_def as_num_not_source split: operand.splits option.splits sum.splits)

lemma u32_arg_not_source: "u32_arg op env = Inl e \<Longrightarrow> not_source e"
  by (auto simp: u32_arg_def thenE_def split: sum.splits if_splits dest: num_arg_not_source)

lemma resolve_not_source: "resolve env op = Inl e \<Longrightarrow> not_source e"
  by (auto simp: resolve_def ok_or_def split: operand.splits option.splits)

lemma cmp_not_source: "cmp env v op f rel = (ok, d) \<Longrightarrow> no_source_detail d"
  by (auto simp: cmp_def no_source_detail_def Let_def as_num_not_source resolve_not_source
      split: sum.splits val.splits if_splits)

lemma range_not_source: "value_in_range v lo hi i = (ok, d) \<Longrightarrow> no_source_detail d"
  by (auto simp: value_in_range_def no_source_detail_def as_num_not_source split: sum.splits if_splits)

lemma value_verb_not_source: "apply_value_verb verb v env = Some (ok, d) \<Longrightarrow> no_source_detail d"
  by (cases verb) (auto dest: cmp_not_source range_not_source)

lemma apply_verb_not_source:
  assumes "apply_verb verb res env = Some (ok, d)" "\<And>e. res = Inl e \<Longrightarrow> not_source e"
  shows "no_source_detail d"
proof (cases res)
  case (Inl e)
  then show ?thesis using assms by (cases verb) (auto simp: apply_verb_def no_source_detail_def)
next
  case (Inr v)
  show ?thesis
  proof (cases "verb \<in> {VIsOk, VIsErr}")
    case True
    then show ?thesis using assms(1) Inr by (auto simp: apply_verb_def no_source_detail_def)
  next
    case False
    then show ?thesis using assms(1) Inr apply_verb_value [of verb v env] value_verb_not_source by metis
  qed
qed

section \<open>The contract\<close>

locale reliable_source =
  fixes J :: "'s \<Rightarrow> bool" and src :: "('s, 'e, 'ts) source"
  assumes thermal: "reliable J (src_get_temperature src)" "reliable J (src_get_rpm src)"
      "reliable J (src_get_min_rpm src)" "reliable J (src_get_max_rpm src)"
      "reliable J (src_get_threshold src th)" "reliable J (src_set_threshold src th x)"
      "reliable J (src_set_rpm src x)"
    and battery: "reliable J (src_get_bst src)" "reliable J (src_get_bix src)" "reliable J (src_set_btp src w)"
    and clock: "reliable J (src_get_capabilities src)" "reliable J (src_get_real_time src)"
      "reliable J (src_set_real_time src t)" "reliable J (src_get_wake_status src i)"
      "reliable J (src_get_expired_timer_wake_policy src i)" "reliable J (src_get_timer_value src i)"
      "reliable J (src_set_timer_value src i w)" "reliable J (src_set_expired_timer_wake_policy src i w)"
      "reliable J (src_clear_wake_status src i)"
    and wait: "J s \<Longrightarrow> J (src_wait src ns s)"
begin

lemmas reliable_ops = thermal battery clock

lemma called_calm: "reliable J m \<Longrightarrow> calm J (called src conv m)"
  by (fastforce simp: calm_def called_def reliable_def op_then_def op_map_def)

lemma lift_calm:
  assumes "\<And>n. reliable J (m n)" "\<And>e. r = Inl e \<Longrightarrow> not_source e"
  shows "calm J (op_then (op_lift r) (\<lambda>n. called src (conv n) (m n)))"
proof (cases r)
  case (Inr n)
  then show ?thesis using called_calm [OF assms(1), of "conv n" n] by (simp add: calm_def op_then_def)
qed (use assms(2) in \<open>simp add: calm_def op_then_def\<close>)

lemma invoke_calm: "calm J (invoke host src m env)"
  by (cases m)
     (auto intro!: called_calm lift_calm reliable_ops elim: num_arg_not_source u32_arg_not_source)

lemma eval_call_calm: "calm J (eval_call host src call env)"
  using invoke_calm [of host "call_method call" env] project_not_source
  by (fastforce simp: calm_def eval_call_def op_then_def split: prod.splits sum.splits)

lemma execute_calm:
  assumes "J s" "no_source_rows r" "execute host src stmt (s, env, r) = Some (s', env', r')"
  shows "J s' \<and> no_source_rows r'"
proof (cases stmt)
  case (Check num nm call verb)
  obtain res s1 where ev: "eval_call host src call env s = (res, s1)" by fastforce
  have q: "J s1" "\<And>e. res = Inl e \<Longrightarrow> not_source e"
    using eval_call_calm [of host call env] assms(1) ev by (auto simp: calm_def)
  obtain ok d where av: "apply_verb verb res env = Some (ok, d)" using apply_verb_total [of verb res env] by auto
  have "no_source_detail d" using apply_verb_not_source [OF av q(2)] .
  then show ?thesis using assms(2,3) Check ev av q(1) by auto
next
  case (Let num nm name call)
  obtain res s1 where ev: "eval_call host src call env s = (res, s1)" by fastforce
  have q: "J s1" "\<And>e. res = Inl e \<Longrightarrow> not_source e"
    using eval_call_calm [of host call env] assms(1) ev by (auto simp: calm_def)
  show ?thesis using assms(2,3) Let ev q by (cases res) (auto simp: no_source_detail_def)
qed (use assms wait in auto)

lemma execute_all_calm:
  "J s \<Longrightarrow> no_source_rows r \<Longrightarrow> execute_all host src stmts (s, env, r) = Some (s', env', r') \<Longrightarrow>
   J s' \<and> no_source_rows r'"
proof (induction stmts arbitrary: s env r)
  case (Cons stmt stmts)
  obtain s1 env1 r1 where x: "execute host src stmt (s, env, r) = Some (s1, env1, r1)"
    "execute_all host src stmts (s1, env1, r1) = Some (s', env', r')"
    using Cons.prems(3) by (auto simp: bind_eq_Some_conv)
  from execute_calm [OF Cons.prems(1,2) x(1)] show ?case using Cons.IH [OF _ _ x(2)] by blast
qed simp

end

section \<open>The mock\<close>

text \<open>The firmware's battery states include discharging and charging.\<close>

definition charges :: "'ts ec_iface \<Rightarrow> bool" where
  "charges ei \<longleftrightarrow> ei_battery_state ei 1 \<and> ei_battery_state ei 2"

lemma mock_ok_updates [simp]:
  "mock_ok (m\<lparr>temp_st := t, readings := i, current_temp_c := v\<rparr>) \<longleftrightarrow> mock_ok m"
  "mock_ok (m\<lparr>fan_state := f, readings := i\<rparr>) \<longleftrightarrow> mock_ok m"
  "mock_ok (m\<lparr>thresholds := th\<rparr>) \<longleftrightarrow> mock_ok m" "mock_ok (m\<lparr>rpm_set := x\<rparr>) \<longleftrightarrow> mock_ok m"
  "mock_ok (m\<lparr>rtc := (rtc m)\<lparr>rtc_time := tm\<rparr>\<rparr>) \<longleftrightarrow> mock_ok m"
  "mock_ok (m\<lparr>bst_st := b\<rparr>) \<longleftrightarrow> length (rtc_timers (rtc m)) = 2 \<and> bst_ok b"
  by (simp_all add: mock_ok_def)

lemma mock_get_bst_ok:
  assumes "charges ei" "mock_ok m"
  shows "\<exists>x m'. mock_get_bst ei m = (Inr x, m') \<and> mock_ok m'"
proof -
  have "bst_ok (bst_step (bst_st m))" using assms(2) bst_step_ok by (simp add: mock_ok_def)
  then show ?thesis using assms by (auto simp: mock_get_bst_def Let_def bst_ok_def charges_def mock_ok_def)
qed

interpretation mock: reliable_source "\<lambda>m. mock_ok m \<and> charges ei" "mock_source ei clock" for ei clock
  by unfold_locales
     (auto intro!: reliableI mock_get_bst_ok simp: mock_source_def mock_get_temperature_def mock_get_rpm_def mock_get_max_rpm_def
        mock_get_min_rpm_def mock_get_threshold_def mock_set_threshold_def mock_set_rpm_def mock_get_bix_def
        mock_set_btp_def mock_get_capabilities_def mock_get_real_time_def mock_set_real_time_def
        mock_get_wake_status_def mock_get_policy_def mock_get_timer_value_def mock_set_timer_value_def
        mock_set_policy_def mock_clear_wake_status_def op_then_def Let_def split: prod.split option.split)

end
