(* ===== verification/ScriptSpec.thy ===== *)
theory ScriptSpec
  imports ScriptParse
begin

text \<open>
  What the line-oriented loop of the script parser computes, without the loop: the cleaned lines joined
  into one text whose characters remember their line, cut at the semicolons.
\<close>

section \<open>The reference\<close>

type_synonym marked = "(nat \<times> nat) list"

text \<open>Every line that is not blank, followed by a blank.\<close>

fun join_lines :: "(nat \<times> ustr) list \<Rightarrow> marked" where
  "join_lines [] = []"
| "join_lines ((i, raw) # ls) =
     (if clean_line raw = [] then join_lines ls
      else map (Pair (i + 1)) (clean_line raw) @ (i + 1, 32) # join_lines ls)"

fun segments :: "marked \<Rightarrow> marked list" where
  "segments [] = [[]]"
| "segments (x # xs) = (if snd x = 59 then [] # segments xs
     else (x # hd (segments xs)) # tl (segments xs))"

definition unblank :: "marked \<Rightarrow> marked" where
  "unblank = dropWhile (\<lambda>x. is_whitespace (snd x))"

text \<open>A statement belongs to the line of its first character.\<close>

fun parse_segments :: "'ts script_host \<Rightarrow> marked list \<Rightarrow> parse_error + 'ts stmt list" where
  "parse_segments host [] = Inr []"
| "parse_segments host (seg # segs) = (let s = unblank seg in
     if s = [] then parse_segments host segs
     else case parse_stmt host (fst (hd s)) (trim (map snd s)) of
       Inl m \<Rightarrow> Inl \<lparr>err_line = fst (hd s), err_message = m\<rparr>
     | Inr stmt \<Rightarrow> thenE (parse_segments host segs) (\<lambda>stmts. Inr (stmt # stmts)))"

text \<open>All segments but the last are statements; the last has to be blank.\<close>

definition script_of :: "'ts script_host \<Rightarrow> marked list \<Rightarrow> parse_error + 'ts stmt list" where
  "script_of host segs = thenE (parse_segments host (butlast segs)) (\<lambda>stmts.
     let r = unblank (last segs) in
     if r = [] then Inr stmts
     else Inl \<lparr>err_line = fst (hd r), err_message = Unterminated (trim (map snd r))\<rparr>)"

definition reference_parse :: "'ts script_host \<Rightarrow> ustr \<Rightarrow> parse_error + 'ts stmt list" where
  "reference_parse host src = script_of host (segments (join_lines (enumerate 0 (lines src))))"

section \<open>Trimming and cutting\<close>

lemma segments_nonempty [simp]: "segments xs \<noteq> []"
  by (induction xs) simp_all

lemma segments_no_semicolon: "\<forall>x \<in> set xs. snd x \<noteq> 59 \<Longrightarrow> segments xs = [xs]"
  by (induction xs) simp_all

lemma segments_append:
  "segments (xs @ ys) = butlast (segments xs) @ segments (last (segments xs) @ ys)"
proof (induction xs)
  case (Cons x xs)
  show ?case
  proof (cases "butlast (segments xs) = []")
    case True
    then obtain s where s: "segments xs = [s]" by (cases "segments xs") (auto split: if_splits)
    then have "segments (xs @ ys) = segments (s @ ys)" using Cons.IH by simp
    then show ?thesis using s by simp
  next
    case False
    then have "segments xs = hd (segments xs) # tl (segments xs)" "tl (segments xs) \<noteq> []"
      by (cases "segments xs"; auto)+
    then show ?thesis using Cons.IH False by (cases "segments xs") auto
  qed
qed simp

lemma unblank_append: "unblank xs \<noteq> [] \<Longrightarrow> unblank (xs @ ys) = unblank xs @ ys"
  by (induction xs) (auto simp: unblank_def)

lemma unblank_blank: "unblank xs = [] \<longleftrightarrow> (\<forall>x \<in> set xs. is_whitespace (snd x))"
  by (simp add: unblank_def dropWhile_eq_Nil_conv)

lemma unblank_blank_append: "unblank xs = [] \<Longrightarrow> unblank (xs @ ys) = unblank ys"
  by (induction xs) (auto simp: unblank_def split: if_splits)

lemma unblank_hd: "unblank xs \<noteq> [] \<Longrightarrow> \<not> is_whitespace (snd (hd (unblank xs)))"
  unfolding unblank_def by (rule hd_dropWhile)

lemma unblank_idem: "xs = [] \<or> \<not> is_whitespace (snd (hd xs)) \<Longrightarrow> unblank xs = xs"
  by (cases xs) (simp_all add: unblank_def)

lemma unblank_set: "set (unblank xs) \<subseteq> set xs"
  by (auto simp: unblank_def dest: set_dropWhileD)

lemma map_snd_unblank: "map snd (unblank xs) = trim_start (map snd xs)"
  by (induction xs) (simp_all add: unblank_def trim_start_def)

lemma trim_unblank: "trim (map snd (unblank xs)) = trim (map snd xs)"
  by (induction xs) (simp_all add: trim_def trim_start_def unblank_def)

lemma is_whitespace_blank [simp]: "is_whitespace 32"
  by (simp add: is_whitespace_def)

lemma all_dropWhile: "list_all P (dropWhile P s) \<longleftrightarrow> list_all P s"
  by (induction s) simp_all

lemma trim_end_Nil: "trim_end s = [] \<longleftrightarrow> list_all is_whitespace s"
  by (simp add: trim_end_def dropWhile_eq_Nil_conv list_all_iff)

lemma trim_Nil: "trim s = [] \<longleftrightarrow> list_all is_whitespace s"
  by (simp add: trim_def trim_end_Nil trim_start_def all_dropWhile)

lemma trim_blank_end: "trim (s @ [32]) = trim s"
proof -
  have e: "trim_end (t @ [32]) = trim_end t" for t by (simp add: trim_end_def)
  show ?thesis
  proof (cases "list_all is_whitespace s")
    case True
    then show ?thesis using trim_Nil [of s] trim_Nil [of "s @ [32]"] by simp
  next
    case False
    then have "trim_start (s @ [32]) = trim_start s @ [32]"
      by (auto simp: trim_start_def dropWhile_append list_all_iff)
    then show ?thesis by (simp add: trim_def e)
  qed
qed

lemma unblank_Nil_trim: "unblank xs = [] \<longleftrightarrow> trim (map snd xs) = []"
  by (simp add: unblank_blank trim_Nil list_all_iff)

lemma split_once_segments:
  "split_once 59 (map snd xs) =
     (if \<forall>x \<in> set xs. snd x \<noteq> 59 then None
      else Some (map snd (hd (segments xs)), map snd (drop (Suc (length (hd (segments xs)))) xs)))"
  by (induction xs) (auto split: if_splits)

lemma segments_split:
  assumes "\<not> (\<forall>x \<in> set xs. snd x \<noteq> 59)"
  shows "segments xs = hd (segments xs) # segments (drop (Suc (length (hd (segments xs)))) xs)"
  using assms
proof (induction xs)
  case (Cons x xs)
  show ?case
  proof (cases "snd x = 59")
    case False
    then have "segments xs = hd (segments xs) # segments (drop (Suc (length (hd (segments xs)))) xs)"
      using Cons by simp
    then have "tl (segments xs) = segments (drop (Suc (length (hd (segments xs)))) xs)" by (metis list.sel(3))
    then show ?thesis using False by simp
  qed simp
qed simp

section \<open>The loop computes the reference\<close>

lemma clean_line_trimmed: "clean_line raw = [] \<or> \<not> is_whitespace (hd (clean_line raw))"
proof -
  have "trim s = [] \<or> \<not> is_whitespace (hd (trim s))" for s
  proof (cases "trim s = []")
    case False
    then have n: "trim_start s \<noteq> []" by (auto simp: trim_def trim_end_def)
    obtain c r where cr: "trim_start s = c # r" using n by (cases "trim_start s") auto
    then have c: "\<not> is_whitespace c"
      using hd_dropWhile [of is_whitespace s] n by (simp add: trim_start_def)
    then have "trim s = c # rev (dropWhile is_whitespace (rev r))"
      by (simp add: trim_def trim_end_def cr dropWhile_append)
    with c show ?thesis by simp
  qed simp
  then show ?thesis by (simp add: clean_line_def)
qed

lemma script_of_append:
  "script_of host (segs @ segments ys) =
    thenE (parse_segments host segs) (\<lambda>stmts. thenE (script_of host (segments ys)) (\<lambda>rest. Inr (stmts @ rest)))"
proof -
  have split: "parse_segments host (segs @ segs') =
      thenE (parse_segments host segs) (\<lambda>stmts. thenE (parse_segments host segs') (\<lambda>rest. Inr (stmts @ rest)))"
    for segs'
    by (induction segs) (auto simp: Let_def thenE_def split: sum.splits)
  show ?thesis
    by (simp add: script_of_def butlast_append split thenE_def Let_def split: sum.splits)
qed

lemma segments_prefix:
  "\<forall>x \<in> set p. snd x \<noteq> 59 \<Longrightarrow> segments (p @ ys) = (p @ hd (segments ys)) # tl (segments ys)"
  by (induction p) simp_all

lemma segments_blank: "unblank b = [] \<Longrightarrow> segments (b @ ys) = (b @ hd (segments ys)) # tl (segments ys)"
  by (rule segments_prefix) (auto simp: unblank_blank is_whitespace_def)

lemma segments_set: "seg \<in> set (segments xs) \<Longrightarrow> x \<in> set seg \<Longrightarrow> x \<in> set xs \<and> snd x \<noteq> 59"
proof (induction xs arbitrary: seg)
  case (Cons y ys)
  have "hd (segments ys) \<in> set (segments ys)" "set (tl (segments ys)) \<subseteq> set (segments ys)"
    by (simp_all add: list.set_sel(2) subsetI)
  with Cons show ?case by (fastforce split: if_splits)
qed simp

lemma unblank_split:
  obtains b where "a = b @ unblank a" "unblank b = []"
  using takeWhile_dropWhile_id [of "\<lambda>x. is_whitespace (snd x)" a]
  by (metis (no_types, lifting) set_takeWhileD unblank_blank unblank_def)

lemma last_segment_set:
  assumes "x \<in> set (unblank (last (segments xs)))"
  shows "x \<in> set xs \<and> snd x \<noteq> 59"
  using segments_set [OF last_in_set [OF segments_nonempty]] assms unblank_set by blast

lemma script_of_blank:
  assumes "unblank b = []"
  shows "script_of host (segments (b @ ys)) = script_of host (segments ys)"
proof -
  have "segments ys = hd (segments ys) # tl (segments ys)" by simp
  moreover have "script_of host ((b @ x) # xs) = script_of host (x # xs)" for x xs
    using assms by (cases xs) (simp_all add: script_of_def unblank_blank_append trim_unblank [symmetric])
  ultimately show ?thesis using segments_blank [OF assms] by metis
qed

lemma script_of_unblank: "script_of host (segments (unblank a @ ys)) = script_of host (segments (a @ ys))"
  by (rule unblank_split [of a]) (metis append.assoc script_of_blank)

lemma script_of_rest:
  "script_of host (segments ((if unblank z = [] then [] else unblank z @ [(k, 32)]) @ ys)) =
   script_of host (segments (z @ [(k, 32)] @ ys))"
proof (cases "unblank z = []")
  case True
  then have "unblank (z @ [(k, 32)]) = []" by (simp add: unblank_blank)
  from script_of_blank [OF this, of host ys] True show ?thesis by simp
qed (use script_of_unblank [of host z "[(k, 32)] @ ys"] in simp)

lemma segments_unblank:
  "parse_segments host (butlast (segments (unblank a))) = parse_segments host (butlast (segments a))"
  "unblank (last (segments (unblank a))) = unblank (last (segments a))"
proof -
  obtain b where b: "a = b @ unblank a" "unblank b = []" by (rule unblank_split)
  obtain x xs where u: "segments (unblank a) = x # xs" by (cases "segments (unblank a)") auto
  then have a: "segments a = (b @ x) # xs" using segments_blank [OF b(2), of "unblank a"] b(1) by simp
  show "parse_segments host (butlast (segments (unblank a))) = parse_segments host (butlast (segments a))"
    "unblank (last (segments (unblank a))) = unblank (last (segments a))"
    unfolding u a using b(2) by (cases xs; simp add: unblank_blank_append trim_unblank [symmetric])+
qed

text \<open>One line's turn of the inner loop, on a buffer whose text behind the first semicolon is that line's.\<close>

definition buffered :: "marked \<Rightarrow> nat \<Rightarrow> bool" where
  "buffered a start \<longleftrightarrow> a = [] \<or> start = fst (hd a) \<and> \<not> is_whitespace (snd (hd a))"

lemma buffered_unblank: "buffered a start \<Longrightarrow> unblank a = a"
  by (auto simp: buffered_def intro: unblank_idem)

lemma take_stmts_segments:
  assumes "buffered a start"
    and "\<forall>x \<in> set (drop (Suc (length (hd (segments a)))) a). fst x = lineno"
  shows "take_stmts host lineno (map snd a) start out =
    thenE (parse_segments host (butlast (segments a))) (\<lambda>stmts.
      Inr (map snd (unblank (last (segments a))), if tl (segments a) = [] then start else lineno, out @ stmts))"
  using assms
proof (induction "length a" arbitrary: a start out rule: less_induct)
  case less
  show ?case
  proof (cases "\<forall>x \<in> set a. snd x \<noteq> 59")
    case True
    then show ?thesis using buffered_unblank [OF less.prems(1)]
      by (subst take_stmts.simps) (simp add: split_once_segments segments_no_semicolon)
  next
    case False
    let ?seg = "hd (segments a)" and ?b = "drop (Suc (length (hd (segments a)))) a"
    have segs: "segments a = ?seg # segments ?b" by (rule segments_split [OF False])
    have seg: "unblank ?seg = ?seg \<and> (?seg \<noteq> [] \<longrightarrow> fst (hd ?seg) = start)"
      using less.prems(1) by (cases a) (auto simp: buffered_def unblank_idem)
    have "buffered (unblank ?b) lineno"
      using less.prems(2) unblank_hd unblank_set [of ?b] by (auto simp: buffered_def) (metis hd_in_set subsetD)
    moreover have "length (unblank ?b) < length a"
    proof -
      have "a \<noteq> []" using False by auto
      then have "length ?b < length a" by simp
      then show ?thesis unfolding unblank_def by (rule le_less_trans [OF length_dropWhile_le])
    qed
    moreover have "\<forall>x \<in> set (drop (Suc (length (hd (segments (unblank ?b))))) (unblank ?b)). fst x = lineno"
      using less.prems(2) unblank_set [of ?b] by (meson in_set_dropD subsetD)
    ultimately have IH: "take_stmts host lineno (map snd (unblank ?b)) lineno out =
        thenE (parse_segments host (butlast (segments ?b))) (\<lambda>stmts.
          Inr (map snd (unblank (last (segments ?b))), lineno, out @ stmts))" for out
      using less.hyps [of "unblank ?b" lineno out] by (simp add: segments_unblank)
    have step: "split_once 59 (map snd a) = Some (map snd ?seg, map snd ?b)"
      using False by (auto simp: split_once_segments)
    have bl: "butlast (segments a) = ?seg # butlast (segments ?b)" "last (segments a) = last (segments ?b)"
        "tl (segments a) \<noteq> []"
      by (subst segs; simp)+
    have blank: "trim (map snd ?seg) = [] \<longleftrightarrow> ?seg = []" using seg unblank_Nil_trim by metis
    show ?thesis
    proof (cases "?seg = []")
      case True
      then have "trim (map snd ?seg) = []" using blank by simp
      then show ?thesis
        by (subst take_stmts.simps) (simp add: step bl True unblank_idem IH [unfolded True list.size(3)] flip: map_snd_unblank)
    next
      case False
      then have "trim (map snd ?seg) \<noteq> []" using blank by simp
      then show ?thesis using False seg
        by (subst take_stmts.simps)
          (simp add: step bl Let_def IH thenE_def split: sum.splits flip: map_snd_unblank)
    qed
  qed
qed

lemma parse_lines_script:
  assumes "buffered a start" and "\<forall>x \<in> set a. snd x \<noteq> 59"
  shows "parse_lines host ls (map snd a) start out =
    thenE (script_of host (segments ((if a = [] then [] else a @ [(k, 32)]) @ join_lines ls)))
      (\<lambda>stmts. Inr (out @ stmts))"
  using assms
proof (induction ls arbitrary: a start out k)
  case Nil
  have "trim (map snd a) = [] \<longleftrightarrow> a = []"
    using buffered_unblank [OF Nil.prems(1)] unblank_Nil_trim by metis
  moreover have "unblank (a @ [(k, 32)]) = a @ [(k, 32)] \<and> fst (hd a) = start" if "a \<noteq> []"
    using that Nil.prems(1) by (cases a) (auto simp: buffered_def unblank_idem)
  ultimately show ?case
    using Nil.prems(2)
    by (auto simp: script_of_def Let_def segments_no_semicolon trim_blank_end unblank_def)
next
  case (Cons l ls)
  obtain i raw where l: "l = (i, raw)" by force
  let ?line = "clean_line raw"
  show ?case
  proof (cases "?line = []")
    case True
    then show ?thesis using Cons by (simp add: l)
  next
    case False
    let ?a = "(if a = [] then [] else a @ [(k, 32)]) @ map (Pair (i + 1)) ?line"
    let ?start = "if a = [] then i + 1 else start" and ?sep = "[(i + 1, 32 :: nat)]"
    let ?b = "unblank (last (segments ?a))" and ?start' = "if tl (segments ?a) = [] then ?start else i + 1"
    have buf: "buffered ?a ?start"
      using Cons.prems(1) False clean_line_trimmed [of raw] by (auto simp: buffered_def hd_map)
    have tail: "\<forall>x \<in> set (drop (Suc (length (hd (segments ?a)))) ?a). fst x = i + 1"
    proof -
      have "\<forall>x \<in> set (if a = [] then [] else a @ [(k, 32)]). snd x \<noteq> 59" using Cons.prems(2) by auto
      from segments_prefix [OF this, of "map (Pair (i + 1)) ?line"] show ?thesis
        by (auto dest!: in_set_dropD)
    qed
    have take: "take_stmts host (i + 1) (map snd ?a) ?start out =
      thenE (parse_segments host (butlast (segments ?a))) (\<lambda>stmts. Inr (map snd ?b, ?start', out @ stmts))"
      by (rule take_stmts_segments [OF buf tail])
    have b59: "\<forall>x \<in> set ?b. snd x \<noteq> 59" using last_segment_set by blast
    have b: "buffered ?b ?start'"
    proof (cases "tl (segments ?a) = []")
      case True
      then have "segments ?a = [hd (segments ?a)]" by (metis list.collapse segments_nonempty)
      then have "\<forall>x \<in> set ?a. snd x \<noteq> 59" using segments_split by (metis list.inject segments_nonempty)
      then show ?thesis using buf True buffered_unblank [OF buf] by (simp add: segments_no_semicolon)
    next
      case split: False
      then have "\<not> (\<forall>x \<in> set ?a. snd x \<noteq> 59)" using segments_no_semicolon by fastforce
      then have "last (segments ?a) = last (segments (drop (Suc (length (hd (segments ?a)))) ?a))"
        using segments_split by (metis last_ConsR segments_nonempty)
      then have "\<forall>x \<in> set ?b. fst x = i + 1" using tail last_segment_set by metis
      then show ?thesis using split unblank_hd by (auto simp: buffered_def)
    qed
    have rest: "script_of host (segments ((if ?b = [] then [] else ?b @ ?sep) @ join_lines ls)) =
        script_of host (segments (last (segments ?a) @ ?sep @ join_lines ls))"
      by (rule script_of_rest)
    have "segments ((if a = [] then [] else a @ [(k, 32)]) @ join_lines (l # ls)) =
        butlast (segments ?a) @ segments (last (segments ?a) @ ?sep @ join_lines ls)"
      using segments_append [of ?a "?sep @ join_lines ls"] False by (simp add: l)
    then have ref: "script_of host (segments ((if a = [] then [] else a @ [(k, 32)]) @ join_lines (l # ls))) =
        thenE (parse_segments host (butlast (segments ?a))) (\<lambda>stmts.
        thenE (script_of host (segments (last (segments ?a) @ ?sep @ join_lines ls))) (\<lambda>rest. Inr (stmts @ rest)))"
      by (simp only: script_of_append)
    have loop: "parse_lines host (l # ls) (map snd a) start out =
        thenE (take_stmts host (i + 1) (map snd ?a) ?start out) (\<lambda>(buf, start, out). parse_lines host ls buf start out)"
      using False by (cases "a = []") (simp_all add: l Let_def comp_def)
    show ?thesis
      unfolding loop ref take
    proof (cases "parse_segments host (butlast (segments ?a))")
      case (Inr stmts)
      show "thenE (thenE (parse_segments host (butlast (segments ?a))) (\<lambda>stmts. Inr (map snd ?b, ?start', out @ stmts)))
          (\<lambda>(buf, start, out). parse_lines host ls buf start out) =
        thenE (thenE (parse_segments host (butlast (segments ?a))) (\<lambda>stmts.
          thenE (script_of host (segments (last (segments ?a) @ ?sep @ join_lines ls))) (\<lambda>rest. Inr (stmts @ rest))))
          (\<lambda>stmts. Inr (out @ stmts))"
        unfolding Inr thenE_simps prod.case Cons.IH [OF b b59, where k = "i + 1"] rest
        by (cases "script_of host (segments (last (segments ?a) @ ?sep @ join_lines ls))") simp_all
    qed (simp only: thenE_simps)
  qed
qed

theorem parse_reference: "parse host src = reference_parse host src"
  using parse_lines_script [of "[]" 0 host "enumerate 0 (lines src)" "[]"]
  by (simp add: parse_def reference_parse_def buffered_def thenE_def split: sum.splits)

end
