(* ===== verification/EcSerial.thy ===== *)
theory EcSerial
  imports EcSource
begin

text \<open>
  The serial data source, src/ec/test-lib/src/serial.rs. Parameters stand for the serial port, the MCTP framing
  of the crate mctp_rs, and the messages of the service relay crates (their serialisation and the identifier of a
  request); requests and responses are the constructors the source uses, any other response is
  one value. The text in an error is dropped.
\<close>

datatype serial_error = SIo | SProtocol | SSerialization | SUnexpectedResponse | SUnsupported

fun serial_kind :: "serial_error \<Rightarrow> error_kind" where
  "serial_kind SIo = IoKind" | "serial_kind SProtocol = ProtocolKind" | "serial_kind SSerialization = SerializationKind"
| "serial_kind SUnexpectedResponse = UnexpectedResponseKind" | "serial_kind SUnsupported = OtherKind"

type_synonym ('s, 'a) serial_op = "('s, serial_error, 'a) ec_op"

definition ODP_MESSAGE_TYPE :: u8 where "ODP_MESSAGE_TYPE = 0x7D"
definition SERIAL_END_FLAG :: u8 where "SERIAL_END_FLAG = 0x7E"
definition ODP_HEADER_SZ :: nat where "ODP_HEADER_SZ = 4"
definition BUFFER_SZ :: nat where "BUFFER_SZ = 256"
definition THERMAL_VAR_LEN :: u16 where "THERMAL_VAR_LEN = 4"
definition BATTERY_INSTANCE :: u8 where "BATTERY_INSTANCE = 0"

datatype destination = ToBattery | ToThermal | ToTimeAlarm

fun service_id :: "destination \<Rightarrow> u8" where
  "service_id ToBattery = 0x08" | "service_id ToThermal = 0x09" | "service_id ToTimeAlarm = 0x0B"

section \<open>The ODP header\<close>

definition be32 :: "u32 \<Rightarrow> bytes" where "be32 w = rev (nat_le 4 (unat w))"

definition from_be32 :: "bytes \<Rightarrow> u32" where "from_be32 bs = word_of_nat (le_nat (rev bs))"

definition build_odp_header :: "bool \<Rightarrow> u8 \<Rightarrow> u16 \<Rightarrow> bytes" where
  "build_odp_header is_request service message_id =
     (let raw0 = (if is_request then push_bit 25 1 else 0) :: u32;
          raw1 = raw0 OR push_bit 16 (ucast service); raw2 = raw1 OR (ucast message_id AND 0x7FFF)
      in be32 raw2)"

definition parse_odp_header :: "bytes \<Rightarrow> serial_error + bool \<times> u8 \<times> bool \<times> u16" where
  "parse_odp_header bs = (if length bs < ODP_HEADER_SZ then Inl SProtocol
     else let raw = from_be32 [bs ! 0, bs ! 1, bs ! 2, bs ! 3] in
       Inr (raw AND push_bit 25 1 \<noteq> 0, ucast (drop_bit 16 raw AND 0xFF),
            raw AND push_bit 15 1 \<noteq> 0, ucast (raw AND 0x7FFF)))"

text \<open>
  What the MCTP framing calls to write a header and a body into its buffer and to take them off again: the bytes
  written and the buffer, or an error when it is too short.
\<close>

definition raw_header_serialize :: "bytes \<Rightarrow> bytes \<Rightarrow> unit + nat \<times> bytes" where
  "raw_header_serialize h buf = (if length buf < ODP_HEADER_SZ then Inl ()
     else Inr (ODP_HEADER_SZ, h @ drop ODP_HEADER_SZ buf))"

definition raw_header_deserialize :: "bytes \<Rightarrow> unit + bytes \<times> bytes" where
  "raw_header_deserialize buf = (if length buf < ODP_HEADER_SZ then Inl ()
     else Inr (take ODP_HEADER_SZ buf, drop ODP_HEADER_SZ buf))"

definition raw_message_serialize :: "bytes \<Rightarrow> bytes \<Rightarrow> unit + nat \<times> bytes" where
  "raw_message_serialize body buf = (if length buf < length body then Inl ()
     else Inr (length body, body @ drop (length body) buf))"

definition raw_message_deserialize :: "bytes \<Rightarrow> bytes \<Rightarrow> unit + bytes" where
  "raw_message_deserialize h buf = Inr buf"

lemma raw_header_written:
  "length h = ODP_HEADER_SZ \<Longrightarrow> raw_header_serialize h buf = Inr (n, buf') \<Longrightarrow>
   n = ODP_HEADER_SZ \<and> length buf' = length buf \<and> raw_header_deserialize buf' = Inr (h, drop ODP_HEADER_SZ buf)"
  by (auto simp: raw_header_serialize_def raw_header_deserialize_def split: if_splits)

lemma raw_message_written:
  "raw_message_serialize body buf = Inr (n, buf') \<Longrightarrow> length buf' = length buf \<and> take n buf' = body"
  by (auto simp: raw_message_serialize_def split: if_splits)

section \<open>The port\<close>

text \<open>\<open>port_read\<close> is \<open>read_exact\<close> of one byte.\<close>

record 's port =
  port_clear :: "('s, unit, unit) ec_op"
  port_write :: "bytes \<Rightarrow> ('s, unit, unit) ec_op"
  port_flush :: "('s, unit, unit) ec_op"
  port_read :: "('s, unit, u8) ec_op"

definition io :: "('s, unit, 'a) ec_op \<Rightarrow> ('s, 'a) serial_op" where "io = op_map (\<lambda>_. SIo)"

text \<open>With \<open>room\<close> bytes left in the buffer.\<close>

fun read_framed :: "'s port \<Rightarrow> nat \<Rightarrow> bytes \<Rightarrow> ('s, bytes) serial_op" where
  "read_framed port 0 filled = op_fail SProtocol"
| "read_framed port (Suc room) filled = op_then (io (port_read port)) (\<lambda>b.
     if b = SERIAL_END_FLAG then op_ret (filled @ [b]) else read_framed port room (filled @ [b]))"

definition read_framed_packet :: "'s port \<Rightarrow> ('s, bytes) serial_op" where
  "read_framed_packet port = read_framed port BUFFER_SZ []"

section \<open>Messages\<close>

text \<open>
  \<open>mctp_packets\<close> are the framed packets of a message with its header, in the order the iterator yields
  them, each possibly an error, or the error of the serialisation. \<open>mctp_receive\<close> feeds one packet to a
  reassembly context: an error, no message yet, or a message's type and body.
\<close>

record ('rx, 'req, 'resp) relay =
  mctp_packets :: "bytes \<Rightarrow> bytes \<Rightarrow> unit + (unit + bytes) list"
  mctp_new :: 'rx
  mctp_receive :: "bytes \<Rightarrow> 'rx \<Rightarrow> (unit + (u8 \<times> bytes) option) \<times> 'rx"
  req_serialize :: "'req \<Rightarrow> unit + bytes"
  req_discriminant :: "'req \<Rightarrow> u16"
  resp_deserialize :: "u16 \<Rightarrow> bytes \<Rightarrow> unit + 'resp"

fun write_packets :: "'s port \<Rightarrow> (unit + bytes) list \<Rightarrow> ('s, unit) serial_op" where
  "write_packets port [] = op_ret ()"
| "write_packets port (Inl e # pkts) = op_fail SSerialization"
| "write_packets port (Inr pkt # pkts) = op_then (io (port_write port pkt)) (\<lambda>_. write_packets port pkts)"

definition accept_response :: "('rx, 'req, 'resp) relay \<Rightarrow> destination \<Rightarrow> u8 \<times> bytes \<Rightarrow> serial_error + 'resp" where
  "accept_response rl dst = (\<lambda>(message_type, body).
     if message_type \<noteq> ODP_MESSAGE_TYPE then Inl SUnexpectedResponse
     else thenE (parse_odp_header body) (\<lambda>(is_request, service, is_error, message_id).
       if is_request \<or> service \<noteq> service_id dst then Inl SUnexpectedResponse
       else if is_error then Inl SProtocol
       else case resp_deserialize rl message_id (drop ODP_HEADER_SZ body) of
         Inl e \<Rightarrow> Inl SSerialization | Inr r \<Rightarrow> Inr r))"

text \<open>The receive loop, with fuel: \<open>None\<close> when it is spent.\<close>

fun receive :: "nat \<Rightarrow> 's port \<Rightarrow> ('rx, 'req, 'resp) relay \<Rightarrow> destination \<Rightarrow> 'rx \<Rightarrow> 's \<Rightarrow> ((serial_error + 'resp) \<times> 's) option" where
  "receive 0 port rl dst rx s = None"
| "receive (Suc n) port rl dst rx s = (case read_framed_packet port s of
     (Inl e, s') \<Rightarrow> Some (Inl e, s')
   | (Inr packet, s') \<Rightarrow> (case mctp_receive rl packet rx of
       (Inl e, rx') \<Rightarrow> Some (Inl SProtocol, s')
     | (Inr None, rx') \<Rightarrow> receive n port rl dst rx' s'
     | (Inr (Some message), rx') \<Rightarrow> Some (accept_response rl dst message, s')))"

definition transmit :: "'s port \<Rightarrow> ('rx, 'req, 'resp) relay \<Rightarrow> destination \<Rightarrow> 'req \<Rightarrow> ('s, unit) serial_op" where
  "transmit port rl dst request = (case req_serialize rl request of Inl e \<Rightarrow> op_fail SSerialization
     | Inr body \<Rightarrow>
       op_then (io (port_clear port)) (\<lambda>_.
       case mctp_packets rl (build_odp_header True (service_id dst) (req_discriminant rl request)) body of
         Inl e \<Rightarrow> op_fail SSerialization
       | Inr pkts \<Rightarrow> op_then (write_packets port pkts) (\<lambda>_. io (port_flush port))))"

definition send :: "nat \<Rightarrow> 's port \<Rightarrow> ('rx, 'req, 'resp) relay \<Rightarrow> destination \<Rightarrow> 'req \<Rightarrow> 's \<Rightarrow> ((serial_error + 'resp) \<times> 's) option" where
  "send n port rl dst request s = (case transmit port rl dst request s of
     (Inl e, s') \<Rightarrow> Some (Inl e, s')
   | (Inr _, s') \<Rightarrow> receive n port rl dst (mctp_new rl) s')"

section \<open>The sources\<close>

datatype thermal_request =
    ThermalGetTmp u8 | ThermalGetVar u8 u16 bytes | ThermalSetVar u8 u16 bytes u32

datatype thermal_response = ThermalTmp u32 | ThermalVar u32 | ThermalSet | OtherThermal

datatype battery_request = ReqGetBst u8 | ReqGetBix u8 | ReqSetBtp u8 u32

datatype battery_response = RespBst bst_return | RespBix bix_fixed_strings | RespBtp | OtherBattery

datatype 'ts time_request =
    ReqGetCapabilities | ReqGetRealTime | ReqGetWakeStatus timer_id | ReqGetPolicy timer_id | ReqGetTimer timer_id
  | ReqSetRealTime 'ts | ReqSetTimer timer_id u32 | ReqSetPolicy timer_id u32 | ReqClearWake timer_id

datatype 'ts time_response =
    RespCapabilities u32 | RespRealTime 'ts | RespTimerStatus u32 | RespWakePolicy u32 | RespTimerSeconds u32
  | RespOkNoData | OtherTime

text \<open>A serial source: its port, the relays of the three services, its instances and the fuel.\<close>

record ('s, 'rx, 'ts) serial =
  ser_fuel :: nat
  ser_port :: "'s port"
  ser_thermal :: "('rx, thermal_request, thermal_response) relay"
  ser_battery :: "('rx, battery_request, battery_response) relay"
  ser_time :: "('rx, 'ts time_request, 'ts time_response) relay"
  sensor_instance :: u8
  fan_instance :: u8

type_synonym ('s, 'a) serial_call = "'s \<Rightarrow> ((serial_error + 'a) \<times> 's) option"

definition answer :: "('resp \<Rightarrow> 'a option) \<Rightarrow> ('s, 'resp) serial_call \<Rightarrow> ('s, 'a) serial_call" where
  "answer f m s = map_option (\<lambda>(r, s'). (thenE r (\<lambda>resp. ok_or SUnexpectedResponse (f resp)), s')) (m s)"

definition ask_thermal :: "('s, 'rx, 'ts) serial \<Rightarrow> (thermal_response \<Rightarrow> 'a option) \<Rightarrow> thermal_request \<Rightarrow> ('s, 'a) serial_call" where
  "ask_thermal sr f req = answer f (send (ser_fuel sr) (ser_port sr) (ser_thermal sr) ToThermal req)"

definition ask_battery :: "('s, 'rx, 'ts) serial \<Rightarrow> (battery_response \<Rightarrow> 'a option) \<Rightarrow> battery_request \<Rightarrow> ('s, 'a) serial_call" where
  "ask_battery sr f req = answer f (send (ser_fuel sr) (ser_port sr) (ser_battery sr) ToBattery req)"

definition ask_time :: "('s, 'rx, 'ts) serial \<Rightarrow> ('ts time_response \<Rightarrow> 'a option) \<Rightarrow> 'ts time_request \<Rightarrow> ('s, 'a) serial_call" where
  "ask_time sr f req = answer f (send (ser_fuel sr) (ser_port sr) (ser_time sr) ToTimeAlarm req)"

definition thermal_get_var :: "('s, 'rx, 'ts) serial \<Rightarrow> uuid \<Rightarrow> ('s, f64) serial_call" where
  "thermal_get_var sr guid = ask_thermal sr (\<lambda>r. case r of ThermalVar v \<Rightarrow> Some (f64_of_nat (unat v)) | _ \<Rightarrow> None)
     (ThermalGetVar (fan_instance sr) THERMAL_VAR_LEN (to_bytes_le guid))"

definition thermal_set_var :: "('s, 'rx, 'ts) serial \<Rightarrow> uuid \<Rightarrow> u32 \<Rightarrow> ('s, unit) serial_call" where
  "thermal_set_var sr guid raw = ask_thermal sr (\<lambda>r. case r of ThermalSet \<Rightarrow> Some () | _ \<Rightarrow> None)
     (ThermalSetVar (fan_instance sr) THERMAL_VAR_LEN (to_bytes_le guid) raw)"

definition serial_get_temperature :: "('s, 'rx, 'ts) serial \<Rightarrow> ('s, f64) serial_call" where
  "serial_get_temperature sr = ask_thermal sr (\<lambda>r. case r of ThermalTmp t \<Rightarrow> Some (dk_to_c t) | _ \<Rightarrow> None)
     (ThermalGetTmp (sensor_instance sr))"

definition serial_get_threshold :: "('s, 'rx, 'ts) serial \<Rightarrow> lib_threshold \<Rightarrow> ('s, f64) serial_call" where
  "serial_get_threshold sr th s =
     map_option (\<lambda>(r, s'). (thenE r (\<lambda>raw. Inr (dk_to_c (f64_to_u32 raw))), s')) (thermal_get_var sr (threshold_guid th) s)"

definition serial_set_threshold :: "('s, 'rx, 'ts) serial \<Rightarrow> lib_threshold \<Rightarrow> f64 \<Rightarrow> ('s, unit) serial_call" where
  "serial_set_threshold sr th v = thermal_set_var sr (threshold_guid th) (c_to_dk v)"

definition serial_set_rpm :: "('s, 'rx, 'ts) serial \<Rightarrow> f64 \<Rightarrow> ('s, unit) serial_call" where
  "serial_set_rpm sr rpm = thermal_set_var sr FAN_CURRENT_RPM (f64_to_u32 rpm)"

definition serial_get_bst :: "('s, 'rx, 'ts) serial \<Rightarrow> ('s, bst_return) serial_call" where
  "serial_get_bst sr = ask_battery sr (\<lambda>r. case r of RespBst b \<Rightarrow> Some b | _ \<Rightarrow> None) (ReqGetBst BATTERY_INSTANCE)"

definition serial_get_bix :: "('s, 'rx, 'ts) serial \<Rightarrow> ('s, bix_fixed_strings) serial_call" where
  "serial_get_bix sr = ask_battery sr (\<lambda>r. case r of RespBix b \<Rightarrow> Some b | _ \<Rightarrow> None) (ReqGetBix BATTERY_INSTANCE)"

definition serial_set_btp :: "('s, 'rx, 'ts) serial \<Rightarrow> u32 \<Rightarrow> ('s, unit) serial_call" where
  "serial_set_btp sr v = ask_battery sr (\<lambda>r. case r of RespBtp \<Rightarrow> Some () | _ \<Rightarrow> None) (ReqSetBtp BATTERY_INSTANCE v)"

definition serial_get_capabilities :: "('s, 'rx, 'ts) serial \<Rightarrow> ('s, u32) serial_call" where
  "serial_get_capabilities sr = ask_time sr (\<lambda>r. case r of RespCapabilities c \<Rightarrow> Some c | _ \<Rightarrow> None) ReqGetCapabilities"

definition serial_get_real_time :: "('s, 'rx, 'ts) serial \<Rightarrow> ('s, 'ts) serial_call" where
  "serial_get_real_time sr = ask_time sr (\<lambda>r. case r of RespRealTime t \<Rightarrow> Some t | _ \<Rightarrow> None) ReqGetRealTime"

definition serial_get_wake_status :: "('s, 'rx, 'ts) serial \<Rightarrow> timer_id \<Rightarrow> ('s, u32) serial_call" where
  "serial_get_wake_status sr i = ask_time sr (\<lambda>r. case r of RespTimerStatus w \<Rightarrow> Some w | _ \<Rightarrow> None) (ReqGetWakeStatus i)"

definition serial_get_policy :: "('s, 'rx, 'ts) serial \<Rightarrow> timer_id \<Rightarrow> ('s, u32) serial_call" where
  "serial_get_policy sr i = ask_time sr (\<lambda>r. case r of RespWakePolicy w \<Rightarrow> Some w | _ \<Rightarrow> None) (ReqGetPolicy i)"

definition serial_get_timer_value :: "('s, 'rx, 'ts) serial \<Rightarrow> timer_id \<Rightarrow> ('s, u32) serial_call" where
  "serial_get_timer_value sr i = ask_time sr (\<lambda>r. case r of RespTimerSeconds w \<Rightarrow> Some w | _ \<Rightarrow> None) (ReqGetTimer i)"

definition ok_no_data :: "'ts time_response \<Rightarrow> unit option" where
  "ok_no_data r = (case r of RespOkNoData \<Rightarrow> Some () | _ \<Rightarrow> None)"

definition serial_set_real_time :: "('s, 'rx, 'ts) serial \<Rightarrow> 'ts \<Rightarrow> ('s, unit) serial_call" where
  "serial_set_real_time sr t = ask_time sr ok_no_data (ReqSetRealTime t)"

definition serial_set_timer_value :: "('s, 'rx, 'ts) serial \<Rightarrow> timer_id \<Rightarrow> u32 \<Rightarrow> ('s, unit) serial_call" where
  "serial_set_timer_value sr i v = ask_time sr ok_no_data (ReqSetTimer i v)"

definition serial_set_policy :: "('s, 'rx, 'ts) serial \<Rightarrow> timer_id \<Rightarrow> u32 \<Rightarrow> ('s, unit) serial_call" where
  "serial_set_policy sr i v = ask_time sr ok_no_data (ReqSetPolicy i v)"

definition serial_clear_wake_status :: "('s, 'rx, 'ts) serial \<Rightarrow> timer_id \<Rightarrow> ('s, unit) serial_call" where
  "serial_clear_wake_status sr i = ask_time sr ok_no_data (ReqClearWake i)"

definition serial_get_snapshot :: "u8 \<Rightarrow> ('s, 'snap) serial_op" where
  "serial_get_snapshot connector = op_fail SUnsupported"

end
