(* ===== verification/Ucsi.thy ===== *)
theory Ucsi
  imports EcSource
begin

text \<open>
  The UCSI mailbox envelope, src/ec/test-lib/src/ucsi.rs. What the crate embedded_usb_pd decodes (the CCI word,
  the command opcodes and the payloads of the responses) is a parameter. An outer \<open>None\<close> is a panic of the
  code: a slice or an index out of range.
\<close>

datatype ucsi_opcode = GetCapability | GetConnectorCapability | GetConnectorStatus

record ('cap, 'ccap, 'stat) ucsi_iface =
  ui_opcode :: "ucsi_opcode \<Rightarrow> u8"
  cci_error :: "u32 \<Rightarrow> bool"
  cci_not_supported :: "u32 \<Rightarrow> bool"
  cci_cmd_complete :: "u32 \<Rightarrow> bool"
  cci_data_len :: "u32 \<Rightarrow> nat"
  ui_cap_len :: nat
  ui_ccap_len :: nat
  ui_status_len :: nat
  ui_cap :: "bytes \<Rightarrow> 'cap option"
  ui_ccap :: "u16 \<Rightarrow> 'ccap"
  ui_status :: "bytes \<Rightarrow> 'stat option"

record ('cap, 'ccap, 'stat) ucsi_snapshot =
  snap_version :: u16
  snap_capability :: 'cap
  snap_connector_capability :: 'ccap
  snap_connector_status :: 'stat

definition CONTROL_LEN :: nat where "CONTROL_LEN = 8"
definition MAILBOX_LEN :: nat where "MAILBOX_LEN = 48"
definition FFA_ENVELOPE_LEN :: nat where "FFA_ENVELOPE_LEN = 144"
definition FFA_PAYLOAD_OFFSET :: nat where "FFA_PAYLOAD_OFFSET = 32"
definition UCSI_VERSION_1_2 :: u16 where "UCSI_VERSION_1_2 = 0x0120"
definition MESSAGE_IN_OFFSET :: nat where "MESSAGE_IN_OFFSET = 16"

datatype mailbox_error =
    WrongLength nat | FfaStatus u64 | UnsupportedVersion u16 | NotComplete | CommandError | NotSupported
  | UnexpectedDataLen nat nat | PayloadDecode

fun mailbox_kind :: "mailbox_error \<Rightarrow> error_kind" where
  "mailbox_kind (FfaStatus s) = IoKind"
| "mailbox_kind _ = InvalidDataKind"

definition control :: "('cap, 'ccap, 'stat) ucsi_iface \<Rightarrow> ucsi_opcode \<Rightarrow> u8 \<Rightarrow> bytes" where
  "control ui command connector = (replicate CONTROL_LEN 0)[0 := ui_opcode ui command, 2 := connector]"

definition normalize_acpi_response :: "bytes \<Rightarrow> mailbox_error + bytes" where
  "normalize_acpi_response bs =
     (if length bs = MAILBOX_LEN then Inr bs
      else if length bs = FFA_ENVELOPE_LEN then
        let status = word_of_nat (le_nat (take 8 bs)) in
        if status \<noteq> 0 then Inl (FfaStatus status) else Inr (slice FFA_PAYLOAD_OFFSET MAILBOX_LEN bs)
      else Inl (WrongLength (length bs)))"

definition cci_of :: "bytes \<Rightarrow> u32" where "cci_of bs = word_of_nat (le_nat (slice 4 4 bs))"

definition version_of :: "bytes \<Rightarrow> u16" where "version_of bs = word_of_nat (le_nat [bs ! 0, bs ! 1])"

definition validate :: "('cap, 'ccap, 'stat) ucsi_iface \<Rightarrow> bytes \<Rightarrow> mailbox_error + u16 \<times> nat" where
  "validate ui bs =
     (if length bs \<noteq> MAILBOX_LEN then Inl (WrongLength (length bs))
      else let version = version_of bs; cci = cci_of bs in
        if cci_error ui cci then Inl CommandError
        else if cci_not_supported ui cci then Inl NotSupported
        else if \<not> cci_cmd_complete ui cci then Inl NotComplete
        else Inr (version, cci_data_len ui cci))"

definition message_in :: "('cap, 'ccap, 'stat) ucsi_iface \<Rightarrow> bytes \<Rightarrow> nat \<Rightarrow> (mailbox_error + bytes) option" where
  "message_in ui bs expected = (case validate ui bs of
     Inl e \<Rightarrow> Some (Inl e)
   | Inr (version, actual) \<Rightarrow>
       if version \<noteq> UCSI_VERSION_1_2 then Some (Inl (UnsupportedVersion version))
       else if actual \<noteq> expected then Some (Inl (UnexpectedDataLen expected actual))
       else if MESSAGE_IN_OFFSET + expected \<le> length bs then Some (Inr (slice MESSAGE_IN_OFFSET expected bs))
       else None)"

definition decode_version :: "('cap, 'ccap, 'stat) ucsi_iface \<Rightarrow> bytes \<Rightarrow> mailbox_error + u16" where
  "decode_version ui bs = thenE (validate ui bs) (\<lambda>(version, _). Inr version)"

definition decode_capability :: "('cap, 'ccap, 'stat) ucsi_iface \<Rightarrow> bytes \<Rightarrow> (mailbox_error + 'cap) option" where
  "decode_capability ui bs = map_option
     (\<lambda>r. thenE r (\<lambda>payload. ok_or PayloadDecode (ui_cap ui payload))) (message_in ui bs (ui_cap_len ui))"

definition decode_connector_capability ::
  "('cap, 'ccap, 'stat) ucsi_iface \<Rightarrow> bytes \<Rightarrow> (mailbox_error + 'ccap) option" where
  "decode_connector_capability ui bs = Option.bind (message_in ui bs (ui_ccap_len ui)) (\<lambda>r. case r of
     Inl e \<Rightarrow> Some (Inl e)
   | Inr payload \<Rightarrow> if length payload < 2 then None
       else Some (Inr (ui_ccap ui (word_of_nat (le_nat [payload ! 0, payload ! 1])))))"

definition decode_connector_status ::
  "('cap, 'ccap, 'stat) ucsi_iface \<Rightarrow> bytes \<Rightarrow> (mailbox_error + 'stat) option" where
  "decode_connector_status ui bs = map_option
     (\<lambda>r. thenE r (\<lambda>payload. ok_or PayloadDecode (ui_status ui payload))) (message_in ui bs (ui_status_len ui))"

section \<open>What a decoder accepts\<close>

text \<open>A mailbox with a completed command: 16 bytes of header, then MESSAGE IN.\<close>

definition completed :: "('cap, 'ccap, 'stat) ucsi_iface \<Rightarrow> bytes \<Rightarrow> bool" where
  "completed ui bs \<longleftrightarrow> length bs = MAILBOX_LEN \<and> \<not> cci_error ui (cci_of bs) \<and>
     \<not> cci_not_supported ui (cci_of bs) \<and> cci_cmd_complete ui (cci_of bs)"

text \<open>The sizes of the responses fit the mailbox, and the connector capability has a word.\<close>

definition sizes_ok :: "('cap, 'ccap, 'stat) ucsi_iface \<Rightarrow> bool" where
  "sizes_ok ui \<longleftrightarrow> ui_cap_len ui \<le> 32 \<and> 2 \<le> ui_ccap_len ui \<and> ui_ccap_len ui \<le> 32 \<and> ui_status_len ui \<le> 32"

lemma validate_completed:
  "validate ui bs = Inr (v, n) \<longleftrightarrow> completed ui bs \<and> v = version_of bs \<and> n = cci_data_len ui (cci_of bs)"
  by (auto simp: validate_def completed_def Let_def)

lemma validate_Inr: "completed ui bs \<Longrightarrow> validate ui bs = Inr (version_of bs, cci_data_len ui (cci_of bs))"
  by (simp add: validate_completed)

lemma validate_Inl: "\<not> completed ui bs \<Longrightarrow> \<exists>e. validate ui bs = Inl e"
  by (cases "validate ui bs") (auto simp: validate_completed)

lemma message_in_total: "n \<le> 32 \<Longrightarrow> message_in ui bs n \<noteq> None"
  by (auto simp: message_in_def validate_completed completed_def MESSAGE_IN_OFFSET_def MAILBOX_LEN_def split: sum.splits)

lemma message_in_accepts:
  assumes "n \<le> 32"
  shows "message_in ui bs n = Some (Inr p) \<longleftrightarrow>
    completed ui bs \<and> version_of bs = UCSI_VERSION_1_2 \<and> cci_data_len ui (cci_of bs) = n \<and> p = slice 16 n bs"
proof (cases "completed ui bs")
  case True
  then have "length bs = 48" by (simp add: completed_def MAILBOX_LEN_def)
  then show ?thesis using True assms by (auto simp: message_in_def validate_Inr MESSAGE_IN_OFFSET_def)
next
  case False
  then show ?thesis using validate_Inl [OF False] by (auto simp: message_in_def)
qed

lemma message_in_length: "message_in ui bs n = Some (Inr p) \<Longrightarrow> length p = n"
  by (auto simp: message_in_def slice_def split: sum.splits prod.splits if_splits)

lemma decoders_total:
  assumes "sizes_ok ui"
  shows "decode_capability ui bs \<noteq> None" "decode_connector_capability ui bs \<noteq> None"
    "decode_connector_status ui bs \<noteq> None"
proof -
  show "decode_capability ui bs \<noteq> None" "decode_connector_status ui bs \<noteq> None"
    using assms message_in_total [of _ ui bs] by (auto simp: decode_capability_def decode_connector_status_def sizes_ok_def)
  obtain r where r: "message_in ui bs (ui_ccap_len ui) = Some r"
    using assms message_in_total [of "ui_ccap_len ui" ui bs] by (auto simp: sizes_ok_def)
  then show "decode_connector_capability ui bs \<noteq> None"
    using message_in_length [of ui bs "ui_ccap_len ui"] assms
    by (cases r) (auto simp: decode_connector_capability_def sizes_ok_def)
qed

text \<open>The FF-A envelope of a mailbox is read as the mailbox.\<close>

lemma normalize_envelope:
  assumes "length box = MAILBOX_LEN" "length gap = 24" "length tail = 64"
  shows "normalize_acpi_response (replicate 8 0 @ gap @ box @ tail) = Inr box"
proof -
  have "le_nat (replicate 8 (0 :: u8)) = 0" by (simp add: numeral_eq_Suc)
  then show ?thesis using assms
    by (simp add: normalize_acpi_response_def MAILBOX_LEN_def FFA_ENVELOPE_LEN_def FFA_PAYLOAD_OFFSET_def slice_def)
qed

end
