(* ===== verification/EcAcpi.thy ===== *)
theory EcAcpi
  imports Ucsi
begin

text \<open>
  The ACPI data source, src/ec/test-lib/src/acpi.rs: the buffers exchanged with the test driver, and the
  methods it evaluates. The driver (opening the device and the control call) is the parameter
  \<open>driver\<close>, from the input buffer to the output buffer or an error code, over its own state. Texts of
  arguments and of method names are their UTF-8 bytes.
\<close>

section \<open>Data\<close>

datatype acpi_argument_type = TInteger | TString | TBuffer | TPackage | TPackageEx

fun argument_type_of :: "u16 \<Rightarrow> acpi_argument_type option" where
  "argument_type_of t = (if t = 0 then Some TInteger else if t = 1 then Some TString else if t = 2 then Some TBuffer
     else if t = 3 then Some TPackage else if t = 4 then Some TPackageEx else None)"

fun argument_word :: "acpi_argument_type \<Rightarrow> u16" where
  "argument_word TInteger = 0" | "argument_word TString = 1" | "argument_word TBuffer = 2"
| "argument_word TPackage = 3" | "argument_word TPackageEx = 4"

datatype acpi_parse_error = InsufficientLength | InvalidFormat | EvaluationFailed u32

datatype acpi_error =
    AParse acpi_parse_error | AUnexpectedResponse | AUnexpectedArgumentType u16 | AOperationFailed | AInvalidData
  | AUcsi mailbox_error

fun acpi_kind :: "acpi_error \<Rightarrow> error_kind" where
  "acpi_kind (AParse e) = OtherKind"
| "acpi_kind AUnexpectedResponse = UnexpectedResponseKind"
| "acpi_kind (AUnexpectedArgumentType t) = UnexpectedResponseKind"
| "acpi_kind AOperationFailed = OtherKind"
| "acpi_kind AInvalidData = InvalidDataKind"
| "acpi_kind (AUcsi e) = mailbox_kind e"

datatype acpi_method_argument = ArgInt u32 | ArgGuid bytes | ArgString bytes | ArgBuffer bytes

datatype acpi_value =
    AvInteger u32 | AvString ustr | AvBuffer bytes | AvPackage "acpi_value list" | AvMalformed bytes

record acpi_argument_v1 =
  v1_type :: u16
  v1_length :: u16
  v1_data32 :: u32
  v1_data :: bytes

record acpi_input =
  in_signature :: u32
  in_methodname :: bytes
  in_size :: u32
  in_count :: u32
  in_arguments :: "acpi_argument_v1 list"

record acpi_output =
  out_signature :: u32
  out_length :: u32
  out_count :: u32
  out_arguments :: "acpi_argument_v1 list"

text \<open>Little-endian words of a buffer.\<close>

definition le16 :: "nat \<Rightarrow> bytes \<Rightarrow> u16" where "le16 i bs = word_of_nat (le_nat (slice i 2 bs))"

definition le32 :: "nat \<Rightarrow> bytes \<Rightarrow> u32" where "le32 i bs = word_of_nat (le_nat (slice i 4 bs))"

definition ascii :: "string \<Rightarrow> bytes" where "ascii s = map (\<lambda>c. word_of_nat (of_char c)) s"

definition AEIF :: u32 where "AEIF = word_of_nat (le_nat (ascii ''AeiF''))"

definition AEOB :: u32 where "AEOB = word_of_nat (le_nat (ascii ''AeoB''))"

section \<open>Values\<close>

text \<open>
  \<open>String::from_utf8_lossy\<close>: the first byte fixes the length of the sequence and the range of the second
  byte; a maximal invalid prefix becomes one replacement character.
\<close>

definition utf8_shape :: "nat \<Rightarrow> (nat \<times> nat \<times> nat) option" where
  "utf8_shape b =
     (if 0xC2 \<le> b \<and> b \<le> 0xDF then Some (1, 0x80, 0xBF) else if b = 0xE0 then Some (2, 0xA0, 0xBF)
      else if b = 0xED then Some (2, 0x80, 0x9F) else if 0xE1 \<le> b \<and> b \<le> 0xEF then Some (2, 0x80, 0xBF)
      else if b = 0xF0 then Some (3, 0x90, 0xBF) else if 0xF1 \<le> b \<and> b \<le> 0xF3 then Some (3, 0x80, 0xBF)
      else if b = 0xF4 then Some (3, 0x80, 0x8F) else None)"

text \<open>The continuation bytes at the front, at most \<open>n\<close> of them, the first one in a range of its own.\<close>

fun continuation :: "nat \<Rightarrow> nat \<Rightarrow> nat \<Rightarrow> nat list \<Rightarrow> nat list" where
  "continuation 0 lo hi bs = []"
| "continuation (Suc n) lo hi [] = []"
| "continuation (Suc n) lo hi (b # bs) = (if lo \<le> b \<and> b \<le> hi then b # continuation n 0x80 0xBF bs else [])"

definition utf8_value :: "nat \<Rightarrow> nat list \<Rightarrow> nat" where
  "utf8_value b cs = foldl (\<lambda>v c. v * 64 + c mod 64)
     (b mod (if length cs = 1 then 32 else if length cs = 2 then 16 else 8)) cs"

function utf8_lossy :: "nat list \<Rightarrow> ustr" where
  "utf8_lossy [] = []"
| "utf8_lossy (b # bs) = (if b < 0x80 then b # utf8_lossy bs
     else case utf8_shape b of None \<Rightarrow> 0xFFFD # utf8_lossy bs
     | Some (n, lo, hi) \<Rightarrow> let cs = continuation n lo hi bs in
         (if length cs = n then utf8_value b cs else 0xFFFD) # utf8_lossy (drop (length cs) bs))"
  by pat_completeness auto
termination by (relation "measure length") auto

definition trim_end_nul :: "ustr \<Rightarrow> ustr" where "trim_end_nul s = rev (dropWhile (\<lambda>c. c = 0) (rev s))"

function parse_acpi_values :: "bytes \<Rightarrow> acpi_value list" and acpi_value_from :: "u16 \<Rightarrow> bytes \<Rightarrow> acpi_value" where
  "parse_acpi_values bs = (if bs = [] then []
     else if length bs < 4 then [AvMalformed bs]
     else let data_length = unat (le16 2 bs) in
       if length bs < 4 + data_length then [AvMalformed bs]
       else acpi_value_from (le16 0 bs) (slice 4 data_length bs) # parse_acpi_values (drop (4 + data_length) bs))"
| "acpi_value_from t data = (case argument_type_of t of
     Some TInteger \<Rightarrow> AvInteger (word_of_nat (le_nat (take 4 data)))
   | Some TString \<Rightarrow> AvString (trim_end_nul (utf8_lossy (map unat data)))
   | Some TPackage \<Rightarrow> AvPackage (parse_acpi_values data)
   | Some TPackageEx \<Rightarrow> AvPackage (parse_acpi_values data)
   | _ \<Rightarrow> AvBuffer data)"
  by pat_completeness auto
termination
  by (relation "measure (\<lambda>x. case x of Inl bs \<Rightarrow> 2 * length bs | Inr (t, data) \<Rightarrow> 2 * length data + 1)")
     (auto simp: slice_def)

declare parse_acpi_values.simps [simp del] acpi_value_from.simps [simp del] utf8_lossy.simps [simp del]

section \<open>Requests\<close>

definition len16 :: "nat \<Rightarrow> acpi_parse_error + u16" where
  "len16 n = (if n < 2 ^ 16 then Inr (word_of_nat n) else Inl InvalidFormat)"

definition argument_v1 :: "acpi_method_argument \<Rightarrow> acpi_parse_error + acpi_argument_v1" where
  "argument_v1 arg = (case arg of
     ArgGuid g \<Rightarrow> Inr \<lparr>v1_type = argument_word TBuffer, v1_length = 16, v1_data32 = 0, v1_data = g\<rparr>
   | ArgInt i \<Rightarrow> Inr \<lparr>v1_type = argument_word TInteger, v1_length = 4, v1_data32 = i, v1_data = nat_le 4 (unat i)\<rparr>
   | ArgString s \<Rightarrow> let data = s @ [0] in thenE (len16 (length data)) (\<lambda>n.
       Inr \<lparr>v1_type = argument_word TString, v1_length = n, v1_data32 = 0, v1_data = data\<rparr>)
   | ArgBuffer b \<Rightarrow> thenE (len16 (length b)) (\<lambda>n.
       Inr \<lparr>v1_type = argument_word TBuffer, v1_length = n, v1_data32 = 0, v1_data = b\<rparr>))"

definition input_of :: "bytes \<Rightarrow> acpi_method_argument list option \<Rightarrow> acpi_parse_error + acpi_input" where
  "input_of name args = thenE (case args of Some as \<Rightarrow> map_try argument_v1 as | None \<Rightarrow> Inr []) (\<lambda>arguments.
     Inr \<lparr>in_signature = AEIF, in_methodname = take 256 name @ replicate (256 - length name) 0,
       in_size = sum_list (map (\<lambda>a. ucast (v1_length a)) arguments),
       in_count = word_of_nat (length arguments), in_arguments = arguments\<rparr>)"

definition input_argument_bytes :: "acpi_argument_v1 \<Rightarrow> bytes" where
  "input_argument_bytes a = nat_le 2 (unat (v1_type a)) @ nat_le 2 (unat (v1_length a)) @ v1_data a"

definition input_bytes :: "acpi_input \<Rightarrow> bytes" where
  "input_bytes i = nat_le 4 (unat (in_signature i)) @ in_methodname i @ nat_le 4 (unat (in_size i))
     @ nat_le 4 (unat (in_count i)) @ concat (map input_argument_bytes (in_arguments i))"

section \<open>Responses\<close>

fun output_arguments :: "nat \<Rightarrow> bytes \<Rightarrow> nat \<Rightarrow> acpi_parse_error + acpi_argument_v1 list \<times> nat" where
  "output_arguments 0 v pos = Inr ([], pos)"
| "output_arguments (Suc n) v pos =
     (if length v < pos + 8 then Inl InsufficientLength
      else let t = le16 pos v; data_length = unat (le16 (pos + 2) v);
               data32 = (if t = 0 then le32 (pos + 4) v else 0) in
        if length v < pos + 4 + data_length then Inl InsufficientLength
        else thenE (output_arguments n v (pos + 4 + max data_length 4)) (\<lambda>(args, fin).
          Inr (\<lparr>v1_type = t, v1_length = word_of_nat data_length, v1_data32 = data32,
                v1_data = slice (pos + 4) data_length v\<rparr> # args, fin)))"

definition parse_output :: "bytes \<Rightarrow> acpi_parse_error + acpi_output" where
  "parse_output v = (if length v < 12 then Inl InsufficientLength
     else let signature = le32 0 v; len = le32 4 v; count = le32 8 v in
       if signature \<noteq> AEOB \<or> unat len \<noteq> length v then Inl InvalidFormat
       else thenE (output_arguments (unat count) v 12) (\<lambda>(arguments, pos).
         if pos \<noteq> length v then Inl InvalidFormat
         else Inr \<lparr>out_signature = signature, out_length = len, out_count = count, out_arguments = arguments\<rparr>))"

definition output_arg :: "acpi_output \<Rightarrow> nat \<Rightarrow> acpi_error + acpi_argument_v1" where
  "output_arg out i = (if i < length (out_arguments out) then Inr (out_arguments out ! i) else Inl AUnexpectedResponse)"

section \<open>Evaluation\<close>

type_synonym 's acpi_driver = "bytes \<Rightarrow> ('s, u32, bytes) ec_op"

type_synonym ('s, 'a) acpi_op = "('s, acpi_error, 'a) ec_op"

definition evaluate :: "'s acpi_driver \<Rightarrow> bytes \<Rightarrow> acpi_method_argument list option \<Rightarrow> ('s, acpi_parse_error, acpi_output) ec_op" where
  "evaluate driver name args =
     (if (case args of Some as \<Rightarrow> 7 < length as | None \<Rightarrow> False) then op_fail InsufficientLength
      else op_then (op_lift (input_of name args)) (\<lambda>input.
        op_then (op_map EvaluationFailed (driver (input_bytes input))) (\<lambda>out. op_lift (parse_output out))))"

text \<open>The methods of the EC device, whose names start with a backslash, and the conversion of the error on the way out.\<close>

definition ec_method :: "string \<Rightarrow> bytes" where "ec_method m = 0x5C # ascii (''_SB.ECT0.'' @ m)"

definition evaluate' :: "'s acpi_driver \<Rightarrow> string \<Rightarrow> acpi_method_argument list option \<Rightarrow> ('s, acpi_output) acpi_op" where
  "evaluate' driver name args = op_map AParse (evaluate driver (ec_method name) args)"

definition acpi_eval :: "'s acpi_driver \<Rightarrow> bytes \<Rightarrow> acpi_method_argument list \<Rightarrow> ('s, acpi_value list) acpi_op" where
  "acpi_eval driver name args = op_then (op_map AParse (evaluate driver name (Some args))) (\<lambda>out.
     op_ret (map (\<lambda>a. acpi_value_from (v1_type a) (v1_data a)) (out_arguments out)))"

definition u32_result :: "acpi_output \<Rightarrow> acpi_error + u32" where
  "u32_result out = (if out_count out \<noteq> 1 then Inl AUnexpectedResponse
     else thenE (output_arg out 0) (\<lambda>arg.
       if v1_type arg \<noteq> argument_word TInteger then Inl (AUnexpectedArgumentType (v1_type arg))
       else if v1_length arg = 4 then Inr (v1_data32 arg)
       else if v1_length arg = 8 then
         if length (v1_data arg) \<noteq> 8 then Inl AUnexpectedResponse
         else if le_nat (v1_data arg) < 2 ^ 32 then Inr (word_of_nat (le_nat (v1_data arg))) else Inl AInvalidData
       else Inl AUnexpectedResponse))"

definition evaluate_u32 :: "'s acpi_driver \<Rightarrow> string \<Rightarrow> acpi_method_argument list option \<Rightarrow> ('s, u32) acpi_op" where
  "evaluate_u32 driver name args = op_then (evaluate' driver name args) (\<lambda>out. op_lift (u32_result out))"

definition var_result :: "acpi_output \<Rightarrow> acpi_error + f64" where
  "var_result out = (if out_count out \<noteq> 2 then Inl AUnexpectedResponse
     else thenE (output_arg out 0) (\<lambda>status. if v1_data32 status \<noteq> 0 then Inl AOperationFailed
       else thenE (output_arg out 1) (\<lambda>arg. Inr (f64_of_nat (unat (v1_data32 arg))))))"

definition acpi_get_var :: "'s acpi_driver \<Rightarrow> u8 \<Rightarrow> uuid \<Rightarrow> ('s, f64) acpi_op" where
  "acpi_get_var driver fan guid =
     op_then (evaluate' driver ''TGVR'' (Some [ArgInt (ucast fan), ArgGuid (to_bytes_le guid)]))
       (\<lambda>out. op_lift (var_result out))"

definition status_result :: "acpi_output \<Rightarrow> acpi_error + unit" where
  "status_result out = (if out_count out \<noteq> 1 then Inl AUnexpectedResponse
     else thenE (output_arg out 0) (\<lambda>status. if v1_data32 status \<noteq> 0 then Inl AOperationFailed else Inr ()))"

definition acpi_set_var :: "'s acpi_driver \<Rightarrow> u8 \<Rightarrow> uuid \<Rightarrow> f64 \<Rightarrow> ('s, unit) acpi_op" where
  "acpi_set_var driver fan guid v =
     op_then (evaluate' driver ''TSVR''
         (Some [ArgInt (ucast fan), ArgGuid (to_bytes_le guid), ArgInt (f64_to_u32 v)]))
       (\<lambda>out. op_lift (status_result out))"

section \<open>The sources\<close>

definition acpi_get_temperature :: "'s acpi_driver \<Rightarrow> ('s, f64) acpi_op" where
  "acpi_get_temperature driver = op_then (evaluate' driver ''RTMP'' None) (\<lambda>out.
     if out_count out \<noteq> 1 then op_fail AUnexpectedResponse
     else op_lift (thenE (output_arg out 0) (\<lambda>a. Inr (dk_to_c (v1_data32 a)))))"

definition acpi_get_threshold :: "'s acpi_driver \<Rightarrow> u8 \<Rightarrow> lib_threshold \<Rightarrow> ('s, f64) acpi_op" where
  "acpi_get_threshold driver fan th =
     op_then (acpi_get_var driver fan (threshold_guid th)) (\<lambda>v. op_ret (dk_to_c (f64_to_u32 v)))"

definition acpi_set_threshold :: "'s acpi_driver \<Rightarrow> u8 \<Rightarrow> lib_threshold \<Rightarrow> f64 \<Rightarrow> ('s, unit) acpi_op" where
  "acpi_set_threshold driver fan th v =
     acpi_set_var driver fan (threshold_guid th) (f64_of_nat (unat (c_to_dk v)))"

definition acpi_set_rpm :: "'s acpi_driver \<Rightarrow> u8 \<Rightarrow> f64 \<Rightarrow> ('s, unit) acpi_op" where
  "acpi_set_rpm driver fan rpm = acpi_set_var driver fan FAN_CURRENT_RPM rpm"

definition data32_at :: "acpi_output \<Rightarrow> nat \<Rightarrow> acpi_error + u32" where
  "data32_at out i = thenE (output_arg out i) (\<lambda>a. Inr (v1_data32 a))"

definition checked :: "(u32 \<Rightarrow> bool) \<Rightarrow> u32 \<Rightarrow> acpi_error + u32" where
  "checked ok w = (if ok w then Inr w else Inl AInvalidData)"

text \<open>The conversion of the bytes of an argument to an array of eight.\<close>

definition text8_at :: "acpi_output \<Rightarrow> nat \<Rightarrow> acpi_error + bytes" where
  "text8_at out i = thenE (output_arg out i) (\<lambda>a. if length (v1_data a) = 8 then Inr (v1_data a) else Inl AInvalidData)"

definition bst_of_output :: "'ts ec_iface \<Rightarrow> acpi_output \<Rightarrow> acpi_error + bst_return" where
  "bst_of_output ei out = (if out_count out \<noteq> 4 then Inl AUnexpectedResponse
     else thenE (data32_at out 0) (\<lambda>w. thenE (checked (ei_battery_state ei) w) (\<lambda>st.
       thenE (data32_at out 1) (\<lambda>rate. thenE (data32_at out 2) (\<lambda>capacity. thenE (data32_at out 3) (\<lambda>voltage.
         Inr \<lparr>battery_state = st, battery_present_rate = rate, battery_remaining_capacity = capacity,
              battery_present_voltage = voltage\<rparr>))))))"

definition acpi_get_bst :: "'ts ec_iface \<Rightarrow> 's acpi_driver \<Rightarrow> ('s, bst_return) acpi_op" where
  "acpi_get_bst ei driver = op_then (evaluate' driver ''TBST'' None) (\<lambda>out. op_lift (bst_of_output ei out))"

text \<open>The words of the arguments 5 to 15 are read in order into a list.\<close>

definition bix_of_output :: "'ts ec_iface \<Rightarrow> acpi_output \<Rightarrow> acpi_error + bix_fixed_strings" where
  "bix_of_output ei out = (if out_count out \<noteq> 21 then Inl AUnexpectedResponse
     else thenE (data32_at out 0) (\<lambda>rev0. thenE (thenE (data32_at out 1) (checked (ei_power_unit ei))) (\<lambda>unit1.
       thenE (data32_at out 2) (\<lambda>design. thenE (data32_at out 3) (\<lambda>full.
       thenE (thenE (data32_at out 4) (checked (ei_technology ei))) (\<lambda>tech.
       thenE (map_try (data32_at out) [5..<16]) (\<lambda>ws.
       thenE (text8_at out 16) (\<lambda>model. thenE (text8_at out 17) (\<lambda>serial.
       thenE (text8_at out 18) (\<lambda>kind. thenE (text8_at out 19) (\<lambda>oem.
       thenE (thenE (data32_at out 20) (checked (ei_swap ei))) (\<lambda>swap. Inr
         \<lparr>bix_revision = rev0, power_unit = unit1, design_capacity = design, last_full_charge_capacity = full,
          battery_technology = tech, design_voltage = ws ! 0, design_cap_of_warning = ws ! 1,
          design_cap_of_low = ws ! 2, cycle_count = ws ! 3, measurement_accuracy = ws ! 4,
          max_sampling_time = ws ! 5, min_sampling_time = ws ! 6, max_averaging_interval = ws ! 7,
          min_averaging_interval = ws ! 8, battery_capacity_granularity_1 = ws ! 9,
          battery_capacity_granularity_2 = ws ! 10, model_number = model, serial_number = serial,
          battery_type = kind, oem_info = oem, battery_swapping_capability = swap\<rparr>))))))))))))"

definition acpi_get_bix :: "'ts ec_iface \<Rightarrow> 's acpi_driver \<Rightarrow> ('s, bix_fixed_strings) acpi_op" where
  "acpi_get_bix ei driver = op_then (evaluate' driver ''TBIX'' None) (\<lambda>out. op_lift (bix_of_output ei out))"

definition acpi_set_btp :: "'s acpi_driver \<Rightarrow> u32 \<Rightarrow> ('s, unit) acpi_op" where
  "acpi_set_btp driver trippoint =
     op_then (evaluate' driver ''TBTP'' (Some [ArgInt trippoint])) (\<lambda>_. op_ret ())"

definition timer_arg :: "timer_id \<Rightarrow> acpi_method_argument" where
  "timer_arg i = ArgInt (word_of_nat (timer_index i))"

definition time_of_output :: "'ts ec_iface \<Rightarrow> acpi_output \<Rightarrow> acpi_error + 'ts" where
  "time_of_output ei out = (if out_count out \<noteq> 1 then Inl AUnexpectedResponse
     else thenE (output_arg out 0) (\<lambda>arg.
       if v1_type arg \<noteq> argument_word TBuffer then Inl AUnexpectedResponse
       else ok_or AInvalidData (ei_ts_of_bytes ei (v1_data arg))))"

definition acpi_get_real_time :: "'ts ec_iface \<Rightarrow> 's acpi_driver \<Rightarrow> ('s, 'ts) acpi_op" where
  "acpi_get_real_time ei driver =
     op_then (evaluate' driver ''_GRT'' None) (\<lambda>out. op_lift (time_of_output ei out))"

text \<open>The four setters that return a status word.\<close>

definition expect_zero :: "('s, u32) acpi_op \<Rightarrow> ('s, unit) acpi_op" where
  "expect_zero m = op_then m (\<lambda>status. if status \<noteq> 0 then op_fail AOperationFailed else op_ret ())"

definition acpi_set_real_time :: "'ts ec_iface \<Rightarrow> 's acpi_driver \<Rightarrow> 'ts \<Rightarrow> ('s, unit) acpi_op" where
  "acpi_set_real_time ei driver t =
     expect_zero (evaluate_u32 driver ''_SRT'' (Some [ArgBuffer (ei_ts_bytes ei t)]))"

definition acpi_set_timer_value :: "'s acpi_driver \<Rightarrow> timer_id \<Rightarrow> u32 \<Rightarrow> ('s, unit) acpi_op" where
  "acpi_set_timer_value driver i v =
     expect_zero (evaluate_u32 driver ''_STV'' (Some [timer_arg i, ArgInt v]))"

definition acpi_set_policy :: "'s acpi_driver \<Rightarrow> timer_id \<Rightarrow> u32 \<Rightarrow> ('s, unit) acpi_op" where
  "acpi_set_policy driver i v =
     expect_zero (evaluate_u32 driver ''_STP'' (Some [timer_arg i, ArgInt v]))"

definition acpi_clear_wake_status :: "'s acpi_driver \<Rightarrow> timer_id \<Rightarrow> ('s, unit) acpi_op" where
  "acpi_clear_wake_status driver i = expect_zero (evaluate_u32 driver ''_CWS'' (Some [timer_arg i]))"

definition acpi_source :: "'ts ec_iface \<Rightarrow> 's acpi_driver \<Rightarrow> u8 \<Rightarrow> (nat \<Rightarrow> 's \<Rightarrow> 's) \<Rightarrow> ('s, acpi_error, 'ts) source" where
  "acpi_source ei driver fan wait = \<lparr>src_kind = acpi_kind,
     src_get_temperature = acpi_get_temperature driver,
     src_get_rpm = acpi_get_var driver fan FAN_CURRENT_RPM,
     src_get_min_rpm = acpi_get_var driver fan FAN_MIN_RPM,
     src_get_max_rpm = acpi_get_var driver fan FAN_MAX_RPM,
     src_get_threshold = acpi_get_threshold driver fan, src_set_threshold = acpi_set_threshold driver fan,
     src_set_rpm = acpi_set_rpm driver fan,
     src_get_bst = acpi_get_bst ei driver, src_get_bix = acpi_get_bix ei driver, src_set_btp = acpi_set_btp driver,
     src_get_capabilities = evaluate_u32 driver ''_GCP'' None,
     src_get_real_time = acpi_get_real_time ei driver,
     src_get_wake_status = (\<lambda>i. evaluate_u32 driver ''_GWS'' (Some [timer_arg i])),
     src_get_expired_timer_wake_policy = (\<lambda>i. evaluate_u32 driver ''_TIP'' (Some [timer_arg i])),
     src_get_timer_value = (\<lambda>i. evaluate_u32 driver ''_TIV'' (Some [timer_arg i])),
     src_set_real_time = acpi_set_real_time ei driver,
     src_set_timer_value = acpi_set_timer_value driver,
     src_set_expired_timer_wake_policy = acpi_set_policy driver,
     src_clear_wake_status = acpi_clear_wake_status driver, src_wait = wait\<rparr>"

section \<open>UCSI over ACPI\<close>

definition mailbox_of_output :: "acpi_output \<Rightarrow> acpi_error + bytes" where
  "mailbox_of_output out = (if out_count out \<noteq> 1 then Inl AUnexpectedResponse
     else thenE (output_arg out 0) (\<lambda>arg.
       if v1_type arg \<noteq> argument_word TBuffer then Inl (AUnexpectedArgumentType (v1_type arg))
       else case normalize_acpi_response (v1_data arg) of Inl e \<Rightarrow> Inl (AUcsi e) | Inr box \<Rightarrow> Inr box))"

definition ucsi_command :: "'s acpi_driver \<Rightarrow> bytes \<Rightarrow> ('s, bytes) acpi_op" where
  "ucsi_command driver ctl =
     op_then (evaluate' driver ''USND'' (Some [ArgBuffer ctl])) (\<lambda>out. op_lift (mailbox_of_output out))"

text \<open>The outer option of a decoder, a panic, is passed on.\<close>

definition decoded :: "('s, acpi_error, bytes) ec_op \<Rightarrow> (bytes \<Rightarrow> (mailbox_error + 'a) option) \<Rightarrow> 's
    \<Rightarrow> ((acpi_error + 'a) \<times> 's) option" where
  "decoded m f s = (case m s of (Inl e, s') \<Rightarrow> Some (Inl e, s')
     | (Inr box, s') \<Rightarrow> map_option (\<lambda>r. (case r of Inl e \<Rightarrow> Inl (AUcsi e) | Inr x \<Rightarrow> Inr x, s')) (f box))"

definition acpi_get_snapshot :: "('cap, 'ccap, 'stat) ucsi_iface \<Rightarrow> 's acpi_driver \<Rightarrow> u8 \<Rightarrow> 's
    \<Rightarrow> ((acpi_error + ('cap, 'ccap, 'stat) ucsi_snapshot) \<times> 's) option" where
  "acpi_get_snapshot ui driver connector s =
     Option.bind (decoded (ucsi_command driver (control ui GetCapability 0))
       (\<lambda>box. case decode_version ui box of Inl e \<Rightarrow> Some (Inl e)
          | Inr version \<Rightarrow> map_option (\<lambda>r. thenE r (\<lambda>c. Inr (version, c))) (decode_capability ui box)) s)
     (\<lambda>(r1, s1). case r1 of Inl e \<Rightarrow> Some (Inl e, s1) | Inr (version, capability) \<Rightarrow>
       Option.bind (decoded (ucsi_command driver (control ui GetConnectorCapability connector))
         (decode_connector_capability ui) s1)
       (\<lambda>(r2, s2). case r2 of Inl e \<Rightarrow> Some (Inl e, s2) | Inr ccap \<Rightarrow>
         Option.bind (decoded (ucsi_command driver (control ui GetConnectorStatus connector))
           (decode_connector_status ui) s2)
         (\<lambda>(r3, s3). case r3 of Inl e \<Rightarrow> Some (Inl e, s3) | Inr status \<Rightarrow>
           Some (Inr \<lparr>snap_version = version, snap_capability = capability,
                     snap_connector_capability = ccap, snap_connector_status = status\<rparr>, s3))))"

end
