(* ===== verification/AcpiSpec.thy ===== *)
theory AcpiSpec
  imports EcAcpi
begin

text \<open>
  The layout of the driver's responses, as an encoder: the parser accepts exactly the buffers of this
  layout and returns the arguments they hold. What the results of the methods are on such buffers.
\<close>

section \<open>Words in buffers\<close>

lemma unat_of_le16: "length s = 2 \<Longrightarrow> unat (word_of_nat (le_nat s) :: u16) = le_nat s"
  using le_nat_bound [of s] by (simp add: unat_of_nat)

lemma unat_of_le32: "length s = 4 \<Longrightarrow> unat (word_of_nat (le_nat s) :: u32) = le_nat s"
  using le_nat_bound [of s] by (simp add: unat_of_nat)

lemma le_nat_of_16: "le_nat (nat_le 2 (unat (w :: u16))) = unat w"
  using unsigned_less [of w] by (intro le_nat_nat_le) simp

lemma le_nat_of_32: "le_nat (nat_le 4 (unat (w :: u32))) = unat w"
  using unsigned_less [of w] by (intro le_nat_nat_le) simp

lemma nat_le_of_16: "length s = 2 \<Longrightarrow> nat_le 2 (unat (word_of_nat (le_nat s) :: u16)) = s"
  using nat_le_le_nat [of s] by (simp add: unat_of_le16)

lemma nat_le_of_32: "length s = 4 \<Longrightarrow> nat_le 4 (unat (word_of_nat (le_nat s) :: u32)) = s"
  using nat_le_le_nat [of s] by (simp add: unat_of_le32)

lemma slice_drop: "slice i n v = take n (drop i v)"
  by (simp add: slice_def)

section \<open>The layout\<close>

text \<open>An argument with the bytes that fill the union of its data up to four.\<close>

definition framed :: "acpi_argument_v1 \<Rightarrow> bytes \<Rightarrow> bytes" where
  "framed a pad = nat_le 2 (unat (v1_type a)) @ nat_le 2 (unat (v1_length a)) @ v1_data a @ pad"

definition frame_ok :: "acpi_argument_v1 \<Rightarrow> bytes \<Rightarrow> bool" where
  "frame_ok a pad \<longleftrightarrow> length (v1_data a) = unat (v1_length a) \<and> length pad = 4 - length (v1_data a) \<and>
     v1_data32 a = (if v1_type a = 0 then word_of_nat (le_nat (take 4 (v1_data a @ pad))) else 0)"

lemma length_framed: "frame_ok a pad \<Longrightarrow> length (framed a pad) = 4 + max (unat (v1_length a)) 4"
  by (auto simp: frame_ok_def framed_def)

lemma output_step:
  assumes "frame_ok a pad" "drop pos v = framed a pad @ rest"
  shows "output_arguments (Suc n) v pos =
    thenE (output_arguments n v (pos + length (framed a pad))) (\<lambda>(args, fin). Inr (a # args, fin))"
proof -
  let ?n = "unat (v1_length a)"
  have len: "length v - pos = length (framed a pad) + length rest" using arg_cong [OF assms(2), of length] by simp
  have ge: "pos + 8 \<le> length v" "pos + 4 + ?n \<le> length v" using len length_framed [OF assms(1)] by auto
  have d: "length (v1_data a) = ?n" using assms(1) by (simp add: frame_ok_def)
  have t: "le16 pos v = v1_type a" by (simp add: le16_def slice_drop assms(2) framed_def le_nat_of_16)
  have "drop (pos + 2) v = drop 2 (framed a pad @ rest)" using assms(2) by (metis add.commute drop_drop)
  then have l: "le16 (pos + 2) v = v1_length a" by (simp add: le16_def slice_drop framed_def le_nat_of_16)
  have "drop (pos + 4) v = drop 4 (framed a pad @ rest)" using assms(2) by (metis add.commute drop_drop)
  then have b: "drop (pos + 4) v = v1_data a @ pad @ rest" by (simp add: framed_def)
  have "length (v1_data a) + length pad \<ge> 4" using assms(1) by (simp add: frame_ok_def)
  then have "take 4 (v1_data a @ pad @ rest) = take 4 (v1_data a @ pad)" by auto
  then have "le32 (pos + 4) v = word_of_nat (le_nat (take 4 (v1_data a @ pad)))" by (simp only: le32_def slice_drop b)
  then have w: "(if v1_type a = 0 then le32 (pos + 4) v else 0) = v1_data32 a" using assms(1) by (simp add: frame_ok_def)
  have s: "slice (pos + 4) ?n v = v1_data a" by (simp add: slice_drop b d)
  have r: "\<lparr>v1_type = v1_type a, v1_length = v1_length a, v1_data32 = v1_data32 a, v1_data = v1_data a\<rparr> = a" by simp
  show ?thesis using ge length_framed [OF assms(1)]
    by (simp add: Let_def t l w s r add.assoc del: add_2_eq_Suc add_2_eq_Suc')
qed

lemma output_step_conv:
  assumes "output_arguments (Suc n) v pos = Inr (args, fin)"
  shows "\<exists>a args' pad. args = a # args' \<and> frame_ok a pad \<and> drop pos v = framed a pad @ drop (pos + length (framed a pad)) v
    \<and> output_arguments n v (pos + length (framed a pad)) = Inr (args', fin)"
proof -
  let ?l = "le16 (pos + 2) v"
  have ge: "pos + 8 \<le> length v" "pos + 4 + unat ?l \<le> length v"
    using assms by (auto simp: Let_def not_less split: if_splits)
  obtain args' where r: "output_arguments n v (pos + 4 + max (unat ?l) 4) = Inr (args', fin)"
      "args = \<lparr>v1_type = le16 pos v, v1_length = ?l, v1_data32 = if le16 pos v = 0 then le32 (pos + 4) v else 0,
               v1_data = slice (pos + 4) (unat ?l) v\<rparr> # args'"
    using assms ge by (auto simp: Let_def thenE_def split: sum.splits)
  define a where "a = hd args"
  define pad where "pad = slice (pos + 4 + unat ?l) (4 - unat ?l) v"
  have a: "v1_type a = le16 pos v" "v1_length a = ?l" "v1_data a = slice (pos + 4) (unat ?l) v"
    "v1_data32 a = (if le16 pos v = 0 then le32 (pos + 4) v else 0)" by (simp_all add: a_def r(2))
  have body: "v1_data a @ pad = slice (pos + 4) (max (unat ?l) 4) v"
    unfolding a pad_def slice_append_slice by (cases "unat ?l \<le> 4") (simp_all add: max_def)
  have "take 4 (v1_data a @ pad) = slice (pos + 4) 4 v" unfolding body by (simp add: slice_drop)
  then have ok: "frame_ok a pad" using ge a by (auto simp: frame_ok_def pad_def le32_def)
  have h: "slice pos 2 v @ slice (pos + 2) 2 v = slice pos 4 v" using slice_append_slice [of pos 2 v 2] by simp
  have "framed a pad = slice pos 4 v @ slice (pos + 4) (max (unat ?l) 4) v"
    using ge by (simp add: framed_def body a(1,2) nat_le_of_16 le16_def h del: append_assoc flip: h)
  also have "\<dots> = slice pos (4 + max (unat ?l) 4) v" by (rule slice_append_slice)
  finally have f: "framed a pad = take (length (framed a pad)) (drop pos v)"
    using length_framed [OF ok] a(2) by (simp add: slice_drop)
  then have "drop pos v = framed a pad @ drop (pos + length (framed a pad)) v"
    by (metis add.commute append_take_drop_id drop_drop)
  then show ?thesis using ok r length_framed [OF ok] a(2) by (auto simp: a_def add.assoc)
qed

text \<open>A list of arguments laid out one after the other.\<close>

inductive frames :: "acpi_argument_v1 list \<Rightarrow> bytes \<Rightarrow> bool" where
  frames_Nil: "frames [] []"
| frames_Cons: "frame_ok a pad \<Longrightarrow> frames args w \<Longrightarrow> frames (a # args) (framed a pad @ w)"

inductive_cases frames_NilE: "frames [] w"
inductive_cases frames_ConsE: "frames (a # args) w"

lemma output_arguments_frames:
  "frames args w \<Longrightarrow> drop pos v = w @ rest \<Longrightarrow> pos \<le> length v \<Longrightarrow>
   output_arguments (length args) v pos = Inr (args, pos + length w)"
proof (induction args w arbitrary: pos rule: frames.induct)
  case (frames_Cons a pad args w)
  have d: "drop pos v = framed a pad @ w @ rest" using frames_Cons.prems(1) by simp
  have d': "drop (pos + length (framed a pad)) v = w @ rest" using d by (metis add.commute append_eq_conv_conj drop_drop)
  have "length v - pos = length (framed a pad) + length (w @ rest)" using arg_cong [OF d, of length] by simp
  then have "pos + length (framed a pad) \<le> length v" using frames_Cons.prems(2) length_framed [OF frames_Cons.hyps(1)] by simp
  then show ?case using frames_Cons.IH [OF d'] output_step [OF frames_Cons.hyps(1) d] by (simp add: thenE_def add.assoc)
qed simp

lemma output_arguments_inv:
  "output_arguments n v pos = Inr (args, fin) \<Longrightarrow> pos \<le> length v \<Longrightarrow>
   length args = n \<and> fin \<le> length v \<and> (\<exists>w. frames args w \<and> drop pos v = w @ drop fin v \<and> fin = pos + length w)"
proof (induction n arbitrary: pos args)
  case 0
  then show ?case by (auto intro: frames_Nil)
next
  case (Suc n)
  obtain a args' pad where s: "args = a # args'" "frame_ok a pad"
      "drop pos v = framed a pad @ drop (pos + length (framed a pad)) v"
      "output_arguments n v (pos + length (framed a pad)) = Inr (args', fin)"
    using output_step_conv [OF Suc.prems(1)] by blast
  have "length v - pos = length (framed a pad) + (length v - (pos + length (framed a pad)))"
    using arg_cong [OF s(3), of length] by simp
  then have "pos + length (framed a pad) \<le> length v" using length_framed [OF s(2)] by linarith
  from Suc.IH [OF s(4) this] obtain w where w: "length args' = n" "fin \<le> length v" "frames args' w"
      "drop (pos + length (framed a pad)) v = w @ drop fin v" "fin = pos + length (framed a pad) + length w" by blast
  then show ?case using s by (auto intro!: exI [of _ "framed a pad @ w"] frames_Cons)
qed

text \<open>The whole buffer.\<close>

definition response :: "acpi_output \<Rightarrow> bytes \<Rightarrow> bytes" where
  "response out w = nat_le 4 (unat AEOB) @ nat_le 4 (unat (out_length out)) @ nat_le 4 (unat (out_count out)) @ w"

lemma parse_output_iff:
  "parse_output v = Inr out \<longleftrightarrow>
   (\<exists>w. v = response out w \<and> frames (out_arguments out) w \<and> unat (out_length out) = 12 + length w \<and>
     unat (out_count out) = length (out_arguments out) \<and> out_signature out = AEOB)"
  (is "?L \<longleftrightarrow> (\<exists>w. ?R w)")
proof
  assume l: ?L
  have len: "12 \<le> length v" using l by (auto simp: parse_output_def split: if_splits)
  obtain args where o: "le32 0 v = AEOB" "unat (le32 4 v) = length v"
      "output_arguments (unat (le32 8 v)) v 12 = Inr (args, length v)"
      "out = \<lparr>out_signature = AEOB, out_length = le32 4 v, out_count = le32 8 v, out_arguments = args\<rparr>"
    using l len by (auto simp: parse_output_def Let_def thenE_def split: if_splits sum.splits prod.splits)
  obtain w where w: "length args = unat (le32 8 v)" "frames args w" "drop 12 v = w" "length v = 12 + length w"
    using output_arguments_inv [OF o(3)] len by auto
  have "v = slice 0 4 v @ slice 4 4 v @ slice 8 4 v @ drop 12 v"
    using slice_append_slice [of 0 4 v 4] slice_append_slice [of 0 8 v 4] append_take_drop_id [of 12 v]
    by (simp add: slice_drop flip: append_assoc)
  moreover have "slice 0 4 v = nat_le 4 (unat AEOB)" "slice 4 4 v = nat_le 4 (unat (le32 4 v))"
      "slice 8 4 v = nat_le 4 (unat (le32 8 v))"
    using len nat_le_of_32 [of "slice 0 4 v"] nat_le_of_32 [of "slice 4 4 v"] nat_le_of_32 [of "slice 8 4 v"] o(1)
    by (simp_all add: le32_def)
  ultimately have "?R w" using o w by (simp add: response_def)
  then show "\<exists>w. ?R w" ..
next
  assume "\<exists>w. ?R w"
  then obtain w where r: "?R w" ..
  then have v: "v = nat_le 4 (unat AEOB) @ nat_le 4 (unat (out_length out)) @ nat_le 4 (unat (out_count out)) @ w"
    by (simp add: response_def)
  have h: "le32 0 v = AEOB" "le32 4 v = out_length out" "le32 8 v = out_count out" "drop 12 v = w @ []" "12 \<le> length v"
    by (simp_all add: v le32_def slice_drop le_nat_of_32)
  have "output_arguments (unat (out_count out)) v 12 = Inr (out_arguments out, 12 + length w)"
    using output_arguments_frames [OF _ h(4,5), of "out_arguments out"] r by simp
  moreover have "length v = 12 + length w" by (simp add: v)
  moreover have "unat (out_length out) = 12 + length w" "out_signature out = AEOB" using r by simp_all
  ultimately show ?L using h(1-3,5) by (simp add: parse_output_def Let_def thenE_def)
qed

section \<open>Results\<close>

lemma parsed_frames: "parse_output v = Inr out \<Longrightarrow> \<exists>w. frames (out_arguments out) w"
  by (auto simp: parse_output_iff)

lemma parsed_count: "parse_output v = Inr out \<Longrightarrow> unat (out_count out) = length (out_arguments out)"
  by (auto simp: parse_output_iff)

text \<open>So no method fails for want of an argument its count announces.\<close>

lemma output_arg_total: "parse_output v = Inr out \<Longrightarrow> i < unat (out_count out) \<Longrightarrow> output_arg out i = Inr (out_arguments out ! i)"
  by (simp add: output_arg_def parsed_count)

lemma count_is: "parse_output v = Inr out \<Longrightarrow> out_count out = word_of_nat n \<Longrightarrow> n < 2 ^ 32 \<Longrightarrow> length (out_arguments out) = n"
  using parsed_count [of v out] by (simp add: unat_of_nat)

lemma one_argument: "parse_output v = Inr out \<Longrightarrow> out_count out = 1 \<longleftrightarrow> (\<exists>a. out_arguments out = [a])"
  using parsed_count [of v out] by (auto simp: length_Suc_conv word_unat_eq_iff)

lemma framed_data: "frames [a] w \<Longrightarrow> length (v1_data a) = unat (v1_length a) \<and>
    (v1_type a = 0 \<longrightarrow> 4 \<le> length (v1_data a) \<longrightarrow> v1_data32 a = word_of_nat (le_nat (take 4 (v1_data a))))"
  by (erule frames_ConsE) (auto simp: frame_ok_def)

lemma len16_eq: "n < 2 ^ 16 \<Longrightarrow> (w :: u16) = word_of_nat n \<longleftrightarrow> unat w = n"
  by (auto simp: unat_of_nat)

lemma u32_result_iff:
  assumes "parse_output v = Inr out"
  shows "u32_result out = Inr n \<longleftrightarrow>
    (\<exists>a. out_arguments out = [a] \<and> v1_type a = argument_word TInteger \<and> length (v1_data a) \<in> {4, 8} \<and> le_nat (v1_data a) = unat n)"
proof (cases "out_count out = 1")
  case True
  then obtain a where a: "out_arguments out = [a]" using one_argument [OF assms] by blast
  have f: "length (v1_data a) = unat (v1_length a)"
      "v1_type a = 0 \<Longrightarrow> 4 \<le> length (v1_data a) \<Longrightarrow> v1_data32 a = word_of_nat (le_nat (take 4 (v1_data a)))"
    using parsed_frames [OF assms] framed_data [of a] a by auto
  have l: "v1_length a = 4 \<longleftrightarrow> length (v1_data a) = 4" "v1_length a = 8 \<longleftrightarrow> length (v1_data a) = 8"
    using len16_eq [of 4 "v1_length a"] len16_eq [of 8 "v1_length a"] f(1) by simp_all
  have four: "v1_data32 a = n \<longleftrightarrow> le_nat (v1_data a) = unat n" if "v1_type a = 0" "length (v1_data a) = 4"
    using f(2) that unat_of_le32 [of "v1_data a"] by auto
  have eight: "le_nat (v1_data a) < 2 ^ 32 \<and> word_of_nat (le_nat (v1_data a)) = n \<longleftrightarrow> le_nat (v1_data a) = unat n"
  proof -
    have "unat n < 2 ^ LENGTH(32)" by (rule unsigned_less)
    then show ?thesis by (auto simp: unat_of_nat)
  qed
  show ?thesis using True a l four eight
    by (auto simp: u32_result_def output_arg_def thenE_def)
next
  case False
  then show ?thesis using one_argument [OF assms] by (auto simp: u32_result_def)
qed

text \<open>The error of a result that is not a 32-bit number.\<close>

lemma u32_result_overflow:
  assumes "parse_output v = Inr out" "out_arguments out = [a]" "v1_type a = argument_word TInteger"
    "length (v1_data a) = 8" "2 ^ 32 \<le> le_nat (v1_data a)"
  shows "u32_result out = Inl AInvalidData"
proof -
  have "v1_length a = 8"
    using len16_eq [of 8 "v1_length a"] parsed_frames [OF assms(1)] framed_data [of a] assms(2,4) by auto
  then show ?thesis using assms one_argument [OF assms(1)] by (simp add: u32_result_def output_arg_def thenE_def)
qed

end
