(* ===== verification/SerialSpec.thy ===== *)
theory SerialSpec
  imports EcSerial AcpiSpec
begin

text \<open>
  The serial framing: the ODP header decodes as it was built, a framed packet is what lies before the next end
  flag, a response is accepted only from the addressed service, and a finite stream ends the receive loop.
\<close>

section \<open>The header\<close>

lemma from_be32_be32: "length bs \<ge> 4 \<Longrightarrow> take 4 bs = be32 w \<Longrightarrow> from_be32 [bs ! 0, bs ! 1, bs ! 2, bs ! 3] = w"
proof -
  assume l: "length bs \<ge> 4" and t: "take 4 bs = be32 w"
  have "[bs ! 0, bs ! 1, bs ! 2, bs ! 3] = take 4 bs" using l by (intro nth_equalityI) (auto simp: less_Suc_eq numeral_eq_Suc)
  then show ?thesis by (simp add: t from_be32_def be32_def le_nat_of_32)
qed

lemma length_be32 [simp]: "length (be32 w) = 4" by (simp add: be32_def)

definition odp_word :: "bool \<Rightarrow> u8 \<Rightarrow> u16 \<Rightarrow> u32" where
  "odp_word req service mid = (if req then push_bit 25 1 else 0) OR push_bit 16 (ucast service) OR (ucast mid AND 0x7FFF)"

lemma build_odp_header_word: "build_odp_header req service mid = be32 (odp_word req service mid)"
  by (simp only: build_odp_header_def odp_word_def Let_def or.assoc)

lemma mask_15: "(0x7FFF :: 'a :: len word) = mask 15" by (simp add: mask_eq_decr_exp)

lemma bit_flag: "bit (push_bit k (1 :: u32)) n \<longleftrightarrow> n = k \<and> n < 32"
  by (auto simp only: bit_push_bit_iff bit_1_iff possible_bit_word len_of_numeral_defs)

lemma bit_odp_word:
  "bit (odp_word req service mid) n \<longleftrightarrow> n < 32 \<and> (n = 25 \<and> req \<or> 16 \<le> n \<and> bit service (n - 16) \<or> n < 15 \<and> bit mid n)"
proof -
  have "bit (if req then push_bit 25 (1 :: u32) else 0) n \<longleftrightarrow> n = 25 \<and> req"
    by (cases req) (simp only: if_True bit_flag, auto)
  then show ?thesis unfolding odp_word_def mask_15 bit_or_iff by (auto simp: bit_simps dest: bit_imp_le_length)
qed

lemma odp_word_fields:
  "(odp_word req service mid AND push_bit 25 1 \<noteq> 0) = req"
  "(ucast (drop_bit 16 (odp_word req service mid) AND 0xFF) :: u8) = service"
  "(odp_word req service mid AND push_bit 15 1 \<noteq> 0) = False"
  "(ucast (odp_word req service mid AND 0x7FFF) :: u16) = mid AND 0x7FFF"
proof -
  have m8: "(0xFF :: u32) = mask 8" by (simp add: mask_eq_decr_exp)
  show "(odp_word req service mid AND push_bit 25 1 \<noteq> 0) = req"
    "(odp_word req service mid AND push_bit 15 1 \<noteq> 0) = False"
    unfolding bit_iff_and_push_bit_not_eq_0 [symmetric] bit_odp_word by (auto dest: bit_imp_le_length)
  show "(ucast (drop_bit 16 (odp_word req service mid) AND 0xFF) :: u8) = service"
    unfolding m8 by (rule bit_word_eqI) (auto simp: bit_odp_word bit_simps)
  show "(ucast (odp_word req service mid AND 0x7FFF) :: u16) = mid AND 0x7FFF"
    unfolding mask_15 by (rule bit_word_eqI) (auto simp: bit_odp_word bit_simps)
qed

lemma odp_header_roundtrip:
  "parse_odp_header (build_odp_header req service mid @ rest) = Inr (req, service, False, mid AND 0x7FFF)"
proof -
  let ?bs = "build_odp_header req service mid @ rest"
  have l: "\<not> length ?bs < ODP_HEADER_SZ" by (simp add: ODP_HEADER_SZ_def build_odp_header_word)
  have "from_be32 [?bs ! 0, ?bs ! 1, ?bs ! 2, ?bs ! 3] = odp_word req service mid"
    by (rule from_be32_be32) (simp_all add: build_odp_header_word)
  then show ?thesis unfolding parse_odp_header_def Let_def if_not_P [OF l] by (simp only: odp_word_fields)
qed

section \<open>Framed packets\<close>

text \<open>Successive reads of the port return these bytes.\<close>

inductive delivers :: "'s port \<Rightarrow> 's \<Rightarrow> bytes \<Rightarrow> 's \<Rightarrow> bool" for port where
  delivers_Nil: "delivers port s [] s"
| delivers_Cons: "port_read port s = (Inr b, s1) \<Longrightarrow> delivers port s1 bs s2 \<Longrightarrow> delivers port s (b # bs) s2"

lemma io_simps: "port_read port s = (Inr b, s') \<Longrightarrow> io (port_read port) s = (Inr b, s')"
  by (simp add: io_def op_map_def)

lemma read_framed_delivers:
  "delivers port s bs s' \<Longrightarrow> SERIAL_END_FLAG \<notin> set bs \<Longrightarrow> port_read port s' = (Inr SERIAL_END_FLAG, s2) \<Longrightarrow>
   length bs < room \<Longrightarrow> read_framed port room filled s = (Inr (filled @ bs @ [SERIAL_END_FLAG]), s2)"
proof (induction s bs s' arbitrary: room filled rule: delivers.induct)
  case (delivers_Nil s)
  then show ?case by (cases room) (simp_all add: op_then_def io_simps)
next
  case (delivers_Cons s b s1 bs s2)
  then show ?case by (cases room) (auto simp: op_then_def io_simps)
qed

lemma read_framed_overflow:
  "delivers port s bs s' \<Longrightarrow> SERIAL_END_FLAG \<notin> set bs \<Longrightarrow> length bs = room \<Longrightarrow>
   read_framed port room filled s = (Inl SProtocol, s')"
proof (induction s bs s' arbitrary: room filled rule: delivers.induct)
  case (delivers_Cons s b s1 bs s2)
  then show ?case by (cases room) (auto simp: op_then_def io_simps)
qed simp

lemma read_framed_shape:
  "read_framed port room filled s = (Inr p, s') \<Longrightarrow>
   \<exists>bs s1. p = filled @ bs @ [SERIAL_END_FLAG] \<and> SERIAL_END_FLAG \<notin> set bs \<and> length bs < room \<and>
     delivers port s bs s1 \<and> port_read port s1 = (Inr SERIAL_END_FLAG, s')"
proof (induction port room filled arbitrary: s rule: read_framed.induct)
  case (2 port room filled)
  obtain b s1 where b: "port_read port s = (Inr b, s1)"
      "(if b = SERIAL_END_FLAG then op_ret (filled @ [b]) else read_framed port room (filled @ [b])) s1 = (Inr p, s')"
    using "2.prems" by (auto simp: op_then_Inr io_def op_map_def split: prod.splits sum.splits)
  show ?case
  proof (cases "b = SERIAL_END_FLAG")
    case True
    then show ?thesis using b by (intro exI [of _ "[]"] exI [of _ s]) (auto intro: delivers_Nil)
  next
    case False
    then obtain bs s2 where i: "p = (filled @ [b]) @ bs @ [SERIAL_END_FLAG]" "SERIAL_END_FLAG \<notin> set bs" "length bs < room"
        "delivers port s1 bs s2" "port_read port s2 = (Inr SERIAL_END_FLAG, s')"
      using "2.IH" [of b s1] b by auto
    then show ?thesis using b False by (intro exI [of _ "b # bs"] exI [of _ s2]) (auto intro: delivers_Cons)
  qed
qed simp

section \<open>Responses\<close>

lemma accept_response_iff:
  "accept_response rl dst (t, body) = Inr r \<longleftrightarrow>
   t = ODP_MESSAGE_TYPE \<and> (\<exists>mid. parse_odp_header body = Inr (False, service_id dst, False, mid) \<and>
     resp_deserialize rl mid (drop ODP_HEADER_SZ body) = Inr r)"
  by (auto simp: accept_response_def thenE_def split: sum.splits if_splits prod.splits)

text \<open>What the loop returns with success is a response accepted as above.\<close>

lemma receive_accepts:
  "receive n port rl dst rx s = Some (Inr r, s') \<Longrightarrow> \<exists>message. accept_response rl dst message = Inr r"
  by (induction n port rl dst rx s rule: receive.induct) (auto split: prod.splits sum.splits option.splits)

lemma send_accepts:
  "send n port rl dst request s = Some (Inr r, s') \<Longrightarrow> \<exists>message. accept_response rl dst message = Inr r"
  by (auto simp: send_def simp del: split_paired_Ex split: prod.splits sum.splits dest: receive_accepts)

text \<open>Every packet read takes at least one byte off a stream that has only so many.\<close>

definition finite_stream :: "('s \<Rightarrow> nat) \<Rightarrow> 's port \<Rightarrow> bool" where
  "finite_stream left port \<longleftrightarrow> (\<forall>s b s'. port_read port s = (Inr b, s') \<longrightarrow> left s' < left s)"

lemma delivers_left: "finite_stream left port \<Longrightarrow> delivers port s bs s' \<Longrightarrow> left s' \<le> left s"
  by (rotate_tac 1, induction rule: delivers.induct) (fastforce simp: finite_stream_def)+

lemma read_framed_left:
  assumes "finite_stream left port" "read_framed_packet port s = (Inr p, s')"
  shows "left s' < left s"
proof -
  obtain bs s1 where "delivers port s bs s1" "port_read port s1 = (Inr SERIAL_END_FLAG, s')"
    using read_framed_shape [OF assms(2) [unfolded read_framed_packet_def]] by blast
  then show ?thesis using delivers_left [OF assms(1)] assms(1) by (fastforce simp: finite_stream_def)
qed

lemma receive_ends:
  "finite_stream left port \<Longrightarrow> left s < n \<Longrightarrow> \<exists>r s'. receive n port rl dst rx s = Some (r, s')"
proof (induction n arbitrary: rx s)
  case (Suc n)
  show ?case
  proof (cases "read_framed_packet port s")
    case (Pair res s1)
    show ?thesis
    proof (cases res)
      case (Inr p)
      then have "left s1 < n" using read_framed_left [OF Suc.prems(1)] Pair Suc.prems(2) by fastforce
      then show ?thesis using Suc.IH [OF Suc.prems(1)] Pair Inr by (auto split: prod.splits sum.splits option.splits)
    qed (use Pair in auto)
  qed
qed simp

end
