(* ===== verification/EcExample.thy ===== *)
theory EcExample
  imports ScriptMock ScriptSpec SerialSpec
begin

text \<open>A small script, a mock and the parameters of the service crates the witnesses use.\<close>

definition demo_host :: "nat script_host" where
  "demo_host = \<lparr>uni_alpha = (\<lambda>_. False), ts_of_bytes = (\<lambda>bs. Some (le_nat bs)), unix_timestamp = int,
     cap_flag = (\<lambda>_ w. w \<noteq> 0), wake_flag = (\<lambda>_ w. w \<noteq> 0)\<rparr>"

definition demo_iface :: "nat ec_iface" where
  "demo_iface = \<lparr>ei_battery_state = (\<lambda>w. w \<in> {1, 2}), ei_power_unit = (\<lambda>w. w \<le> 1), ei_technology = (\<lambda>w. w \<le> 1),
     ei_swap = (\<lambda>w. w \<le> 2), ei_milli_watts = 0, ei_primary = 0, ei_cold_swappable = 1, ei_instantly = 0,
     ei_initial_time = 0, ei_ts_bytes = nat_le 16, ei_ts_of_bytes = (\<lambda>bs. Some (le_nat bs))\<rparr>"

definition demo_clock :: clock where "demo_clock i = i"

definition demo_script :: ustr where
  "demo_script = str_of ''let t = thermal.get_temperature; battery.get_bst.battery_state => is_ok;''"

definition demo_stmts :: "nat stmt list" where
  "demo_stmts =
     [Let 1 (str_of ''let t = thermal.get_temperature'') (str_of ''t'')
        \<lparr>call_target = Thermal, call_method = GetTemperature, call_projection = []\<rparr>,
      Check 1 (str_of ''battery.get_bst.battery_state => is_ok'')
        \<lparr>call_target = Battery, call_method = GetBst, call_projection = [str_of ''battery_state'']\<rparr> VIsOk]"

lemmas demo_defs = str_of_def split_once_by.simps split_once_str.simps trim_def trim_start_def trim_end_def
  is_whitespace_def is_ascii_digit_def is_ascii_alphabetic_def strip_prefix_def strip_suffix_def split_dots.simps
  split_call_def rsplit_once_def parse_target_def accessor_def parse_call_def parse_stmt_def ok_or_def thenE_def
  is_ident_def build_method_def plain_methods_def need_no_arg_def parse_verb_def operand_verbs_def range_verbs_def

lemma demo_let: "parse_stmt demo_host 1 (str_of ''let t = thermal.get_temperature'') = Inr (hd demo_stmts)"
  by (simp add: demo_stmts_def demo_defs Let_def)

lemma demo_check: "parse_stmt demo_host 1 (str_of ''battery.get_bst.battery_state => is_ok'') = Inr (demo_stmts ! 1)"
  by (simp add: demo_stmts_def demo_defs Let_def)

lemma demo_line: "lines demo_script = [demo_script]" "clean_line demo_script = demo_script" "demo_script \<noteq> []"
  "split_once 59 demo_script = Some (str_of ''let t = thermal.get_temperature'', str_of '' battery.get_bst.battery_state => is_ok;'')"
  by (simp_all add: demo_script_def lines_def clean_line_def demo_defs)

lemma demo_rest: "trim (str_of ''let t = thermal.get_temperature'') = str_of ''let t = thermal.get_temperature''"
  "trim_start (str_of '' battery.get_bst.battery_state => is_ok;'') = str_of ''battery.get_bst.battery_state => is_ok;''"
  "split_once 59 (str_of ''battery.get_bst.battery_state => is_ok;'') = Some (str_of ''battery.get_bst.battery_state => is_ok'', [])"
  "trim (str_of ''battery.get_bst.battery_state => is_ok'') = str_of ''battery.get_bst.battery_state => is_ok''"
  "str_of ''let t = thermal.get_temperature'' \<noteq> []" "str_of ''battery.get_bst.battery_state => is_ok'' \<noteq> []"
  "trim [] = []" "trim_start [] = []"
  by (simp_all add: demo_defs)

lemma demo_parses: "parse demo_host demo_script = Inr demo_stmts"
proof -
  have "demo_stmts = [hd demo_stmts, demo_stmts ! Suc 0]" by (simp add: demo_stmts_def)
  then show ?thesis
    by (simp add: parse_def demo_line enumerate_eq_zip Let_def thenE_def take_stmts.simps demo_rest
        demo_let [unfolded One_nat_def] demo_check [unfolded One_nat_def])
qed

lemma demo_typed: "\<exists>G. typed_stmts Map.empty demo_stmts = Some G"
  by (simp add: demo_stmts_def call_type_def struct_type_def str_of_def)

section \<open>A driver, a port and a mailbox\<close>

definition demo_response :: bytes where
  "demo_response = ascii ''AeoB'' @ nat_le 4 20 @ nat_le 4 1 @ [0, 0, 4, 0, 45, 0, 0, 0]"

definition demo_argument :: acpi_argument_v1 where
  "demo_argument = \<lparr>v1_type = 0, v1_length = 4, v1_data32 = 45, v1_data = [45, 0, 0, 0]\<rparr>"

definition demo_output :: acpi_output where
  "demo_output = \<lparr>out_signature = AEOB, out_length = 20, out_count = 1, out_arguments = [demo_argument]\<rparr>"

lemma nat_le_small:
  "nat_le 2 n = [word_of_nat (n mod 256), word_of_nat (n div 256 mod 256)]"
  by (simp add: numeral_2_eq_2)

lemma demo_response_parses: "parse_output demo_response = Inr demo_output"
proof -
  have "frame_ok demo_argument []" by (simp add: frame_ok_def demo_argument_def)
  then have "frames [demo_argument] (framed demo_argument [] @ [])" by (intro frames.intros)
  moreover have "framed demo_argument [] = [0, 0, 4, 0, 45, 0, 0, 0]"
    by (simp add: framed_def demo_argument_def nat_le_small)
  moreover have "ascii ''AeoB'' = nat_le 4 (unat AEOB)"
    unfolding AEOB_def by (rule nat_le_of_32 [symmetric]) (simp add: ascii_def)
  ultimately show ?thesis
    by (auto simp: parse_output_iff demo_output_def demo_response_def response_def intro!: exI [of _ "[0, 0, 4, 0, 45, 0, 0, 0]"])
qed

definition demo_driver :: "unit acpi_driver" where "demo_driver req s = (Inr demo_response, s)"

text \<open>A port that delivers a list of bytes.\<close>

definition demo_port :: "bytes port" where
  "demo_port = \<lparr>port_clear = op_ret (), port_write = (\<lambda>_. op_ret ()), port_flush = op_ret (),
     port_read = (\<lambda>s. case s of [] \<Rightarrow> (Inl (), []) | b # bs \<Rightarrow> (Inr b, bs))\<rparr>"

lemma demo_port_finite: "finite_stream length demo_port"
  by (auto simp: finite_stream_def demo_port_def split: list.splits)

definition demo_relay :: "(unit, bytes, bytes) relay" where
  "demo_relay = \<lparr>mctp_packets = (\<lambda>h b. Inr [Inr (h @ b)]), mctp_new = (),
     mctp_receive = (\<lambda>p rx. (Inr (Some (0x7D, p)), rx)), req_serialize = Inr, req_discriminant = (\<lambda>_. 3),
     resp_deserialize = (\<lambda>_ b. Inr b)\<rparr>"

definition demo_ui :: "(bytes, u16, bytes) ucsi_iface" where
  "demo_ui = \<lparr>ui_opcode = (\<lambda>_. 6), cci_error = (\<lambda>w. bit w 30), cci_not_supported = (\<lambda>w. bit w 25),
     cci_cmd_complete = (\<lambda>w. bit w 31), cci_data_len = (\<lambda>w. unat (drop_bit 8 w) mod 256),
     ui_cap_len = 16, ui_ccap_len = 2, ui_status_len = 11, ui_cap = Some, ui_ccap = id, ui_status = Some\<rparr>"

end
