(* ===== verification/EcProperties.thy ===== *)
theory EcProperties
  imports EcExample
begin

text \<open>The properties of the embedded controller tools: the script language, the data sources and their wire formats.\<close>

section \<open>Scripts\<close>

text \<open>
  C29: parsing a script with the line loop of the code (comments cut off, a buffer carried over the lines,
  statements taken off its front at semicolons) gives what the reference gives: the cleaned lines joined,
  cut at the semicolons, each piece parsed for the line of its first character, the first error
  reported, an unterminated rest an error.
\<close>

theorem script_parse_reference: "parse host script = reference_parse host script"
  by (rule parse_reference)

text \<open>
  C30: a script that parses runs to its end, whatever the calls answer: the code's unreachable branch is never
  reached, every statement but the sleeps prints one row with its line and text, in the order of the script,
  and the summary counts the passed and the failed rows.
\<close>

theorem script_runs_every_statement:
  assumes "parse host script = Inr stmts"
  shows "\<exists>s' env' r'. run_script host src script s = Some (Inr (into_summary r', s', env', r')) \<and>
    map (\<lambda>(line, txt, _). (line, txt)) (printed r') = concat (map row_of stmts) \<and>
    sum_passed (into_summary r') = of_nat (outcomes Passed r') \<and>
    sum_failed (into_summary r') = of_nat (outcomes Failed r') \<and>
    outcomes Passed r' + outcomes Failed r' = length (concat (map row_of stmts))"
proof -
  obtain s' env' r' where r: "execute_all host src stmts (s, Map.empty, runner_new) = Some (s', env', r')"
    "map (\<lambda>(l, t, _). (l, t)) (printed r') = concat (map row_of stmts)" "tallied r'"
    using execute_all_total [of host src stmts s Map.empty runner_new] by (auto simp: runner_new_def tallied_new [unfolded runner_new_def])
  moreover have "outcomes Passed r' + outcomes Failed r' = length (concat (map row_of stmts))"
    unfolding outcomes_sum r(2) [symmetric] by simp
  ultimately show ?thesis using assms by (simp add: run_script_def into_summary_def tallied_def)
qed

theorem script_runs_every_statement_witness:
  "\<exists>m' env' r'. run_script demo_host (mock_source demo_iface demo_clock) demo_script (mock_new demo_iface demo_clock)
      = Some (Inr (into_summary r', m', env', r')) \<and>
    map (\<lambda>(line, txt, _). (line, txt)) (printed r') = concat (map row_of demo_stmts) \<and>
    sum_passed (into_summary r') = of_nat (outcomes Passed r') \<and>
    sum_failed (into_summary r') = of_nat (outcomes Failed r') \<and>
    outcomes Passed r' + outcomes Failed r' = length (concat (map row_of demo_stmts))"
  by (rule script_runs_every_statement [OF demo_parses])

text \<open>
  C31: soundness of the types of scripts. When every call of a script projects fields its method has, every
  setter is given a number, every comparison compares numbers (or two booleans for equality) and a name is
  not bound again with another type, then no row of the run fails for a missing field, a projection of a plain
  value, a value of the wrong kind or a boolean argument, on any source and whatever it answers.
\<close>

theorem typed_script_sound:
  assumes "parse host script = Inr stmts" "typed_stmts Map.empty stmts = Some G"
    "run_script host src script s = Some (Inr (sm, s', env', r'))"
  shows "\<forall>(line, txt, res, detail) \<in> set (printed r'). \<forall>e. fault_in detail = Some e \<longrightarrow> \<not> type_fault e"
proof -
  have x: "execute_all host src stmts (s, Map.empty, runner_new) = Some (s', env', r')"
    using assms(1,3) by (auto simp: run_script_def)
  have "sound_rows r'"
    by (rule execute_all_sound [OF _ _ assms(2) x]) (simp_all add: env_ok_def sound_rows_def runner_new_def)
  then show ?thesis by (auto simp: sound_rows_def sound_detail_def list_all_iff split: option.splits)
qed

theorem typed_script_sound_witness:
  "\<exists>sm m' env' r'. run_script demo_host (mock_source demo_iface demo_clock) demo_script (mock_new demo_iface demo_clock)
      = Some (Inr (sm, m', env', r')) \<and>
    (\<forall>(line, txt, res, detail) \<in> set (printed r'). \<forall>e. fault_in detail = Some e \<longrightarrow> \<not> type_fault e)"
proof -
  obtain st where x: "execute_all demo_host (mock_source demo_iface demo_clock) demo_stmts
      (mock_new demo_iface demo_clock, Map.empty, runner_new) = Some st"
    using execute_all_total [of demo_host "mock_source demo_iface demo_clock" demo_stmts] by blast
  obtain m' env' r' where st: "st = (m', env', r')" by (cases st)
  have run: "run_script demo_host (mock_source demo_iface demo_clock) demo_script (mock_new demo_iface demo_clock)
      = Some (Inr (into_summary r', m', env', r'))"
    by (simp add: run_script_def demo_parses x st)
  obtain G where "typed_stmts Map.empty demo_stmts = Some G" using demo_typed by blast
  from typed_script_sound [OF demo_parses this run] run show ?thesis by blast
qed

text \<open>
  C32: against the mock no statement of any script fails on account of the source, provided the service crate
  knows the battery states discharging and charging: every getter and setter of the mock succeeds in every
  state a script can reach, and the invariant of the mock holds at the end.
\<close>

theorem mock_never_fails_scripts:
  assumes "ei_battery_state ei 1" "ei_battery_state ei 2"
    "run_script host (mock_source ei clock) script (mock_new ei clock) = Some (Inr (sm, m', env', r'))"
  shows "mock_ok m' \<and>
    (\<forall>(line, txt, res, detail) \<in> set (printed r'). \<forall>e. fault_in detail = Some e \<longrightarrow> (\<forall>err k. e \<noteq> SourceFault err k))"
proof -
  obtain stmts where x: "execute_all host (mock_source ei clock) stmts (mock_new ei clock, Map.empty, runner_new) = Some (m', env', r')"
    using assms(3) by (auto simp: run_script_def split: sum.splits)
  have "(mock_ok m' \<and> charges ei) \<and> no_source_rows r'"
    by (rule mock.execute_all_calm [OF _ _ x])
       (use assms(1,2) in \<open>simp_all add: mock_new_ok charges_def no_source_rows_def runner_new_def\<close>)
  then show ?thesis by (auto simp: no_source_rows_def no_source_detail_def not_source_def list_all_iff split: option.splits)
qed

theorem mock_never_fails_scripts_witness:
  "\<exists>sm m' env' r'. run_script demo_host (mock_source demo_iface demo_clock) demo_script (mock_new demo_iface demo_clock)
      = Some (Inr (sm, m', env', r')) \<and> mock_ok m' \<and>
    (\<forall>(line, txt, res, detail) \<in> set (printed r'). \<forall>e. fault_in detail = Some e \<longrightarrow> (\<forall>err k. e \<noteq> SourceFault err k))"
proof -
  obtain m' env' r' where run: "execute_all demo_host (mock_source demo_iface demo_clock) demo_stmts
      (mock_new demo_iface demo_clock, Map.empty, runner_new) = Some (m', env', r')"
    using execute_all_total [of demo_host "mock_source demo_iface demo_clock" demo_stmts] by blast
  then have run: "run_script demo_host (mock_source demo_iface demo_clock) demo_script (mock_new demo_iface demo_clock)
      = Some (Inr (into_summary r', m', env', r'))"
    by (simp add: run_script_def demo_parses)
  have "ei_battery_state demo_iface 1" "ei_battery_state demo_iface 2" by (simp_all add: demo_iface_def)
  from mock_never_fails_scripts [OF this run] run show ?thesis by blast
qed

section \<open>The mock\<close>



text \<open>
  The simulated battery never fails and never stops moving. Read again and again from a new mock it
  runs through a cycle of 21 reads: charging in steps of 1000 up to 10000, one read at the full
  capacity when it starts to discharge, then down to 0, where it charges again.
\<close>

theorem mock_battery_cycles:
  assumes "ei_battery_state ei 1" "ei_battery_state ei 2"
  shows "\<exists>b. fst (mock_get_bst ei (((snd \<circ> mock_get_bst ei) ^^ n) (mock_new ei clock))) = Inr b \<and>
    battery_state b = (if Suc n mod 21 \<le> 10 then 2 else 1) \<and>
    battery_remaining_capacity b = of_nat (let k = Suc n mod 21 in
      if k \<le> 10 then 1000 * k else if k = 11 then 10000 else 21000 - 1000 * k) \<and>
    battery_remaining_capacity b \<le> 10000"
proof -
  have step: "bst_st (snd (mock_get_bst ei m)) = bst_step (bst_st m)" for m :: "'a mock"
    by (simp add: mock_get_bst_def Let_def)
  have "bst_st (((snd \<circ> mock_get_bst ei) ^^ n) (mock_new ei clock)) = (bst_step ^^ n) (bst_st (mock_new ei clock))"
    by (induction n) (simp_all add: step)
  also have "\<dots> = cycle n"
    unfolding battery_cycle [symmetric] by (simp add: mock_new_def Let_def split: prod.split)
  finally have st: "bst_st (((snd \<circ> mock_get_bst ei) ^^ n) (mock_new ei clock)) = cycle n" .
  have ok: "bst_ok (cycle (Suc n))" unfolding battery_cycle [symmetric]
    by (induction n) (simp_all add: bst_step_ok bst_ok_def [of "\<lparr>bs_state = 2, bs_capacity = 0\<rparr>"])
  then have "ei_battery_state ei (bs_state (cycle (Suc n)))" using assms by (auto simp: bst_ok_def)
  then show ?thesis using ok
    by (auto simp: mock_get_bst_def Let_def st cycle_step bst_ok_def MAX_CAPACITY_def) (auto simp: cycle_def Let_def)
qed

theorem mock_battery_cycles_witness:
  "\<exists>b. fst (mock_get_bst demo_iface (((snd \<circ> mock_get_bst demo_iface) ^^ 12) (mock_new demo_iface demo_clock))) = Inr b \<and>
    battery_state b = 1 \<and> battery_remaining_capacity b = 8000"
  using mock_battery_cycles [of demo_iface 12 demo_clock] by (auto simp: demo_iface_def)

section \<open>Temperatures\<close>

text \<open>
  C35: no temperature the controller can report changes when it is shown in degrees and sent back: the
  conversion of every 32-bit number of decikelvin to a double in degrees Celsius, and back with
  rounding and saturation, is the identity, in IEEE arithmetic.
\<close>

theorem temperature_roundtrip: "c_to_dk (dk_to_c dk) = dk"
  by (rule decikelvin_roundtrip)

section \<open>ACPI\<close>

text \<open>
  C36: the parser of the driver's responses accepts exactly the buffers with the documented layout (signature,
  total length, number of arguments, each argument with its type, its length, its data and the padding to
  four bytes, nothing behind the last), and returns the arguments laid out.
\<close>

theorem acpi_response_layout:
  "parse_output v = Inr out \<longleftrightarrow>
   (\<exists>w. v = response out w \<and> frames (out_arguments out) w \<and> unat (out_length out) = 12 + length w \<and>
     unat (out_count out) = length (out_arguments out) \<and> out_signature out = AEOB)"
  by (rule parse_output_iff)

text \<open>
  C37: a method evaluated for a number succeeds exactly when the driver's response is well-formed and holds one
  integer argument of four or eight bytes whose value fits in 32 bits, and that value is the result.
\<close>

theorem evaluate_u32_exact:
  assumes "length args \<le> 7" "input_of (ec_method name) (Some args) = Inr input" "driver (input_bytes input) s = (Inr v, s')"
  shows "evaluate_u32 driver name (Some args) s = (Inr n, s') \<longleftrightarrow>
    (\<exists>out a. parse_output v = Inr out \<and> out_arguments out = [a] \<and> v1_type a = argument_word TInteger \<and>
      length (v1_data a) \<in> {4, 8} \<and> le_nat (v1_data a) = unat n)"
proof (cases "parse_output v")
  case (Inl e)
  then show ?thesis using assms
    by (simp add: evaluate_u32_def evaluate'_def evaluate_def op_then_def op_map_def)
next
  case (Inr out)
  then have "evaluate_u32 driver name (Some args) s = (u32_result out, s')" using assms
    by (simp add: evaluate_u32_def evaluate'_def evaluate_def op_then_def op_map_def)
  then show ?thesis using u32_result_iff [OF Inr] Inr by auto
qed

theorem evaluate_u32_exact_witness: "evaluate_u32 demo_driver ''_TIV'' (Some [ArgInt 1]) () = (Inr 45, ())"
proof -
  obtain input where i: "input_of (ec_method ''_TIV'') (Some [ArgInt 1]) = Inr input"
    by (simp add: input_of_def argument_v1_def thenE_def)
  have "parse_output demo_response = Inr demo_output" by (rule demo_response_parses)
  then show ?thesis
    using evaluate_u32_exact [of "[ArgInt 1]", OF _ i, of demo_driver "()" demo_response "()" 45]
    by (simp add: demo_driver_def demo_output_def demo_argument_def)
qed

section \<open>The serial wire\<close>

text \<open>
  The header of a request decodes to what it was built from, whatever follows it: the request flag, the
  service, no error flag, and the low 15 bits of the message identifier.
\<close>

theorem odp_header_decodes:
  "parse_odp_header (build_odp_header is_request service message_id @ body) =
   Inr (is_request, service, False, message_id AND 0x7FFF)"
  by (rule odp_header_roundtrip)



section \<open>UCSI\<close>

text \<open>
  C40: when the responses fit the 32 bytes of MESSAGE IN, no decoder of a mailbox panics on any input, and a
  capability is decoded exactly from a completed 48-byte mailbox of version 1.2 whose CCI announces the size
  of the response, from the bytes behind its 16-byte header; a failed command is reported before an
  incomplete one, and before its version is looked at.
\<close>

theorem ucsi_decoding_exact:
  assumes "sizes_ok ui"
  shows "decode_capability ui bs \<noteq> None \<and> decode_connector_capability ui bs \<noteq> None \<and> decode_connector_status ui bs \<noteq> None \<and>
    (decode_capability ui bs = Some (Inr c) \<longleftrightarrow> completed ui bs \<and> version_of bs = UCSI_VERSION_1_2 \<and>
      cci_data_len ui (cci_of bs) = ui_cap_len ui \<and> ui_cap ui (slice 16 (ui_cap_len ui) bs) = Some c) \<and>
    (length bs = MAILBOX_LEN \<and> cci_error ui (cci_of bs) \<longrightarrow> decode_capability ui bs = Some (Inl CommandError))"
proof -
  have n: "ui_cap_len ui \<le> 32" using assms by (simp add: sizes_ok_def)
  have "decode_capability ui bs = Some (Inr c) \<longleftrightarrow>
      (\<exists>p. message_in ui bs (ui_cap_len ui) = Some (Inr p) \<and> ui_cap ui p = Some c)"
  proof (cases "message_in ui bs (ui_cap_len ui)")
    case (Some r)
    then show ?thesis by (cases r) (auto simp: decode_capability_def thenE_def ok_or_def split: option.splits)
  qed (simp add: decode_capability_def)
  then have "decode_capability ui bs = Some (Inr c) \<longleftrightarrow> completed ui bs \<and> version_of bs = UCSI_VERSION_1_2 \<and>
      cci_data_len ui (cci_of bs) = ui_cap_len ui \<and> ui_cap ui (slice 16 (ui_cap_len ui) bs) = Some c"
    unfolding message_in_accepts [OF n] by blast
  moreover have "length bs = MAILBOX_LEN \<and> cci_error ui (cci_of bs) \<longrightarrow> decode_capability ui bs = Some (Inl CommandError)"
    by (simp add: decode_capability_def message_in_def validate_def Let_def thenE_def)
  ultimately show ?thesis using decoders_total [OF assms, of bs] by blast
qed

theorem ucsi_decoding_exact_witness: "decode_capability demo_ui [] \<noteq> None \<and> decode_connector_status demo_ui [1, 2] \<noteq> None"
proof -
  have "sizes_ok demo_ui" by (simp add: sizes_ok_def demo_ui_def)
  from ucsi_decoding_exact [OF this] show ?thesis by blast
qed

end
