(* ===== verification/TuiSamples.thy ===== *)
theory TuiSamples
  imports Float64
begin

text \<open>
  The data behind the terminal UI of src/ec/test-tui that does not depend on a source: running statistics and
  the window of samples of common.rs, the colour of a gauge, and the bounded log with the part of it the log
  panel shows, logging.rs and app.rs.
\<close>

section \<open>Session statistics\<close>

record session_stats =
  st_min :: f64
  st_max :: f64
  st_sum :: f64
  st_count :: u64
  st_prev :: f64
  st_delta :: f64

definition stats_default :: session_stats where
  "stats_default = \<lparr>st_min = Fin 0, st_max = Fin 0, st_sum = Fin 0, st_count = 0, st_prev = Fin 0, st_delta = Fin 0\<rparr>"

definition stats_avg :: "session_stats \<Rightarrow> f64" where
  "stats_avg st = (if st_count st = 0 then Fin 0 else fdiv (st_sum st) (f64_of_nat (unat (st_count st))))"

definition has_data :: "session_stats \<Rightarrow> bool" where "has_data st \<longleftrightarrow> 0 < st_count st"

definition stats_record :: "f64 \<Rightarrow> session_stats \<Rightarrow> session_stats" where
  "stats_record v st =
    (let st1 = (if st_count st = 0 then st\<lparr>st_min := v, st_max := v\<rparr>
       else let lo = (if flt v (st_min st) then st\<lparr>st_min := v\<rparr> else st);
              hi = (if flt (st_max lo) v then lo\<lparr>st_max := v\<rparr> else lo)
            in hi\<lparr>st_delta := fsub v (st_prev hi)\<rparr>)
     in st1\<lparr>st_sum := fadd (st_sum st1) v, st_count := st_count st1 + 1, st_prev := v\<rparr>)"

section \<open>The window of samples\<close>

text \<open>\<open>conv\<close> is the conversion into f64 of the type of samples, \<open>N\<close> the capacity.\<close>

record 'a sample_buf =
  window :: "'a list"
  session :: session_stats

definition samples_default :: "'a sample_buf" where
  "samples_default = \<lparr>window = [], session = stats_default\<rparr>"

definition sample_insert :: "('a \<Rightarrow> f64) \<Rightarrow> nat \<Rightarrow> 'a \<Rightarrow> 'a sample_buf \<Rightarrow> 'a sample_buf" where
  "sample_insert conv N x b =
    (let st = stats_record (conv x) (session b); w = window b @ [x]
     in \<lparr>window = (if N < length w then tl w else w), session = st\<rparr>)"

definition sample_get :: "('a \<Rightarrow> f64) \<Rightarrow> 'a sample_buf \<Rightarrow> (f64 \<times> f64) list" where
  "sample_get conv b = map (\<lambda>(i, x). (f64_of_nat i, conv x)) (enumerate 0 (window b))"

text \<open>The conversions of the two sample types.\<close>

definition u32_to_f64 :: "u32 \<Rightarrow> f64" where "u32_to_f64 x = f64_of_nat (unat x)"

section \<open>The log buffer and the log panel\<close>

definition LOG_CAPACITY :: nat where "LOG_CAPACITY = 500"

definition log_push :: "'a \<Rightarrow> 'a list \<Rightarrow> 'a list" where
  "log_push e q = (let q' = (if LOG_CAPACITY \<le> length q then tl q else q) in q' @ [e])"

text \<open>The entries shown in a panel of the height given, borders included, and the scroll position in its title.\<close>

definition log_panel :: "u16 \<Rightarrow> nat \<Rightarrow> 'a list \<Rightarrow> 'a list \<times> nat" where
  "log_panel height log_scroll entries =
    (let visible_rows = unat height - 2;
       max_scroll = length entries - visible_rows;
       scroll = min log_scroll max_scroll;
       skip = max_scroll - scroll
     in (take visible_rows (drop skip entries), scroll))"

section \<open>Gauges\<close>

text \<open>The colours of ratatui's palette the UI uses, by name.\<close>

datatype color = GREEN_c400 | GREEN_c500 | AMBER_c400 | RED_c400 | RED_c500 | ORANGE_c400 | ORANGE_c500 | SKY_c400
  | SKY_c500 | EMERALD_c400 | EMERALD_c500 | SLATE_c500 | Green | White | SKY_c300 | SKY_c600 | SKY_c700 | VIOLET_c300
  | VIOLET_c400 | VIOLET_c600 | VIOLET_c700 | VIOLET_c800 | ORANGE_c700 | EMERALD_c700 | CYAN_c300 | CYAN_c600
  | CYAN_c700 | YELLOW_c500 | SLATE_c400 | SLATE_c600 | SLATE_c700 | SLATE_c800 | VIOLET_c500 | CYAN_c500

definition threshold_color :: "f64 \<Rightarrow> (f64 \<times> color) list \<Rightarrow> color" where
  "threshold_color ratio thresholds =
    (case find (\<lambda>(t, _). fle t ratio) (rev thresholds) of
       Some (_, c) \<Rightarrow> c
     | None \<Rightarrow> (case thresholds of [] \<Rightarrow> Green | (_, c) # _ \<Rightarrow> c))"

section \<open>Lemmas: what is kept\<close>

definition last_n :: "nat \<Rightarrow> 'a list \<Rightarrow> 'a list" where
  "last_n n xs = drop (length xs - n) xs"

lemma length_last_n [simp]: "length (last_n n xs) = min n (length xs)"
  by (simp add: last_n_def)

lemma last_n_snoc: "last_n n (last_n n xs @ [x]) = last_n n (xs @ [x])"
  by (cases "length xs \<le> n") (auto simp: last_n_def Suc_diff_le not_le)

lemma last_n_tl: "length w \<le> n \<Longrightarrow> (if n < length (w @ [x]) then tl (w @ [x]) else w @ [x]) = last_n n (w @ [x])"
  by (cases w) (auto simp: last_n_def le_less_Suc_eq not_less)

definition inserts :: "('a \<Rightarrow> f64) \<Rightarrow> nat \<Rightarrow> 'a list \<Rightarrow> 'a sample_buf \<Rightarrow> 'a sample_buf" where
  "inserts conv N xs b = fold (sample_insert conv N) xs b"

lemma inserts_snoc: "inserts conv N (xs @ [x]) b = sample_insert conv N x (inserts conv N xs b)"
  by (simp add: inserts_def)

lemma sample_insert_window:
  "length (window b) \<le> N \<Longrightarrow> window (sample_insert conv N x b) = last_n N (window b @ [x])"
  by (simp add: sample_insert_def Let_def last_n_tl del: length_append)

lemma sample_insert_bounded: "length (window b) \<le> N \<Longrightarrow> length (window (sample_insert conv N x b)) \<le> N"
  by (simp add: sample_insert_window)

lemma inserts_window: "window (inserts conv N xs samples_default) = last_n N xs"
proof (induction xs rule: rev_induct)
  case (snoc x xs)
  then show ?case by (simp add: inserts_snoc sample_insert_window last_n_snoc)
qed (simp add: inserts_def samples_default_def last_n_def)

lemma sample_get_nth:
  "i < length (window b) \<Longrightarrow> sample_get conv b ! i = (f64_of_nat i, conv (window b ! i))"
  by (simp add: sample_get_def nth_enumerate_eq)

lemma log_push_fold: "fold log_push es [] = last_n LOG_CAPACITY es"
proof (induction es rule: rev_induct)
  case (snoc e es)
  have "log_push e (last_n LOG_CAPACITY es) = last_n LOG_CAPACITY (last_n LOG_CAPACITY es @ [e])"
    by (auto simp: log_push_def last_n_def LOG_CAPACITY_def Let_def tl_drop drop_Suc Suc_diff_le)
  then show ?case by (simp add: snoc last_n_snoc)
qed (simp add: last_n_def)

section \<open>Lemmas: what the statistics say\<close>

definition records :: "f64 list \<Rightarrow> session_stats \<Rightarrow> session_stats" where
  "records vs st = fold stats_record vs st"

lemma records_snoc: "records (vs @ [v]) st = stats_record v (records vs st)"
  by (simp add: records_def)

lemma inserts_session: "session (inserts conv N xs b) = records (map conv xs) (session b)"
  by (induction xs rule: rev_induct) (simp_all add: inserts_snoc records_snoc sample_insert_def Let_def, simp_all add: inserts_def records_def)

lemma record_fields:
  "st_count (stats_record v st) = st_count st + 1" "st_prev (stats_record v st) = v"
  "st_sum (stats_record v st) = fadd (st_sum st) v"
  "st_min (stats_record v st) = (if st_count st = 0 \<or> flt v (st_min st) then v else st_min st)"
  "st_max (stats_record v st) = (if st_count st = 0 \<or> flt (st_max st) v then v else st_max st)"
  "st_delta (stats_record v st) = (if st_count st = 0 then st_delta st else fsub v (st_prev st))"
  by (simp_all add: stats_record_def Let_def)

lemma records_count: "st_count (records vs stats_default) = of_nat (length vs)"
  by (induction vs rule: rev_induct) (simp_all add: records_snoc record_fields, simp_all add: records_def stats_default_def)

lemma records_started:
  "vs \<noteq> [] \<Longrightarrow> length vs < 2 ^ 64 \<Longrightarrow> st_count (records vs stats_default) \<noteq> 0"
  using word_of_nat_eq_0_iff [of "length vs", where 'a = 64]
  by (auto simp: records_count dest!: dvd_imp_le)

lemma records_prev: "vs \<noteq> [] \<Longrightarrow> st_prev (records vs st) = last vs"
  by (induction vs rule: rev_induct) (simp_all add: records_snoc record_fields)

lemma records_delta:
  assumes "length vs < 2 ^ 64"
  shows "st_delta (records vs stats_default) =
    (if length vs \<le> 1 then Fin 0 else fsub (last vs) (last (butlast vs)))"
  using assms
proof (induction vs rule: rev_induct)
  case (snoc v vs)
  show ?case
  proof (cases "vs = []")
    case True
    then show ?thesis by (simp add: records_def record_fields stats_default_def)
  next
    case False
    then have "st_count (records vs stats_default) \<noteq> 0" using snoc.prems by (intro records_started) auto
    then show ?thesis using False snoc.prems by (simp add: records_snoc record_fields records_prev Suc_le_eq)
  qed
qed (simp add: records_def stats_default_def)

lemma records_min_max:
  assumes "qs \<noteq> []" "length qs < 2 ^ 64"
  shows "st_min (records (map Fin qs) stats_default) = Fin (Min (set qs)) \<and>
    st_max (records (map Fin qs) stats_default) = Fin (Max (set qs))"
  using assms
proof (induction qs rule: rev_nonempty_induct)
  case (single q)
  then show ?case by (simp add: records_def record_fields stats_default_def)
next
  case (snoc q qs)
  then have "st_count (records (map Fin qs) stats_default) \<noteq> 0" by (intro records_started) auto
  moreover have "length qs < 2 ^ 64" using snoc.prems by simp
  moreover have "Min (set (qs @ [q])) = (if q < Min (set qs) then q else Min (set qs))"
    "Max (set (qs @ [q])) = (if Max (set qs) < q then q else Max (set qs))"
    using snoc.hyps by (simp_all add: min_def max_def not_less del: Min_gr_iff Max_less_iff Min_ge_iff Max_le_iff)
  ultimately show ?case using snoc.IH by (simp add: records_snoc record_fields del: Min_gr_iff Max_less_iff set_append)
qed

text \<open>Samples that are 32-bit numbers are added up exactly, up to 2 to the 21 of them.\<close>

lemma fadd_nat: "a + b < 2 ^ 53 \<Longrightarrow> fadd (Fin (of_nat a)) (Fin (of_nat b)) = Fin (of_nat (a + b))"
  using f64_of_nat_exact [of "a + b"] by (simp add: f64_of_nat_def)

lemma sum_list_unat_less: "sum_list (map unat (xs :: u32 list)) \<le> length xs * (2 ^ 32 - 1)"
proof (induction xs)
  case (Cons x xs)
  have "unat x < 2 ^ LENGTH(32)" by (rule unsigned_less)
  then show ?case using Cons by simp
qed simp

lemma records_sum:
  fixes xs :: "u32 list"
  assumes "length xs \<le> 2 ^ 21"
  shows "st_sum (records (map u32_to_f64 xs) stats_default) = Fin (of_nat (sum_list (map unat xs)))"
  using assms
proof (induction xs rule: rev_induct)
  case (snoc x xs)
  have "sum_list (map unat (xs @ [x])) \<le> length (xs @ [x]) * (2 ^ 32 - 1)" by (rule sum_list_unat_less)
  also have "\<dots> \<le> 2 ^ 21 * (2 ^ 32 - 1)" using snoc.prems by (intro mult_le_mono1)
  also have "\<dots> < 2 ^ 53" by simp
  finally have "sum_list (map unat xs) + unat x < 2 ^ 53" by simp
  then show ?case using snoc fadd_nat [of "sum_list (map unat xs)" "unat x"]
    by (simp add: records_snoc record_fields u32_to_f64_def f64_of_u32)
qed (simp add: records_def stats_default_def)

lemma records_avg:
  fixes xs :: "u32 list"
  assumes "xs \<noteq> []" "length xs \<le> 2 ^ 21"
  shows "stats_avg (records (map u32_to_f64 xs) stats_default)
    = round64 (of_nat (sum_list (map unat xs)) / of_nat (length xs))"
proof -
  let ?st = "records (map u32_to_f64 xs) stats_default"
  have small: "length xs < 2 ^ 64" using assms(2) by (rule order_le_less_trans) simp
  then have "st_count ?st \<noteq> 0" using assms(1) records_started [of "map u32_to_f64 xs"] by simp
  moreover have "unat (st_count ?st) = length xs" using small by (simp add: records_count unat_of_nat)
  moreover have "f64_of_nat (length xs) = Fin (of_nat (length xs))"
    using assms(2) by (intro f64_of_nat_exact) simp
  ultimately show ?thesis using assms by (simp add: stats_avg_def records_sum)
qed

lemma records_min_max_u32:
  fixes xs :: "u32 list"
  assumes "xs \<noteq> []" "length xs < 2 ^ 64"
  shows "st_min (records (map u32_to_f64 xs) stats_default) = Fin (of_nat (Min (unat ` set xs))) \<and>
    st_max (records (map u32_to_f64 xs) stats_default) = Fin (of_nat (Max (unat ` set xs)))"
proof -
  let ?qs = "map (\<lambda>x. rat_of_nat (unat x)) xs"
  have qs: "map Fin ?qs = map u32_to_f64 xs" by (simp add: u32_to_f64_def f64_of_u32)
  have ends: "Min (set ?qs) = of_nat (Min (unat ` set xs))" "Max (set ?qs) = of_nat (Max (unat ` set xs))"
    using assms(1) mono_Min_commute [of rat_of_nat "unat ` set xs"] mono_Max_commute [of rat_of_nat "unat ` set xs"]
    by (simp_all add: mono_def image_image)
  show ?thesis using assms records_min_max [of ?qs] unfolding qs ends by simp
qed

lemma fsub_u32: "fsub (u32_to_f64 x) (u32_to_f64 y) = Fin (of_nat (unat x) - of_nat (unat y))"
proof -
  have "unat x < 2 ^ LENGTH(32)" "unat y < 2 ^ LENGTH(32)" by (rule unsigned_less)+
  moreover have "\<bar>int m - int n\<bar> < 2 ^ 53" if "m < 2 ^ LENGTH(32)" "n < 2 ^ LENGTH(32)" for m n using that by simp
  ultimately have "\<bar>int (unat x) - int (unat y)\<bar> < 2 ^ 53" by blast
  from round64_int [OF this] show ?thesis by (simp add: u32_to_f64_def f64_of_u32 fsub_def)
qed

section \<open>Lemmas: the log panel\<close>

lemma log_panel_bounds: "snd (log_panel h scroll es) \<le> length es - (unat h - 2)"
  by (simp add: log_panel_def Let_def)

text \<open>The panel is full when there are entries enough, and its last row is \<open>scroll\<close> entries from the end.\<close>

lemma log_panel_rows:
  assumes "log_panel h scroll es = (rows, pos)"
  shows "length rows = min (unat h - 2) (length es)" and "pos \<le> length es - length rows"
    and "rows = drop (length es - pos - length rows) (take (length es - pos) es)"
proof -
  define r where "r = unat h - 2"
  have p: "pos = min scroll (length es - r)" and rows: "rows = take r (drop (length es - r - pos) es)"
    using assms by (auto simp: log_panel_def Let_def r_def)
  have pos: "pos \<le> length es - r" using p by simp
  show len: "length rows = min (unat h - 2) (length es)" using pos by (auto simp: rows r_def [symmetric] min_def)
  then show "pos \<le> length es - length rows" using p by (simp add: r_def [symmetric])
  show "rows = drop (length es - pos - length rows) (take (length es - pos) es)"
    unfolding rows len by (cases "r \<le> length es") (auto simp: p r_def [symmetric] drop_take add.commute)
qed

lemma log_panel_reaches:
  assumes "e \<in> set es" "2 < unat h"
  shows "\<exists>scroll. e \<in> set (fst (log_panel h scroll es))"
proof -
  define r where "r = unat h - 2"
  obtain i where i: "i < length es" "e = es ! i" using assms(1) by (auto simp: in_set_conv_nth)
  define pos where "pos = length es - r - min i (length es - r)"
  have "i < length es - r - pos + r" using i(1) assms(2) unfolding pos_def r_def by linarith
  moreover have "length es - r - pos \<le> i" unfolding pos_def by linarith
  ultimately have "e = take r (drop (length es - r - pos) es) ! (i - (length es - r - pos))"
    "i - (length es - r - pos) < length (take r (drop (length es - r - pos) es))"
    using i by auto
  then have "e \<in> set (take r (drop (length es - r - pos) es))" by (metis nth_mem)
  moreover have "min pos (length es - r) = pos" unfolding pos_def by simp
  ultimately show ?thesis by (intro exI [of _ pos]) (simp add: log_panel_def Let_def r_def)
qed

text \<open>Beyond the oldest entry the position changes nothing that is shown.\<close>

lemma log_scroll_lost:
  "length es - (unat h - 2) \<le> scroll \<Longrightarrow> log_panel h (scroll + k) es = log_panel h scroll es"
  by (simp add: log_panel_def Let_def)

section \<open>Lemmas: the band of a gauge\<close>

lemma fle_refl_Fin [simp]: "fle (Fin a) (Fin b) \<longleftrightarrow> a \<le> b"
  by (auto simp: fle_def)

text \<open>The colour is that of the last threshold not above the ratio, when those behind it all are.\<close>

lemma threshold_color_band:
  assumes "i < length ts" "fst (ts ! i) \<le> q" "\<forall>j. i < j \<and> j < length ts \<longrightarrow> q < fst (ts ! j)"
  shows "threshold_color (Fin q) (map (\<lambda>(t, c). (Fin t, c)) ts) = snd (ts ! i)"
proof -
  let ?f = "\<lambda>(t, c). (Fin t, c)"
  have split: "ts = take i ts @ ts ! i # drop (Suc i) ts" using assms(1) by (rule id_take_nth_drop)
  have above: "fle (Fin (fst x)) (Fin q) = False" if x: "x \<in> set (drop (Suc i) ts)" for x
  proof -
    obtain k where k: "k < length (drop (Suc i) ts)" "x = drop (Suc i) ts ! k" using x unfolding in_set_conv_nth by blast
    then have "x = ts ! (Suc i + k)" "i < Suc i + k" "Suc i + k < length ts" using assms(1) by simp_all
    then show ?thesis using assms(3) by (simp add: not_le)
  qed
  have "find (\<lambda>(t, _). fle t (Fin q)) (rev (map ?f (drop (Suc i) ts))) = None"
    using above by (force simp: find_None_iff split: prod.splits)
  moreover have "find P (xs @ y # zs) = Some y" if "find P xs = None" "P y" for P and xs :: "(f64 \<times> color) list" and y zs
    using that by (induction xs) (auto split: if_splits)
  ultimately have "find (\<lambda>(t, _). fle t (Fin q)) (rev (map ?f (drop (Suc i) ts)) @ ?f (ts ! i) # rev (map ?f (take i ts)))
      = Some (?f (ts ! i))"
    using assms(2) by (cases "ts ! i") simp
  moreover have "rev (map ?f ts) = rev (map ?f (drop (Suc i) ts)) @ ?f (ts ! i) # rev (map ?f (take i ts))"
    by (subst split) simp
  ultimately show ?thesis by (simp add: threshold_color_def split: prod.splits)
qed

end
