(* ===== verification/TuiUpdate.thy ===== *)
theory TuiUpdate
  imports TuiSamples EcMock
begin

text \<open>
  The background updaters of the terminal UI and the state they write, source.rs, state.rs, updater.rs and the
  polling functions of battery.rs of src/ec/test-tui/src. One update of an updater is a function of its own state
  and the state behind the source; the locks around the shared state and the logging are left out.
\<close>

section \<open>The object-safe source\<close>

record ('s, 'r, 'ts, 'snap) dyn_source =
  dy_get_bst :: "('s, 'r, bst_return) ec_op"
  dy_get_bix :: "('s, 'r, bix_fixed_strings) ec_op"
  dy_set_btp :: "u32 \<Rightarrow> ('s, 'r, unit) ec_op"
  dy_get_temperature :: "('s, 'r, f64) ec_op"
  dy_get_rpm :: "('s, 'r, f64) ec_op"
  dy_get_min_rpm :: "('s, 'r, f64) ec_op"
  dy_get_max_rpm :: "('s, 'r, f64) ec_op"
  dy_get_threshold :: "lib_threshold \<Rightarrow> ('s, 'r, f64) ec_op"
  dy_set_rpm :: "f64 \<Rightarrow> ('s, 'r, unit) ec_op"
  dy_get_capabilities :: "('s, 'r, u32) ec_op"
  dy_get_real_time :: "('s, 'r, 'ts) ec_op"
  dy_get_wake_status :: "timer_id \<Rightarrow> ('s, 'r, u32) ec_op"
  dy_get_expired_timer_wake_policy :: "timer_id \<Rightarrow> ('s, 'r, u32) ec_op"
  dy_get_timer_value :: "timer_id \<Rightarrow> ('s, 'r, u32) ec_op"
  dy_get_ucsi_snapshot :: "u8 \<Rightarrow> ('s, 'r, 'snap) ec_op"

text \<open>The blanket implementation for a source with a UCSI operation; \<open>report\<close> wraps its errors.\<close>

definition blanket ::
  "('e \<Rightarrow> 'r) \<Rightarrow> ('s, 'e, 'ts) source \<Rightarrow> (u8 \<Rightarrow> ('s, 'e, 'snap) ec_op) \<Rightarrow> ('s, 'r, 'ts, 'snap) dyn_source" where
  "blanket report src get_snapshot =
    \<lparr>dy_get_bst = op_map report (src_get_bst src),
     dy_get_bix = op_map report (src_get_bix src),
     dy_set_btp = (\<lambda>v. op_map report (src_set_btp src v)),
     dy_get_temperature = op_map report (src_get_temperature src),
     dy_get_rpm = op_map report (src_get_rpm src),
     dy_get_min_rpm = op_map report (src_get_min_rpm src),
     dy_get_max_rpm = op_map report (src_get_max_rpm src),
     dy_get_threshold = (\<lambda>i. op_map report (src_get_threshold src i)),
     dy_set_rpm = (\<lambda>x. op_map report (src_set_rpm src x)),
     dy_get_capabilities = op_map report (src_get_capabilities src),
     dy_get_real_time = op_map report (src_get_real_time src),
     dy_get_wake_status = (\<lambda>i. op_map report (src_get_wake_status src i)),
     dy_get_expired_timer_wake_policy = (\<lambda>i. op_map report (src_get_expired_timer_wake_policy src i)),
     dy_get_timer_value = (\<lambda>i. op_map report (src_get_timer_value src i)),
     dy_get_ucsi_snapshot = (\<lambda>c. op_map report (get_snapshot c))\<rparr>"

definition is_ok :: "'r + 'a \<Rightarrow> bool" where
  "is_ok r = (case r of Inl _ \<Rightarrow> False | Inr _ \<Rightarrow> True)"

lemma is_ok_simps [simp]: "is_ok (Inr x)" "\<not> is_ok (Inl e)"
  by (simp_all add: is_ok_def)

section \<open>The state shown\<close>

text \<open>Not yet fetched, fetched, or failed.\<close>

type_synonym ('r, 'a) fetched = "('r + 'a) option"

definition BATTERY_MAX_SAMPLES :: nat where "BATTERY_MAX_SAMPLES = 60"
definition THERMAL_MAX_SAMPLES :: nat where "THERMAL_MAX_SAMPLES = 60"
definition SYSTEM_MAX_SAMPLES :: nat where "SYSTEM_MAX_SAMPLES = 60"

record tui_battery =
  tb_bst :: bst_return
  tb_bst_success :: bool
  tb_bix :: bix_fixed_strings
  tb_bix_success :: bool
  tb_samples :: "u32 sample_buf"
  tb_t_min :: u64
  tb_btp :: u32
  tb_btp_success :: bool

text \<open>The default values of the two service structures are those of their crate.\<close>

definition battery_default :: "bst_return \<Rightarrow> bix_fixed_strings \<Rightarrow> tui_battery" where
  "battery_default bst0 bix0 =
    \<lparr>tb_bst = bst0, tb_bst_success = False, tb_bix = bix0, tb_bix_success = False, tb_samples = samples_default,
     tb_t_min = 0, tb_btp = 0, tb_btp_success = True\<rparr>"

datatype battery_command = SetBtp u32

datatype thermal_command = SetRpm f64

record sensor_thresholds =
  warn_low :: f64
  warn_high :: f64
  prochot :: f64
  critical :: f64

record fan_levels =
  level_on :: f64
  level_ramping :: f64
  level_max :: f64

record tui_sensor =
  skin_temp :: f64
  temp_success :: bool
  thresholds :: sensor_thresholds
  thresholds_success :: bool
  sensor_samples :: "f64 sample_buf"

record tui_fan =
  fan_rpm :: f64
  rpm_success :: bool
  rpm_bounds :: "f64 \<times> f64"
  bounds_success :: bool
  state_levels :: fan_levels
  levels_success :: bool
  fan_samples :: "u32 sample_buf"

record tui_thermal =
  th_sensor :: tui_sensor
  th_fan :: tui_fan
  th_t :: u64
  th_rpm_limit :: f64
  th_rpm_set_success :: bool

definition thermal_default :: tui_thermal where
  "thermal_default =
    \<lparr>th_sensor = \<lparr>skin_temp = Fin 0, temp_success = False,
       thresholds = \<lparr>warn_low = Fin 0, warn_high = Fin 0, prochot = Fin 0, critical = Fin 0\<rparr>,
       thresholds_success = False, sensor_samples = samples_default\<rparr>,
     th_fan = \<lparr>fan_rpm = Fin 0, rpm_success = False, rpm_bounds = (Fin 0, Fin 0), bounds_success = False,
       state_levels = \<lparr>level_on = Fin 0, level_ramping = Fin 0, level_max = Fin 0\<rparr>, levels_success = False,
       fan_samples = samples_default\<rparr>,
     th_t = 0, th_rpm_limit = Fin 0, th_rpm_set_success = False\<rparr>"

record 'r timer_data =
  td_value :: "('r, u32) fetched"
  td_wake_policy :: "('r, u32) fetched"
  td_timer_status :: "('r, u32) fetched"

text \<open>The two timers, the AC and the DC one, are the positions 0 and 1 of the array.\<close>

record ('r, 'ts) tui_rtc =
  rt_capabilities :: "('r, u32) fetched"
  rt_timestamp :: "('r, 'ts) fetched"
  rt_timers :: "'r timer_data list"

definition rtc_default :: "('r, 'ts) tui_rtc" where
  "rtc_default = \<lparr>rt_capabilities = None, rt_timestamp = None,
     rt_timers = replicate 2 \<lparr>td_value = None, td_wake_policy = None, td_timer_status = None\<rparr>\<rparr>"

record tui_system =
  cpu_usage :: f64
  cpu_per_core :: "f64 list"
  cpu_samples :: "f64 sample_buf"
  cpu_success :: bool
  used_bytes :: u64
  total_bytes :: u64
  swap_used_bytes :: u64
  swap_total_bytes :: u64
  mem_samples :: "f64 sample_buf"
  mem_success :: bool
  rx_bps :: f64
  tx_bps :: f64
  total_rx :: u64
  total_tx :: u64
  rx_samples :: "f64 sample_buf"
  tx_samples :: "f64 sample_buf"
  net_success :: bool
  sys_t :: u64

definition system_default :: tui_system where
  "system_default =
    \<lparr>cpu_usage = Fin 0, cpu_per_core = [], cpu_samples = samples_default, cpu_success = False,
     used_bytes = 0, total_bytes = 0, swap_used_bytes = 0, swap_total_bytes = 0, mem_samples = samples_default,
     mem_success = False, rx_bps = Fin 0, tx_bps = Fin 0, total_rx = 0, total_tx = 0, rx_samples = samples_default,
     tx_samples = samples_default, net_success = False, sys_t = 0\<rparr>"

section \<open>Battery\<close>

definition poll_bst :: "('s, 'r, 'ts, 'snap) dyn_source \<Rightarrow> tui_battery \<Rightarrow> 's \<Rightarrow> tui_battery \<times> 's" where
  "poll_bst dy b s = (case dy_get_bst dy s of
      (Inr bst, s') \<Rightarrow> (b\<lparr>tb_bst := bst, tb_bst_success := True\<rparr>, s')
    | (Inl _, s') \<Rightarrow> (b\<lparr>tb_bst_success := False\<rparr>, s'))"

definition poll_bix :: "('s, 'r, 'ts, 'snap) dyn_source \<Rightarrow> tui_battery \<Rightarrow> 's \<Rightarrow> tui_battery \<times> 's" where
  "poll_bix dy b s = (case dy_get_bix dy s of
      (Inr bix, s') \<Rightarrow> (b\<lparr>tb_bix := bix, tb_bix_success := True\<rparr>, s')
    | (Inl _, s') \<Rightarrow> (b\<lparr>tb_bix_success := False\<rparr>, s'))"

text \<open>The commands waiting in the channel, in the order they were sent.\<close>

fun battery_commands ::
  "('s, 'r, 'ts, 'snap) dyn_source \<Rightarrow> battery_command list \<Rightarrow> tui_battery \<Rightarrow> 's \<Rightarrow> tui_battery \<times> 's" where
  "battery_commands dy [] b s = (b, s)"
| "battery_commands dy (SetBtp v # cmds) b s =
    (let (r, s') = dy_set_btp dy v s
     in battery_commands dy cmds (b\<lparr>tb_btp := v, tb_btp_success := is_ok r\<rparr>) s')"

text \<open>The static data is asked for until it came once.\<close>

definition bix_step ::
  "('s, 'r, 'ts, 'snap) dyn_source \<Rightarrow> tui_battery \<times> bool \<Rightarrow> 's \<Rightarrow> (tui_battery \<times> bool) \<times> 's" where
  "bix_step dy bc s = (let (b, bix_cached) = bc in
     if \<not> bix_cached then let (b', s') = poll_bix dy b s in ((b', tb_bix_success b'), s') else ((b, bix_cached), s))"

text \<open>A sample is inserted when the reading worked.\<close>

definition with_sample :: "tui_battery \<Rightarrow> tui_battery" where
  "with_sample b = (if tb_bst_success b
     then b\<lparr>tb_samples := sample_insert u32_to_f64 BATTERY_MAX_SAMPLES (battery_remaining_capacity (tb_bst b)) (tb_samples b),
         tb_t_min := tb_t_min b + 1\<rparr>
     else b)"

definition battery_update ::
  "('s, 'r, 'ts, 'snap) dyn_source \<Rightarrow> battery_command list \<Rightarrow> tui_battery \<times> bool \<Rightarrow> 's \<Rightarrow> (tui_battery \<times> bool) \<times> 's" where
  "battery_update dy cmds bc s =
    (let (b, bix_cached) = bc;
       (b1, s1) = battery_commands dy cmds b s;
       ((b2, cached), s2) = bix_step dy (b1, bix_cached) s1;
       (b3, s3) = poll_bst dy b2 s2
     in ((with_sample b3, cached), s3))"

section \<open>Temperature and fan\<close>

definition sensor_thresholds_fixed :: sensor_thresholds where
  "sensor_thresholds_fixed = \<lparr>warn_low = Fin 13, warn_high = Fin 35, prochot = Fin 40, critical = Fin 45\<rparr>"

fun thermal_commands ::
  "('s, 'r, 'ts, 'snap) dyn_source \<Rightarrow> thermal_command list \<Rightarrow> tui_thermal \<Rightarrow> 's \<Rightarrow> tui_thermal \<times> 's" where
  "thermal_commands dy [] t s = (t, s)"
| "thermal_commands dy (SetRpm x # cmds) t s =
    (let (r, s') = dy_set_rpm dy x s
     in thermal_commands dy cmds (t\<lparr>th_rpm_limit := x, th_rpm_set_success := is_ok r\<rparr>) s')"

definition sensor_take :: "'r + f64 \<Rightarrow> tui_sensor \<Rightarrow> tui_sensor" where
  "sensor_take temp d =
    (let d1 = (case temp of
         Inr t \<Rightarrow> d\<lparr>skin_temp := t, sensor_samples := sample_insert id THERMAL_MAX_SAMPLES t (sensor_samples d), temp_success := True\<rparr>
       | Inl _ \<Rightarrow> d\<lparr>temp_success := False\<rparr>)
     in d1\<lparr>thresholds := sensor_thresholds_fixed, thresholds_success := True\<rparr>)"

definition fan_take ::
  "'r + f64 \<Rightarrow> ('r + f64) \<times> ('r + f64) \<Rightarrow> ('r + f64) \<times> ('r + f64) \<times> ('r + f64) \<Rightarrow> tui_fan \<Rightarrow> tui_fan" where
  "fan_take rpm bounds levels f =
    (let f1 = (case rpm of
         Inr r \<Rightarrow> f\<lparr>fan_rpm := r, fan_samples := sample_insert u32_to_f64 THERMAL_MAX_SAMPLES (f64_to_u32 r) (fan_samples f), rpm_success := True\<rparr>
       | Inl _ \<Rightarrow> f\<lparr>rpm_success := False\<rparr>);
       f2 = (case bounds of
         (Inr lo, Inr hi) \<Rightarrow> f1\<lparr>rpm_bounds := (lo, hi), bounds_success := True\<rparr>
       | _ \<Rightarrow> f1\<lparr>bounds_success := False\<rparr>)
     in (case levels of
         (Inr on, Inr ramping, Inr mx) \<Rightarrow>
           f2\<lparr>state_levels := \<lparr>level_on = on, level_ramping = ramping, level_max = mx\<rparr>, levels_success := True\<rparr>
       | _ \<Rightarrow> f2\<lparr>levels_success := False\<rparr>))"

definition thermal_update ::
  "('s, 'r, 'ts, 'snap) dyn_source \<Rightarrow> thermal_command list \<Rightarrow> tui_thermal \<Rightarrow> 's \<Rightarrow> tui_thermal \<times> 's" where
  "thermal_update dy cmds t s =
    (let (t1, s1) = thermal_commands dy cmds t s;
       (temp, s2) = dy_get_temperature dy s1;
       (rpm, s3) = dy_get_rpm dy s2;
       (min_rpm, s4) = dy_get_min_rpm dy s3;
       (max_rpm, s5) = dy_get_max_rpm dy s4;
       (thresh_on, s6) = dy_get_threshold dy On s5;
       (thresh_ramp, s7) = dy_get_threshold dy Ramping s6;
       (thresh_max, s8) = dy_get_threshold dy Max s7
     in (t1\<lparr>th_sensor := sensor_take temp (th_sensor t1),
            th_fan := fan_take rpm (min_rpm, max_rpm) (thresh_on, thresh_ramp, thresh_max) (th_fan t1),
            th_t := th_t t1 + 1\<rparr>, s8))"

section \<open>Clock\<close>

definition rtc_updater_update ::
  "('s, 'r, 'ts, 'snap) dyn_source \<Rightarrow> ('r, 'ts) tui_rtc \<times> bool \<Rightarrow> 's \<Rightarrow> (('r, 'ts) tui_rtc \<times> bool) \<times> 's" where
  "rtc_updater_update dy rc s =
    (let (r, rtc_caps_cached) = rc;
       (caps, s1) = (if rtc_caps_cached then (None, s)
         else let (c, s') = dy_get_capabilities dy s in (Some c, s'));
       (timestamp, s2) = dy_get_real_time dy s1;
       (ac_value, s3) = dy_get_timer_value dy AcPower s2;
       (ac_policy, s4) = dy_get_expired_timer_wake_policy dy AcPower s3;
       (ac_status, s5) = dy_get_wake_status dy AcPower s4;
       (dc_value, s6) = dy_get_timer_value dy DcPower s5;
       (dc_policy, s7) = dy_get_expired_timer_wake_policy dy DcPower s6;
       (dc_status, s8) = dy_get_wake_status dy DcPower s7;
       (r1, cached) = (case caps of
           None \<Rightarrow> (r, rtc_caps_cached)
         | Some c \<Rightarrow> (r\<lparr>rt_capabilities := Some c\<rparr>, rtc_caps_cached \<or> is_ok c))
     in ((r1\<lparr>rt_timestamp := Some timestamp,
           rt_timers := (rt_timers r1)
             [0 := \<lparr>td_value = Some ac_value, td_wake_policy = Some ac_policy, td_timer_status = Some ac_status\<rparr>,
              1 := \<lparr>td_value = Some dc_value, td_wake_policy = Some dc_policy, td_timer_status = Some dc_status\<rparr>]\<rparr>,
          cached), s8))"

section \<open>System\<close>

text \<open>
  One reading of the crate sysinfo: the time in nanoseconds, the usage of the processors (an f32, by its f64), memory,
  and for every network the totals and the bytes since the last refresh, received and transmitted.
\<close>

record sys_reading =
  sr_now :: nat
  sr_cpu :: f64
  sr_cores :: "f64 list"
  sr_total_memory :: u64
  sr_used_memory :: u64
  sr_total_swap :: u64
  sr_used_swap :: u64
  sr_networks :: "(u64 \<times> u64 \<times> u64 \<times> u64) list"

text \<open>\<open>f64::max\<close> returns the other operand when one is not a number.\<close>

definition fmax64 :: "f64 \<Rightarrow> f64 \<Rightarrow> f64" where
  "fmax64 a b = (if a = NaN then b else if b = NaN then a else if flt a b then b else a)"

definition system_update :: "sys_reading \<Rightarrow> tui_system \<times> nat option \<Rightarrow> tui_system \<times> nat option" where
  "system_update rd sl =
    (let (y, last_update) = sl;
       elapsed_secs = fmax64 (case last_update of
           Some t \<Rightarrow> secs_f64 (sr_now rd - t) | None \<Rightarrow> Fin 1) (round64 0.001);
       usage = sr_cpu rd;
       total = sr_total_memory rd;
       used = sr_used_memory rd;
       mem_pct = (if 0 < total then fmul (fdiv (f64_of_nat (unat used)) (f64_of_nat (unat total))) (Fin 100) else Fin 0);
       (tot_rx, tot_tx, delta_rx, delta_tx) =
         foldl (\<lambda>(a, b, c, d) (x, y, z, w). (a + x, b + y, c + z, d + w)) (0, 0, 0, 0) (sr_networks rd);
       rx = fdiv (f64_of_nat (unat delta_rx)) elapsed_secs;
       tx = fdiv (f64_of_nat (unat delta_tx)) elapsed_secs
     in (y\<lparr>cpu_usage := usage, cpu_per_core := sr_cores rd,
           cpu_samples := sample_insert id SYSTEM_MAX_SAMPLES usage (cpu_samples y), cpu_success := True,
           total_bytes := total, used_bytes := used, swap_total_bytes := sr_total_swap rd, swap_used_bytes := sr_used_swap rd,
           mem_samples := sample_insert id SYSTEM_MAX_SAMPLES mem_pct (mem_samples y), mem_success := True,
           rx_bps := rx, tx_bps := tx, total_rx := tot_rx, total_tx := tot_tx,
           rx_samples := sample_insert id SYSTEM_MAX_SAMPLES rx (rx_samples y),
           tx_samples := sample_insert id SYSTEM_MAX_SAMPLES tx (tx_samples y), net_success := True,
           sys_t := sys_t y + 1\<rparr>, Some (sr_now rd)))"

section \<open>USB-C\<close>

definition UCSI_CONNECTOR :: u8 where "UCSI_CONNECTOR = 1"

definition ucsi_update ::
  "('s, 'r, 'ts, 'snap) dyn_source \<Rightarrow> ('r, 'snap) fetched \<Rightarrow> 's \<Rightarrow> ('r, 'snap) fetched \<times> 's" where
  "ucsi_update dy u s = (let (snapshot, s') = dy_get_ucsi_snapshot dy UCSI_CONNECTOR s in (Some snapshot, s'))"

end
