(* ===== verification/TuiApp.thy ===== *)
theory TuiApp
  imports TuiUpdate
begin

text \<open>
  The foreground of the terminal UI, app.rs and the event handlers of battery.rs and thermal.rs of
  src/ec/test-tui/src: the selected tab, the popups that take a number, the log panel, quitting. Drawing is left out.
\<close>

section \<open>Terminal events\<close>

text \<open>The key events of crossterm as far as the handlers look at them; \<open>'x\<close> is what they pass on to the text input.\<close>

datatype key_code = KLeft | KRight | KUp | KDown | KEnter | KEsc | KChar nat | KOther nat

datatype key_kind = Press | Repeat | Release

datatype 'x ui_event = Key key_code key_kind 'x | NotKey 'x

text \<open>The text input of the crate tui_input.\<close>

record ('i, 'x) input_ops =
  in_default :: 'i
  in_value_and_reset :: "'i \<Rightarrow> ustr \<times> 'i"
  in_handle_event :: "'x ui_event \<Rightarrow> 'i \<Rightarrow> 'i"

section \<open>The modules with a popup\<close>

record 'i popup =
  popup_open :: bool
  popup_input :: 'i

definition popup_new :: "('i, 'x) input_ops \<Rightarrow> 'i popup" where
  "popup_new ops = \<lparr>popup_open = False, popup_input = in_default ops\<rparr>"

text \<open>
  Both handlers, but for the reading of the number; the value read is sent over the channel of commands.
\<close>

definition popup_handle ::
  "('i, 'x) input_ops \<Rightarrow> (ustr \<Rightarrow> 'v option) \<Rightarrow> 'x ui_event \<Rightarrow> 'i popup \<Rightarrow> 'i popup \<times> 'v list" where
  "popup_handle ops parse evt p = (case evt of
      Key code kind _ \<Rightarrow>
        if kind \<noteq> Press then (p, [])
        else if popup_open p then (case code of
            KEsc \<Rightarrow> (p\<lparr>popup_open := False, popup_input := in_default ops\<rparr>, [])
          | KEnter \<Rightarrow> let (raw, i) = in_value_and_reset ops (popup_input p)
              in (p\<lparr>popup_open := False, popup_input := i\<rparr>, case parse raw of Some v \<Rightarrow> [v] | None \<Rightarrow> [])
          | _ \<Rightarrow> (p\<lparr>popup_input := in_handle_event ops evt (popup_input p)\<rparr>, []))
        else if code = KChar 115 \<or> code = KChar 47 then (p\<lparr>popup_open := True\<rparr>, [])
        else (p, [])
    | NotKey _ \<Rightarrow> (p, []))"

definition battery_handle_event ::
  "('i, 'x) input_ops \<Rightarrow> 'x ui_event \<Rightarrow> 'i popup \<Rightarrow> 'i popup \<times> battery_command list" where
  "battery_handle_event ops = popup_handle ops (\<lambda>raw. map_option (SetBtp \<circ> of_nat) (parse_unsigned 32 raw))"

definition thermal_handle_event ::
  "('i, 'x) input_ops \<Rightarrow> 'x ui_event \<Rightarrow> 'i popup \<Rightarrow> 'i popup \<times> thermal_command list" where
  "thermal_handle_event ops = popup_handle ops (\<lambda>raw. map_option SetRpm (parse_f64 raw))"

section \<open>The application\<close>

datatype run_state = Running | Quitting

datatype selected_tab = TabDashboard | TabPower | TabThermal | TabRTC | TabSystem | TabUsbC

text \<open>The discriminants of the tabs, \<open>from_repr\<close>, and the module behind a tab.\<close>

fun tab_index :: "selected_tab \<Rightarrow> nat" where
  "tab_index TabDashboard = 0" | "tab_index TabPower = 1" | "tab_index TabThermal = 2"
| "tab_index TabRTC = 3" | "tab_index TabSystem = 4" | "tab_index TabUsbC = 5"

definition tab_from_repr :: "nat \<Rightarrow> selected_tab option" where
  "tab_from_repr n = (if n < 6 then Some ([TabDashboard, TabPower, TabThermal, TabRTC, TabSystem, TabUsbC] ! n) else None)"

definition tab_next :: "selected_tab \<Rightarrow> selected_tab" where
  "tab_next t = (case tab_from_repr (tab_index t + 1) of Some t' \<Rightarrow> t' | None \<Rightarrow> t)"

definition tab_previous :: "selected_tab \<Rightarrow> selected_tab" where
  "tab_previous t = (case tab_from_repr (tab_index t - 1) of Some t' \<Rightarrow> t' | None \<Rightarrow> t)"

fun module_index :: "selected_tab \<Rightarrow> nat option" where
  "module_index TabDashboard = None"
| "module_index TabPower = Some 0"
| "module_index TabThermal = Some 1"
| "module_index TabRTC = Some 2"
| "module_index TabSystem = Some 3"
| "module_index TabUsbC = Some 4"

text \<open>The two modules that keep a state are the first two; the other three ignore events and have no popup.\<close>

record 'i app =
  app_run_state :: run_state
  app_tab :: selected_tab
  app_battery :: "'i popup"
  app_thermal :: "'i popup"
  app_log_visible :: bool
  app_log_scroll :: u64

definition app_new :: "('i, 'x) input_ops \<Rightarrow> 'i app" where
  "app_new ops = \<lparr>app_run_state = Running, app_tab = TabDashboard, app_battery = popup_new ops,
     app_thermal = popup_new ops, app_log_visible = False, app_log_scroll = 0\<rparr>"

type_synonym sends = "battery_command list \<times> thermal_command list"

definition is_popup_open :: "nat \<Rightarrow> 'i app \<Rightarrow> bool" where
  "is_popup_open i a = (if i = 0 then popup_open (app_battery a) else if i = 1 then popup_open (app_thermal a) else False)"

definition module_handle_event :: "('i, 'x) input_ops \<Rightarrow> nat \<Rightarrow> 'x ui_event \<Rightarrow> 'i app \<Rightarrow> 'i app \<times> sends" where
  "module_handle_event ops i evt a =
    (if i = 0 then let (p, cmds) = battery_handle_event ops evt (app_battery a) in (a\<lparr>app_battery := p\<rparr>, cmds, [])
     else if i = 1 then let (p, cmds) = thermal_handle_event ops evt (app_thermal a) in (a\<lparr>app_thermal := p\<rparr>, [], cmds)
     else (a, [], []))"

definition handle_tab_event :: "('i, 'x) input_ops \<Rightarrow> 'x ui_event \<Rightarrow> 'i app \<Rightarrow> 'i app \<times> sends" where
  "handle_tab_event ops evt a = (case module_index (app_tab a) of
      Some i \<Rightarrow> module_handle_event ops i evt a | None \<Rightarrow> (a, [], []))"

definition saturating_inc :: "u64 \<Rightarrow> u64" where "saturating_inc n = (if n = - 1 then n else n + 1)"

definition saturating_dec :: "u64 \<Rightarrow> u64" where "saturating_dec n = (if n = 0 then n else n - 1)"

definition key_shortcut :: "('i, 'x) input_ops \<Rightarrow> 'x ui_event \<Rightarrow> key_code \<Rightarrow> 'i app \<Rightarrow> 'i app \<times> sends" where
  "key_shortcut ops evt code a =
    (if code = KRight then (a\<lparr>app_tab := tab_next (app_tab a)\<rparr>, [], [])
     else if code = KLeft then (a\<lparr>app_tab := tab_previous (app_tab a)\<rparr>, [], [])
     else if code = KUp \<and> app_log_visible a then (a\<lparr>app_log_scroll := saturating_inc (app_log_scroll a)\<rparr>, [], [])
     else if code = KDown \<and> app_log_visible a then (a\<lparr>app_log_scroll := saturating_dec (app_log_scroll a)\<rparr>, [], [])
     else if code = KChar 49 then (a\<lparr>app_tab := TabDashboard\<rparr>, [], [])
     else if code = KChar 50 then (a\<lparr>app_tab := TabPower\<rparr>, [], [])
     else if code = KChar 51 then (a\<lparr>app_tab := TabThermal\<rparr>, [], [])
     else if code = KChar 52 then (a\<lparr>app_tab := TabRTC\<rparr>, [], [])
     else if code = KChar 53 then (a\<lparr>app_tab := TabSystem\<rparr>, [], [])
     else if code = KChar 54 then (a\<lparr>app_tab := TabUsbC\<rparr>, [], [])
     else if code = KChar 108 then
       (let a' = a\<lparr>app_log_visible := \<not> app_log_visible a\<rparr>
        in (if app_log_visible a' then a'\<lparr>app_log_scroll := 0\<rparr> else a', [], []))
     else if code = KChar 113 \<or> code = KEsc then (a\<lparr>app_run_state := Quitting\<rparr>, [], [])
     else handle_tab_event ops evt a)"

text \<open>An open popup of the module of the selected tab gets every event, before the shortcuts.\<close>

definition handle_events :: "('i, 'x) input_ops \<Rightarrow> 'x ui_event \<Rightarrow> 'i app \<Rightarrow> 'i app \<times> sends" where
  "handle_events ops evt a = (case module_index (app_tab a) of
      Some i \<Rightarrow> if is_popup_open i a then module_handle_event ops i evt a
        else (case evt of Key code Press _ \<Rightarrow> key_shortcut ops evt code a | _ \<Rightarrow> (a, [], []))
    | None \<Rightarrow> (case evt of Key code Press _ \<Rightarrow> key_shortcut ops evt code a | _ \<Rightarrow> (a, [], [])))"

section \<open>Tabs\<close>

lemma tab_index_less: "tab_index t < 6" by (cases t) simp_all

lemma tab_from_index [simp]: "tab_from_repr (tab_index t) = Some t"
  by (cases t) (simp_all add: tab_from_repr_def eval_nat_numeral)

lemma tab_next_index: "tab_index (tab_next t) = min 5 (tab_index t + 1)"
  by (cases t) (simp_all add: tab_next_def tab_from_repr_def eval_nat_numeral)

lemma tab_previous_index: "tab_index (tab_previous t) = tab_index t - 1"
  by (cases t) (simp_all add: tab_previous_def tab_from_repr_def eval_nat_numeral)

section \<open>One popup at most, and only on its own tab\<close>

definition popups_ok :: "'i app \<Rightarrow> bool" where
  "popups_ok a \<longleftrightarrow> (popup_open (app_battery a) \<longrightarrow> app_tab a = TabPower) \<and>
     (popup_open (app_thermal a) \<longrightarrow> app_tab a = TabThermal)"

definition some_popup :: "'i app \<Rightarrow> bool" where
  "some_popup a \<longleftrightarrow> popup_open (app_battery a) \<or> popup_open (app_thermal a)"

lemma popups_ok_new [simp]: "popups_ok (app_new ops)"
  by (simp add: popups_ok_def app_new_def popup_new_def)

lemma popup_handle_closed:
  "\<not> popup_open p \<Longrightarrow> popup_handle ops parse evt p = (p', vs) \<Longrightarrow>
    vs = [] \<and> (popup_open p' \<longrightarrow> (\<exists>c x. evt = Key c Press x \<and> (c = KChar 115 \<or> c = KChar 47)))"
  by (auto simp: popup_handle_def split: ui_event.splits if_splits)

lemma popup_focus:
  assumes "popups_ok a" "some_popup a"
  shows "handle_events ops evt a = module_handle_event ops (if app_tab a = TabPower then 0 else 1) evt a"
  using assms by (auto simp: popups_ok_def some_popup_def handle_events_def is_popup_open_def)

lemma module_keeps:
  "module_handle_event ops i evt a = (a', out) \<Longrightarrow>
    app_tab a' = app_tab a \<and> app_run_state a' = app_run_state a \<and> app_log_visible a' = app_log_visible a \<and>
    app_log_scroll a' = app_log_scroll a \<and> (i \<noteq> 0 \<longrightarrow> app_battery a' = app_battery a) \<and>
    (i \<noteq> 1 \<longrightarrow> app_thermal a' = app_thermal a)"
  by (auto simp: module_handle_event_def split: if_splits prod.splits)

lemma tab_event_keeps:
  "handle_tab_event ops evt a = (a', out) \<Longrightarrow>
    app_tab a' = app_tab a \<and> app_run_state a' = app_run_state a \<and> app_log_visible a' = app_log_visible a \<and>
    app_log_scroll a' = app_log_scroll a \<and> (app_tab a \<noteq> TabPower \<longrightarrow> app_battery a' = app_battery a) \<and>
    (app_tab a \<noteq> TabThermal \<longrightarrow> app_thermal a' = app_thermal a)"
  by (cases "app_tab a") (auto simp: handle_tab_event_def dest: module_keeps)

lemma popups_ok_tab_event:
  "popups_ok a \<Longrightarrow> handle_tab_event ops evt a = (a', out) \<Longrightarrow> popups_ok a'"
  by (drule tab_event_keeps) (auto simp: popups_ok_def)

lemma shortcut_without_popup:
  assumes "popups_ok a" "\<not> some_popup a" "key_shortcut ops evt code a = (a', out)"
  shows "popups_ok a'"
proof -
  have shut: "\<not> popup_open (app_battery a)" "\<not> popup_open (app_thermal a)" using assms(2) by (simp_all add: some_popup_def)
  show ?thesis using assms(1, 3) shut popups_ok_tab_event [of a ops evt a' out]
    by (auto simp: key_shortcut_def popups_ok_def Let_def split: if_splits)
qed

lemma handle_events_cases:
  assumes "popups_ok a" "handle_events ops evt a = (a', out)"
  obtains (popup) i where "some_popup a" "i = (if app_tab a = TabPower then 0 else 1)" "module_handle_event ops i evt a = (a', out)"
  | (shortcut) code x where "\<not> some_popup a" "evt = Key code Press x" "key_shortcut ops evt code a = (a', out)"
  | (ignored) "\<not> some_popup a" "a' = a" "out = ([], [])" "\<nexists>code x. evt = Key code Press x"
proof (cases "some_popup a")
  case True
  then show ?thesis using popup [OF True refl] popup_focus [OF assms(1) True, of ops evt] assms(2) by simp
next
  case False
  then have "\<not> is_popup_open i a" for i by (auto simp: is_popup_open_def some_popup_def)
  then show ?thesis using False assms(2) shortcut ignored
    by (auto simp: handle_events_def split: option.splits ui_event.splits key_kind.splits)
qed

lemma handle_events_popups_ok:
  assumes "popups_ok a" "handle_events ops evt a = (a', out)"
  shows "popups_ok a'"
  using assms
proof (cases rule: handle_events_cases)
  case (popup i)
  then show ?thesis using module_keeps [OF popup(3)] assms(1) by (auto simp: popups_ok_def some_popup_def split: if_splits)
next
  case (shortcut code x)
  then show ?thesis using assms(1) shortcut_without_popup by blast
qed (use assms in simp)

section \<open>The contract of a module with a popup\<close>

text \<open>
  What the application relies on: a closed popup sends nothing and opens on its two keys only, an open one closes on
  Escape without sending, closes on Enter, and stays open on everything else, sending nothing.
\<close>

locale popup_module =
  fixes handle :: "'x ui_event \<Rightarrow> 'i popup \<Rightarrow> 'i popup \<times> 'v list"
  assumes closed: "\<not> popup_open p \<Longrightarrow> snd (handle evt p) = [] \<and>
      (popup_open (fst (handle evt p)) \<longrightarrow> (\<exists>c x. evt = Key c Press x \<and> (c = KChar 115 \<or> c = KChar 47)))"
    and opens: "\<not> popup_open p \<Longrightarrow> popup_open (fst (handle (Key (KChar 115) Press x) p))"
    and escape: "popup_open p \<Longrightarrow> snd (handle (Key KEsc Press x) p) = [] \<and> \<not> popup_open (fst (handle (Key KEsc Press x) p))"
    and enter: "popup_open p \<Longrightarrow> \<not> popup_open (fst (handle (Key KEnter Press x) p)) \<and> length (snd (handle (Key KEnter Press x) p)) \<le> 1"
    and other: "popup_open p \<Longrightarrow> \<nexists>c y. evt = Key c Press y \<and> (c = KEsc \<or> c = KEnter) \<Longrightarrow>
      snd (handle evt p) = [] \<and> popup_open (fst (handle evt p))"
begin

lemma sends_on_enter: "snd (handle evt p) \<noteq> [] \<Longrightarrow> popup_open p \<and> (\<exists>x. evt = Key KEnter Press x)"
  using closed [of p evt] escape [of p] other [of p evt] by fastforce

lemma sends_one: "length (snd (handle evt p)) \<le> 1"
  using sends_on_enter [of evt p] enter [of p] by fastforce

lemma closes: "popup_open p \<Longrightarrow> \<not> popup_open (fst (handle evt p)) \<Longrightarrow> \<exists>c x. evt = Key c Press x \<and> (c = KEsc \<or> c = KEnter)"
  using other by blast

end

lemma popup_handle_module: "popup_module (popup_handle ops parse)"
  by unfold_locales (auto simp: popup_handle_def split: ui_event.splits key_code.splits key_kind.splits prod.splits option.splits if_splits)

interpretation battery: popup_module "battery_handle_event ops" for ops
  unfolding battery_handle_event_def by (rule popup_handle_module)

interpretation thermal: popup_module "thermal_handle_event ops" for ops
  unfolding thermal_handle_event_def by (rule popup_handle_module)

lemma module_sends:
  assumes "module_handle_event ops i evt a = (a', bs, ts)"
  shows "length bs + length ts \<le> 1 \<and> (bs \<noteq> [] \<or> ts \<noteq> [] \<longrightarrow> is_popup_open i a \<and> (\<exists>x. evt = Key KEnter Press x))"
  using assms battery.sends_one [of ops evt "app_battery a"] thermal.sends_one [of ops evt "app_thermal a"]
    battery.sends_on_enter [of ops evt "app_battery a"] thermal.sends_on_enter [of ops evt "app_thermal a"]
  by (auto simp: module_handle_event_def is_popup_open_def split: if_splits prod.splits)

lemma no_popup_sends:
  "\<not> is_popup_open i a \<Longrightarrow> module_handle_event ops i evt a = (a', bs, ts) \<Longrightarrow> bs = [] \<and> ts = []"
  using module_sends [of ops i evt a a' bs ts] by blast

lemma shortcut_sends:
  assumes "\<not> some_popup a" "key_shortcut ops evt code a = (a', bs, ts)"
  shows "bs = [] \<and> ts = []"
proof -
  have none: "\<not> is_popup_open i a" for i using assms(1) by (simp add: is_popup_open_def some_popup_def)
  have "cs = [] \<and> ds = []" if "handle_tab_event ops evt a = (b, cs, ds)" for b cs ds
    using that no_popup_sends [OF none, of ops _ evt b cs ds] by (auto simp: handle_tab_event_def split: option.splits)
  then show ?thesis using assms(2) by (auto simp: key_shortcut_def Let_def split: if_splits)
qed

text \<open>A command is sent only by Enter in the open popup of the selected tab, one at a time.\<close>

lemma handle_events_sends:
  assumes "popups_ok a" "handle_events ops evt a = (a', bs, ts)"
  shows "length bs + length ts \<le> 1 \<and> (bs \<noteq> [] \<or> ts \<noteq> [] \<longrightarrow> some_popup a \<and> (\<exists>x. evt = Key KEnter Press x))"
  using assms
proof (cases rule: handle_events_cases)
  case (popup i)
  then show ?thesis using module_sends [OF popup(3)] by simp
next
  case (shortcut code x)
  then show ?thesis using shortcut_sends by fastforce
qed simp

text \<open>Escape leaves an open popup, and without one it leaves the application.\<close>

lemma escape_popup:
  assumes "popups_ok a" "some_popup a"
  shows "\<not> some_popup (fst (handle_events ops (Key KEsc Press x) a)) \<and> popups_ok (fst (handle_events ops (Key KEsc Press x) a)) \<and>
    app_run_state (fst (handle_events ops (Key KEsc Press x) a)) = app_run_state a"
proof -
  obtain a' out where r: "handle_events ops (Key KEsc Press x) a = (a', out)" by (metis surj_pair)
  then have "popups_ok a'" using assms(1) handle_events_popups_ok by blast
  moreover have "module_handle_event ops (if app_tab a = TabPower then 0 else 1) (Key KEsc Press x) a = (a', out)"
    using popup_focus [OF assms, of ops "Key KEsc Press x"] r by simp
  then have "\<not> some_popup a' \<and> app_run_state a' = app_run_state a"
    using assms battery.escape [of "app_battery a" ops x] thermal.escape [of "app_thermal a" ops x]
    by (auto simp: module_handle_event_def some_popup_def popups_ok_def split: if_splits prod.splits)
  ultimately show ?thesis using r by simp
qed

lemma escape_quits:
  assumes "popups_ok a" "\<not> some_popup a"
  shows "app_run_state (fst (handle_events ops (Key KEsc Press x) a)) = Quitting"
proof -
  have "\<not> is_popup_open i a" for i using assms(2) by (auto simp: is_popup_open_def some_popup_def)
  then show ?thesis by (auto simp: handle_events_def key_shortcut_def split: option.splits)
qed

end
