(* ===== verification/TuiWorld.thy ===== *)
theory TuiWorld
  imports TuiApp
begin

text \<open>
  The terminal UI as a whole, main.rs of src/ec/test-tui/src: the application, the five updaters with the state
  they write, the two channels of commands and the source behind the updaters. The order of key events and updates is
  free; it is the list of events of a run. The second half explains what is shown by the calls made to the source.
\<close>

section \<open>The system\<close>

record ('s, 'r, 'ts, 'snap, 'i) tui_world =
  w_app :: "'i app"
  w_battery_queue :: "battery_command list"
  w_thermal_queue :: "thermal_command list"
  w_battery :: "tui_battery \<times> bool"
  w_thermal :: tui_thermal
  w_rtc :: "('r, 'ts) tui_rtc \<times> bool"
  w_system :: "tui_system \<times> nat option"
  w_ucsi :: "('r, 'snap) fetched"
  w_source :: 's

datatype 'x tui_event = Ui "'x ui_event" | BatteryTick | ThermalTick | RtcTick | SystemTick sys_reading | UcsiTick

definition world_new :: "('i, 'x) input_ops \<Rightarrow> bst_return \<Rightarrow> bix_fixed_strings \<Rightarrow> 's \<Rightarrow> ('s, 'r, 'ts, 'snap, 'i) tui_world" where
  "world_new ops bst0 bix0 s =
    \<lparr>w_app = app_new ops, w_battery_queue = [], w_thermal_queue = [], w_battery = (battery_default bst0 bix0, False),
     w_thermal = thermal_default, w_rtc = (rtc_default, False), w_system = (system_default, None), w_ucsi = None,
     w_source = s\<rparr>"

text \<open>
  The main loop handles a terminal event while it runs. An update first takes all commands waiting in its channel.
\<close>

inductive tui_step ::
  "('s, 'r, 'ts, 'snap) dyn_source \<Rightarrow> ('i, 'x) input_ops \<Rightarrow> 'x tui_event \<Rightarrow>
   ('s, 'r, 'ts, 'snap, 'i) tui_world \<Rightarrow> ('s, 'r, 'ts, 'snap, 'i) tui_world \<Rightarrow> bool" for dy ops where
  ui: "app_run_state (w_app w) = Running \<Longrightarrow> handle_events ops evt (w_app w) = (a, bs, ts) \<Longrightarrow>
    tui_step dy ops (Ui evt) w (w\<lparr>w_app := a, w_battery_queue := w_battery_queue w @ bs, w_thermal_queue := w_thermal_queue w @ ts\<rparr>)"
| battery_tick: "battery_update dy (w_battery_queue w) (w_battery w) (w_source w) = (b, s) \<Longrightarrow>
    tui_step dy ops BatteryTick w (w\<lparr>w_battery_queue := [], w_battery := b, w_source := s\<rparr>)"
| thermal_tick: "thermal_update dy (w_thermal_queue w) (w_thermal w) (w_source w) = (t, s) \<Longrightarrow>
    tui_step dy ops ThermalTick w (w\<lparr>w_thermal_queue := [], w_thermal := t, w_source := s\<rparr>)"
| rtc_tick: "rtc_updater_update dy (w_rtc w) (w_source w) = (r, s) \<Longrightarrow>
    tui_step dy ops RtcTick w (w\<lparr>w_rtc := r, w_source := s\<rparr>)"
| system_tick: "tui_step dy ops (SystemTick rd) w (w\<lparr>w_system := system_update rd (w_system w)\<rparr>)"
| ucsi_tick: "ucsi_update dy (w_ucsi w) (w_source w) = (u, s) \<Longrightarrow>
    tui_step dy ops UcsiTick w (w\<lparr>w_ucsi := u, w_source := s\<rparr>)"

inductive tui_run ::
  "('s, 'r, 'ts, 'snap) dyn_source \<Rightarrow> ('i, 'x) input_ops \<Rightarrow> ('s, 'r, 'ts, 'snap, 'i) tui_world \<Rightarrow> 'x tui_event list \<Rightarrow>
   ('s, 'r, 'ts, 'snap, 'i) tui_world \<Rightarrow> bool" for dy ops w where
  start: "tui_run dy ops w [] w"
| more: "tui_run dy ops w es w1 \<Longrightarrow> tui_step dy ops e w1 w2 \<Longrightarrow> tui_run dy ops w (es @ [e]) w2"

inductive_cases ui_stepE: "tui_step dy ops (Ui evt) w w'"
inductive_cases battery_stepE: "tui_step dy ops BatteryTick w w'"
inductive_cases thermal_stepE: "tui_step dy ops ThermalTick w w'"
inductive_cases rtc_stepE: "tui_step dy ops RtcTick w w'"
inductive_cases system_stepE: "tui_step dy ops (SystemTick rd) w w'"
inductive_cases ucsi_stepE: "tui_step dy ops UcsiTick w w'"
inductive_simps tui_run_nil: "tui_run dy ops w [] w'"

lemmas tui_stepE = ui_stepE battery_stepE thermal_stepE rtc_stepE system_stepE ucsi_stepE

text \<open>The relation is a partial function of the event, which the example runs.\<close>

definition tui_exec ::
  "('s, 'r, 'ts, 'snap) dyn_source \<Rightarrow> ('i, 'x) input_ops \<Rightarrow> 'x tui_event \<Rightarrow>
   ('s, 'r, 'ts, 'snap, 'i) tui_world \<Rightarrow> ('s, 'r, 'ts, 'snap, 'i) tui_world option" where
  "tui_exec dy ops e w = (case e of
      Ui evt \<Rightarrow> if app_run_state (w_app w) = Running
        then let (a, bs, ts) = handle_events ops evt (w_app w)
          in Some (w\<lparr>w_app := a, w_battery_queue := w_battery_queue w @ bs, w_thermal_queue := w_thermal_queue w @ ts\<rparr>)
        else None
    | BatteryTick \<Rightarrow> let (b, s) = battery_update dy (w_battery_queue w) (w_battery w) (w_source w)
        in Some (w\<lparr>w_battery_queue := [], w_battery := b, w_source := s\<rparr>)
    | ThermalTick \<Rightarrow> let (t, s) = thermal_update dy (w_thermal_queue w) (w_thermal w) (w_source w)
        in Some (w\<lparr>w_thermal_queue := [], w_thermal := t, w_source := s\<rparr>)
    | RtcTick \<Rightarrow> let (r, s) = rtc_updater_update dy (w_rtc w) (w_source w) in Some (w\<lparr>w_rtc := r, w_source := s\<rparr>)
    | SystemTick rd \<Rightarrow> Some (w\<lparr>w_system := system_update rd (w_system w)\<rparr>)
    | UcsiTick \<Rightarrow> let (u, s) = ucsi_update dy (w_ucsi w) (w_source w) in Some (w\<lparr>w_ucsi := u, w_source := s\<rparr>))"

lemma tui_step_exec: "tui_step dy ops e w w' \<longleftrightarrow> tui_exec dy ops e w = Some w'"
  by (cases e) (auto simp: tui_exec_def Let_def elim!: tui_stepE intro: tui_step.intros split: prod.splits if_splits)

fun tui_execs ::
  "('s, 'r, 'ts, 'snap) dyn_source \<Rightarrow> ('i, 'x) input_ops \<Rightarrow> 'x tui_event list \<Rightarrow>
   ('s, 'r, 'ts, 'snap, 'i) tui_world \<Rightarrow> ('s, 'r, 'ts, 'snap, 'i) tui_world option" where
  "tui_execs dy ops [] w = Some w"
| "tui_execs dy ops (e # es) w = (case tui_exec dy ops e w of Some w' \<Rightarrow> tui_execs dy ops es w' | None \<Rightarrow> None)"

lemma tui_run_execs: "tui_run dy ops w0 es0 w \<Longrightarrow> tui_execs dy ops es w = Some w' \<Longrightarrow> tui_run dy ops w0 (es0 @ es) w'"
proof (induction es arbitrary: es0 w)
  case (Cons e es)
  then obtain w1 where "tui_exec dy ops e w = Some w1" "tui_execs dy ops es w1 = Some w'" by (auto split: option.splits)
  then show ?case using Cons.IH [of "es0 @ [e]" w1] Cons.prems(1) tui_run.more by (fastforce simp: tui_step_exec)
qed simp

lemmas tui_run_by_execs = tui_run_execs [OF tui_run.start, unfolded append_Nil]

lemma tui_run_invariant:
  assumes "tui_run dy ops w es w'" "I w" "\<And>e w1 w2. tui_step dy ops e w1 w2 \<Longrightarrow> I w1 \<Longrightarrow> I w2"
  shows "I w'"
  using assms by (induction rule: tui_run.induct) blast+

section \<open>The application alone\<close>

text \<open>The application sees terminal events only: what it sends is a function of them.\<close>

fun ui_of :: "'x tui_event \<Rightarrow> 'x ui_event list" where
  "ui_of (Ui e) = [e]"
| "ui_of _ = []"

definition app_step :: "('i, 'x) input_ops \<Rightarrow> 'x ui_event \<Rightarrow> 'i app \<times> sends \<Rightarrow> 'i app \<times> sends" where
  "app_step ops evt as = (let (a, bs, ts) = as; (a', bs', ts') = handle_events ops evt a in (a', bs @ bs', ts @ ts'))"

definition app_run :: "('i, 'x) input_ops \<Rightarrow> 'x ui_event list \<Rightarrow> 'i app \<times> sends" where
  "app_run ops evts = fold (app_step ops) evts (app_new ops, [], [])"

lemma app_run_snoc: "app_run ops (evts @ [e]) = app_step ops e (app_run ops evts)"
  by (simp add: app_run_def)

lemma app_run_nil [simp]: "app_run ops [] = (app_new ops, [], [])"
  by (simp add: app_run_def)

lemma world_app:
  assumes "tui_run dy ops w0 es w" "w_app w0 = app_new ops"
  shows "w_app w = fst (app_run ops (concat (map ui_of es)))"
  using assms
proof (induction rule: tui_run.induct)
  case (more es w1 e w2)
  from more(2) show ?case
    by (cases rule: tui_step.cases) (use more in \<open>auto simp: app_run_snoc app_step_def split: prod.splits\<close>)
qed simp

lemma popups_ok_run: "popups_ok (fst (app_run ops evts))"
proof (induction evts rule: rev_induct)
  case (snoc e evts)
  then show ?case using handle_events_popups_ok
    by (fastforce simp: app_run_snoc app_step_def split: prod.splits)
qed simp

lemma world_popups_ok:
  assumes "tui_run dy ops (world_new ops bst0 bix0 s) es w"
  shows "popups_ok (w_app w)"
  using world_app [OF assms] popups_ok_run by (simp add: world_new_def)

section \<open>A source that keeps a record\<close>

text \<open>The calls whose arguments or answers decide what is shown of battery, temperature, fan and clock capabilities.\<close>

datatype 'r ec_call = CallBst "'r + bst_return" | CallBix "'r + bix_fixed_strings" | CallBtp u32 "'r + unit"
  | CallTemp "'r + f64" | CallRpm "'r + f64" | CallSetRpm f64 "'r + unit" | CallCaps "'r + u32"

definition noted :: "('r + 'a \<Rightarrow> 'r ec_call) \<Rightarrow> ('s, 'r, 'a) ec_op \<Rightarrow> ('r ec_call list \<times> 's, 'r, 'a) ec_op" where
  "noted f m ls = (let (cl, s) = ls; (r, s') = m s in (r, cl @ [f r], s'))"

definition silent :: "('s, 'r, 'a) ec_op \<Rightarrow> ('r ec_call list \<times> 's, 'r, 'a) ec_op" where
  "silent m ls = (let (cl, s) = ls; (r, s') = m s in (r, cl, s'))"

definition recorded :: "('s, 'r, 'ts, 'snap) dyn_source \<Rightarrow> ('r ec_call list \<times> 's, 'r, 'ts, 'snap) dyn_source" where
  "recorded dy =
    \<lparr>dy_get_bst = noted CallBst (dy_get_bst dy),
     dy_get_bix = noted CallBix (dy_get_bix dy),
     dy_set_btp = (\<lambda>v. noted (CallBtp v) (dy_set_btp dy v)),
     dy_get_temperature = noted CallTemp (dy_get_temperature dy),
     dy_get_rpm = noted CallRpm (dy_get_rpm dy),
     dy_get_min_rpm = silent (dy_get_min_rpm dy),
     dy_get_max_rpm = silent (dy_get_max_rpm dy),
     dy_get_threshold = (\<lambda>i. silent (dy_get_threshold dy i)),
     dy_set_rpm = (\<lambda>x. noted (CallSetRpm x) (dy_set_rpm dy x)),
     dy_get_capabilities = noted CallCaps (dy_get_capabilities dy),
     dy_get_real_time = silent (dy_get_real_time dy),
     dy_get_wake_status = (\<lambda>i. silent (dy_get_wake_status dy i)),
     dy_get_expired_timer_wake_policy = (\<lambda>i. silent (dy_get_expired_timer_wake_policy dy i)),
     dy_get_timer_value = (\<lambda>i. silent (dy_get_timer_value dy i)),
     dy_get_ucsi_snapshot = (\<lambda>c. silent (dy_get_ucsi_snapshot dy c))\<rparr>"

text \<open>The last of a list, or a default.\<close>

definition latest :: "'a \<Rightarrow> 'a list \<Rightarrow> 'a" where "latest d xs = last (d # xs)"

lemma latest_simps [simp]: "latest d [] = d" "latest d (xs @ [x]) = x"
  by (simp_all add: latest_def)

text \<open>The answers and writes of one kind, in order.\<close>

definition bst_answers :: "'r ec_call list \<Rightarrow> ('r + bst_return) list" where "bst_answers cl = [r. CallBst r \<leftarrow> cl]"
definition bix_answers :: "'r ec_call list \<Rightarrow> ('r + bix_fixed_strings) list" where "bix_answers cl = [r. CallBix r \<leftarrow> cl]"
definition btp_writes :: "'r ec_call list \<Rightarrow> (u32 \<times> bool) list" where "btp_writes cl = [(v, is_ok r). CallBtp v r \<leftarrow> cl]"
definition temp_answers :: "'r ec_call list \<Rightarrow> ('r + f64) list" where "temp_answers cl = [r. CallTemp r \<leftarrow> cl]"
definition rpm_answers :: "'r ec_call list \<Rightarrow> ('r + f64) list" where "rpm_answers cl = [r. CallRpm r \<leftarrow> cl]"
definition rpm_writes :: "'r ec_call list \<Rightarrow> (f64 \<times> bool) list" where "rpm_writes cl = [(x, is_ok r). CallSetRpm x r \<leftarrow> cl]"
definition caps_answers :: "'r ec_call list \<Rightarrow> ('r + u32) list" where "caps_answers cl = [r. CallCaps r \<leftarrow> cl]"

definition rights :: "('r + 'a) list \<Rightarrow> 'a list" where "rights rs = [x. Inr x \<leftarrow> rs]"

lemmas answers_defs = bst_answers_def bix_answers_def btp_writes_def temp_answers_def rpm_answers_def rpm_writes_def caps_answers_def

lemma answers_Cons [simp]:
  "bst_answers (c # cl) = (case c of CallBst r \<Rightarrow> [r] | _ \<Rightarrow> []) @ bst_answers cl"
  "bix_answers (c # cl) = (case c of CallBix r \<Rightarrow> [r] | _ \<Rightarrow> []) @ bix_answers cl"
  "btp_writes (c # cl) = (case c of CallBtp v r \<Rightarrow> [(v, is_ok r)] | _ \<Rightarrow> []) @ btp_writes cl"
  "temp_answers (c # cl) = (case c of CallTemp r \<Rightarrow> [r] | _ \<Rightarrow> []) @ temp_answers cl"
  "rpm_answers (c # cl) = (case c of CallRpm r \<Rightarrow> [r] | _ \<Rightarrow> []) @ rpm_answers cl"
  "rpm_writes (c # cl) = (case c of CallSetRpm x r \<Rightarrow> [(x, is_ok r)] | _ \<Rightarrow> []) @ rpm_writes cl"
  "caps_answers (c # cl) = (case c of CallCaps r \<Rightarrow> [r] | _ \<Rightarrow> []) @ caps_answers cl"
  by (simp_all add: answers_defs)

lemma answers_append [simp]:
  "bst_answers (cl @ ds) = bst_answers cl @ bst_answers ds" "bix_answers (cl @ ds) = bix_answers cl @ bix_answers ds"
  "btp_writes (cl @ ds) = btp_writes cl @ btp_writes ds" "temp_answers (cl @ ds) = temp_answers cl @ temp_answers ds"
  "rpm_answers (cl @ ds) = rpm_answers cl @ rpm_answers ds" "rpm_writes (cl @ ds) = rpm_writes cl @ rpm_writes ds"
  "caps_answers (cl @ ds) = caps_answers cl @ caps_answers ds"
  by (simp_all add: answers_defs)

lemma answers_Nil [simp]:
  "bst_answers [] = []" "bix_answers [] = []" "btp_writes [] = []" "temp_answers [] = []" "rpm_answers [] = []"
  "rpm_writes [] = []" "caps_answers [] = []"
  by (simp_all add: answers_defs)

lemma rights_simps [simp]:
  "rights [] = []" "rights (xs @ ys) = rights xs @ rights ys" "rights [Inr x] = [x]" "rights [Inl e] = []"
  by (simp_all add: rights_def)

section \<open>What the record explains\<close>

text \<open>
  Battery: the last reading that worked, whether the last call did, the static data of the first answer that
  worked and no call after it, the samples of all readings that worked, the last trip point written.
\<close>

definition battery_explained :: "bst_return \<Rightarrow> bix_fixed_strings \<Rightarrow> 'r ec_call list \<Rightarrow> tui_battery \<times> bool \<Rightarrow> bool" where
  "battery_explained bst0 bix0 cl bc \<longleftrightarrow> (let (b, cached) = bc; bsts = bst_answers cl; bixs = bix_answers cl in
     tb_bst b = latest bst0 (rights bsts) \<and>
     tb_bst_success b = latest False (map is_ok bsts) \<and>
     tb_bix b = latest bix0 (rights bixs) \<and>
     tb_bix_success b = latest False (map is_ok bixs) \<and>
     cached = tb_bix_success b \<and> list_all (\<lambda>r. \<not> is_ok r) (butlast bixs) \<and>
     tb_samples b = inserts u32_to_f64 BATTERY_MAX_SAMPLES (map battery_remaining_capacity (rights bsts)) samples_default \<and>
     tb_t_min b = of_nat (length (rights bsts)) \<and>
     tb_btp b = latest 0 (map fst (btp_writes cl)) \<and>
     tb_btp_success b = latest True (map snd (btp_writes cl)))"

definition thermal_explained :: "'r ec_call list \<Rightarrow> tui_thermal \<Rightarrow> bool" where
  "thermal_explained cl t \<longleftrightarrow> (let temps = temp_answers cl; rpms = rpm_answers cl in
     skin_temp (th_sensor t) = latest (Fin 0) (rights temps) \<and>
     temp_success (th_sensor t) = latest False (map is_ok temps) \<and>
     sensor_samples (th_sensor t) = inserts id THERMAL_MAX_SAMPLES (rights temps) samples_default \<and>
     fan_rpm (th_fan t) = latest (Fin 0) (rights rpms) \<and>
     rpm_success (th_fan t) = latest False (map is_ok rpms) \<and>
     fan_samples (th_fan t) = inserts u32_to_f64 THERMAL_MAX_SAMPLES (map f64_to_u32 (rights rpms)) samples_default \<and>
     th_t t = of_nat (length temps) \<and> length rpms = length temps \<and>
     th_rpm_limit t = latest (Fin 0) (map fst (rpm_writes cl)) \<and>
     th_rpm_set_success t = latest False (map snd (rpm_writes cl)))"

definition caps_explained :: "'r ec_call list \<Rightarrow> ('r, 'ts) tui_rtc \<times> bool \<Rightarrow> bool" where
  "caps_explained cl rc \<longleftrightarrow> (let (r, cached) = rc; caps = caps_answers cl in
     rt_capabilities r = latest None (map Some caps) \<and>
     cached = latest False (map is_ok caps) \<and> list_all (\<lambda>r. \<not> is_ok r) (butlast caps))"

lemmas recorder_defs = recorded_def noted_def silent_def

text \<open>One call at a time.\<close>

lemma explained_btp:
  "battery_explained bst0 bix0 cl (b, c) \<Longrightarrow>
    battery_explained bst0 bix0 (cl @ [CallBtp v r]) (b\<lparr>tb_btp := v, tb_btp_success := is_ok r\<rparr>, c)"
  by (simp add: battery_explained_def Let_def)

lemma none_ok:
  "\<not> latest False (map is_ok rs) \<Longrightarrow> list_all (\<lambda>r. \<not> is_ok r) (butlast rs) \<Longrightarrow> list_all (\<lambda>r. \<not> is_ok r) rs"
  by (cases rs rule: rev_cases) auto

lemma bix_none: "battery_explained bst0 bix0 cl (b, False) \<Longrightarrow> list_all (\<lambda>r. \<not> is_ok r) (bix_answers cl)"
  unfolding battery_explained_def Let_def prod.case by (metis none_ok)

lemma explained_bix:
  assumes "battery_explained bst0 bix0 cl (b, False)"
  shows "battery_explained bst0 bix0 (cl @ [CallBix (Inr x)]) (b\<lparr>tb_bix := x, tb_bix_success := True\<rparr>, True)"
    and "battery_explained bst0 bix0 (cl @ [CallBix (Inl e)]) (b\<lparr>tb_bix_success := False\<rparr>, False)"
  using bix_none [OF assms] assms by (simp_all add: battery_explained_def Let_def)

lemma explained_bst:
  assumes "battery_explained bst0 bix0 cl (b, c)"
  shows "battery_explained bst0 bix0 (cl @ [CallBst (Inr x)])
      (b\<lparr>tb_bst := x, tb_bst_success := True,
         tb_samples := sample_insert u32_to_f64 BATTERY_MAX_SAMPLES (battery_remaining_capacity x) (tb_samples b),
         tb_t_min := tb_t_min b + 1\<rparr>, c)"
    and "battery_explained bst0 bix0 (cl @ [CallBst (Inl e)]) (b\<lparr>tb_bst_success := False\<rparr>, c)"
  using assms by (simp_all add: battery_explained_def Let_def inserts_snoc)

text \<open>What leaves the other parts of the record alone.\<close>

definition same_battery :: "'r ec_call list \<Rightarrow> 'r ec_call list \<Rightarrow> bool" where
  "same_battery cl cl' \<longleftrightarrow> bst_answers cl' = bst_answers cl \<and> bix_answers cl' = bix_answers cl \<and> btp_writes cl' = btp_writes cl"

definition same_thermal :: "'r ec_call list \<Rightarrow> 'r ec_call list \<Rightarrow> bool" where
  "same_thermal cl cl' \<longleftrightarrow> temp_answers cl' = temp_answers cl \<and> rpm_answers cl' = rpm_answers cl \<and> rpm_writes cl' = rpm_writes cl"

definition same_caps :: "'r ec_call list \<Rightarrow> 'r ec_call list \<Rightarrow> bool" where
  "same_caps cl cl' \<longleftrightarrow> caps_answers cl' = caps_answers cl"

lemmas same_defs = same_battery_def same_thermal_def same_caps_def

lemma same_keeps:
  "same_battery cl cl' \<Longrightarrow> battery_explained bst0 bix0 cl bc \<Longrightarrow> battery_explained bst0 bix0 cl' bc"
  "same_thermal cl cl' \<Longrightarrow> thermal_explained cl t \<Longrightarrow> thermal_explained cl' t"
  "same_caps cl cl' \<Longrightarrow> caps_explained cl rc \<Longrightarrow> caps_explained cl' rc"
  by (simp_all add: same_defs battery_explained_def thermal_explained_def caps_explained_def)

section \<open>Battery updates\<close>

lemma battery_commands_explained:
  assumes "battery_explained bst0 bix0 cl (b, c)" "battery_commands (recorded dy) cmds b (cl, s) = (b', cl', s')"
  shows "battery_explained bst0 bix0 cl' (b', c) \<and> same_thermal cl cl' \<and> same_caps cl cl' \<and>
    map (SetBtp \<circ> fst) (btp_writes cl') = map (SetBtp \<circ> fst) (btp_writes cl) @ cmds"
  using assms
proof (induction cmds arbitrary: b cl s)
  case (Cons cmd cmds)
  obtain v where v: "cmd = SetBtp v" by (cases cmd)
  obtain r s1 where r: "dy_set_btp dy v s = (r, s1)" by (cases "dy_set_btp dy v s")
  then have "battery_commands (recorded dy) cmds (b\<lparr>tb_btp := v, tb_btp_success := is_ok r\<rparr>) (cl @ [CallBtp v r], s1)
      = (b', cl', s')"
    using Cons.prems(2) by (simp add: v recorder_defs)
  from Cons.IH [OF explained_btp [OF Cons.prems(1)] this]
  show ?case by (simp add: v same_defs)
qed (simp add: same_defs)

lemma poll_bix_explained:
  assumes "battery_explained bst0 bix0 cl (b, False)" "poll_bix (recorded dy) b (cl, s) = (b', cl', s')"
  shows "battery_explained bst0 bix0 cl' (b', tb_bix_success b') \<and> same_thermal cl cl' \<and> same_caps cl cl' \<and>
    btp_writes cl' = btp_writes cl"
proof -
  obtain r s1 where r: "dy_get_bix dy s = (r, s1)" by (cases "dy_get_bix dy s")
  show ?thesis using assms(2) explained_bix [OF assms(1)]
    by (cases r) (clarsimp simp: poll_bix_def recorder_defs r same_defs)+
qed

lemma poll_bst_explained:
  assumes "battery_explained bst0 bix0 cl (b, c)" "poll_bst (recorded dy) b (cl, s) = (b', cl', s')"
  shows "battery_explained bst0 bix0 cl' (with_sample b', c) \<and> same_thermal cl cl' \<and> same_caps cl cl' \<and>
    btp_writes cl' = btp_writes cl"
proof -
  obtain r s1 where r: "dy_get_bst dy s = (r, s1)" by (cases "dy_get_bst dy s")
  show ?thesis using assms(2) explained_bst [OF assms(1)]
    by (cases r) (clarsimp simp: poll_bst_def recorder_defs r same_defs with_sample_def)+
qed

lemma bix_step_explained:
  assumes "battery_explained bst0 bix0 cl (b, c)" "bix_step (recorded dy) (b, c) (cl, s) = (bc', cl', s')"
  shows "battery_explained bst0 bix0 cl' bc' \<and> same_thermal cl cl' \<and> same_caps cl cl' \<and> btp_writes cl' = btp_writes cl"
proof (cases c)
  case True
  then show ?thesis using assms by (auto simp: bix_step_def same_defs)
next
  case False
  obtain b1 cl1 s1 where p: "poll_bix (recorded dy) b (cl, s) = (b1, cl1, s1)" by (metis surj_pair)
  have "battery_explained bst0 bix0 cl (b, False)" using assms(1) False by simp
  from poll_bix_explained [OF this p] show ?thesis using assms(2) False p by (auto simp: bix_step_def)
qed

lemma battery_update_explained:
  assumes "battery_explained bst0 bix0 cl bc" "battery_update (recorded dy) cmds bc (cl, s) = (bc', cl', s')"
  shows "battery_explained bst0 bix0 cl' bc' \<and> same_thermal cl cl' \<and> same_caps cl cl' \<and>
    map (SetBtp \<circ> fst) (btp_writes cl') = map (SetBtp \<circ> fst) (btp_writes cl) @ cmds"
proof -
  obtain b c where bc: "bc = (b, c)" by fastforce
  obtain b1 cl1 s1 where 1: "battery_commands (recorded dy) cmds b (cl, s) = (b1, cl1, s1)" by (metis surj_pair)
  note e1 = battery_commands_explained [OF assms(1) [unfolded bc] 1]
  obtain b2 c2 cl2 s2 where 2: "bix_step (recorded dy) (b1, c) (cl1, s1) = ((b2, c2), cl2, s2)" by (metis surj_pair)
  note e2 = bix_step_explained [OF conjunct1 [OF e1] 2]
  obtain b3 cl3 s3 where 3: "poll_bst (recorded dy) b2 (cl2, s2) = (b3, cl3, s3)" by (metis surj_pair)
  show ?thesis using assms(2) 1 2 3 e1 e2 poll_bst_explained [OF conjunct1 [OF e2] 3]
    by (simp add: battery_update_def bc same_defs)
qed

section \<open>The other updates\<close>

lemma explained_rpm_write:
  "thermal_explained cl t \<Longrightarrow>
    thermal_explained (cl @ [CallSetRpm x r]) (t\<lparr>th_rpm_limit := x, th_rpm_set_success := is_ok r\<rparr>)"
  by (simp add: thermal_explained_def Let_def)

lemma thermal_commands_explained:
  assumes "thermal_explained cl t" "thermal_commands (recorded dy) cmds t (cl, s) = (t', cl', s')"
  shows "thermal_explained cl' t' \<and> same_battery cl cl' \<and> same_caps cl cl' \<and>
    map (SetRpm \<circ> fst) (rpm_writes cl') = map (SetRpm \<circ> fst) (rpm_writes cl) @ cmds"
  using assms
proof (induction cmds arbitrary: t cl s)
  case (Cons cmd cmds)
  obtain x where x: "cmd = SetRpm x" by (cases cmd)
  obtain r s1 where r: "dy_set_rpm dy x s = (r, s1)" by (cases "dy_set_rpm dy x s")
  then have "thermal_commands (recorded dy) cmds (t\<lparr>th_rpm_limit := x, th_rpm_set_success := is_ok r\<rparr>) (cl @ [CallSetRpm x r], s1)
      = (t', cl', s')"
    using Cons.prems(2) by (simp add: x recorder_defs)
  from Cons.IH [OF explained_rpm_write [OF Cons.prems(1)] this]
  show ?case by (simp add: x same_defs)
qed (simp add: same_defs)

lemma sensor_take_fields:
  "skin_temp (sensor_take r d) = (case r of Inr x \<Rightarrow> x | Inl _ \<Rightarrow> skin_temp d)"
  "temp_success (sensor_take r d) = is_ok r"
  "sensor_samples (sensor_take r d) = (case r of Inr x \<Rightarrow> sample_insert id THERMAL_MAX_SAMPLES x (sensor_samples d) | Inl _ \<Rightarrow> sensor_samples d)"
  by (simp_all add: sensor_take_def Let_def split: sum.split)

lemma fan_take_fields:
  "fan_rpm (fan_take r bs ls f) = (case r of Inr x \<Rightarrow> x | Inl _ \<Rightarrow> fan_rpm f)"
  "rpm_success (fan_take r bs ls f) = is_ok r"
  "fan_samples (fan_take r bs ls f) = (case r of
     Inr x \<Rightarrow> sample_insert u32_to_f64 THERMAL_MAX_SAMPLES (f64_to_u32 x) (fan_samples f) | Inl _ \<Rightarrow> fan_samples f)"
  by (simp_all add: fan_take_def Let_def split: sum.split prod.split)

lemma explained_readings:
  assumes "thermal_explained cl t"
  shows "thermal_explained (cl @ [CallTemp temp] @ [CallRpm rpm])
    (t\<lparr>th_sensor := sensor_take temp (th_sensor t), th_fan := fan_take rpm bs ls (th_fan t), th_t := th_t t + 1\<rparr>)"
  using assms by (cases temp; cases rpm)
    (simp_all add: thermal_explained_def Let_def sensor_take_fields fan_take_fields inserts_snoc)

lemma same_append:
  "same_battery cl (cl @ [CallTemp r] @ [CallRpm q])" "same_caps cl (cl @ [CallTemp r] @ [CallRpm q])"
  "same_battery cl (cl @ [CallCaps c])" "same_thermal cl (cl @ [CallCaps c])"
  by (simp_all add: same_defs)

lemma thermal_update_explained:
  assumes "thermal_explained cl t" "thermal_update (recorded dy) cmds t (cl, s) = (t', cl', s')"
  shows "thermal_explained cl' t' \<and> same_battery cl cl' \<and> same_caps cl cl' \<and>
    map (SetRpm \<circ> fst) (rpm_writes cl') = map (SetRpm \<circ> fst) (rpm_writes cl) @ cmds"
proof -
  obtain t1 cl1 s1 where 1: "thermal_commands (recorded dy) cmds t (cl, s) = (t1, cl1, s1)" by (metis surj_pair)
  note e1 = thermal_commands_explained [OF assms(1) 1]
  obtain temp rpm bs ls where "cl' = cl1 @ [CallTemp temp] @ [CallRpm rpm]" and
    "t' = t1\<lparr>th_sensor := sensor_take temp (th_sensor t1), th_fan := fan_take rpm bs ls (th_fan t1), th_t := th_t t1 + 1\<rparr>"
    using assms(2) 1 by (clarsimp simp: thermal_update_def recorder_defs split: prod.splits)
  then show ?thesis using e1 explained_readings [of cl1 t1 temp rpm bs ls] same_append(1, 2) [of cl1 temp rpm]
    by (simp add: same_defs)
qed

lemma explained_caps:
  assumes "caps_explained cl (r, False)"
  shows "caps_explained (cl @ [CallCaps c]) (r\<lparr>rt_capabilities := Some c, rt_timestamp := ts, rt_timers := td\<rparr>, is_ok c)"
proof -
  have "list_all (\<lambda>r. \<not> is_ok r) (caps_answers cl)"
    using assms unfolding caps_explained_def Let_def prod.case by (metis none_ok)
  then show ?thesis by (simp add: caps_explained_def Let_def)
qed

lemma rtc_updater_update_explained:
  assumes "caps_explained cl rc" "rtc_updater_update (recorded dy) rc (cl, s) = (rc', cl', s')"
  shows "caps_explained cl' rc' \<and> same_battery cl cl' \<and> same_thermal cl cl'"
proof -
  obtain r c where rc: "rc = (r, c)" by fastforce
  show ?thesis
  proof (cases c)
    case True
    then obtain ts td where "rc' = (r\<lparr>rt_timestamp := ts, rt_timers := td\<rparr>, True)" "cl' = cl"
      using assms(2) by (clarsimp simp: rc rtc_updater_update_def recorder_defs split: prod.splits)
    then show ?thesis using assms(1) True by (simp add: rc caps_explained_def same_defs)
  next
    case False
    obtain q s1 where q: "dy_get_capabilities dy s = (q, s1)" by (cases "dy_get_capabilities dy s")
    obtain ts td where "rc' = (r\<lparr>rt_capabilities := Some q, rt_timestamp := ts, rt_timers := td\<rparr>, is_ok q)" "cl' = cl @ [CallCaps q]"
      using assms(2) False by (clarsimp simp: rc q rtc_updater_update_def recorder_defs split: prod.splits)
    then show ?thesis using explained_caps [of cl r q] assms(1) False same_append(3, 4) [of cl q] by (simp add: rc)
  qed
qed

lemma ucsi_update_recorded: "ucsi_update (recorded dy) u (cl, s) = (u', cl', s') \<Longrightarrow> cl' = cl"
  by (simp add: ucsi_update_def recorder_defs split: prod.splits)

section \<open>The world explained\<close>

definition explained :: "bst_return \<Rightarrow> bix_fixed_strings \<Rightarrow> ('r ec_call list \<times> 's, 'r, 'ts, 'snap, 'i) tui_world \<Rightarrow> bool" where
  "explained bst0 bix0 w \<longleftrightarrow> (let cl = fst (w_source w) in
     battery_explained bst0 bix0 cl (w_battery w) \<and> thermal_explained cl (w_thermal w) \<and> caps_explained cl (w_rtc w))"

lemma explained_new: "explained bst0 bix0 (world_new ops bst0 bix0 ([], s))"
  by (simp add: explained_def world_new_def battery_explained_def thermal_explained_def caps_explained_def Let_def
      battery_default_def thermal_default_def rtc_default_def inserts_def)

lemma updates_explained:
  "battery_explained bst0 bix0 (fst ls) bc \<Longrightarrow> battery_update (recorded dy) cmds bc ls = (bc', ls') \<Longrightarrow>
    battery_explained bst0 bix0 (fst ls') bc' \<and> same_thermal (fst ls) (fst ls') \<and> same_caps (fst ls) (fst ls') \<and>
    map (SetBtp \<circ> fst) (btp_writes (fst ls')) = map (SetBtp \<circ> fst) (btp_writes (fst ls)) @ cmds"
  "thermal_explained (fst ls) t \<Longrightarrow> thermal_update (recorded dy) tcmds t ls = (t', ls') \<Longrightarrow>
    thermal_explained (fst ls') t' \<and> same_battery (fst ls) (fst ls') \<and> same_caps (fst ls) (fst ls') \<and>
    map (SetRpm \<circ> fst) (rpm_writes (fst ls')) = map (SetRpm \<circ> fst) (rpm_writes (fst ls)) @ tcmds"
  "caps_explained (fst ls) rc \<Longrightarrow> rtc_updater_update (recorded dy) rc ls = (rc', ls') \<Longrightarrow>
    caps_explained (fst ls') rc' \<and> same_battery (fst ls) (fst ls') \<and> same_thermal (fst ls) (fst ls')"
  "ucsi_update (recorded dy) u ls = (u', ls') \<Longrightarrow> fst ls' = fst ls"
  using battery_update_explained [of bst0 bix0 "fst ls" bc dy cmds "snd ls" bc' "fst ls'" "snd ls'"]
    thermal_update_explained [of "fst ls" t dy tcmds "snd ls" t' "fst ls'" "snd ls'"]
    rtc_updater_update_explained [of "fst ls" rc dy "snd ls" rc' "fst ls'" "snd ls'"]
    ucsi_update_recorded [of dy u "fst ls" "snd ls" u' "fst ls'" "snd ls'"]
  by simp_all

lemma explained_step:
  assumes "tui_step (recorded dy) ops e w w'" "explained bst0 bix0 w"
  shows "explained bst0 bix0 w'"
proof -
  have e: "battery_explained bst0 bix0 (fst (w_source w)) (w_battery w)" "thermal_explained (fst (w_source w)) (w_thermal w)"
    "caps_explained (fst (w_source w)) (w_rtc w)"
    using assms(2) by (simp_all add: explained_def Let_def)
  from assms(1) show ?thesis
  proof cases
    case (battery_tick b s)
    then show ?thesis using e updates_explained(1) [OF e(1) battery_tick(3)] by (auto simp: explained_def Let_def intro: same_keeps)
  next
    case (thermal_tick t s)
    then show ?thesis using e updates_explained(2) [OF e(2) thermal_tick(3)] by (auto simp: explained_def Let_def intro: same_keeps)
  next
    case (rtc_tick r s)
    then show ?thesis using e updates_explained(3) [OF e(3) rtc_tick(3)] by (auto simp: explained_def Let_def intro: same_keeps)
  next
    case (ucsi_tick u s)
    then show ?thesis using e updates_explained(4) [OF ucsi_tick(3)] by (simp add: explained_def Let_def)
  qed (use e in \<open>simp_all add: explained_def Let_def\<close>)
qed

lemma run_explained:
  "tui_run (recorded dy) ops (world_new ops bst0 bix0 ([], s)) es w \<Longrightarrow> explained bst0 bix0 w"
  by (erule tui_run_invariant [where I = "explained bst0 bix0"]) (auto intro: explained_new explained_step)

section \<open>Commands reach the source in order\<close>

definition btp_commands :: "'r ec_call list \<Rightarrow> battery_command list" where
  "btp_commands cl = map (SetBtp \<circ> fst) (btp_writes cl)"

definition rpm_commands :: "'r ec_call list \<Rightarrow> thermal_command list" where
  "rpm_commands cl = map (SetRpm \<circ> fst) (rpm_writes cl)"

lemma same_commands:
  "same_battery cl cl' \<Longrightarrow> btp_commands cl' = btp_commands cl" "same_thermal cl cl' \<Longrightarrow> rpm_commands cl' = rpm_commands cl"
  by (simp_all add: same_defs btp_commands_def rpm_commands_def)

text \<open>What was written, then what waits, is what was sent.\<close>

definition delivered :: "sends \<Rightarrow> ('r ec_call list \<times> 's, 'r, 'ts, 'snap, 'i) tui_world \<Rightarrow> bool" where
  "delivered out w \<longleftrightarrow> btp_commands (fst (w_source w)) @ w_battery_queue w = fst out \<and>
     rpm_commands (fst (w_source w)) @ w_thermal_queue w = snd out"

lemma delivered_tick:
  assumes "tui_step (recorded dy) ops e w w'" "explained bst0 bix0 w" "delivered out w" "ui_of e = []"
  shows "delivered out w'"
proof -
  have e: "battery_explained bst0 bix0 (fst (w_source w)) (w_battery w)" "thermal_explained (fst (w_source w)) (w_thermal w)"
    "caps_explained (fst (w_source w)) (w_rtc w)"
    using assms(2) by (simp_all add: explained_def Let_def)
  from assms(1) show ?thesis
  proof cases
    case (battery_tick b s)
    then show ?thesis using assms(3) updates_explained(1) [OF e(1) battery_tick(3)]
      by (auto simp: delivered_def same_commands btp_commands_def)
  next
    case (thermal_tick t s)
    then show ?thesis using assms(3) updates_explained(2) [OF e(2) thermal_tick(3)]
      by (auto simp: delivered_def same_commands rpm_commands_def)
  next
    case (rtc_tick r s)
    then show ?thesis using assms(3) updates_explained(3) [OF e(3) rtc_tick(3)]
      by (simp add: delivered_def same_commands [of "fst (w_source w)" "fst s"])
  next
    case (ucsi_tick u s)
    then show ?thesis using assms(3) updates_explained(4) [OF ucsi_tick(3)] by (simp add: delivered_def)
  qed (use assms(3, 4) in \<open>simp_all add: delivered_def\<close>)
qed

lemma run_delivered:
  assumes "tui_run (recorded dy) ops (world_new ops bst0 bix0 ([], s)) es w"
  shows "delivered (snd (app_run ops (concat (map ui_of es)))) w"
  using assms
proof (induction rule: tui_run.induct)
  case start
  show ?case by (simp add: delivered_def world_new_def btp_commands_def rpm_commands_def)
next
  case (more es w1 e w2)
  show ?case
  proof (cases "ui_of e = []")
    case True
    then show ?thesis using delivered_tick [OF more(2) run_explained [OF more(1)] more.IH] by simp
  next
    case False
    then obtain evt where e: "e = Ui evt" by (cases e) auto
    obtain a bs ts where h: "handle_events ops evt (w_app w1) = (a, bs, ts)" "w2 = w1\<lparr>w_app := a,
        w_battery_queue := w_battery_queue w1 @ bs, w_thermal_queue := w_thermal_queue w1 @ ts\<rparr>"
      using more(2) unfolding e by (rule ui_stepE) blast
    moreover have "w_app w1 = fst (app_run ops (concat (map ui_of es)))"
      using world_app [OF more(1)] by (simp add: world_new_def)
    ultimately show ?thesis using more.IH by (auto simp: e delivered_def app_run_snoc app_step_def split: prod.splits)
  qed
qed

section \<open>Leaving the application\<close>

lemma tick_app: "tui_step dy ops e w w' \<Longrightarrow> ui_of e = [] \<Longrightarrow> w_app w' = w_app w"
  by (cases rule: tui_step.cases) auto

lemma ui_step_app: "tui_step dy ops (Ui evt) w w' \<Longrightarrow> w_app w' = fst (handle_events ops evt (w_app w))"
  by (erule ui_stepE) simp

lemma run_app: "tui_run dy ops w es w' \<Longrightarrow> w_app w' = fold (\<lambda>e a. fst (handle_events ops e a)) (concat (map ui_of es)) (w_app w)"
proof (induction rule: tui_run.induct)
  case (more es w1 e w2)
  then show ?case using tick_app [OF more(2)] ui_step_app [of dy ops _ w1 w2] by (cases e) auto
qed simp

lemma two_escapes:
  assumes "popups_ok (w_app w)" "tui_run dy ops w es w'"
  shows "concat (map ui_of es) = [Key KEsc Press x] \<Longrightarrow> \<not> some_popup (w_app w) \<Longrightarrow> app_run_state (w_app w') = Quitting"
    and "concat (map ui_of es) = [Key KEsc Press x, Key KEsc Press y] \<Longrightarrow> some_popup (w_app w) \<Longrightarrow>
      app_run_state (w_app w') = Quitting"
  using run_app [OF assms(2)] assms(1) escape_quits [of "w_app w" ops x] escape_popup [OF assms(1), of ops x]
    escape_quits [of "fst (handle_events ops (Key KEsc Press x) (w_app w))" ops y]
  by simp_all

lemma ui_enabled: "app_run_state (w_app w) = Running \<Longrightarrow> \<exists>w'. tui_step dy ops (Ui evt) w w'"
  by (metis tui_step.ui surj_pair)

end
