(* ===== verification/TuiText.thy ===== *)
theory TuiText
  imports TuiUpdate
begin

text \<open>
  What the terminal UI computes from the state for display: percentages, colours, durations, zones and texts, from
  battery.rs, thermal.rs, rtc.rs, system.rs, ucsi.rs and widgets/battery.rs of src/ec/test-tui/src. A text is the list
  of its characters; the symbols of the terminal that are not ASCII are parameters.
\<close>

section \<open>Formatting\<close>

text \<open>Decimal digits, padded with zeros to a width, with a sign, and with digits behind the point (ties to even).\<close>

fun dec :: "nat \<Rightarrow> ustr" where
  "dec n = (if n < 10 then [48 + n] else dec (n div 10) @ [48 + n mod 10])"

declare dec.simps [simp del]

definition pad0 :: "nat \<Rightarrow> nat \<Rightarrow> ustr" where
  "pad0 w n = replicate (w - length (dec n)) 48 @ dec n"

definition signed_pad0 :: "nat \<Rightarrow> int \<Rightarrow> ustr" where
  "signed_pad0 w i = (if i < 0 then 45 else 43) # pad0 (w - 1) (nat \<bar>i\<bar>)"

definition fixed :: "nat \<Rightarrow> f64 \<Rightarrow> ustr" where
  "fixed p x = (case x of
      NaN \<Rightarrow> str_of ''NaN''
    | Inf s \<Rightarrow> (if s then [45] else []) @ str_of ''inf''
    | Fin q \<Rightarrow> let n = nat (round_even (\<bar>q\<bar> * 10 ^ p))
        in (if q < 0 then [45] else []) @ dec (n div 10 ^ p) @ (if p = 0 then [] else 46 # pad0 p (n mod 10 ^ p)))"

section \<open>Battery\<close>

text \<open>
  \<open>remaining * 100\<close> is a u32: it overflows, which panics when the build checks for it and wraps otherwise.
\<close>

definition mul32 :: "bool \<Rightarrow> u32 \<Rightarrow> u32 \<Rightarrow> u32 option" where
  "mul32 overflow_checks a b = (if overflow_checks \<and> 2 ^ 32 \<le> unat a * unat b then None else Some (a * b))"

definition bat_percent :: "bool \<Rightarrow> u32 \<Rightarrow> u32 \<Rightarrow> nat option" where
  "bat_percent checks remaining design =
    map_option (\<lambda>p. let q = (if design = 0 then 0 else p div design) in if 100 < q then 100 else unat q) (mul32 checks remaining 100)"

definition bat_health :: "bool \<Rightarrow> u32 \<Rightarrow> u32 \<Rightarrow> nat option" where
  "bat_health checks last_full design =
    map_option (\<lambda>p. let q = (if design = 0 then 0 else p div design) in if 100 < q then 100 else unat q) (mul32 checks last_full 100)"

definition bat_gauge_color :: "u32 \<Rightarrow> u32 \<Rightarrow> u32 \<Rightarrow> color" where
  "bat_gauge_color remaining warning low =
    (if remaining \<le> low then RED_c400 else if remaining \<le> warning then AMBER_c400 else GREEN_c400)"

text \<open>The widget that draws the battery, with the colours render_status_strip gives it.\<close>

definition widget_color :: "u32 \<Rightarrow> u32 \<Rightarrow> u32 \<Rightarrow> color" where
  "widget_color current warning low =
    (if current < low then RED_c400 else if current < warning then AMBER_c400 else GREEN_c400)"

definition widget_percent :: "bool \<Rightarrow> u32 \<Rightarrow> u32 \<Rightarrow> nat option" where
  "widget_percent checks current design =
    map_option (\<lambda>p. let q = (if design = 0 then 0 else p div design) in if 100 < q then 100 else unat q) (mul32 checks current 100)"

definition health_color :: "nat \<Rightarrow> color" where
  "health_color pct = (if 80 \<le> pct then GREEN_c400 else if 60 \<le> pct then AMBER_c400 else RED_c500)"

datatype power_unit_kind = MilliWatts | MilliAmps

definition wattage :: "u32 \<Rightarrow> u32 \<Rightarrow> power_unit_kind \<Rightarrow> f64" where
  "wattage rate voltage_mv unit = (case unit of
      MilliWatts \<Rightarrow> fdiv (u32_to_f64 rate) (Fin 1000)
    | MilliAmps \<Rightarrow> fdiv (fmul (u32_to_f64 rate) (u32_to_f64 voltage_mv)) (Fin 1000000))"

definition estimate_minutes :: "u32 \<Rightarrow> u32 \<Rightarrow> u32 \<Rightarrow> u32 \<Rightarrow> bool \<Rightarrow> nat option" where
  "estimate_minutes remaining design last_full rate is_charging =
    (if rate = 0 then None
     else let target = (if is_charging then max last_full design else 0);
            delta = (if is_charging then saturating_sub32 target remaining else remaining)
       in Some (f64_to_nat 64 (fround (fmul (fdiv (u32_to_f64 delta) (u32_to_f64 rate)) (Fin 60)))))"

definition estimate_time :: "u32 \<Rightarrow> u32 \<Rightarrow> u32 \<Rightarrow> u32 \<Rightarrow> bool \<Rightarrow> ustr option" where
  "estimate_time remaining design last_full rate is_charging =
    map_option (\<lambda>minutes. let h = minutes div 60; m = minutes mod 60;
        label = str_of (if is_charging then ''to full'' else ''to empty'')
      in if 0 < h then [126] @ dec h @ str_of ''h '' @ pad0 2 m @ str_of ''m '' @ label
         else [126] @ dec m @ str_of ''m '' @ label)
      (estimate_minutes remaining design last_full rate is_charging)"

definition str_from_bytes :: "(bytes \<Rightarrow> ustr option) \<Rightarrow> bytes \<Rightarrow> ustr" where
  "str_from_bytes utf8 bs = (case (if 0 \<in> set bs then utf8 (takeWhile (\<lambda>b. b \<noteq> 0) bs) else None) of
      Some t \<Rightarrow> t | None \<Rightarrow> str_of ''Invalid'')"

section \<open>Temperature and fan\<close>

definition temp_level_color :: "f64 \<Rightarrow> sensor_thresholds \<Rightarrow> color" where
  "temp_level_color temp th =
    (if fle (critical th) temp then RED_c500
     else if fle (prochot th) temp then ORANGE_c500
     else if fle (warn_high th) temp then AMBER_c400
     else GREEN_c400)"

definition thermal_zone :: "f64 \<Rightarrow> sensor_thresholds \<Rightarrow> string" where
  "thermal_zone temp th =
    (if fle (critical th) temp then ''Critical''
     else if fle (prochot th) temp then ''Prochot''
     else if fle (warn_high th) temp then ''Warning''
     else ''Normal'')"

definition fan_zone :: "f64 \<Rightarrow> fan_levels \<Rightarrow> string" where
  "fan_zone temp lv =
    (if fle (level_max lv) temp then ''Max''
     else if fle (level_ramping lv) temp then ''Ramping''
     else if fle (level_on lv) temp then ''On''
     else ''Off'')"

definition fan_zone_color :: "f64 \<Rightarrow> fan_levels \<Rightarrow> color" where
  "fan_zone_color rpm lv =
    (if fle (level_max lv) rpm then AMBER_c400
     else if fle (level_ramping lv) rpm then SKY_c400
     else if fle (level_on lv) rpm then GREEN_c500
     else SLATE_c500)"

section \<open>Clock\<close>

text \<open>A date and time by what its accessors return, and the time zone and daylight saving of a timestamp.\<close>

record datetime =
  dt_year :: nat
  dt_month :: nat
  dt_day :: nat
  dt_hour :: nat
  dt_minute :: nat
  dt_second :: nat

datatype acpi_time_zone = Unknown | MinutesFromUtc int

datatype dst_status = NotObserved | NotAdjusted | Adjusted

definition format_time_hms :: "datetime \<Rightarrow> ustr" where
  "format_time_hms t = pad0 2 (dt_hour t) @ [58] @ pad0 2 (dt_minute t) @ [58] @ pad0 2 (dt_second t)"

definition format_date :: "datetime \<Rightarrow> ustr" where
  "format_date t = pad0 4 (dt_year t) @ [45] @ pad0 2 (dt_month t) @ [45] @ pad0 2 (dt_day t)"

definition format_dst :: "dst_status \<Rightarrow> ustr" where
  "format_dst d = str_of (case d of NotObserved \<Rightarrow> ''Not Observed'' | NotAdjusted \<Rightarrow> ''No'' | Adjusted \<Rightarrow> ''Yes'')"

text \<open>Division of signed integers truncates.\<close>

definition quot60 :: "int \<Rightarrow> int" where "quot60 m = sgn m * (\<bar>m\<bar> div 60)"

definition format_time_zone :: "acpi_time_zone \<Rightarrow> ustr" where
  "format_time_zone tz = (case tz of
      Unknown \<Rightarrow> str_of ''Unknown''
    | MinutesFromUtc m \<Rightarrow> str_of ''UTC'' @ signed_pad0 3 (quot60 m) @ [58] @ pad0 2 (nat (\<bar>m\<bar> mod 60)))"

text \<open>The summary of a timer; the disabled value and the expired bit are those of the time and alarm service.\<close>

definition timer_summary :: "u32 \<Rightarrow> (u32 \<Rightarrow> bool) \<Rightarrow> ustr \<Rightarrow> 'r timer_data \<Rightarrow> ustr" where
  "timer_summary disabled timer_expired warning t = (case td_value t of
      None \<Rightarrow> str_of ''Pending...''
    | Some (Inl _) \<Rightarrow> str_of ''Error''
    | Some (Inr v) \<Rightarrow>
        (if v = disabled then str_of ''Not set'' else dec (unat v) @ str_of ''s remaining'') @
        (case td_timer_status t of
           Some (Inr w) \<Rightarrow> if timer_expired w then str_of ''  '' @ warning @ str_of '' expired'' else []
         | _ \<Rightarrow> []))"

definition format_option_result :: "('r \<Rightarrow> ustr) \<Rightarrow> ustr \<Rightarrow> ('r, 'a) fetched \<Rightarrow> ('a \<Rightarrow> ustr) \<Rightarrow> ustr" where
  "format_option_result show_error label opt f = (case opt of
      None \<Rightarrow> label @ str_of ''Pending...''
    | Some (Inr v) \<Rightarrow> label @ f v
    | Some (Inl e) \<Rightarrow> label @ str_of ''Error: '' @ show_error e)"

section \<open>System\<close>

definition mem_ratio :: "u64 \<Rightarrow> u64 \<Rightarrow> f64" where
  "mem_ratio used all_bytes = (if all_bytes = 0 then Fin 0
     else fclamp (Fin 0) (Fin 1) (fdiv (f64_of_nat (unat used)) (f64_of_nat (unat all_bytes))))"

definition usage_color :: "f64 \<Rightarrow> color" where
  "usage_color pct = (if fle (Fin 90) pct then RED_c400 else if fle (Fin 70) pct then AMBER_c400 else EMERALD_c400)"

text \<open>The bar of a core: ASCII characters, or the block elements from U+2581 on.\<close>

definition core_bar_char :: "bool \<Rightarrow> f64 \<Rightarrow> nat" where
  "core_bar_char unicode_enabled pct =
    (if \<not> unicode_enabled then
       if fle (Fin 75) pct then 35 else if fle (Fin 50) pct then 61 else if fle (Fin 25) pct then 45 else 46
     else if fle (Fin (175 / 2)) pct then 0x2588
     else if fle (Fin 75) pct then 0x2587
     else if fle (Fin (125 / 2)) pct then 0x2586
     else if fle (Fin 50) pct then 0x2585
     else if fle (Fin (75 / 2)) pct then 0x2584
     else if fle (Fin 25) pct then 0x2583
     else if fle (Fin (25 / 2)) pct then 0x2582
     else 0x2581)"

definition format_bytes :: "u64 \<Rightarrow> ustr" where
  "format_bytes bytes = (let x = f64_of_nat (unat bytes) in
     if 2 ^ 40 \<le> unat bytes then fixed 1 (fdiv x (Fin (2 ^ 40))) @ str_of '' TiB''
     else if 2 ^ 30 \<le> unat bytes then fixed 1 (fdiv x (Fin (2 ^ 30))) @ str_of '' GiB''
     else if 2 ^ 20 \<le> unat bytes then fixed 1 (fdiv x (Fin (2 ^ 20))) @ str_of '' MiB''
     else if 2 ^ 10 \<le> unat bytes then fixed 0 (fdiv x (Fin (2 ^ 10))) @ str_of '' KiB''
     else dec (unat bytes) @ str_of '' B'')"

definition format_bps :: "f64 \<Rightarrow> ustr" where
  "format_bps bps =
    (if fle (Fin (2 ^ 30)) bps then fixed 1 (fdiv bps (Fin (2 ^ 30))) @ str_of '' GB/s''
     else if fle (Fin (2 ^ 20)) bps then fixed 1 (fdiv bps (Fin (2 ^ 20))) @ str_of '' MB/s''
     else if fle (Fin (2 ^ 10)) bps then fixed 0 (fdiv bps (Fin (2 ^ 10))) @ str_of '' KB/s''
     else fixed 0 bps @ str_of '' B/s'')"

section \<open>USB-C\<close>

definition version_bcd :: "u16 \<Rightarrow> ustr" where
  "version_bcd v = dec (unat (drop_bit 8 v)) @ [46] @ dec (unat (drop_bit 4 v AND 0xF))"

definition capability_summary :: "u8 \<Rightarrow> ustr" where
  "capability_summary num_connectors =
    dec (unat num_connectors) @ [32] @ str_of (if num_connectors = 1 then ''connector'' else ''connectors'')"

definition connector_summary :: "bool \<Rightarrow> bool \<Rightarrow> ustr" where
  "connector_summary provider consumer = str_of
    (if provider \<and> consumer then ''provider/consumer'' else if provider then ''provider''
     else if consumer then ''consumer'' else ''-'')"

datatype power_role = Sink | Source

definition status_summary :: "ustr \<Rightarrow> bool \<Rightarrow> power_role option \<Rightarrow> ustr" where
  "status_summary mid_dot connect_status direction =
    (if \<not> connect_status then str_of ''Disconnected''
     else case direction of
         Some d \<Rightarrow> str_of ''Connected '' @ mid_dot @ [32] @ str_of (case d of Sink \<Rightarrow> ''Sink'' | Source \<Rightarrow> ''Source'')
       | None \<Rightarrow> str_of ''Connected'')"

section \<open>Lemmas: digits\<close>

lemma ascii_digit [simp]: "d < 10 \<Longrightarrow> is_ascii_digit (48 + d)"
  by (simp add: is_ascii_digit_def)

lemma dec_digits: "list_all is_ascii_digit (dec n)"
  by (induction n rule: dec.induct) (subst dec.simps, auto)

lemma dec_nonempty [simp]: "dec n \<noteq> []"
  by (subst dec.simps) simp

lemma to_digit_10: "d < 10 \<Longrightarrow> to_digit 10 (48 + d) = Some d"
  by (simp add: to_digit_def is_ascii_digit_def)

lemma digits_val_snoc: "d < 10 \<Longrightarrow> digits_val 10 (s @ [48 + d]) = 10 * digits_val 10 s + d"
  by (simp add: digits_val_def to_digit_10 del: add.commute)

lemma digits_val_dec: "digits_val 10 (dec n) = n"
proof (induction n rule: dec.induct)
  case (1 n)
  show ?case
  proof (cases "n < 10")
    case True
    then show ?thesis using digits_val_snoc [of n "[]"] by (subst dec.simps) (simp add: digits_val_def)
  next
    case False
    then show ?thesis using 1 by (subst dec.simps) (simp add: digits_val_snoc [of "n mod 10", simplified])
  qed
qed

lemma digits_val_zeros: "digits_val 10 (replicate k 48 @ s) = digits_val 10 s"
  by (induction k) (simp_all add: digits_val_def to_digit_10 [of 0, simplified])

lemma digits_val_pad0: "digits_val 10 (pad0 w n) = n"
  by (simp add: pad0_def digits_val_zeros digits_val_dec)

lemma pad0_digits: "list_all is_ascii_digit (pad0 w n)"
  using dec_digits ascii_digit [of 0] by (auto simp: pad0_def list_all_iff)

lemma length_dec: "0 < w \<Longrightarrow> n < 10 ^ w \<Longrightarrow> length (dec n) \<le> w"
proof (induction n arbitrary: w rule: dec.induct)
  case (1 n)
  show ?case
  proof (cases "n < 10")
    case True
    then show ?thesis using 1(2) by (subst dec.simps) simp
  next
    case False
    then obtain w' where w: "w = Suc w'" "0 < w'" using 1(2, 3)
      by (cases w; cases "w - 1") auto
    moreover have "n div 10 < 10 ^ w'" using 1(3) w by (simp add: less_mult_imp_div_less mult.commute)
    ultimately show ?thesis using 1(1) [of w'] False by (subst dec.simps) simp
  qed
qed

lemma length_pad0: "0 < w \<Longrightarrow> n < 10 ^ w \<Longrightarrow> length (pad0 w n) = w"
  using length_dec [of w n] by (simp add: pad0_def)

text \<open>A number written in decimal is read back.\<close>

lemma parse_dec: "n < 2 ^ w \<Longrightarrow> parse_unsigned w (dec n) = Some n"
proof -
  assume n: "n < 2 ^ w"
  have "hd (dec n) \<noteq> 43"
    using dec_digits [of n] by (cases "dec n") (auto simp: is_ascii_digit_def)
  then have "strip_prefix [43] (dec n) = None" by (cases "dec n") (auto simp: strip_prefix_def)
  then show ?thesis using n by (simp add: parse_unsigned_def digits_val_dec dec_digits)
qed

section \<open>Lemmas: battery\<close>

text \<open>42,949,672 is the greatest number of mWh or mAh whose hundredfold is a u32.\<close>

lemma mul32_100:
  "mul32 checks x 100 = (if checks \<and> 42949672 < unat x then None else Some (x * 100))"
  by (auto simp: mul32_def)

lemma unat_times_100: "unat ((x :: u32) * 100) = unat x * 100 mod 2 ^ 32"
  by (simp add: unat_word_ariths)

lemma percent_clamped:
  "(if 100 < (q :: u32) then 100 else unat q) = min 100 (unat q)"
  by (auto simp: word_less_nat_alt not_less)

lemma bat_percent_value:
  "bat_percent checks r d =
    (if checks \<and> 42949672 < unat r then None
     else Some (if d = 0 then 0 else min 100 (unat r * 100 mod 2 ^ 32 div unat d)))"
  by (simp add: bat_percent_def mul32_100 Let_def percent_clamped unat_div unat_times_100)

lemma bat_percent_exact:
  "unat r \<le> 42949672 \<Longrightarrow> bat_percent checks r d = Some (if d = 0 then 0 else min 100 (unat r * 100 div unat d))"
  by (simp add: bat_percent_value)

lemma widgets_agree: "bat_health = bat_percent" "widget_percent = bat_percent"
  by (simp_all add: fun_eq_iff bat_health_def widget_percent_def bat_percent_def)

text \<open>The colour of the gauge and that of the widget differ exactly at the two limits.\<close>

lemma colors_differ:
  "bat_gauge_color r warning low \<noteq> widget_color r warning low \<longleftrightarrow> r = low \<or> r = warning \<and> low < r"
  by (auto simp: bat_gauge_color_def widget_color_def)

section \<open>Lemmas: estimates\<close>

text \<open>What is left to charge or to use.\<close>

definition left_over :: "u32 \<Rightarrow> u32 \<Rightarrow> u32 \<Rightarrow> bool \<Rightarrow> nat" where
  "left_over remaining design last_full is_charging =
    (if is_charging then max (unat last_full) (unat design) - unat remaining else unat remaining)"

lemma delta_left_over:
  "unat (if is_charging then saturating_sub32 (if is_charging then max last_full design else 0) remaining else remaining)
    = left_over remaining design last_full is_charging"
  by (auto simp: left_over_def saturating_sub32_def max_def word_less_nat_alt word_le_nat_alt unat_sub_if')

lemma round64_u32: "u32_to_f64 x = Fin (of_nat (unat x))"
  by (simp add: u32_to_f64_def f64_of_u32)

lemma round_to_nat:
  assumes "- 1 / 4 \<le> q" "q < 2 ^ 60"
  shows "\<bar>of_nat (f64_to_nat 64 (fround (Fin q))) - q\<bar> \<le> 1 / 2"
proof (cases "q < 0")
  case True
  then have "\<lfloor>1 / 2 - q\<rfloor> = 0" using assms by (intro floor_unique) simp_all
  then show ?thesis using True assms by (simp add: add.commute)
next
  case False
  then have z: "0 \<le> \<lfloor>q + 1 / 2\<rfloor>" by simp
  have "\<lfloor>q + 1 / 2\<rfloor> \<le> 2 ^ 60" using assms(2) by (simp add: floor_le_iff)
  then have "nat \<lfloor>q + 1 / 2\<rfloor> \<le> 2 ^ 64 - 1" using z by (simp add: nat_le_iff del: floor_le_numeral le_floor_iff zero_le_floor)
  then have "f64_to_nat 64 (fround (Fin q)) = nat \<lfloor>q + 1 / 2\<rfloor>" using False by (simp add: min_absorb1)
  moreover have "(of_nat (nat \<lfloor>q + 1 / 2\<rfloor>) :: rat) = of_int \<lfloor>q + 1 / 2\<rfloor>" using z by simp
  ultimately have "of_nat (f64_to_nat 64 (fround (Fin q))) = (of_int \<lfloor>q + 1 / 2\<rfloor> :: rat)" by (simp only:)
  moreover have "of_int \<lfloor>q + 1 / 2\<rfloor> \<le> q + 1 / 2" "q + 1 / 2 < of_int \<lfloor>q + 1 / 2\<rfloor> + 1"
    using floor_correct [of "q + 1 / 2"] by simp_all
  ultimately show ?thesis unfolding abs_le_iff by linarith
qed

text \<open>The estimate is the exact number of minutes rounded down or up.\<close>

lemma estimate_minutes_near:
  assumes "rate \<noteq> 0"
  obtains n where "estimate_minutes remaining design last_full rate is_charging = Some n"
    "\<bar>of_nat n - of_nat (left_over remaining design last_full is_charging) * 60 / of_nat (unat rate)\<bar> < (1 :: rat)"
proof -
  define a where "a = left_over remaining design last_full is_charging"
  define A :: rat where "A = of_nat a"
  define B :: rat where "B = of_nat (unat rate)"
  have small: "unat x \<le> 2 ^ 32 - 1" for x :: u32 using unsigned_less [of x] by (simp add: less_Suc_eq_le [symmetric])
  have "a \<le> 2 ^ 32 - 1"
    using small [of last_full] small [of design] small [of remaining] by (auto simp: a_def left_over_def max_def)
  then have "A \<le> of_nat (2 ^ 32 - 1)" unfolding A_def of_nat_le_iff .
  then have A: "0 \<le> A" "A \<le> 5000000000" by (simp_all add: A_def)
  have "0 < unat rate" using assms by (simp add: unat_gt_0)
  then have B: "1 \<le> B" using of_nat_le_iff [of 1 "unat rate", where 'a = rat] by (simp add: B_def Suc_le_eq)
  have q: "0 \<le> A / B" "A / B \<le> 5000000000" using A B by (simp_all add: divide_le_eq order_trans [OF A(2)])
  define C where "C = A / B"
  obtain r where r: "round64 (A / B) = Fin r" "A / B - 1 / 4096 \<le> r" "r \<le> A / B + 1 / 4096"
    using round64_near [of "A / B"] q by auto
  then have "- 1000000000000 \<le> r * 60" "r * 60 \<le> 1000000000000" using q by linarith+
  then obtain m where m: "round64 (r * 60) = Fin m" "r * 60 - 1 / 4096 \<le> m" "m \<le> r * 60 + 1 / 4096"
    using round64_near [of "r * 60"] by blast
  have near: "\<bar>m - C * 60\<bar> \<le> 1 / 40" using m(2, 3) r(2, 3) unfolding C_def [symmetric] abs_le_iff by linarith
  have bounds: "- 1 / 4 \<le> m" "m < 2 ^ 60" using m(2, 3) r(2, 3) q unfolding C_def [symmetric] by (linarith, simp)
  have div: "fdiv (Fin A) (Fin B) = Fin r" using B r(1) by simp
  have mul: "fmul (Fin r) (Fin 60) = Fin m" using m(1) by simp
  have "estimate_minutes remaining design last_full rate is_charging = Some (f64_to_nat 64 (fround (Fin m)))"
  proof -
    let ?D = "if is_charging then saturating_sub32 (if is_charging then max last_full design else 0) remaining else remaining"
    have "u32_to_f64 ?D = Fin A" "u32_to_f64 rate = Fin B"
      unfolding round64_u32 delta_left_over A_def B_def a_def by (rule refl)+
    then have "fmul (fdiv (u32_to_f64 ?D) (u32_to_f64 rate)) (Fin 60) = Fin m" by (simp only: div mul)
    then show ?thesis unfolding estimate_minutes_def Let_def if_not_P [OF assms] by (simp only:)
  qed
  moreover have "\<bar>of_nat (f64_to_nat 64 (fround (Fin m))) - A * 60 / B\<bar> < 1"
  proof -
    define N :: rat where "N = of_nat (f64_to_nat 64 (fround (Fin m)))"
    have "\<bar>N - m\<bar> \<le> 1 / 2" unfolding N_def by (rule round_to_nat [OF bounds])
    moreover have "A * 60 / B = C * 60" by (simp add: C_def)
    ultimately have "\<bar>N - A * 60 / B\<bar> < 1" using near unfolding abs_le_iff abs_less_iff by linarith
    then show ?thesis unfolding N_def .
  qed
  ultimately show thesis using that by (simp add: A_def B_def a_def)
qed

section \<open>Lemmas: the clock\<close>

lemma two_digits:
  assumes "n < 100"
  obtains a b where "pad0 2 n = [a, b]" "is_ascii_digit a" "is_ascii_digit b" "digits_val 10 [a, b] = n"
proof -
  have "length (pad0 2 n) = 2" using length_pad0 [of 2 n] assms by simp
  then obtain a b where ab: "pad0 2 n = [a, b]" by (auto simp: length_Suc_conv numeral_2_eq_2)
  then show thesis using that [OF ab] pad0_digits [of 2 n] digits_val_pad0 [of 2 n] by simp
qed

text \<open>Reading the text of an offset back: a sign, hours and minutes.\<close>

definition read_zone :: "ustr \<Rightarrow> int option" where
  "read_zone s = (case s of
      [u, t, c, sg, a, b, k, d, e] \<Rightarrow>
        if [u, t, c] = str_of ''UTC'' \<and> sg \<in> {43, 45} \<and> k = 58 \<and> list_all is_ascii_digit [a, b, d, e]
        then Some ((if sg = 45 then -1 else 1) * int (60 * digits_val 10 [a, b] + digits_val 10 [d, e])) else None
    | _ \<Rightarrow> None)"

lemma read_zone_text:
  assumes "\<bar>m\<bar> < 6000"
  shows "read_zone (format_time_zone (MinutesFromUtc m)) = Some (if m \<le> - 60 then m else \<bar>m\<bar>)"
proof -
  have h: "nat \<bar>quot60 m\<bar> < 100" "int (nat \<bar>quot60 m\<bar>) = \<bar>m\<bar> div 60"
  proof -
    have "\<bar>m\<bar> div 60 < 100" using assms by linarith
    moreover have "\<bar>quot60 m\<bar> = \<bar>m\<bar> div 60" by (simp add: quot60_def abs_mult sgn_if)
    ultimately show "nat \<bar>quot60 m\<bar> < 100" "int (nat \<bar>quot60 m\<bar>) = \<bar>m\<bar> div 60" by linarith+
  qed
  obtain a b where ab: "pad0 2 (nat \<bar>quot60 m\<bar>) = [a, b]" "is_ascii_digit a" "is_ascii_digit b"
    "digits_val 10 [a, b] = nat \<bar>quot60 m\<bar>" using two_digits [OF h(1)] .
  have "nat (\<bar>m\<bar> mod 60) < 100" by (simp add: nat_less_iff)
  then obtain d e where de: "pad0 2 (nat (\<bar>m\<bar> mod 60)) = [d, e]" "is_ascii_digit d" "is_ascii_digit e"
    "digits_val 10 [d, e] = nat (\<bar>m\<bar> mod 60)" using two_digits by blast
  have neg: "quot60 m < 0 \<longleftrightarrow> m \<le> - 60" by (auto simp: quot60_def sgn_if)
  have "int (60 * nat \<bar>quot60 m\<bar> + nat (\<bar>m\<bar> mod 60)) = \<bar>m\<bar>"
  proof -
    have "int (60 * nat \<bar>quot60 m\<bar> + nat (\<bar>m\<bar> mod 60)) = 60 * (\<bar>m\<bar> div 60) + \<bar>m\<bar> mod 60"
      unfolding of_nat_add of_nat_mult h(2) by simp
    then show ?thesis by simp
  qed
  then have "int (60 * digits_val 10 [a, b] + digits_val 10 [d, e]) = \<bar>m\<bar>" unfolding ab(4) de(4) .
  then show ?thesis using ab(1-3) de(1-3) neg
    by (auto simp: read_zone_def format_time_zone_def signed_pad0_def str_of_def)
qed

lemma split_char_none: "x \<notin> set s \<Longrightarrow> split_char x s = [s]"
  by (induction s) auto

lemma split_char_sep: "x \<notin> set s \<Longrightarrow> split_char x (s @ x # r) = s # split_char x r"
  by (induction s) auto

lemma pad0_no: "\<not> is_ascii_digit x \<Longrightarrow> x \<notin> set (pad0 w n)"
  using pad0_digits [of w n] by (auto simp: list_all_iff)

lemma format_time_reads:
  "map (digits_val 10) (split_char 58 (format_time_hms t)) = [dt_hour t, dt_minute t, dt_second t]"
  "map (digits_val 10) (split_char 45 (format_date t)) = [dt_year t, dt_month t, dt_day t]"
proof -
  have "\<not> is_ascii_digit 58" "\<not> is_ascii_digit 45" by (simp_all add: is_ascii_digit_def)
  note no = this [THEN pad0_no]
  show "map (digits_val 10) (split_char 58 (format_time_hms t)) = [dt_hour t, dt_minute t, dt_second t]"
    using no by (simp add: format_time_hms_def split_char_sep split_char_none digits_val_pad0)
  show "map (digits_val 10) (split_char 45 (format_date t)) = [dt_year t, dt_month t, dt_day t]"
    using no by (simp add: format_date_def split_char_sep split_char_none digits_val_pad0)
qed

section \<open>Lemmas: zones and ratios\<close>

text \<open>A temperature has the colour of its zone; the levels of the fan are temperatures too.\<close>

lemma zone_color:
  "temp_level_color x th = (if thermal_zone x th = ''Critical'' then RED_c500
    else if thermal_zone x th = ''Prochot'' then ORANGE_c500 else if thermal_zone x th = ''Warning'' then AMBER_c400 else GREEN_c400)"
  by (simp add: temp_level_color_def thermal_zone_def)

text \<open>The dashboard card passes the speed of the fan: with the levels at temperatures it is always at its maximum.\<close>

lemma fan_zone_of_speed: "t \<le> rpm \<Longrightarrow> level_max lv = Fin t \<Longrightarrow> fan_zone (Fin rpm) lv = ''Max''"
  by (simp add: fan_zone_def)

lemma u64_positive:
  assumes "(x :: u64) \<noteq> 0"
  obtains r where "f64_of_nat (unat x) = Fin r" "0 < r"
proof -
  define q :: rat where "q = of_nat (unat x)"
  have "unat x < 2 ^ LENGTH(64)" by (rule unsigned_less)
  then have "q \<le> of_nat (2 ^ 64)" unfolding q_def of_nat_le_iff by simp
  moreover have "0 < unat x" using assms by (simp add: unat_gt_0)
  then have q1: "1 \<le> q" using of_nat_le_iff [of 1 "unat x", where 'a = rat] by (simp add: q_def Suc_le_eq)
  ultimately obtain r where r: "round64 q = Fin r" "\<bar>r - q\<bar> \<le> (\<bar>q\<bar> / 2 ^ 52 + 1 / 2 ^ 1074) / 2"
    using round64_err [of q] by auto
  have "(1 :: rat) / 2 ^ 1074 \<le> 1 / 2 ^ 1" by (intro divide_left_mono power_increasing) simp_all
  moreover have "\<bar>q\<bar> / 2 ^ 52 \<le> q / 2" using q1 by simp
  ultimately have "(\<bar>q\<bar> / 2 ^ 52 + 1 / 2 ^ 1074) / 2 \<le> (q / 2 + 1 / 2) / 2" by (intro divide_right_mono add_mono) simp_all
  then have "\<bar>r - q\<bar> \<le> (q / 2 + 1 / 2) / 2" using r(2) by (rule order_trans [rotated])
  moreover have "q - r \<le> \<bar>r - q\<bar>" using abs_ge_minus_self [of "r - q"] by simp
  ultimately have "q - r \<le> (q / 2 + 1 / 2) / 2" by (rule order_trans [rotated])
  then have "0 < r" using q1 by (simp add: field_simps)
  then show thesis using that r(1) by (simp add: f64_of_nat_def q_def)
qed

lemma round64_number: "round64 q \<noteq> NaN"
  by (simp add: round64_def Let_def)

lemma mem_ratio_bounds: "fle (Fin 0) (mem_ratio used all_bytes) \<and> fle (mem_ratio used all_bytes) (Fin 1)"
proof (cases "all_bytes = 0")
  case False
  have clamped: "fle (Fin 0) (fclamp (Fin 0) (Fin 1) x) \<and> fle (fclamp (Fin 0) (Fin 1) x) (Fin 1)" if "x \<noteq> NaN" for x
    using that by (cases x) (auto simp: fclamp_def fle_def)
  obtain b where b: "f64_of_nat (unat all_bytes) = Fin b" "0 < b" using u64_positive [OF False] .
  have "\<exists>a. f64_of_nat (unat used) = Fin a"
  proof (cases "used = 0")
    case False
    then show ?thesis by (rule u64_positive) blast
  qed (simp add: f64_of_nat_def round64_def)
  then obtain a where "f64_of_nat (unat used) = Fin a" ..
  then have "fdiv (f64_of_nat (unat used)) (f64_of_nat (unat all_bytes)) \<noteq> NaN" using b round64_number by simp
  then show ?thesis using clamped False by (simp add: mem_ratio_def)
qed (simp add: mem_ratio_def)

end
