(* ===== verification/TuiExample.thy ===== *)
theory TuiExample
  imports TuiWorld TuiText EcExample
begin

text \<open>
  The terminal UI over the mock source for the witnesses: a text input that takes characters, and a session in which
  a trip point is entered on the power tab and the battery is updated.
\<close>

definition demo_input :: "(ustr, unit) input_ops" where
  "demo_input = \<lparr>in_default = [], in_value_and_reset = (\<lambda>i. (i, [])),
     in_handle_event = (\<lambda>e i. case e of Key (KChar c) Press _ \<Rightarrow> i @ [c] | _ \<Rightarrow> i)\<rparr>"

definition demo_dyn :: "(nat mock, mock_error, nat, nat) dyn_source" where
  "demo_dyn = blanket id (mock_source demo_iface demo_clock) (\<lambda>c. op_ret 0)"

definition demo_bst :: bst_return where
  "demo_bst = \<lparr>battery_state = 0, battery_present_rate = 0, battery_remaining_capacity = 0, battery_present_voltage = 0\<rparr>"

definition demo_bix :: bix_fixed_strings where
  "demo_bix = \<lparr>bix_revision = 0, power_unit = 0, design_capacity = 0, last_full_charge_capacity = 0, battery_technology = 0,
     design_voltage = 0, design_cap_of_warning = 0, design_cap_of_low = 0, cycle_count = 0, measurement_accuracy = 0,
     max_sampling_time = 0, min_sampling_time = 0, max_averaging_interval = 0, min_averaging_interval = 0,
     battery_capacity_granularity_1 = 0, battery_capacity_granularity_2 = 0, model_number = [], serial_number = [],
     battery_type = [], oem_info = [], battery_swapping_capability = 0\<rparr>"

abbreviation demo_key :: "key_code \<Rightarrow> unit ui_event" where "demo_key c \<equiv> Key c Press ()"

text \<open>The power tab, its popup, the digit 7.\<close>

definition demo_open :: "unit tui_event list" where
  "demo_open = [Ui (demo_key (KChar 50)), Ui (demo_key (KChar 115)), Ui (demo_key (KChar 55))]"

definition demo_session :: "unit tui_event list" where
  "demo_session = demo_open @ [Ui (demo_key KEnter), BatteryTick]"

definition demo_start :: "(mock_error ec_call list \<times> nat mock, mock_error, nat, nat, ustr) tui_world" where
  "demo_start = world_new demo_input demo_bst demo_bix ([], mock_new demo_iface demo_clock)"

lemmas demo_ui_defs = demo_open_def demo_start_def tui_exec_def handle_events_def is_popup_open_def
  key_shortcut_def handle_tab_event_def module_handle_event_def battery_handle_event_def popup_handle_def demo_input_def
  world_new_def app_new_def popup_new_def

lemma demo_opens:
  "\<exists>w. tui_execs (recorded demo_dyn) demo_input demo_open demo_start = Some w \<and>
    app_run_state (w_app w) = Running \<and> app_tab (w_app w) = TabPower \<and>
    popup_open (app_battery (w_app w)) \<and> popup_input (app_battery (w_app w)) = [55] \<and>
    w_battery_queue w = [] \<and> w_thermal_queue w = [] \<and> w_source w = w_source demo_start"
  by (simp add: demo_ui_defs)

lemma demo_sends: "app_run demo_input (concat (map ui_of demo_session))
    = (\<lparr>app_run_state = Running, app_tab = TabPower, app_battery = \<lparr>popup_open = False, popup_input = []\<rparr>,
        app_thermal = \<lparr>popup_open = False, popup_input = []\<rparr>, app_log_visible = False, app_log_scroll = 0\<rparr>, [battery_command.SetBtp 7], [])"
  by (simp add: app_run_def app_step_def demo_session_def demo_ui_defs parse_unsigned_def strip_prefix_def is_ascii_digit_def
      digits_val_def to_digit_def)

lemma demo_entered:
  "\<exists>w. tui_execs (recorded demo_dyn) demo_input (demo_open @ [Ui (demo_key KEnter)]) demo_start = Some w \<and> w_battery_queue w = [battery_command.SetBtp 7]"
  by (simp add: demo_ui_defs parse_unsigned_def strip_prefix_def is_ascii_digit_def digits_val_def to_digit_def)

lemma tick_exec: "\<exists>w'. tui_exec dy ops BatteryTick w = Some w' \<and> w_battery_queue w' = []"
  by (simp add: tui_exec_def split: prod.splits)

lemma demo_runs:
  obtains w where "tui_run (recorded demo_dyn) demo_input demo_start demo_session w" "w_battery_queue w = []"
proof -
  obtain w where w: "tui_execs (recorded demo_dyn) demo_input (demo_open @ [Ui (demo_key KEnter)]) demo_start = Some w"
    using demo_entered by blast
  obtain w' where "tui_exec (recorded demo_dyn) demo_input BatteryTick w = Some w'" "w_battery_queue w' = []"
    using tick_exec by blast
  then show thesis using that tui_run.more [OF tui_run_by_execs [OF w], of BatteryTick w']
    by (simp add: tui_step_exec demo_session_def)
qed

end
