(* ===== verification/TuiProperties.thy ===== *)
theory TuiProperties
  imports TuiExample
begin

text \<open>The properties of the terminal UI of the embedded controller tools.\<close>

section \<open>The application and its popups\<close>

text \<open>
  C15: in every state the UI can reach a popup is open on its own tab only, so never two. While one is open, whatever
  the terminal delivers, the selected tab, the log panel and the run state stay and the other popup is not touched.
  A command leaves the UI only when Enter is pressed in an open popup, and then one at most.
\<close>

theorem tui_popup_focus:
  assumes "tui_run dy ops (world_new ops bst0 bix0 s) es w"
    and "handle_events ops evt (w_app w) = (a, bs, ts)"
  shows "(popup_open (app_battery (w_app w)) \<longrightarrow> app_tab (w_app w) = TabPower) \<and>
    (popup_open (app_thermal (w_app w)) \<longrightarrow> app_tab (w_app w) = TabThermal) \<and>
    (some_popup (w_app w) \<longrightarrow> app_tab a = app_tab (w_app w) \<and> app_run_state a = app_run_state (w_app w) \<and>
      app_log_visible a = app_log_visible (w_app w) \<and> app_log_scroll a = app_log_scroll (w_app w) \<and>
      (app_tab a \<noteq> TabPower \<longrightarrow> app_battery a = app_battery (w_app w)) \<and>
      (app_tab a \<noteq> TabThermal \<longrightarrow> app_thermal a = app_thermal (w_app w))) \<and>
    length bs + length ts \<le> 1 \<and>
    (bs \<noteq> [] \<or> ts \<noteq> [] \<longrightarrow> some_popup (w_app w) \<and> (\<exists>x. evt = Key KEnter Press x))"
proof -
  have ok: "popups_ok (w_app w)" by (rule world_popups_ok [OF assms(1)])
  have m: "some_popup (w_app w) \<Longrightarrow>
      module_handle_event ops (if app_tab (w_app w) = TabPower then 0 else 1) evt (w_app w) = (a, bs, ts)"
    using popup_focus [OF ok, of ops evt] assms(2) by simp
  show ?thesis using ok handle_events_sends [OF ok assms(2)] module_keeps [OF m]
    by (auto simp: popups_ok_def some_popup_def)
qed

theorem tui_popup_focus_witness:
  "\<exists>w a bs ts. tui_execs (recorded demo_dyn) demo_input demo_open demo_start = Some w \<and> some_popup (w_app w) \<and>
    handle_events demo_input (demo_key (KChar 113)) (w_app w) = (a, bs, ts) \<and>
    app_tab a = TabPower \<and> app_run_state a = Running \<and> bs = [] \<and> ts = []"
proof -
  obtain w where w: "tui_execs (recorded demo_dyn) demo_input demo_open demo_start = Some w"
    "app_run_state (w_app w) = Running" "app_tab (w_app w) = TabPower" "some_popup (w_app w)"
    using demo_opens by (auto simp: some_popup_def)
  obtain a bs ts where h: "handle_events demo_input (demo_key (KChar 113)) (w_app w) = (a, bs, ts)" by (metis surj_pair)
  show ?thesis using w h tui_popup_focus [OF tui_run_by_execs [OF w(1), unfolded demo_start_def] h] by auto
qed

text \<open>
  C16: from every running state of the UI, Escape pressed twice leaves it, and once is enough without a popup,
  however the background updates fall between the keys; and no key is ever refused while the UI runs.
\<close>

theorem tui_escapes_quit:
  assumes "tui_run dy ops (world_new ops bst0 bix0 s) es w" "app_run_state (w_app w) = Running"
  shows "(\<exists>w'. tui_step dy ops (Ui evt) w w') \<and>
    (\<forall>es' w' x y. tui_run dy ops w es' w' \<longrightarrow>
      concat (map ui_of es') = (if some_popup (w_app w) then [Key KEsc Press x, Key KEsc Press y] else [Key KEsc Press x]) \<longrightarrow>
      app_run_state (w_app w') = Quitting)"
proof (intro conjI allI impI)
  show "\<exists>w'. tui_step dy ops (Ui evt) w w'" by (rule ui_enabled [OF assms(2)])
  fix es' w' x y
  assume run: "tui_run dy ops w es' w'" and
    keys: "concat (map ui_of es') = (if some_popup (w_app w) then [Key KEsc Press x, Key KEsc Press y] else [Key KEsc Press x])"
  show "app_run_state (w_app w') = Quitting"
    using keys two_escapes [OF world_popups_ok [OF assms(1)] run] by (cases "some_popup (w_app w)") auto
qed

theorem tui_escapes_quit_witness:
  "\<exists>w. tui_run (recorded demo_dyn) demo_input demo_start demo_open w \<and>
    (\<forall>w'. tui_run (recorded demo_dyn) demo_input w [Ui (demo_key KEsc), RtcTick, Ui (demo_key KEsc)] w' \<longrightarrow>
      app_run_state (w_app w') = Quitting) \<and> (\<exists>w'. tui_step (recorded demo_dyn) demo_input (Ui (demo_key KEsc)) w w')"
proof -
  obtain w where w: "tui_execs (recorded demo_dyn) demo_input demo_open demo_start = Some w"
    "app_run_state (w_app w) = Running" "some_popup (w_app w)"
    using demo_opens by (auto simp: some_popup_def)
  note r = tui_run_by_execs [OF w(1)]
  note q = tui_escapes_quit [OF r [unfolded demo_start_def] w(2), of "demo_key KEsc"]
  have "app_run_state (w_app w') = Quitting"
    if "tui_run (recorded demo_dyn) demo_input w [Ui (demo_key KEsc), RtcTick, Ui (demo_key KEsc)] w'" for w'
    using conjunct2 [OF q] that w(3) by fastforce
  then show ?thesis using r conjunct1 [OF q] by blast
qed

section \<open>The channels and the source\<close>



text \<open>
  C23: what is shown is explained by the calls made. For every run of the UI over any source, key presses and
  updates in any order: the battery and the temperature shown are the last readings that worked, the mark is green
  exactly when the last call worked, the charts hold the last sixty readings that worked and the statistics all of
  them; and the static data and the capabilities are asked for until they came once and never again.
\<close>

theorem tui_view_explained:
  assumes "tui_run (recorded dy) ops (world_new ops bst0 bix0 ([], s)) es w"
    and "fst (w_source w) = calls" "w_battery w = (b, bix_cached)" "w_rtc w = (r, caps_cached)" "th_sensor (w_thermal w) = d"
  shows "tb_bst b = latest bst0 (rights (bst_answers calls)) \<and> tb_bst_success b = latest False (map is_ok (bst_answers calls)) \<and>
    window (tb_samples b) = last_n 60 (map battery_remaining_capacity (rights (bst_answers calls))) \<and>
    session (tb_samples b) = records (map (u32_to_f64 \<circ> battery_remaining_capacity) (rights (bst_answers calls))) stats_default \<and>
    skin_temp d = latest (Fin 0) (rights (temp_answers calls)) \<and> temp_success d = latest False (map is_ok (temp_answers calls)) \<and>
    window (sensor_samples d) = last_n 60 (rights (temp_answers calls)) \<and>
    session (sensor_samples d) = records (rights (temp_answers calls)) stats_default \<and>
    bix_cached = latest False (map is_ok (bix_answers calls)) \<and> list_all (\<lambda>q. \<not> is_ok q) (butlast (bix_answers calls)) \<and>
    tb_bix b = latest bix0 (rights (bix_answers calls)) \<and>
    caps_cached = latest False (map is_ok (caps_answers calls)) \<and> list_all (\<lambda>q. \<not> is_ok q) (butlast (caps_answers calls)) \<and>
    rt_capabilities r = latest None (map Some (caps_answers calls))"
proof -
  have start: "session samples_default = stats_default" by (simp add: samples_default_def)
  show ?thesis using run_explained [OF assms(1)] assms(2-5)
    by (simp add: explained_def battery_explained_def thermal_explained_def caps_explained_def Let_def inserts_window
        inserts_session start BATTERY_MAX_SAMPLES_def THERMAL_MAX_SAMPLES_def)
qed

theorem tui_view_explained_witness:
  "\<exists>w b c. tui_run (recorded demo_dyn) demo_input demo_start demo_session w \<and> w_battery w = (b, c) \<and>
    tb_bst b = latest demo_bst (rights (bst_answers (fst (w_source w))))"
proof -
  obtain w where w: "tui_run (recorded demo_dyn) demo_input demo_start demo_session w" using demo_runs by blast
  obtain b c where b: "w_battery w = (b, c)" by (metis surj_pair)
  obtain r k where r: "w_rtc w = (r, k)" by (metis surj_pair)
  show ?thesis using w b tui_view_explained [OF w [unfolded demo_start_def] refl b r refl] by auto
qed

section \<open>Statistics\<close>

text \<open>
  C38: the charts and session statistics of 32-bit readings. After any readings, up to two million of them, the
  window holds the last \<open>N\<close>, and minimum, maximum, sum and difference of the last two are exact over all
  readings although they are kept in floating point; the average is the exact mean rounded once.
\<close>

theorem sample_statistics_exact:
  fixes xs :: "u32 list"
  assumes "xs \<noteq> []" "length xs \<le> 2 ^ 21" and b: "b = inserts u32_to_f64 N xs samples_default"
  shows "window b = last_n N xs \<and>
    st_min (session b) = Fin (of_nat (Min (unat ` set xs))) \<and>
    st_max (session b) = Fin (of_nat (linorder_class.Max (unat ` set xs))) \<and>
    st_sum (session b) = Fin (of_nat (sum_list (map unat xs))) \<and>
    stats_avg (session b) = round64 (of_nat (sum_list (map unat xs)) / of_nat (length xs)) \<and>
    st_delta (session b) = (if length xs = 1 then Fin 0 else Fin (of_nat (unat (last xs)) - of_nat (unat (last (butlast xs)))))"
proof -
  have s: "session b = records (map u32_to_f64 xs) stats_default"
    by (simp add: b inserts_session samples_default_def)
  have small: "length xs < 2 ^ 64" using assms(2) by (rule order_le_less_trans) simp
  have "st_delta (session b) = (if length xs = 1 then Fin 0 else Fin (of_nat (unat (last xs)) - of_nat (unat (last (butlast xs)))))"
  proof (cases "length xs = 1")
    case False
    then have "butlast xs \<noteq> []" "\<not> length xs \<le> 1" using assms(1) by (cases xs; force)+
    then show ?thesis using False small assms(1)
      by (simp add: s records_delta last_map map_butlast [symmetric] fsub_u32 del: One_nat_def)
  qed (use small in \<open>simp add: s records_delta\<close>)
  moreover have "window b = last_n N xs" by (simp add: b inserts_window)
  ultimately show ?thesis
    using records_min_max_u32 [OF assms(1) small] records_sum [OF assms(2)] records_avg [OF assms(1, 2)] by (simp add: s)
qed

theorem sample_statistics_exact_witness:
  "st_min (session (inserts u32_to_f64 2 [5, 3, 4 :: u32] samples_default)) = Fin 3 \<and>
   st_max (session (inserts u32_to_f64 2 [5, 3, 4 :: u32] samples_default)) = Fin 5 \<and>
   window (inserts u32_to_f64 2 [5, 3, 4 :: u32] samples_default) = [3, 4] \<and>
   st_delta (session (inserts u32_to_f64 2 [5, 3, 4 :: u32] samples_default)) = Fin 1"
  using sample_statistics_exact [OF _ _ refl, of "[5, 3, 4]" 2] by (simp add: last_n_def)

end
