(* ===== verification/TianoAlloc.thy ===== *)
theory TianoAlloc
  imports DevicePaths
begin

text \<open>
  patina_tianocore, \<open>boot_services.rs\<close> and \<open>memory.rs\<close>: the global allocator of a driver over
  the pool services of the firmware, and the page manager over its page services. Memory is a
  function from addresses to bytes; the pool services may change it too (their bookkeeping
  lives there). What the firmware answers is a parameter; \<open>pool_honest\<close> states what the UEFI
  specification promises of it.
\<close>

subsection \<open>Memory\<close>

type_synonym memory = "u64 \<Rightarrow> u8"

definition read_mem :: "memory \<Rightarrow> u64 \<Rightarrow> nat \<Rightarrow> bytes" where
  "read_mem m a n = map (\<lambda>i. m (a + of_nat i)) [0..<n]"

definition load_ptr :: "memory \<Rightarrow> u64 \<Rightarrow> u64" where
  "load_ptr m a = of_nat (le_nat (read_mem m a 8))"

definition store_ptr :: "u64 \<Rightarrow> u64 \<Rightarrow> memory \<Rightarrow> memory" where
  "store_ptr a v m = (\<lambda>x. if unat (x - a) < 8 then nat_le 8 (unat v) ! unat (x - a) else m x)"

text \<open>The addresses of a block of the pool, which does not go past the end of the address space.\<close>

definition span :: "u64 \<times> u64 \<Rightarrow> u64 set" where
  "span b = {x. unat (fst b) \<le> unat x \<and> unat x < unat (fst b) + unat (snd b)}"

lemma length_read_mem [simp]: "length (read_mem m a n) = n"
  by (simp add: read_mem_def)

lemma nth_read_mem [simp]: "i < n \<Longrightarrow> read_mem m a n ! i = m (a + of_nat i)"
  by (simp add: read_mem_def)

lemma unat_offset: "unat (a :: u64) + i < 2 ^ 64 \<Longrightarrow> unat (a + of_nat i) = unat a + i"
proof -
  assume "unat a + i < 2 ^ 64"
  then have "unat (of_nat i :: u64) = i" by (simp add: unat_of_nat)
  with \<open>unat a + i < 2 ^ 64\<close> show ?thesis by (simp add: unat_word_ariths)
qed

lemma unat_below: "unat (x :: u64) < 2 ^ 64"
  using unsigned_less [of x] by simp

lemma unat_back: "8 \<le> unat (p :: u64) \<Longrightarrow> unat (p - 8) = unat p - 8"
  by (subst unat_sub) (simp_all add: word_le_nat_alt)

lemma read_mem_cong:
  "(\<And>i. i < n \<Longrightarrow> m' (a + of_nat i) = m (a + of_nat i)) \<Longrightarrow> read_mem m' a n = read_mem m a n"
  by (simp add: read_mem_def)

lemma load_store_ptr: "load_ptr (store_ptr a v m) a = v"
proof -
  have "read_mem (store_ptr a v m) a 8 = nat_le 8 (unat v)"
    by (rule nth_equalityI) (simp_all add: store_ptr_def unat_of_nat)
  moreover have "unat v < 256 ^ 8" using unat_below [of v] by simp
  ultimately show ?thesis by (simp add: load_ptr_def le_nat_nat_le)
qed

lemma store_ptr_other:
  assumes "unat a + 8 \<le> 2 ^ 64" and "unat x < unat a \<or> unat a + 8 \<le> unat x"
  shows "store_ptr a v m x = m x"
proof -
  have "\<not> unat (x - a) < 8"
  proof (cases "a \<le> x")
    case True
    with assms(2) show ?thesis by (simp add: unat_sub word_le_nat_alt)
  next
    case False
    then have "unat (x - a) = unat x + 2 ^ 64 - unat a"
      using unat_sub_if' [of x a] by (simp add: word_le_nat_alt)
    with False assms(1) show ?thesis by (simp add: word_le_nat_alt)
  qed
  then show ?thesis by (simp add: store_ptr_def)
qed

subsection \<open>The allocator\<close>

text \<open>
  A \<open>Layout\<close>. Its constructors guarantee \<open>layout_ok\<close>: a power of two as alignment, and a
  size that stays within \<open>isize::MAX\<close> when rounded up to it.
\<close>

record layout =
  lay_size :: u64
  lay_align :: u64

definition layout_ok :: "layout \<Rightarrow> bool" where
  "layout_ok l \<longleftrightarrow> (\<exists>k \<in> set [0..<63]. lay_align l = 2 ^ k) \<and>
     unat (lay_size l) + (unat (lay_align l) - 1) < 2 ^ 63"

text \<open>\<open>AllocatePool\<close> answers a status and the pointer it wrote; both calls get the memory.\<close>

record 'w pool_services =
  ps_allocate_pool :: "u64 \<Rightarrow> 'w \<times> memory \<Rightarrow> (efi_status \<times> u64) \<times> 'w \<times> memory"
  ps_free_pool :: "u64 \<Rightarrow> 'w \<times> memory \<Rightarrow> 'w \<times> memory"

text \<open>\<open>UefiAllocator\<close> is its atomic pointer (\<open>None\<close> is null) over the firmware and the memory.\<close>

record 'w uefi_allocator =
  ua_boot_services :: "'w pool_services option"
  ua_firmware :: "'w \<times> memory"

definition uefi_allocator_new :: "'w \<times> memory \<Rightarrow> 'w uefi_allocator" where
  "uefi_allocator_new wm = \<lparr>ua_boot_services = None, ua_firmware = wm\<rparr>"

definition uefi_allocator_init :: "'w pool_services \<Rightarrow> 'w uefi_allocator \<Rightarrow> 'w uefi_allocator" where
  "uefi_allocator_init bs a = a\<lparr>ua_boot_services := Some bs\<rparr>"

definition checked_add64 :: "u64 \<Rightarrow> u64 \<Rightarrow> u64 option" where
  "checked_add64 x y = (if unat x + unat y < 2 ^ 64 then Some (x + y) else None)"

text \<open>
  \<open>GlobalAlloc::alloc\<close>; \<open>0\<close> is the null pointer. Alignments above 8 ask for a larger block and
  keep the block's own address in the word before the pointer returned. The sum that is
  rounded down is the plain \<open>+\<close> of the source; \<open>aligned_up\<close> below shows that it cannot wrap.
\<close>

definition pool_alloc :: "layout \<Rightarrow> 'w uefi_allocator \<Rightarrow> u64 \<times> 'w uefi_allocator" where
  "pool_alloc l a = (case ua_boot_services a of
      None \<Rightarrow> (0, a)
    | Some bs \<Rightarrow>
        if lay_align l \<le> 8 then
          (case ps_allocate_pool bs (lay_size l) (ua_firmware a) of ((status, ptr), wm) \<Rightarrow>
            (if status \<noteq> SUCCESS then 0 else ptr, a\<lparr>ua_firmware := wm\<rparr>))
        else
          (case Option.bind (checked_add64 (lay_size l) (lay_align l)) (\<lambda>s. checked_add64 s 8) of
             None \<Rightarrow> (0, a)
           | Some amount \<Rightarrow>
              (case ps_allocate_pool bs amount (ua_firmware a) of ((status, raw), w, m) \<Rightarrow>
                 if status \<noteq> SUCCESS then (0, a\<lparr>ua_firmware := (w, m)\<rparr>)
                 else let aligned = (raw + 8 + lay_align l - 1) AND NOT (lay_align l - 1)
                   in (aligned, a\<lparr>ua_firmware := (w, store_ptr (aligned - 8) raw m)\<rparr>))))"

definition pool_dealloc :: "u64 \<Rightarrow> layout \<Rightarrow> 'w uefi_allocator \<Rightarrow> 'w uefi_allocator" where
  "pool_dealloc ptr l a = (case ua_boot_services a of
      None \<Rightarrow> a
    | Some bs \<Rightarrow>
        if lay_align l \<le> 8 then a\<lparr>ua_firmware := ps_free_pool bs ptr (ua_firmware a)\<rparr>
        else let original = load_ptr (snd (ua_firmware a)) (ptr - 8)
          in a\<lparr>ua_firmware := ps_free_pool bs original (ua_firmware a)\<rparr>)"

subsection \<open>What the firmware promises\<close>

text \<open>
  \<open>blocks w\<close> are the blocks handed out and not freed yet, by address and length. A new block is
  not null, 8-byte aligned, inside the address space and apart from the others; neither call
  touches the inside of another block.
\<close>

definition blocks_ok :: "(u64 \<times> u64) set \<Rightarrow> bool" where
  "blocks_ok B \<longleftrightarrow> (\<forall>b \<in> B. fst b \<noteq> 0 \<and> unat (fst b) + unat (snd b) \<le> 2 ^ 64) \<and>
     (\<forall>b \<in> B. \<forall>c \<in> B. b \<noteq> c \<longrightarrow> span b \<inter> span c = {})"

definition same_on :: "(u64 \<times> u64) set \<Rightarrow> memory \<Rightarrow> memory \<Rightarrow> bool" where
  "same_on B m m' \<longleftrightarrow> (\<forall>b \<in> B. \<forall>x \<in> span b. m' x = m x)"

definition pool_honest :: "('w \<Rightarrow> (u64 \<times> u64) set) \<Rightarrow> 'w pool_services \<Rightarrow> bool" where
  "pool_honest blocks bs \<longleftrightarrow>
     (\<forall>n w m status p w' m'. ps_allocate_pool bs n (w, m) = ((status, p), w', m') \<longrightarrow>
        n \<noteq> 0 \<longrightarrow> blocks_ok (blocks w) \<longrightarrow> same_on (blocks w) m m' \<and>
        (if status = SUCCESS
         then p AND 7 = 0 \<and> (p, n) \<notin> blocks w \<and> blocks w' = insert (p, n) (blocks w) \<and> blocks_ok (blocks w')
         else blocks w' = blocks w)) \<and>
     (\<forall>p n w m w' m'. (p, n) \<in> blocks w \<longrightarrow> blocks_ok (blocks w) \<longrightarrow> ps_free_pool bs p (w, m) = (w', m') \<longrightarrow>
        blocks w' = blocks w - {(p, n)} \<and> same_on (blocks w') m m')"

subsection \<open>Alignment arithmetic\<close>

lemma unat_round_down:
  fixes x :: u64
  shows "unat (x AND NOT (2 ^ k - 1)) = unat x - unat x mod 2 ^ k"
proof -
  have "x AND NOT (mask k) = push_bit k (drop_bit k x)"
    by (rule bit_eqI) (auto simp: bit_simps)
  then have "x AND NOT (mask k) = x - take_bit k x"
    using bits_ident [of k x] by (simp add: eq_diff_eq)
  moreover have t: "unat (take_bit k x) = unat x mod 2 ^ k"
    by (rule trans [OF unsigned_take_bit_eq take_bit_eq_mod])
  moreover have "take_bit k x \<le> x" by (simp add: word_le_nat_alt t)
  ultimately show ?thesis by (simp add: mask_eq_exp_minus_1 unat_sub)
qed

lemma layout_align:
  assumes "layout_ok l"
  obtains k where "k < 63" "lay_align l = 2 ^ k" "unat (lay_align l) = 2 ^ k"
proof -
  from assms obtain k where k: "k < 63" "lay_align l = 2 ^ k" by (auto simp: layout_ok_def)
  then have "(2 :: nat) ^ k < 2 ^ 64" by (intro power_strict_increasing) auto
  then have "unat (of_nat (2 ^ k) :: u64) = 2 ^ k" by (simp only: unat_of_nat) simp
  then have "unat (2 ^ k :: u64) = 2 ^ k" by simp
  with k that show ?thesis by metis
qed

text \<open>The overflow check of the source never fires for a \<open>Layout\<close>.\<close>

lemma layout_total:
  assumes "layout_ok l"
  shows "Option.bind (checked_add64 (lay_size l) (lay_align l)) (\<lambda>s. checked_add64 s 8) =
           Some (lay_size l + lay_align l + 8)"
    and "unat (lay_size l + lay_align l + 8) = unat (lay_size l) + unat (lay_align l) + 8"
proof -
  from assms have "unat (lay_size l) + (unat (lay_align l) - 1) < 2 ^ 63" by (simp add: layout_ok_def)
  then have s: "unat (lay_size l) + unat (lay_align l) + 8 < 2 ^ 64" by simp
  then have "unat (lay_size l + lay_align l) = unat (lay_size l) + unat (lay_align l)"
    by (simp add: unat_word_ariths)
  with s show "Option.bind (checked_add64 (lay_size l) (lay_align l)) (\<lambda>s. checked_add64 s 8) =
      Some (lay_size l + lay_align l + 8)"
    and "unat (lay_size l + lay_align l + 8) = unat (lay_size l) + unat (lay_align l) + 8"
    by (simp_all add: checked_add64_def unat_word_ariths)
qed

text \<open>
  The aligned address of a block of \<open>size + align + 8\<close> bytes: nothing wraps, there is room for
  the pointer before it and for \<open>size\<close> bytes after it.
\<close>

lemma aligned_up:
  assumes l: "layout_ok l" and big: "\<not> lay_align l \<le> 8" and "lay_size l \<noteq> 0"
    and room: "unat raw + unat (lay_size l + lay_align l + 8) \<le> 2 ^ 64"
  defines "aligned \<equiv> (raw + 8 + lay_align l - 1) AND NOT (lay_align l - 1)"
  shows "unat (raw + 8 + lay_align l) = unat raw + 8 + unat (lay_align l)"
    and "unat aligned mod unat (lay_align l) = 0"
    and "unat raw + 8 \<le> unat aligned"
    and "unat aligned + unat (lay_size l) \<le> unat raw + unat (lay_size l + lay_align l + 8)"
proof -
  obtain k where k: "k < 63" "lay_align l = 2 ^ k" "unat (lay_align l) = 2 ^ k"
    using l by (rule layout_align)
  let ?A = "(2 :: nat) ^ k" and ?x = "raw + 8 + lay_align l - 1"
  have A: "8 < ?A" using big k by (simp add: word_le_nat_alt)
  have "0 < unat (lay_size l)" using \<open>lay_size l \<noteq> 0\<close> by (simp add: unat_gt_0)
  with room have s: "unat raw + 8 + ?A < 2 ^ 64" unfolding layout_total(2) [OF l] k(3) by linarith
  then have s1: "unat (raw + 8) = unat raw + 8" by (simp add: unat_word_ariths)
  with s k(3) show s2: "unat (raw + 8 + lay_align l) = unat raw + 8 + unat (lay_align l)"
    by (simp add: unat_word_ariths)
  have x: "unat ?x = unat raw + 8 + ?A - 1"
    using s2 k(3) by (subst unat_sub) (simp_all add: word_le_nat_alt)
  have al: "unat aligned = unat ?x - unat ?x mod ?A"
    unfolding aligned_def k(2) by (rule unat_round_down)
  then show "unat aligned mod unat (lay_align l) = 0"
    by (simp add: k(3) minus_mod_eq_mult_div)
  have m: "unat ?x mod ?A < ?A" by simp
  then show "unat raw + 8 \<le> unat aligned" using al x by linarith
  show "unat aligned + unat (lay_size l) \<le> unat raw + unat (lay_size l + lay_align l + 8)"
    using al x k(3) unfolding layout_total(2) [OF l] by linarith
qed

subsection \<open>A client of the allocator\<close>

text \<open>
  What a program does with its heap: allocate, store a byte inside an allocation it owns, and
  deallocate with the layout it allocated with. Its view maps every pointer it holds to the
  layout and to the bytes it expects there; \<open>client_ok\<close> is the contract of \<open>GlobalAlloc\<close>.
\<close>

datatype client_op = CAlloc layout | CStore u64 nat u8 | CDealloc u64

type_synonym client_view = "u64 \<rightharpoonup> layout \<times> bytes"

fun client_ok :: "client_op \<Rightarrow> client_view \<Rightarrow> bool" where
  "client_ok (CAlloc l) v = (layout_ok l \<and> lay_size l \<noteq> 0)"
| "client_ok (CStore p i b) v = (case v p of None \<Rightarrow> False | Some (l, bs) \<Rightarrow> i < length bs)"
| "client_ok (CDealloc p) v = (v p \<noteq> None)"

fun client_step :: "client_op \<Rightarrow> client_view \<times> 'w uefi_allocator \<Rightarrow> client_view \<times> 'w uefi_allocator" where
  "client_step (CAlloc l) (v, a) = (case pool_alloc l a of (p, a') \<Rightarrow>
     (if p = 0 then v else v(p \<mapsto> (l, read_mem (snd (ua_firmware a')) p (unat (lay_size l)))), a'))"
| "client_step (CStore p i b) (v, a) =
     (v(p := map_option (\<lambda>(l, bs). (l, bs[i := b])) (v p)),
      a\<lparr>ua_firmware := map_prod id (\<lambda>m. m(p + of_nat i := b)) (ua_firmware a)\<rparr>)"
| "client_step (CDealloc p) (v, a) = (v(p := None), pool_dealloc p (fst (the (v p))) a)"

fun client_run :: "client_op list \<Rightarrow> client_view \<times> 'w uefi_allocator \<Rightarrow> client_view \<times> 'w uefi_allocator" where
  "client_run [] s = s"
| "client_run (c # cs) s = client_run cs (client_step c s)"

fun client_keeps :: "client_op list \<Rightarrow> client_view \<times> 'w uefi_allocator \<Rightarrow> bool" where
  "client_keeps [] s = True"
| "client_keeps (c # cs) s = (client_ok c (fst s) \<and> client_keeps cs (client_step c s))"

text \<open>The block of the pool behind an allocation, as \<open>dealloc\<close> finds it.\<close>

definition pool_of :: "memory \<Rightarrow> u64 \<Rightarrow> layout \<Rightarrow> u64 \<times> u64" where
  "pool_of m p l = (if lay_align l \<le> 8 then (p, lay_size l)
     else (load_ptr m (p - 8), lay_size l + lay_align l + 8))"

definition head_room :: "layout \<Rightarrow> nat" where
  "head_room l = (if lay_align l \<le> 8 then 0 else 8)"

definition placed :: "u64 \<times> u64 \<Rightarrow> u64 \<Rightarrow> layout \<Rightarrow> bool" where
  "placed b p l \<longleftrightarrow> p \<noteq> 0 \<and> unat p mod unat (lay_align l) = 0 \<and>
     unat (fst b) + head_room l \<le> unat p \<and>
     unat p + unat (lay_size l) \<le> unat (fst b) + unat (snd b) \<and> unat (fst b) + unat (snd b) \<le> 2 ^ 64"

definition entry_ok :: "memory \<Rightarrow> u64 \<Rightarrow> layout \<Rightarrow> bytes \<Rightarrow> bool" where
  "entry_ok m p l bs \<longleftrightarrow> layout_ok l \<and> lay_size l \<noteq> 0 \<and> length bs = unat (lay_size l) \<and>
     read_mem m p (length bs) = bs \<and> placed (pool_of m p l) p l"

definition seat :: "memory \<Rightarrow> client_view \<Rightarrow> u64 \<Rightarrow> u64 \<times> u64" where
  "seat m v p = pool_of m p (fst (the (v p)))"

definition owned :: "memory \<Rightarrow> client_view \<Rightarrow> (u64 \<times> u64) set" where
  "owned m v = seat m v ` dom v"

definition seated :: "memory \<Rightarrow> client_view \<Rightarrow> bool" where
  "seated m v \<longleftrightarrow> (\<forall>p l bs. v p = Some (l, bs) \<longrightarrow> entry_ok m p l bs) \<and> inj_on (seat m v) (dom v)"

text \<open>
  The invariant: every allocation is seated in a block of its own and reads as expected, and
  the firmware has given out exactly these blocks besides the ones \<open>F\<close> it had given to others.
\<close>

definition heap_inv ::
  "('w \<Rightarrow> (u64 \<times> u64) set) \<Rightarrow> (u64 \<times> u64) set \<Rightarrow> client_view \<Rightarrow> 'w uefi_allocator \<Rightarrow> bool" where
  "heap_inv blocks F v a \<longleftrightarrow> (case ua_firmware a of (w, m) \<Rightarrow>
     seated m v \<and> blocks w = F \<union> owned m v \<and> F \<inter> owned m v = {} \<and> blocks_ok (blocks w))"

lemma in_owned: "v p = Some (l, bs) \<Longrightarrow> pool_of m p l \<in> owned m v"
  by (force simp: owned_def seat_def)

lemma entry_span:
  assumes "entry_ok m p l bs" and "i < unat (lay_size l)"
  shows "unat (p + of_nat i) = unat p + i" and "p + of_nat i \<in> span (pool_of m p l)"
proof -
  have b: "unat (fst (pool_of m p l)) \<le> unat p" "unat p + i < unat (fst (pool_of m p l)) + unat (snd (pool_of m p l))"
    "unat p + i < 2 ^ 64"
    using assms by (auto simp: entry_ok_def placed_def)
  from unat_offset [OF b(3)] show "unat (p + of_nat i) = unat p + i" .
  with b show "p + of_nat i \<in> span (pool_of m p l)" by (simp add: span_def)
qed

lemma back_span:
  assumes "entry_ok m p l bs" and "\<not> lay_align l \<le> 8" and "i < 8"
  shows "unat (p - 8 + of_nat i) = unat p - 8 + i" and "p - 8 + of_nat i \<in> span (pool_of m p l)"
    and "8 \<le> unat p"
proof -
  have b: "unat (fst (pool_of m p l)) + 8 \<le> unat p" "unat p < unat (fst (pool_of m p l)) + unat (snd (pool_of m p l))"
    "unat p < 2 ^ 64"
    using assms unat_below [of p] unat_gt_0 [of "lay_size l"]
    by (auto simp: entry_ok_def placed_def head_room_def)
  then show "8 \<le> unat p" by simp
  with b unat_back [of p] assms(3) show "unat (p - 8 + of_nat i) = unat p - 8 + i"
    by (subst unat_offset) auto
  with b assms(3) show "p - 8 + of_nat i \<in> span (pool_of m p l)"
    unfolding span_def mem_Collect_eq by linarith
qed

lemma entry_frame:
  assumes e: "entry_ok m p l bs" and same: "\<And>x. x \<in> span (pool_of m p l) \<Longrightarrow> m' x = m x"
  shows "pool_of m' p l = pool_of m p l" and "entry_ok m' p l bs"
proof -
  have "read_mem m' (p - 8) 8 = read_mem m (p - 8) 8" if "\<not> lay_align l \<le> 8"
    using back_span [OF e that] same by (intro read_mem_cong) auto
  then show p: "pool_of m' p l = pool_of m p l" by (auto simp: pool_of_def load_ptr_def)
  have "length bs = unat (lay_size l)" using e by (simp add: entry_ok_def)
  then have "read_mem m' p (length bs) = read_mem m p (length bs)"
    using entry_span [OF e] same by (intro read_mem_cong) auto
  with e p show "entry_ok m' p l bs" unfolding entry_ok_def by metis
qed

lemma seated_frame:
  assumes s: "seated m v" and same: "same_on (owned m v) m m'"
  shows "seated m' v" and "owned m' v = owned m v"
proof -
  have p: "pool_of m' p l = pool_of m p l" and e: "entry_ok m' p l bs" if "v p = Some (l, bs)" for p l bs
    using s same that in_owned [of v p l bs m, OF that]
    by (auto simp: seated_def same_on_def intro: entry_frame [of m p l bs])
  then have q: "\<And>p. p \<in> dom v \<Longrightarrow> seat m' v p = seat m v p" by (auto simp: seat_def)
  then show "owned m' v = owned m v" by (auto simp: owned_def)
  have "inj_on (seat m' v) (dom v)" using s q by (auto simp: seated_def inj_on_def)
  with e show "seated m' v" by (auto simp: seated_def)
qed

lemma seated_add:
  assumes s: "seated m v" and e: "entry_ok m p l bs" and new: "pool_of m p l \<notin> owned m v" and p: "v p = None"
  shows "seated m (v(p \<mapsto> (l, bs)))" and "owned m (v(p \<mapsto> (l, bs))) = insert (pool_of m p l) (owned m v)"
proof -
  let ?v = "v(p \<mapsto> (l, bs))"
  have q: "seat m ?v q = (if q = p then pool_of m p l else seat m v q)" for q by (simp add: seat_def)
  show "owned m ?v = insert (pool_of m p l) (owned m v)"
    using p by (auto simp: owned_def q image_def)
  have "inj_on (seat m ?v) (dom ?v)"
    using s new by (auto simp: seated_def inj_on_def q owned_def dom_def image_def split: if_splits) metis
  with s e show "seated m ?v" by (auto simp: seated_def)
qed

lemma seated_remove:
  assumes s: "seated m v" and p: "v p = Some (l, bs)"
  shows "seated m (v(p := None))" and "owned m (v(p := None)) = owned m v - {pool_of m p l}"
proof -
  let ?v = "v(p := None)"
  have q: "q \<noteq> p \<Longrightarrow> seat m ?v q = seat m v q" for q by (simp add: seat_def)
  have l: "pool_of m p l = seat m v p" using p by (simp add: seat_def)
  show "seated m ?v" using s by (auto simp: seated_def inj_on_def q)
  have "inj_on (seat m v) (dom v)" using s by (simp add: seated_def)
  with p show "owned m ?v = owned m v - {pool_of m p l}"
    unfolding owned_def l by (auto simp: q inj_on_def dom_def image_def)
qed

subsection \<open>Every operation keeps the invariant\<close>

lemma same_on_mono: "same_on B m m' \<Longrightarrow> C \<subseteq> B \<Longrightarrow> same_on C m m'"
  by (auto simp: same_on_def)

lemma same_on_trans: "same_on B m m' \<Longrightarrow> same_on B m' m'' \<Longrightarrow> same_on B m m''"
  by (simp add: same_on_def)

lemma allocated:
  assumes "pool_honest blocks bs" and "ps_allocate_pool bs n (w, m) = ((status, p), w', m')"
    and "n \<noteq> 0" and "blocks_ok (blocks w)"
  shows "same_on (blocks w) m m'"
    and "status \<noteq> SUCCESS \<Longrightarrow> blocks w' = blocks w"
    and "status = SUCCESS \<Longrightarrow> p AND 7 = 0 \<and> (p, n) \<notin> blocks w \<and> blocks w' = insert (p, n) (blocks w) \<and>
      blocks_ok (blocks w')"
  using assms(1) [unfolded pool_honest_def, THEN conjunct1, rule_format, OF assms(2-4)] by auto

lemma freed:
  assumes "pool_honest blocks bs" and "(p, n) \<in> blocks w" and "blocks_ok (blocks w)"
    and "ps_free_pool bs p (w, m) = (w', m')"
  shows "blocks w' = blocks w - {(p, n)}" and "same_on (blocks w') m m'"
  using assms(1) [unfolded pool_honest_def, THEN conjunct2, rule_format, OF assms(2,3,4)] by (rule conjunct1, rule conjunct2)

lemma blocks_disjoint:
  "blocks_ok B \<Longrightarrow> b \<in> B \<Longrightarrow> c \<in> B \<Longrightarrow> b \<noteq> c \<Longrightarrow> x \<in> span b \<Longrightarrow> x \<notin> span c"
  by (auto simp: blocks_ok_def simp del: fst_conv)

lemma heap_inv_iff:
  "ua_firmware a = (w, m) \<Longrightarrow> heap_inv blocks F v a \<longleftrightarrow>
     seated m v \<and> blocks w = F \<union> owned m v \<and> F \<inter> owned m v = {} \<and> blocks_ok (blocks w)"
  by (simp only: heap_inv_def prod.case)

lemma heap_inv_update:
  assumes "seated m v" and "blocks w = F \<union> owned m v" and "F \<inter> owned m v = {}" and "blocks_ok (blocks w)"
  shows "heap_inv blocks F v (a\<lparr>ua_firmware := (w, m)\<rparr>)"
  using assms by (subst heap_inv_iff [of _ w m]) (simp, blast)

lemma heap_inv_frame:
  assumes "heap_inv blocks F v a" and "ua_firmware a = (w, m)" and "same_on (owned m v) m m'" and "blocks w' = blocks w"
  shows "heap_inv blocks F v (a'\<lparr>ua_firmware := (w', m')\<rparr>)"
proof -
  from assms(1) have i: "seated m v" "blocks w = F \<union> owned m v" "F \<inter> owned m v = {}" "blocks_ok (blocks w)"
    unfolding heap_inv_iff [OF assms(2)] by blast+
  show ?thesis
    by (rule heap_inv_update) (simp_all only: seated_frame [OF i(1) assms(3)] assms(4) i(3,4) i(2) [symmetric])
qed

text \<open>A block just given out, and an entry seated in it.\<close>

lemma heap_inv_add:
  assumes inv: "heap_inv blocks F v a" and wm: "ua_firmware a = (w, m)" and same: "same_on (blocks w) m m'"
    and new: "b \<notin> blocks w" "blocks w' = insert b (blocks w)" "blocks_ok (blocks w')"
    and e: "entry_ok m' p l bs" and b: "pool_of m' p l = b"
  shows "heap_inv blocks F (v(p \<mapsto> (l, bs))) (a'\<lparr>ua_firmware := (w', m')\<rparr>)"
proof -
  from inv have i: "seated m v" "blocks w = F \<union> owned m v" "F \<inter> owned m v = {}"
    unfolding heap_inv_iff [OF wm] by blast+
  have s: "seated m' v" "owned m' v = owned m v"
    using seated_frame [OF i(1) same_on_mono [OF same]] i(2) by blast+
  have "v p = None"
  proof (rule ccontr)
    assume "v p \<noteq> None"
    then obtain l' bs' where v: "v p = Some (l', bs')" by auto
    then have "entry_ok m' p l' bs'" using s(1) by (simp add: seated_def)
    from entry_span(2) [OF this, of 0] this have "p \<in> span (pool_of m' p l')"
      by (auto simp: entry_ok_def unat_gt_0)
    moreover from entry_span(2) [OF e, of 0] e b have "p \<in> span b" by (auto simp: entry_ok_def unat_gt_0)
    moreover have "pool_of m' p l' \<in> blocks w" using in_owned [of v p l' bs' m', OF v] s(2) i(2) by auto
    ultimately show False
      using blocks_disjoint [OF new(3), of "pool_of m' p l'" b p] new(1,2) by auto
  qed
  have n: "pool_of m' p l \<notin> owned m' v" "b \<notin> F" using new(1) i(2) s(2) b by auto
  note add = seated_add [OF s(1) e n(1) \<open>v p = None\<close>]
  show ?thesis
  proof (rule heap_inv_update)
    show "seated m' (v(p \<mapsto> (l, bs)))" "blocks_ok (blocks w')" by (fact add(1)) (fact new(3))
    show "blocks w' = F \<union> owned m' (v(p \<mapsto> (l, bs)))"
      by (simp only: new(2) i(2) add(2) b s(2) Un_insert_right)
    show "F \<inter> owned m' (v(p \<mapsto> (l, bs))) = {}" using i(3) n(2) by (simp only: add(2) b s(2)) auto
  qed
qed

lemma small_align:
  assumes "layout_ok l" and "lay_align l \<le> 8" and "r AND 7 = 0"
  shows "unat r mod unat (lay_align l) = 0"
proof -
  obtain k where k: "k < 63" "lay_align l = 2 ^ k" "unat (lay_align l) = 2 ^ k"
    using assms(1) by (rule layout_align)
  with assms(2) have "(2 :: nat) ^ k \<le> 2 ^ 3" by (simp add: word_le_nat_alt)
  then have "k \<le> 3" by (rule power_le_imp_le_exp [rotated]) simp
  then have "(2 :: nat) ^ k dvd 2 ^ 3" by (rule le_imp_power_dvd)
  moreover have "(2 :: nat) ^ 3 dvd unat r"
  proof -
    have "take_bit 3 r = 0" using assms(3) by (simp add: take_bit_eq_mask mask_eq_exp_minus_1)
    then have "unat r mod 2 ^ 3 = 0"
      using trans [OF unsigned_take_bit_eq take_bit_eq_mod, of 3 r] by simp
    then show ?thesis by (simp only: dvd_eq_mod_eq_0)
  qed
  ultimately have "(2 :: nat) ^ k dvd unat r" by (rule dvd_trans)
  then show ?thesis by (simp add: k(3))
qed

lemma alloc_keeps:
  fixes a :: "'w uefi_allocator"
  assumes h: "pool_honest blocks bs" and bs: "ua_boot_services a = Some bs"
    and inv: "heap_inv blocks F v a" and l: "layout_ok l" "lay_size l \<noteq> 0"
  shows "case client_step (CAlloc l) (v, a) of (v', a') \<Rightarrow> ua_boot_services a' = Some bs \<and> heap_inv blocks F v' a'"
proof -
  obtain w m where wm: "ua_firmware a = (w, m)" by force
  from inv have ok: "blocks_ok (blocks w)" and own: "owned m v \<subseteq> blocks w"
    unfolding heap_inv_iff [OF wm] by blast+
  define n where "n = (if lay_align l \<le> 8 then lay_size l else lay_size l + lay_align l + 8)"
  have n: "n \<noteq> 0" using l layout_total(2) [OF l(1)] unat_eq_zero [of n] by (auto simp: n_def)
  obtain status raw w' m' where call: "ps_allocate_pool bs n (w, m) = ((status, raw), w', m')" by (metis prod.exhaust)
  note a = allocated [OF h call n ok]
  show ?thesis
  proof (cases "status = SUCCESS")
    case False
    then have "client_step (CAlloc l) (v, a) = (v, a\<lparr>ua_firmware := (w', m')\<rparr>)"
      using bs wm call layout_total(1) [OF l(1)] by (simp add: pool_alloc_def n_def split: if_splits)
    with heap_inv_frame [OF inv wm same_on_mono [OF a(1) own] a(2) [OF False]] bs show ?thesis by simp
  next
    case True
    note b = a(3) [OF True]
    from b have raw: "raw \<noteq> 0" "unat raw + unat n \<le> 2 ^ 64" by (auto simp: blocks_ok_def)
    show ?thesis
    proof (cases "lay_align l \<le> 8")
      case True
      then have n: "n = lay_size l" by (simp add: n_def)
      have "unat raw mod unat (lay_align l) = 0" using b by (intro small_align [OF l(1) True]) simp
      then have e: "entry_ok m' raw l (read_mem m' raw (unat (lay_size l)))" "pool_of m' raw l = (raw, n)"
        using l raw True n by (simp_all add: entry_ok_def placed_def pool_of_def head_room_def)
      have "client_step (CAlloc l) (v, a) =
          (v(raw \<mapsto> (l, read_mem m' raw (unat (lay_size l)))), a\<lparr>ua_firmware := (w', m')\<rparr>)"
        using bs wm call \<open>status = SUCCESS\<close> True raw n by (simp add: pool_alloc_def)
      moreover have "heap_inv blocks F (v(raw \<mapsto> (l, read_mem m' raw (unat (lay_size l))))) (a\<lparr>ua_firmware := (w', m')\<rparr>)"
        using b by (intro heap_inv_add [OF inv wm a(1) _ _ _ e(1) e(2)]) blast+
      ultimately show ?thesis using bs by simp
    next
      case False
      then have n: "n = lay_size l + lay_align l + 8" by (simp add: n_def)
      define p where "p = (raw + 8 + lay_align l - 1) AND NOT (lay_align l - 1)"
      define m'' where "m'' = store_ptr (p - 8) raw m'"
      note p = aligned_up [OF l(1) False l(2) raw(2) [unfolded n], folded p_def]
      have "p \<noteq> 0" using p(3) by auto
      have e: "pool_of m'' p l = (raw, n)" using False n by (simp add: pool_of_def m''_def load_store_ptr)
      with l raw p \<open>p \<noteq> 0\<close> False n have e1: "entry_ok m'' p l (read_mem m'' p (unat (lay_size l)))"
        by (simp add: entry_ok_def placed_def head_room_def)
      have "unat (p - 8) = unat p - 8" using p(3) by (intro unat_back) simp
      then have "\<forall>x. x \<notin> span (raw, n) \<longrightarrow> m'' x = m' x"
        using p raw n by (auto simp: m''_def span_def intro!: store_ptr_other)
      moreover have "x \<notin> span (raw, n)" if "c \<in> blocks w" "x \<in> span c" for c x
        using b that by (intro blocks_disjoint [of "blocks w'" c]) auto
      ultimately have "same_on (blocks w) m' m''" unfolding same_on_def by blast
      with a(1) have same: "same_on (blocks w) m m''" by (rule same_on_trans)
      have "client_step (CAlloc l) (v, a) =
          (v(p \<mapsto> (l, read_mem m'' p (unat (lay_size l)))), a\<lparr>ua_firmware := (w', m'')\<rparr>)"
        using bs wm call \<open>status = SUCCESS\<close> False \<open>p \<noteq> 0\<close> layout_total(1) [OF l(1)]
        by (simp add: pool_alloc_def n Let_def p_def m''_def)
      moreover have "heap_inv blocks F (v(p \<mapsto> (l, read_mem m'' p (unat (lay_size l))))) (a\<lparr>ua_firmware := (w', m'')\<rparr>)"
        using b by (intro heap_inv_add [OF inv wm same _ _ _ e1 e]) blast+
      ultimately show ?thesis using bs by simp
    qed
  qed
qed

lemma dealloc_keeps:
  fixes a :: "'w uefi_allocator"
  assumes h: "pool_honest blocks bs" and bs: "ua_boot_services a = Some bs"
    and inv: "heap_inv blocks F v a" and p: "v p = Some (l, bytes)"
  shows "case client_step (CDealloc p) (v, a) of (v', a') \<Rightarrow> ua_boot_services a' = Some bs \<and> heap_inv blocks F v' a'"
proof -
  obtain w m where wm: "ua_firmware a = (w, m)" by force
  from inv have i: "seated m v" "blocks w = F \<union> owned m v" "F \<inter> owned m v = {}" "blocks_ok (blocks w)"
    unfolding heap_inv_iff [OF wm] by blast+
  let ?b = "pool_of m p l" and ?v = "v(p := None)"
  obtain w' m' where call: "ps_free_pool bs (fst ?b) (w, m) = (w', m')" by force
  have own: "?b \<in> owned m v" using in_owned [of v p l bytes m, OF p] .
  then have "(fst ?b, snd ?b) \<in> blocks w" using i(2) by simp
  note f = freed [OF h this i(4) call, unfolded prod.collapse]
  note r = seated_remove [OF i(1) p]
  have ok: "blocks_ok (blocks w')" using i(4) f(1) by (simp add: blocks_ok_def)
  have "blocks w' = F \<union> owned m ?v" using i(2,3) f(1) own unfolding r(2) by blast
  moreover from this f(2) have "same_on (owned m ?v) m m'" by (blast intro: same_on_mono)
  ultimately have "heap_inv blocks F ?v (a\<lparr>ua_firmware := (w', m')\<rparr>)"
    using i(3) seated_frame [OF r(1), of m'] ok r(2) by (intro heap_inv_update) auto
  moreover have "client_step (CDealloc p) (v, a) = (?v, a\<lparr>ua_firmware := (w', m')\<rparr>)"
    using bs p wm call by (simp add: pool_dealloc_def pool_of_def Let_def split: if_splits)
  ultimately show ?thesis using bs by simp
qed

lemma store_keeps:
  assumes bs: "ua_boot_services a = Some bs"
    and inv: "heap_inv blocks F v a" and p: "v p = Some (l, bytes)" and i: "i < length bytes"
  shows "case client_step (CStore p i b) (v, a) of (v', a') \<Rightarrow> ua_boot_services a' = Some bs \<and> heap_inv blocks F v' a'"
proof -
  obtain w m where wm: "ua_firmware a = (w, m)" by force
  from inv have s: "seated m v" "blocks w = F \<union> owned m v" "F \<inter> owned m v = {}" "blocks_ok (blocks w)"
    unfolding heap_inv_iff [OF wm] by blast+
  let ?x = "p + of_nat i" and ?v = "v(p \<mapsto> (l, bytes[i := b]))"
  define m' where "m' = m(?x := b)"
  have e: "entry_ok m p l bytes" using s(1) p by (simp add: seated_def)
  then have len: "length bytes = unat (lay_size l)" by (simp add: entry_ok_def)
  note x = entry_span [OF e, of i, folded len, OF i]
  have other: "pool_of m' q l' = pool_of m q l' \<and> entry_ok m' q l' bs'" if q: "v q = Some (l', bs')" "q \<noteq> p" for q l' bs'
  proof -
    have "seat m v q \<noteq> seat m v p"
      using s(1) q p inj_onD [of "seat m v" "dom v" q p] by (auto simp: seated_def domI)
    then have "pool_of m q l' \<noteq> pool_of m p l" using q p by (simp add: seat_def)
    then have "?x \<notin> span (pool_of m q l')"
      using x(2) s(2,4) in_owned [of v q l' bs' m, OF q(1)] in_owned [of v p l bytes m, OF p]
      by (intro blocks_disjoint [of "blocks w" "pool_of m p l"]) auto
    then have "\<And>y. y \<in> span (pool_of m q l') \<Longrightarrow> m' y = m y" by (auto simp: m'_def)
    moreover have "entry_ok m q l' bs'" using s(1) q by (simp add: seated_def)
    ultimately show ?thesis using entry_frame by blast
  qed
  have "read_mem m' (p - 8) 8 = read_mem m (p - 8) 8" if big: "\<not> lay_align l \<le> 8"
  proof (rule read_mem_cong)
    fix j :: nat assume "j < 8"
    from back_span(1,3) [OF e big this] x(1) \<open>j < 8\<close> have "unat (p - 8 + of_nat j) \<noteq> unat ?x" by simp
    then have "p - 8 + of_nat j \<noteq> ?x" by metis
    then show "m' (p - 8 + of_nat j) = m (p - 8 + of_nat j)" by (simp only: m'_def fun_upd_apply if_False)
  qed
  then have pool: "pool_of m' p l = pool_of m p l" by (auto simp: pool_of_def load_ptr_def)
  have "read_mem m' p (length bytes) = (read_mem m p (length bytes))[i := b]"
  proof (rule nth_equalityI)
    fix j assume "j < length (read_mem m' p (length bytes))"
    then have j: "j < length bytes" by simp
    from entry_span(1) [OF e, of j] j x(1) len have "p + of_nat j = ?x \<longleftrightarrow> j = i" by (metis add_left_cancel)
    with j i show "read_mem m' p (length bytes) ! j = (read_mem m p (length bytes))[i := b] ! j"
      by (auto simp: m'_def nth_list_update)
  qed simp
  moreover have "read_mem m p (length bytes) = bytes" using e unfolding entry_ok_def by blast
  ultimately have here: "entry_ok m' p l (bytes[i := b])"
    using e pool unfolding entry_ok_def by (simp only: length_list_update simp_thms)
  have seat: "seat m' ?v q = seat m v q" if "q \<in> dom v" for q
    using other pool p that by (cases "q = p") (auto simp: seat_def)
  then have "inj_on (seat m' ?v) (dom ?v)"
    using s(1) p inj_on_cong [of "dom v" "seat m' ?v" "seat m v"] by (auto simp: seated_def insert_absorb domI)
  then have "seated m' ?v" using here other by (auto simp: seated_def)
  moreover have "owned m' ?v = owned m v"
    using seat p by (auto simp: owned_def insert_absorb domI)
  ultimately have "heap_inv blocks F ?v (a\<lparr>ua_firmware := (w, m')\<rparr>)"
    using s by (intro heap_inv_update) simp_all
  then show ?thesis using bs p wm by (simp add: m'_def)
qed

text \<open>So a client that keeps the contract never leaves the invariant.\<close>

lemma step_keeps:
  assumes "pool_honest blocks bs" and "ua_boot_services a = Some bs" and "heap_inv blocks F v a" and "client_ok c v"
  shows "case client_step c (v, a) of (v', a') \<Rightarrow> ua_boot_services a' = Some bs \<and> heap_inv blocks F v' a'"
proof (cases c)
  case (CAlloc l)
  with assms(4) have "layout_ok l" "lay_size l \<noteq> 0" by simp_all
  from alloc_keeps [OF assms(1-3) this] CAlloc show ?thesis by simp
next
  case (CStore p i b)
  with assms obtain l bytes where "v p = Some (l, bytes)" "i < length bytes" by (auto split: option.splits)
  from store_keeps [OF assms(2,3) this, of b] CStore show ?thesis by simp
next
  case (CDealloc p)
  with assms obtain l bytes where "v p = Some (l, bytes)" by auto
  from dealloc_keeps [OF assms(1-3) this] CDealloc show ?thesis by simp
qed

lemma run_keeps:
  assumes "pool_honest blocks bs"
  shows "ua_boot_services a = Some bs \<Longrightarrow> heap_inv blocks F v a \<Longrightarrow> client_keeps cs (v, a) \<Longrightarrow>
    client_run cs (v, a) = (v', a') \<Longrightarrow> ua_boot_services a' = Some bs \<and> heap_inv blocks F v' a'"
proof (induction cs arbitrary: v a)
  case (Cons c cs)
  obtain v1 a1 where 1: "client_step c (v, a) = (v1, a1)" by force
  from step_keeps [OF assms Cons.prems(1,2), of c] Cons.prems(3) 1
  have "ua_boot_services a1 = Some bs" "heap_inv blocks F v1 a1" by auto
  with Cons.IH [of a1 v1] Cons.prems(3,4) 1 show ?case by simp
qed simp

text \<open>Two allocations held never overlap.\<close>

lemma seated_apart:
  assumes s: "seated m v" and ok: "blocks_ok B" and own: "owned m v \<subseteq> B"
    and p: "v p = Some (l, bytes)" and q: "v q = Some (k, bytes')" and "p \<noteq> q"
  shows "span (p, lay_size l) \<inter> span (q, lay_size k) = {}"
proof -
  have "seat m v p \<noteq> seat m v q" using s p q \<open>p \<noteq> q\<close> inj_onD [of "seat m v" "dom v" p q]
    by (auto simp: seated_def domI)
  then have ne: "pool_of m p l \<noteq> pool_of m q k" using p q by (simp add: seat_def)
  have inside: "span (r, lay_size j) \<subseteq> span (pool_of m r j)" if "v r = Some (j, bs)" for r j bs
  proof -
    have "entry_ok m r j bs" using s that by (simp add: seated_def)
    then show ?thesis by (auto simp: entry_ok_def placed_def span_def)
  qed
  have "x \<notin> span (pool_of m q k)" if "x \<in> span (pool_of m p l)" for x
    using blocks_disjoint [OF ok _ _ ne that] own in_owned [of v p l bytes m, OF p] in_owned [of v q k bytes' m, OF q]
    by blast
  with inside [OF p] inside [OF q] show ?thesis by blast
qed

end
