(* ===== verification/TianoDispatch.thy ===== *)
theory TianoDispatch
  imports Main
begin

text \<open>
  patina_tianocore, \<open>platform.rs\<close> and \<open>context.rs\<close>: what a platform registers and the
  dispatcher that initialises and runs its components. The storage, and what initialising or
  running a component does to it, belong to the patina crate and are parameters.
\<close>

subsection \<open>Platforms, components and the storage\<close>

text \<open>
  The three methods of a \<open>Platform\<close> only see the adders, so an implementation is the lists of
  what it adds, in order.
\<close>

record ('g, 'v, 'c) platform =
  pl_configs :: "'g list"
  pl_services :: "'v list"
  pl_components :: "'c list"

record ('g, 'v, 's) storage_ops =
  so_add_config :: "'g \<Rightarrow> 's \<Rightarrow> 's"
  so_add_service :: "'v \<Rightarrow> 's \<Rightarrow> 's"
  so_lock_configs :: "'s \<Rightarrow> 's"

text \<open>
  \<open>run\<close> answers \<open>Ok(true)\<close> for a component that was dispatched, \<open>Ok(false)\<close> for one whose
  parameters are not there yet, or the error of its entry point.
\<close>

record ('c, 's, 'e) component_ops =
  co_initialize :: "'c \<Rightarrow> 's \<Rightarrow> bool \<times> 'c \<times> 's"
  co_run :: "'c \<Rightarrow> 's \<Rightarrow> ('e + bool) \<times> 'c \<times> 's"

text \<open>The messages of the dispatcher.\<close>

datatype ('c, 'e) remark = NotInitialized 'c | Failed 'c 'e | NeverDispatched 'c

subsection \<open>The adders\<close>

definition component_list_component :: "'c \<Rightarrow> 'c list \<Rightarrow> 'c list" where
  "component_list_component c components = components @ [c]"

definition service_list_service :: "('g, 'v, 's) storage_ops \<Rightarrow> 'v \<Rightarrow> 's \<Rightarrow> 's" where
  "service_list_service so v s = so_add_service so v s"

definition config_list_config :: "('g, 'v, 's) storage_ops \<Rightarrow> 'g \<Rightarrow> 's \<Rightarrow> 's" where
  "config_list_config so g s = so_add_config so g s"

definition collect :: "('g, 'v, 's) storage_ops \<Rightarrow> ('g, 'v, 'c) platform \<Rightarrow> 's \<Rightarrow> 'c list \<times> 's" where
  "collect so P s = (let s1 = fold (config_list_config so) (pl_configs P) s;
       s2 = fold (service_list_service so) (pl_services P) s1
     in (fold component_list_component (pl_components P) [], s2))"

lemma fold_component_list: "fold component_list_component cs acc = acc @ cs"
  by (induction cs arbitrary: acc) (simp_all add: component_list_component_def)

lemma fst_collect [simp]: "fst (collect so P s) = pl_components P"
  by (simp add: collect_def Let_def fold_component_list)

subsection \<open>The dispatcher\<close>

fun initialize_all :: "('c, 's, 'e) component_ops \<Rightarrow> 'c list \<Rightarrow> 's \<Rightarrow> 'c list \<times> 's \<times> ('c, 'e) remark list" where
  "initialize_all co [] s = ([], s, [])"
| "initialize_all co (c # cs) s = (case co_initialize co c s of (good, c', s') \<Rightarrow>
     (case initialize_all co cs s' of (ready, s'', ns) \<Rightarrow>
       if good then (c' # ready, s'', ns) else (ready, s'', NotInitialized c' # ns)))"

text \<open>One \<open>retain_mut\<close> over the ready components, with the flag \<open>dispatched\<close>.\<close>

fun dispatch_pass ::
  "('c, 's, 'e) component_ops \<Rightarrow> 'c list \<Rightarrow> 's \<Rightarrow> 'c list \<times> bool \<times> 's \<times> ('c, 'e) remark list" where
  "dispatch_pass co [] s = ([], False, s, [])"
| "dispatch_pass co (c # cs) s = (case co_run co c s of (r, c', s') \<Rightarrow>
     (case dispatch_pass co cs s' of (kept, dispatched, s'', ns) \<Rightarrow>
       (case r of
          Inr True \<Rightarrow> (kept, True, s'', ns)
        | Inr False \<Rightarrow> (c' # kept, dispatched, s'', ns)
        | Inl e \<Rightarrow> (kept, dispatched, s'', Failed c' e # ns))))"

lemma dispatch_pass_length:
  "dispatch_pass co cs s = (kept, d, s', ns) \<Longrightarrow> length kept \<le> length cs \<and> (d \<longrightarrow> length kept < length cs)"
  by (induction cs arbitrary: s kept d ns)
     (fastforce split: prod.splits sum.splits bool.splits)+

text \<open>The \<open>loop\<close>: a pass that dispatched something is followed by another.\<close>

function dispatch_loop ::
  "('c, 's, 'e) component_ops \<Rightarrow> 'c list \<Rightarrow> 's \<Rightarrow> 'c list \<times> 's \<times> ('c, 'e) remark list" where
  "dispatch_loop co ready s = (case dispatch_pass co ready s of (kept, dispatched, s', ns) \<Rightarrow>
     if dispatched then (case dispatch_loop co kept s' of (left, s'', ns') \<Rightarrow> (left, s'', ns @ ns'))
     else (kept, s', ns))"
  by pat_completeness auto
termination
  by (relation "measure (\<lambda>(co, ready, s). length ready)") (auto dest: dispatch_pass_length [OF sym])

declare dispatch_loop.simps [simp del]

definition dispatch_platform ::
  "('g, 'v, 's) storage_ops \<Rightarrow> ('c, 's, 'e) component_ops \<Rightarrow> ('g, 'v, 'c) platform \<Rightarrow> 's \<Rightarrow>
    ('e + unit) \<times> 'c list \<times> 's \<times> ('c, 'e) remark list" where
  "dispatch_platform so co P s0 = (case collect so P s0 of (components, s) \<Rightarrow>
     (case initialize_all co components s of (ready, s1, n1) \<Rightarrow>
     (case dispatch_loop co ready s1 of (ready2, s2, n2) \<Rightarrow>
     (case dispatch_loop co ready2 (so_lock_configs so s2) of (left, s3, n3) \<Rightarrow>
       (Inr (), left, s3, n1 @ n2 @ n3 @ map NeverDispatched left)))))"

subsection \<open>What every dispatch satisfies\<close>

text \<open>
  A pass without progress leaves exactly the components that answered \<open>Ok(false)\<close>; each of the
  others failed.
\<close>

lemma dispatch_pass_counts:
  "dispatch_pass co cs s = (kept, d, s', ns) \<Longrightarrow> \<not> d \<Longrightarrow> length kept + length ns = length cs"
  by (induction cs arbitrary: s kept d ns)
     (fastforce split: prod.splits sum.splits bool.splits)+

lemma dispatch_loop_stuck:
  "dispatch_loop co ready s = (left, s', ns) \<Longrightarrow>
     \<exists>ready1 s1 ns1. dispatch_pass co ready1 s1 = (left, False, s', ns1) \<and> length ready1 \<le> length ready"
proof (induction co ready s arbitrary: left ns rule: dispatch_loop.induct)
  case (1 co ready s)
  obtain kept d s1 n1 where p: "dispatch_pass co ready s = (kept, d, s1, n1)" by (metis prod.exhaust)
  show ?case
  proof (cases d)
    case True
    obtain l2 s2 n2 where l: "dispatch_loop co kept s1 = (l2, s2, n2)" by (metis prod.exhaust)
    with 1(2) p True have "l2 = left" "s2 = s'" by (simp_all add: dispatch_loop.simps [of co ready])
    with 1(1) [OF p [symmetric] refl refl True] l dispatch_pass_length [OF p] show ?thesis by fastforce
  next
    case False
    with 1(2) p show ?thesis by (auto simp: dispatch_loop.simps [of co ready])
  qed
qed

subsection \<open>Dispatch by dependencies\<close>

text \<open>
  The least set of keys that contains \<open>K\<close> and, with the needs of a component of \<open>C\<close>, what
  the component gives.
\<close>

inductive_set supplied :: "('c \<Rightarrow> 'k set) \<Rightarrow> ('c \<Rightarrow> 'k set) \<Rightarrow> 'c set \<Rightarrow> 'k set \<Rightarrow> 'k set"
  for needs :: "'c \<Rightarrow> 'k set" and gives :: "'c \<Rightarrow> 'k set" and C :: "'c set" and K :: "'k set" where
  given: "k \<in> K \<Longrightarrow> k \<in> supplied needs gives C K"
| made: "c \<in> C \<Longrightarrow> \<forall>n. n \<in> needs c \<longrightarrow> n \<in> supplied needs gives C K \<Longrightarrow> k \<in> gives c \<Longrightarrow>
    k \<in> supplied needs gives C K"

definition closed_under :: "('c \<Rightarrow> 'k set) \<Rightarrow> ('c \<Rightarrow> 'k set) \<Rightarrow> 'c set \<Rightarrow> 'k set \<Rightarrow> bool" where
  "closed_under needs gives C S \<longleftrightarrow> (\<forall>c \<in> C. needs c \<subseteq> S \<longrightarrow> gives c \<subseteq> S)"

lemma supplied_base: "K \<subseteq> supplied needs gives C K"
  by (rule subsetI) (rule supplied.given)

lemma supplied_closed: "closed_under needs gives C (supplied needs gives C K)"
  unfolding closed_under_def
proof (intro ballI impI subsetI)
  fix c k assume c: "c \<in> C" "needs c \<subseteq> supplied needs gives C K" "k \<in> gives c"
  from c(2) have "\<forall>n. n \<in> needs c \<longrightarrow> n \<in> supplied needs gives C K" by blast
  from c(1) this c(3) show "k \<in> supplied needs gives C K" by (rule supplied.made)
qed

lemma supplied_least:
  assumes "K \<subseteq> S" and "closed_under needs gives C S"
  shows "supplied needs gives C K \<subseteq> S"
proof
  fix k assume "k \<in> supplied needs gives C K"
  then show "k \<in> S"
  proof (induction rule: supplied.induct)
    case (made c k)
    then have "needs c \<subseteq> S" by blast
    with made assms(2) show ?case unfolding closed_under_def by blast
  qed (use assms(1) in blast)
qed

text \<open>
  A component runs exactly when what it needs is in the storage. One that comes back with
  \<open>Ok(true)\<close> has added what it gives; one that fails has added nothing; one that is not ready
  is unchanged. Initialising changes neither a component nor what the storage holds, and what
  is there after the configs are locked depends on what was there before.
\<close>

definition runs_by_needs ::
  "('c, 's, 'e) component_ops \<Rightarrow> ('s \<Rightarrow> 'k set) \<Rightarrow> ('c \<Rightarrow> 'k set) \<Rightarrow> ('c \<Rightarrow> 'k set) \<Rightarrow> bool" where
  "runs_by_needs co avail needs gives \<longleftrightarrow> (\<forall>c s. case co_run co c s of (r, c', s') \<Rightarrow>
     if needs c \<subseteq> avail s
     then (case r of Inr True \<Rightarrow> avail s' = avail s \<union> gives c
            | Inr False \<Rightarrow> False
            | Inl e \<Rightarrow> avail s' = avail s \<and> gives c = {})
     else r = Inr False \<and> c' = c \<and> avail s' = avail s)"

definition init_is_neutral :: "('c, 's, 'e) component_ops \<Rightarrow> ('s \<Rightarrow> 'k set) \<Rightarrow> ('c \<Rightarrow> bool) \<Rightarrow> bool" where
  "init_is_neutral co avail good \<longleftrightarrow> (\<forall>c s. case co_initialize co c s of (g, c', s') \<Rightarrow>
     g = good c \<and> c' = c \<and> avail s' = avail s)"

definition waiting :: "('c \<Rightarrow> 'k set) \<Rightarrow> 'k set \<Rightarrow> 'c list \<Rightarrow> 'c list" where
  "waiting needs S cs = filter (\<lambda>c. \<not> needs c \<subseteq> S) cs"

lemma run_cases:
  assumes "runs_by_needs co avail needs gives" and "co_run co c s = (r, c', s')"
  obtains (ran) "needs c \<subseteq> avail s" "r = Inr True" "avail s' = avail s \<union> gives c"
    | (failed) e where "needs c \<subseteq> avail s" "r = Inl e" "avail s' = avail s" "gives c = {}"
    | (not_ready) "\<not> needs c \<subseteq> avail s" "r = Inr False" "c' = c" "avail s' = avail s"
  using assms(1) [unfolded runs_by_needs_def, rule_format, of c s] assms(2)
  by (auto split: if_splits sum.splits bool.splits)

text \<open>A pass only adds to the storage, and what it drops has run or failed.\<close>

lemma pass_up:
  assumes co: "runs_by_needs co avail needs gives"
  shows "dispatch_pass co cs s = (kept, d, s', ns) \<Longrightarrow>
    avail s \<subseteq> avail s' \<and> set kept \<subseteq> set cs \<and> (\<forall>c \<in> set cs. c \<in> set kept \<or> gives c \<subseteq> avail s')"
proof (induction cs arbitrary: s kept d s' ns)
  case (Cons c cs)
  obtain r c' s1 where r: "co_run co c s = (r, c', s1)" by (metis prod.exhaust)
  obtain k2 d2 s2 n2 where p: "dispatch_pass co cs s1 = (k2, d2, s2, n2)" by (metis prod.exhaust)
  note IH = Cons.IH [OF p]
  from co r show ?case
  proof (cases rule: run_cases)
    case ran
    with Cons.prems r p have "kept = k2" "d" "s' = s2" by auto
    with IH ran show ?thesis by auto
  next
    case (failed e)
    with Cons.prems r p have "kept = k2" "d = d2" "s' = s2" by auto
    with IH failed show ?thesis by auto
  next
    case not_ready
    with Cons.prems r p have "kept = c # k2" "d = d2" "s' = s2" by auto
    with IH not_ready show ?thesis by auto
  qed
qed (simp add: waiting_def)

text \<open>It never goes past a set that is closed under the components.\<close>

lemma pass_below:
  assumes co: "runs_by_needs co avail needs gives"
  shows "dispatch_pass co cs s = (kept, d, s', ns) \<Longrightarrow> avail s \<subseteq> S \<Longrightarrow>
    closed_under needs gives (set cs) S \<Longrightarrow> avail s' \<subseteq> S \<and> waiting needs S kept = waiting needs S cs"
proof (induction cs arbitrary: s kept d s' ns)
  case (Cons c cs)
  obtain r c' s1 where r: "co_run co c s = (r, c', s1)" by (metis prod.exhaust)
  obtain k2 d2 s2 n2 where p: "dispatch_pass co cs s1 = (k2, d2, s2, n2)" by (metis prod.exhaust)
  note IH = Cons.IH [OF p]
  from co r show ?case
  proof (cases rule: run_cases)
    case ran
    with Cons.prems r p have "kept = k2" "d" "s' = s2" by auto
    from ran(1,3) Cons.prems(2,3) have "needs c \<subseteq> S" "avail s1 \<subseteq> S" "closed_under needs gives (set cs) S"
      unfolding closed_under_def by auto
    with IH \<open>kept = k2\<close> \<open>s' = s2\<close> show ?thesis by (simp add: waiting_def)
  next
    case (failed e)
    with Cons.prems r p have "kept = k2" "d = d2" "s' = s2" by auto
    from failed(1,3) Cons.prems(2,3) have "needs c \<subseteq> S" "avail s1 \<subseteq> S" "closed_under needs gives (set cs) S"
      unfolding closed_under_def by auto
    with IH \<open>kept = k2\<close> \<open>s' = s2\<close> show ?thesis by (simp add: waiting_def)
  next
    case not_ready
    with Cons.prems r p have "kept = c # k2" "d = d2" "s' = s2" by auto
    from not_ready(4) Cons.prems(2,3) have "avail s1 \<subseteq> S" "closed_under needs gives (set cs) S"
      unfolding closed_under_def by auto
    with IH \<open>kept = c # k2\<close> \<open>s' = s2\<close> show ?thesis by (simp add: waiting_def)
  qed
qed (simp add: waiting_def)

text \<open>Without progress the storage is as before and exactly the unready ones are kept.\<close>

lemma pass_stop:
  assumes co: "runs_by_needs co avail needs gives"
  shows "dispatch_pass co cs s = (kept, d, s', ns) \<Longrightarrow> \<not> d \<Longrightarrow>
    avail s' = avail s \<and> kept = waiting needs (avail s) cs"
proof (induction cs arbitrary: s kept d s' ns)
  case (Cons c cs)
  obtain r c' s1 where r: "co_run co c s = (r, c', s1)" by (metis prod.exhaust)
  obtain k2 d2 s2 n2 where p: "dispatch_pass co cs s1 = (k2, d2, s2, n2)" by (metis prod.exhaust)
  note IH = Cons.IH [OF p]
  from co r show ?case
  proof (cases rule: run_cases)
    case ran
    with Cons.prems r p have "kept = k2" "d" "s' = s2" by auto
    with Cons.prems show ?thesis by simp
  next
    case (failed e)
    with Cons.prems r p have "kept = k2" "d = d2" "s' = s2" by auto
    with Cons.prems(2) IH failed show ?thesis by (simp add: waiting_def)
  next
    case not_ready
    with Cons.prems r p have "kept = c # k2" "d = d2" "s' = s2" by auto
    with Cons.prems(2) IH not_ready show ?thesis by (simp add: waiting_def)
  qed
qed (simp add: waiting_def)

lemma supplied_eq:
  assumes "K \<subseteq> S" and "closed_under needs gives C S" and "S \<subseteq> supplied needs gives C K"
  shows "S = supplied needs gives C K"
  using assms supplied_least by blast

lemma waiting_waiting: "waiting needs S cs = kept \<Longrightarrow> waiting needs S kept = waiting needs S cs"
  by (auto simp: waiting_def)

lemma loop_by_needs:
  assumes co: "runs_by_needs co avail needs gives"
  shows "dispatch_loop co ready s = (left, s', ns) \<Longrightarrow>
    avail s' = supplied needs gives (set ready) (avail s) \<and> left = waiting needs (avail s') ready"
  using co
proof (induction co ready s arbitrary: left s' ns rule: dispatch_loop.induct)
  case (1 co ready s)
  obtain kept d s1 n1 where p: "dispatch_pass co ready s = (kept, d, s1, n1)" by (metis prod.exhaust)
  let ?S = "supplied needs gives (set ready) (avail s)"
  note base = supplied_base [of "avail s" needs gives "set ready"]
  note closed = supplied_closed [of needs gives "set ready" "avail s"]
  have up: "avail s \<subseteq> avail s1" "set kept \<subseteq> set ready"
    and gone: "\<forall>c \<in> set ready. c \<in> set kept \<or> gives c \<subseteq> avail s1"
    and below: "avail s1 \<subseteq> ?S" "waiting needs ?S kept = waiting needs ?S ready"
    and stop: "\<not> d \<Longrightarrow> avail s1 = avail s \<and> kept = waiting needs (avail s) ready"
    using pass_up [OF 1(3) p] pass_below [OF 1(3) p base closed] pass_stop [OF 1(3) p] by blast+
  show ?case
  proof (cases d)
    case True
    obtain l2 s2 n2 where l: "dispatch_loop co kept s1 = (l2, s2, n2)" by (metis prod.exhaust)
    with 1(2) p True have r: "l2 = left" "s2 = s'" by (simp_all add: dispatch_loop.simps [of co ready])
    from 1(1) [OF p [symmetric] refl refl True l 1(3)] r
    have IH: "avail s' = supplied needs gives (set kept) (avail s1)" "left = waiting needs (avail s') kept" by auto
    have low: "avail s' \<subseteq> ?S"
      using below(1) closed up(2) unfolding IH(1) by (intro supplied_least) (auto simp: closed_under_def)
    have "avail s' = ?S"
    proof (rule supplied_eq)
      have s1: "avail s1 \<subseteq> avail s'" unfolding IH(1) by (rule supplied_base)
      with up(1) show "avail s \<subseteq> avail s'" by blast
      have "closed_under needs gives (set kept) (avail s')" unfolding IH(1) by (rule supplied_closed)
      with gone s1 show "closed_under needs gives (set ready) (avail s')" unfolding closed_under_def by blast
    qed (fact low)
    with IH(2) below(2) show ?thesis by simp
  next
    case False
    with 1(2) p have r: "kept = left" "s1 = s'" by (simp_all add: dispatch_loop.simps [of co ready])
    from stop [OF False] r have s: "avail s' = avail s" "left = waiting needs (avail s) ready" by auto
    have "avail s' = ?S"
    proof (rule supplied_eq)
      show "closed_under needs gives (set ready) (avail s')"
        using gone r s by (auto simp: closed_under_def waiting_def)
    qed (use s base in auto)
    with s show ?thesis by simp
  qed
qed

lemma initialize_neutral:
  assumes co: "init_is_neutral co avail good"
  shows "initialize_all co cs s = (ready, s', ns) \<Longrightarrow> ready = filter good cs \<and> avail s' = avail s"
proof (induction cs arbitrary: s ready s' ns)
  case (Cons c cs)
  obtain g c' s1 where i: "co_initialize co c s = (g, c', s1)" by (metis prod.exhaust)
  obtain r2 s2 n2 where r: "initialize_all co cs s1 = (r2, s2, n2)" by (metis prod.exhaust)
  from i have "g = good c" "c' = c" "avail s1 = avail s"
    using co [unfolded init_is_neutral_def, rule_format, of c s] by simp_all
  with Cons.IH [OF r] Cons.prems i r show ?case by (auto split: if_splits)
qed simp

text \<open>The whole dispatcher: two closures, the second from the storage with its configs locked.\<close>

lemma dispatch_exact:
  assumes co: "runs_by_needs co avail needs gives" and init: "init_is_neutral co avail good"
    and lock: "\<And>s. avail (so_lock_configs so s) = relock (avail s)"
    and d: "dispatch_platform so co P s0 = (r, left, s', ns)"
  defines "ready \<equiv> filter good (pl_components P)"
  defines "K1 \<equiv> supplied needs gives (set ready) (avail (snd (collect so P s0)))"
  shows "r = Inr ()"
    and "avail s' = supplied needs gives (set (waiting needs K1 ready)) (relock K1)"
    and "left = waiting needs (avail s') (waiting needs K1 ready)"
proof -
  obtain cs s where c: "collect so P s0 = (cs, s)" by force
  obtain rd s1 n1 where i: "initialize_all co cs s = (rd, s1, n1)" by (metis prod.exhaust)
  obtain r2 s2 n2 where l1: "dispatch_loop co rd s1 = (r2, s2, n2)" by (metis prod.exhaust)
  obtain l3 s3 n3 where l2: "dispatch_loop co r2 (so_lock_configs so s2) = (l3, s3, n3)" by (metis prod.exhaust)
  have p: "cs = pl_components P" using fst_collect [of so P s0] c by simp
  from d c i l1 l2 have eqs: "r = Inr ()" "left = l3" "s' = s3" by (simp_all add: dispatch_platform_def)
  from initialize_neutral [OF init i] p have rd: "rd = ready" "avail s1 = avail s" by (simp_all add: ready_def)
  from loop_by_needs [OF co l1] rd c have k1: "avail s2 = K1" "r2 = waiting needs K1 ready" by (simp_all add: K1_def)
  from loop_by_needs [OF co l2] k1 lock
  have "avail s3 = supplied needs gives (set (waiting needs K1 ready)) (relock K1)"
    "l3 = waiting needs (avail s3) (waiting needs K1 ready)" by simp_all
  with eqs show "r = Inr ()"
    and "avail s' = supplied needs gives (set (waiting needs K1 ready)) (relock K1)"
    and "left = waiting needs (avail s') (waiting needs K1 ready)" by simp_all
qed

text \<open>Hence the order of registration does not matter.\<close>

lemma dispatch_order_free:
  assumes co: "runs_by_needs co avail needs gives" and init: "init_is_neutral co avail good"
    and lock: "\<And>s. avail (so_lock_configs so s) = relock (avail s)"
    and d: "dispatch_platform so co P s0 = (r, left, s', ns)"
    and d': "dispatch_platform so co (P\<lparr>pl_components := cs\<rparr>) s0 = (r', left', t', ns')"
    and same: "set cs = set (pl_components P)"
  shows "avail t' = avail s'" and "set left' = set left"
proof -
  have c: "snd (collect so (P\<lparr>pl_components := cs\<rparr>) s0) = snd (collect so P s0)" by (simp add: collect_def Let_def)
  note a = dispatch_exact [OF co init lock d] and b = dispatch_exact [OF co init lock d', unfolded c]
  show "avail t' = avail s'" unfolding a(2) b(2) by (simp add: same waiting_def)
  then show "set left' = set left" using a(3) b(3) same by (simp add: waiting_def)
qed

subsection \<open>A provider that fails\<close>

text \<open>
  An error does not count as progress, so what the failing component had added before is not
  offered to the components that wait. Here 0 needs key 1 and 1 needs the locked configs, adds
  key 1 and fails: 0 is reported as never dispatched although what it needs is there.
\<close>

definition failing_provider :: "(nat, nat list, nat) component_ops" where
  "failing_provider = \<lparr>co_initialize = (\<lambda>c s. (True, c, s)),
     co_run = (\<lambda>c s. if c = 0 then (Inr (1 \<in> set s), c, s)
        else if 9 \<in> set s then (Inl 7, c, 1 # s) else (Inr False, c, s))\<rparr>"

lemma failing_provider_forgotten:
  "dispatch_platform \<lparr>so_add_config = (\<lambda>g s. s), so_add_service = (\<lambda>v s. s), so_lock_configs = Cons 9\<rparr>
     failing_provider \<lparr>pl_configs = [] :: unit list, pl_services = [] :: unit list, pl_components = [0, 1]\<rparr> [] =
   (Inr (), [0], [1, 9], [Failed 1 7, NeverDispatched 0])"
  by (simp add: dispatch_platform_def collect_def Let_def component_list_component_def failing_provider_def
      dispatch_loop.simps)

end
