(* ===== verification/TianoDriver.thy ===== *)
theory TianoDriver
  imports TianoAlloc TianoDispatch
begin

text \<open>
  patina_tianocore, \<open>memory.rs\<close>, \<open>logger.rs\<close>, \<open>entry.rs\<close> and the constructor of the driver
  context: the page manager, the logger on ConOut and COM1, and the entry point that sets a
  driver up and turns its result into a status; and the demonstration driver of OdpPkg.
\<close>

subsection \<open>The page manager\<close>

datatype page_strategy = AnyPages | MaxAddress u64 | AtAddress u64

datatype allocate_type = ALLOCATE_ANY_PAGES | ALLOCATE_MAX_ADDRESS | ALLOCATE_ADDRESS

datatype memory_error = InvalidPageCount | UnalignedAddress | NoAvailableMemory | InternalError | InvalidAddress

datatype access_type = ReadWrite | OtherAccess

datatype caching_type = WriteBack | OtherCaching

record allocation_options =
  opt_memory_type :: u32
  opt_strategy :: page_strategy

record 'w page_services =
  pg_allocate_pages :: "allocate_type \<Rightarrow> u32 \<Rightarrow> u64 \<Rightarrow> u64 \<Rightarrow> 'w \<Rightarrow> (efi_status \<times> u64) \<times> 'w"
  pg_free_pages :: "u64 \<Rightarrow> u64 \<Rightarrow> 'w \<Rightarrow> efi_status \<times> 'w"

definition UEFI_PAGE_SIZE :: u64 where "UEFI_PAGE_SIZE = 4096"

definition allocate_request :: "page_strategy \<Rightarrow> memory_error + allocate_type \<times> u64" where
  "allocate_request st = (case st of
      AnyPages \<Rightarrow> Inr (ALLOCATE_ANY_PAGES, 0)
    | MaxAddress mx \<Rightarrow> Inr (ALLOCATE_MAX_ADDRESS, mx)
    | AtAddress addr \<Rightarrow> if addr mod UEFI_PAGE_SIZE \<noteq> 0 then Inl UnalignedAddress else Inr (ALLOCATE_ADDRESS, addr))"

text \<open>\<open>page_allocation\<close> is patina's \<open>PageAllocation::new\<close> (\<open>None\<close> is its error).\<close>

definition allocate_pages ::
  "(u64 \<Rightarrow> u64 \<Rightarrow> 'a option) \<Rightarrow> 'w page_services \<Rightarrow> u64 \<Rightarrow> allocation_options \<Rightarrow> 'w \<Rightarrow> (memory_error + 'a) \<times> 'w" where
  "allocate_pages page_allocation pg page_count options w =
     (if page_count = 0 then (Inl InvalidPageCount, w)
      else case allocate_request (opt_strategy options) of
        Inl e \<Rightarrow> (Inl e, w)
      | Inr (alloc_type, address) \<Rightarrow>
          (case pg_allocate_pages pg alloc_type (opt_memory_type options) page_count address w of
             ((status, address'), w') \<Rightarrow>
               if status \<noteq> SUCCESS then (Inl NoAvailableMemory, w')
               else (case page_allocation address' page_count of
                  None \<Rightarrow> (Inl InternalError, w') | Some a \<Rightarrow> (Inr a, w'))))"

definition free_pages :: "'w page_services \<Rightarrow> u64 \<Rightarrow> u64 \<Rightarrow> 'w \<Rightarrow> (memory_error + unit) \<times> 'w" where
  "free_pages pg address page_count w =
     (if page_count = 0 then (Inl InvalidPageCount, w)
      else if address mod UEFI_PAGE_SIZE \<noteq> 0 then (Inl UnalignedAddress, w)
      else (case pg_free_pages pg address page_count w of
         (status, w') \<Rightarrow> (if status \<noteq> SUCCESS then Inl InvalidAddress else Inr (), w')))"

definition set_page_attributes :: "u64 \<Rightarrow> u64 \<Rightarrow> access_type \<Rightarrow> caching_type option \<Rightarrow> memory_error + unit" where
  "set_page_attributes address page_count access caching = Inr ()"

definition get_page_attributes :: "u64 \<Rightarrow> u64 \<Rightarrow> memory_error + access_type \<times> caching_type" where
  "get_page_attributes address page_count = Inr (ReadWrite, WriteBack)"

definition get_allocator :: "u32 \<Rightarrow> memory_error + 'a" where
  "get_allocator memory_type = Inl InternalError"

text \<open>
  The page services as specified: pages given out are aligned and recorded, and exactly
  recorded pages can be freed.
\<close>

definition pages_honest :: "('w \<Rightarrow> (u64 \<times> u64) set) \<Rightarrow> 'w page_services \<Rightarrow> bool" where
  "pages_honest given pg \<longleftrightarrow>
     (\<forall>t m n a w. case pg_allocate_pages pg t m n a w of ((status, p), w') \<Rightarrow>
        if status = SUCCESS
        then p mod UEFI_PAGE_SIZE = 0 \<and> (p, n) \<notin> given w \<and> given w' = insert (p, n) (given w) \<and>
          (t = ALLOCATE_ADDRESS \<longrightarrow> p = a) \<and>
          (t = ALLOCATE_MAX_ADDRESS \<longrightarrow> unat p + unat n * 4096 \<le> unat a + 1)
        else given w' = given w) \<and>
     (\<forall>p n w. case pg_free_pages pg p n w of (status, w') \<Rightarrow>
        if (p, n) \<in> given w then status = SUCCESS \<and> given w' = given w - {(p, n)}
        else status \<noteq> SUCCESS \<and> given w' = given w)"

lemma pages_allocated:
  "pages_honest given pg \<Longrightarrow> pg_allocate_pages pg t m n a w = ((status, p), w') \<Longrightarrow>
     (if status = SUCCESS
        then p mod UEFI_PAGE_SIZE = 0 \<and> (p, n) \<notin> given w \<and> given w' = insert (p, n) (given w) \<and>
          (t = ALLOCATE_ADDRESS \<longrightarrow> p = a) \<and>
          (t = ALLOCATE_MAX_ADDRESS \<longrightarrow> unat p + unat n * 4096 \<le> unat a + 1)
        else given w' = given w)"
  unfolding pages_honest_def by (drule conjunct1, drule spec [of _ t], drule spec [of _ m],
    drule spec [of _ n], drule spec [of _ a], drule spec [of _ w]) simp

lemma pages_freed:
  "pages_honest given pg \<Longrightarrow> pg_free_pages pg p n w = (status, w') \<Longrightarrow>
     (if (p, n) \<in> given w then status = SUCCESS \<and> given w' = given w - {(p, n)}
        else status \<noteq> SUCCESS \<and> given w' = given w)"
  unfolding pages_honest_def by (drule conjunct2, drule spec [of _ p], drule spec [of _ n],
    drule spec [of _ w]) simp

text \<open>
  What a request leaves given out: the pages of the allocation it answers, or nothing more,
  except when \<open>PageAllocation::new\<close> refuses what the firmware gave: those pages stay given.
\<close>

lemma allocate_pages_given:
  assumes h: "pages_honest given pg" and a: "allocate_pages pa pg n options w = (r, w')"
  shows "(\<exists>p x. r = Inr x \<and> pa p n = Some x \<and> p mod UEFI_PAGE_SIZE = 0 \<and> given w' = insert (p, n) (given w) \<and>
            (p, n) \<notin> given w \<and> (\<forall>q. opt_strategy options = AtAddress q \<longrightarrow> p = q) \<and>
            (\<forall>q. opt_strategy options = MaxAddress q \<longrightarrow> unat p + unat n * 4096 \<le> unat q + 1)) \<or>
         (\<exists>p. r = Inl InternalError \<and> pa p n = None \<and> given w' = insert (p, n) (given w)) \<or>
         ((\<exists>e. r = Inl e \<and> e \<noteq> InternalError) \<and> given w' = given w)"
proof (cases "n = 0 \<or> (\<exists>e. allocate_request (opt_strategy options) = Inl e)")
  case True
  with a show ?thesis by (auto simp: allocate_pages_def allocate_request_def split: page_strategy.splits if_splits)
next
  case False
  then obtain t q where q: "allocate_request (opt_strategy options) = Inr (t, q)" "n \<noteq> 0"
    by (cases "allocate_request (opt_strategy options)") auto
  obtain status p w1 where c: "pg_allocate_pages pg t (opt_memory_type options) n q w = ((status, p), w1)"
    by (metis prod.exhaust)
  note g = pages_allocated [OF h c]
  from a q c have r: "w' = w1" "r = (if status \<noteq> SUCCESS then Inl NoAvailableMemory
      else case pa p n of None \<Rightarrow> Inl InternalError | Some x \<Rightarrow> Inr x)"
    by (auto simp: allocate_pages_def split: if_splits option.splits)
  have st: "opt_strategy options = AtAddress z \<Longrightarrow> t = ALLOCATE_ADDRESS \<and> q = z"
    "opt_strategy options = MaxAddress z \<Longrightarrow> t = ALLOCATE_MAX_ADDRESS \<and> q = z" for z
    using q(1) by (auto simp: allocate_request_def split: if_splits)
  show ?thesis
  proof (cases "status = SUCCESS")
    case True
    show ?thesis
    proof (cases "pa p n")
      case (Some x)
      with True g r st show ?thesis by (intro disjI1 exI [of _ p] exI [of _ x]) auto
    qed (use True g r in auto)
  qed (use g r in auto)
qed

text \<open>Freeing what was allocated succeeds and gives it back; freeing it twice does not.\<close>

lemma pages_roundtrip:
  assumes h: "pages_honest given pg" and a: "allocate_pages (\<lambda>p k. Some p) pg n options w = (Inr p, w1)"
    and f: "free_pages pg p n w1 = (r, w2)"
  shows "r = Inr () \<and> given w2 = given w \<and> fst (free_pages pg p n w2) = Inl InvalidAddress"
proof -
  from allocate_pages_given [OF h a] have p: "p mod UEFI_PAGE_SIZE = 0" "given w1 = insert (p, n) (given w)"
    "(p, n) \<notin> given w" by auto
  from a have n: "n \<noteq> 0" by (auto simp: allocate_pages_def)
  obtain s w3 where c: "pg_free_pages pg p n w1 = (s, w3)" by force
  obtain s' w4 where c': "pg_free_pages pg p n w3 = (s', w4)" by force
  from pages_freed [OF h c] p have g: "s = SUCCESS" "given w3 = given w" by auto
  with pages_freed [OF h c'] p(3) have "s' \<noteq> SUCCESS" by simp
  with f c c' g n p(1) show ?thesis by (simp add: free_pages_def)
qed

subsection \<open>The logger\<close>

text \<open>
  \<open>logger.rs\<close>. A \<open>str\<close> is its code points; what reaches the devices is a list of outputs: the
  text written to the serial port, and the buffers passed to \<open>output_string\<close> of a console.
  \<open>x86\<close> tells whether the target has the serial path. The level filter of the log crate in front
  of a logger is not part of it.
\<close>

datatype level = Error | Warn | Info | Debug | Trace

definition level_str :: "level \<Rightarrow> ustr" where
  "level_str l = str_of (case l of Error \<Rightarrow> ''ERROR'' | Warn \<Rightarrow> ''WARN'' | Info \<Rightarrow> ''INFO''
     | Debug \<Rightarrow> ''DEBUG'' | Trace \<Rightarrow> ''TRACE'')"

datatype device_output = SerialInit | SerialText ustr | ConOutString u64 "u16 list"

record uefi_logger =
  lg_con_out :: u64
  lg_serial :: bool

definition LOGGER :: uefi_logger where
  "LOGGER = \<lparr>lg_con_out = 0, lg_serial = False\<rparr>"

text \<open>\<open>[{:<5}] {}\<close> and the line end.\<close>

definition log_line :: "level \<Rightarrow> ustr \<Rightarrow> ustr" where
  "log_line l args = str_of ''['' @ level_str l @ replicate (5 - length (level_str l)) 32 @ str_of ''] '' @ args @ [13, 10]"

definition con_out_write_str :: "u64 \<Rightarrow> ustr \<Rightarrow> device_output list" where
  "con_out_write_str con_out s = map (\<lambda>c. ConOutString con_out [of_nat c, 0]) (filter (\<lambda>c. c < 0x10000) s)"

definition logger_enabled :: "level \<Rightarrow> bool" where
  "logger_enabled l = True"

definition logger_log :: "bool \<Rightarrow> level \<Rightarrow> ustr \<Rightarrow> uefi_logger \<Rightarrow> device_output list" where
  "logger_log x86 l args g =
     (if \<not> logger_enabled l then []
      else (if x86 \<and> lg_serial g then [SerialText (log_line l args)] else []) @
        (if lg_con_out g \<noteq> 0 then con_out_write_str (lg_con_out g) (log_line l args) else []))"

definition logger_init :: "bool \<Rightarrow> u64 \<Rightarrow> uefi_logger \<Rightarrow> uefi_logger \<times> device_output list" where
  "logger_init x86 con_out g =
     (if x86 \<and> \<not> lg_serial g then (g\<lparr>lg_con_out := con_out, lg_serial := True\<rparr>, [SerialInit])
      else (g\<lparr>lg_con_out := con_out\<rparr>, []))"

text \<open>What a console shows of the buffers it got: each up to its terminator.\<close>

fun shown_on :: "u64 \<Rightarrow> device_output list \<Rightarrow> ustr" where
  "shown_on p [] = []"
| "shown_on p (ConOutString q buf # os) =
     (if p = q then map unat (takeWhile (\<lambda>c. c \<noteq> 0) buf) else []) @ shown_on p os"
| "shown_on p (_ # os) = shown_on p os"

lemma shown_append: "shown_on p (xs @ ys) = shown_on p xs @ shown_on p ys"
  by (induction p xs rule: shown_on.induct) auto

lemma shown_char:
  assumes "c < 0x10000"
  shows "map unat (takeWhile (\<lambda>x. x \<noteq> 0) [of_nat c :: u16, 0]) = (if 0 < c then [c] else [])"
proof -
  have u: "unat (of_nat c :: u16) = c" using assms by (simp add: unat_of_nat)
  define w :: u16 where "w = of_nat c"
  have "w = 0 \<longleftrightarrow> c = 0" using u unfolding w_def [symmetric] by (metis unat_eq_zero)
  then show ?thesis using u unfolding w_def [symmetric] by (cases "w = 0") simp_all
qed

lemma shown_con_out:
  "shown_on p (con_out_write_str p s) = filter (\<lambda>c. 0 < c \<and> c < 0x10000) s"
proof (induction s)
  case (Cons c s)
  show ?case
  proof (cases "c < 0x10000")
    case True
    then have "con_out_write_str p (c # s) = ConOutString p [of_nat c, 0] # con_out_write_str p s"
      by (simp only: con_out_write_str_def filter.simps if_True list.map)
    then have "shown_on p (con_out_write_str p (c # s)) = (if 0 < c then [c] else []) @ filter (\<lambda>c. 0 < c \<and> c < 0x10000) s"
      by (simp only: shown_on.simps shown_char [OF True] Cons.IH if_True refl)
    with True show ?thesis by simp
  next
    case False
    with Cons show ?thesis by (simp add: con_out_write_str_def)
  qed
qed (simp add: con_out_write_str_def)

text \<open>
  After \<open>init\<close> a message shows on the console it was given as its line without the characters
  that UCS-2 cannot hold, and goes to the serial port once, in full; calling \<open>init\<close> again
  changes the console and never opens the port a second time.
\<close>

lemma logger_output:
  assumes "con_out \<noteq> 0" and "logger_init x86 con_out g = (g', os)"
  shows "shown_on con_out (logger_log x86 l args g') = filter (\<lambda>c. 0 < c \<and> c < 0x10000) (log_line l args)"
    and "[t. SerialText t \<leftarrow> logger_log x86 l args g'] = (if x86 then [log_line l args] else [])"
    and "logger_init x86 con_out2 g' = (g'\<lparr>lg_con_out := con_out2\<rparr>, [])"
proof -
  have n: "[t. SerialText t \<leftarrow> con_out_write_str p s] = []" for p s
    by (auto simp: con_out_write_str_def concat_eq_Nil_conv)
  show "shown_on con_out (logger_log x86 l args g') = filter (\<lambda>c. 0 < c \<and> c < 0x10000) (log_line l args)"
    and "[t. SerialText t \<leftarrow> logger_log x86 l args g'] = (if x86 then [log_line l args] else [])"
    and "logger_init x86 con_out2 g' = (g'\<lparr>lg_con_out := con_out2\<rparr>, [])"
    using assms shown_con_out [of con_out "log_line l args"] n [of con_out "log_line l args"]
    by (auto simp: logger_init_def logger_log_def logger_enabled_def shown_append split: if_splits)
qed

subsection \<open>The entry point\<close>

text \<open>
  What the entry point reads of the system table, and patina's storage: how a new one is made
  and given the boot services, and the memory manager as the service that is registered.
\<close>

record 'w system_table =
  st_boot_services :: "'w pool_services"
  st_con_out :: u64

record ('b, 'v, 's) storage_setup =
  ss_new :: 's
  ss_set_boot_services :: "'b \<Rightarrow> 's \<Rightarrow> 's"
  ss_memory_manager :: "'b \<Rightarrow> 'v"

definition from_system_table ::
  "('w pool_services, 'v, 's) storage_setup \<Rightarrow> ('g, 'v, 's) storage_ops \<Rightarrow> 'w system_table \<Rightarrow> 's" where
  "from_system_table ss so table = (let bs = st_boot_services table
     in so_add_service so (ss_memory_manager ss bs) (ss_set_boot_services ss bs (ss_new ss)))"

text \<open>
  \<open>efi_main\<close> as both forms of the macro expand it: \<open>run\<close> is the driver's own function or the
  dispatch of a platform, \<open>status_of\<close> patina's conversion of an error.
\<close>

definition driver_efi_main ::
  "bool \<Rightarrow> ('e \<Rightarrow> u64) \<Rightarrow> ('w pool_services, 'v, 's) storage_setup \<Rightarrow> ('g, 'v, 's) storage_ops \<Rightarrow>
    ('s \<Rightarrow> ('e + unit) \<times> 'r) \<Rightarrow> 'w system_table \<Rightarrow> 'w uefi_allocator \<Rightarrow> uefi_logger \<Rightarrow>
    u64 \<times> 'r \<times> 'w uefi_allocator \<times> uefi_logger \<times> device_output list" where
  "driver_efi_main x86 status_of ss so run table a g =
     (let a1 = uefi_allocator_init (st_boot_services table) a;
          (g1, os) = logger_init x86 (st_con_out table) g;
          (result, x) = run (from_system_table ss so table)
      in (case result of Inr _ \<Rightarrow> 0 | Inl e \<Rightarrow> status_of e, x, a1, g1, os))"

text \<open>The platform form reports success whatever became of the components.\<close>

lemma platform_driver_succeeds:
  "fst (driver_efi_main x86 status_of ss so (dispatch_platform so co P) table a g) = 0"
  by (simp add: driver_efi_main_def dispatch_platform_def Let_def split: prod.splits)

subsection \<open>The demonstration driver\<close>

text \<open>
  \<open>ODP_RustDxeDemo\<close>: writes a variable and reads it back. A status is its code, an error when
  its top bit is set; the bytes \<open>GetVariable\<close> writes overwrite the front of the zeroed value.
  Its log messages are left out.
\<close>

type_synonym vendor_guid = "u32 \<times> u16 \<times> u16 \<times> u8 list"

record 'w runtime_services =
  rt_set_variable :: "u16 list \<Rightarrow> vendor_guid \<Rightarrow> u32 \<Rightarrow> bytes \<Rightarrow> 'w \<Rightarrow> u64 \<times> 'w"
  rt_get_variable :: "u16 list \<Rightarrow> vendor_guid \<Rightarrow> nat \<Rightarrow> 'w \<Rightarrow> (u64 \<times> bytes) \<times> 'w"

definition status_is_error :: "u64 \<Rightarrow> bool" where
  "status_is_error s = (s AND 0x8000000000000000 \<noteq> 0)"

definition PROTOCOL_ERROR :: u64 where "PROTOCOL_ERROR = 0x8000000000000018"
definition VARIABLE_BOOTSERVICE_ACCESS :: u32 where "VARIABLE_BOOTSERVICE_ACCESS = 2"
definition demo_var_name :: "u16 list" where
  "demo_var_name = map of_char ''RustTestVar'' @ [0]"
definition demo_vendor_guid :: vendor_guid where
  "demo_vendor_guid = (0x12345678, 0x1234, 0x1234, [0x12, 0x34, 0x56, 0x78, 0x9A, 0xBC, 0xDE, 0xF0])"
definition demo_write_value :: u64 where "demo_write_value = 0x55AAAA5555AAAA55"

definition demo_efi_main :: "'w runtime_services \<Rightarrow> 'w \<Rightarrow> u64 \<times> 'w" where
  "demo_efi_main rt w =
     (case rt_set_variable rt demo_var_name demo_vendor_guid VARIABLE_BOOTSERVICE_ACCESS (nat_le 8 (unat demo_write_value)) w of
        (status, w1) \<Rightarrow>
          if status_is_error status then (status, w1)
          else (case rt_get_variable rt demo_var_name demo_vendor_guid 8 w1 of ((status, bs), w2) \<Rightarrow>
            if status_is_error status then (status, w2)
            else let read_value = of_nat (le_nat (bs @ drop (length bs) (replicate 8 0)))
              in if demo_write_value \<noteq> read_value then (PROTOCOL_ERROR, w2) else (0, w2)))"

text \<open>The driver succeeds exactly if both calls do and the eight bytes written come back.\<close>

lemma demo_succeeds:
  assumes "rt_set_variable rt demo_var_name demo_vendor_guid VARIABLE_BOOTSERVICE_ACCESS (nat_le 8 (unat demo_write_value)) w = (st, w1)"
    and "rt_get_variable rt demo_var_name demo_vendor_guid 8 w1 = ((st2, bs), w2)" and "length bs = 8"
  shows "fst (demo_efi_main rt w) = 0 \<longleftrightarrow>
    \<not> status_is_error st \<and> \<not> status_is_error st2 \<and> bs = nat_le 8 (unat demo_write_value)"
proof -
  have "(of_nat (le_nat bs) :: u64) = demo_write_value \<longleftrightarrow> bs = nat_le 8 (unat demo_write_value)"
  proof -
    have "le_nat bs < 2 ^ 64" using le_nat_bound [of bs] assms(3) by simp
    then have u: "unat (of_nat (le_nat bs) :: u64) = le_nat bs" by (simp add: unat_of_nat)
    have "(of_nat (le_nat bs) :: u64) = demo_write_value \<longleftrightarrow> le_nat bs = unat demo_write_value"
      using word_unat_eq_iff [of "of_nat (le_nat bs)" demo_write_value] by (simp only: u)
    moreover have "unat demo_write_value < 256 ^ 8" using unat_below [of demo_write_value] by simp
    ultimately show ?thesis using nat_le_le_nat [of bs] le_nat_nat_le [of "unat demo_write_value" 8] assms(3) by auto
  qed
  moreover have "st \<noteq> 0" if "status_is_error st" for st using that by (auto simp: status_is_error_def)
  ultimately show ?thesis using assms by (auto simp: demo_efi_main_def Let_def PROTOCOL_ERROR_def)
qed

end
