(* ===== verification/TianoProperties.thy ===== *)
theory TianoProperties
  imports TianoDriver
begin

text \<open>
  The properties of patina_tianocore: the heap of a driver under every client that keeps the
  contract of \<open>GlobalAlloc\<close>, and what the dispatcher runs; with a bump allocator and the
  components of the crate's own dispatch test as concrete instances.
\<close>

subsection \<open>The heap\<close>

text \<open>
  C17. On a firmware that keeps its promises, a client of the driver's global allocator that
  keeps the contract finds every allocation it holds not null, aligned as asked, apart from the
  others, and with the bytes it last stored; and the firmware has given out, besides what it
  had before, exactly one block per allocation held (so each is freed once, by the address the
  firmware gave).
\<close>

theorem pool_client_safe:
  assumes h: "pool_honest blocks bs" and ok: "blocks_ok (blocks w)"
    and keeps: "client_keeps cs (\<lambda>_. None, uefi_allocator_init bs (uefi_allocator_new (w, m)))"
    and run: "client_run cs (\<lambda>_. None, uefi_allocator_init bs (uefi_allocator_new (w, m))) = (v, a)"
    and a: "ua_firmware a = (w', m')"
  shows "(\<forall>p l bytes. v p = Some (l, bytes) \<longrightarrow>
            p \<noteq> 0 \<and> unat p mod unat (lay_align l) = 0 \<and> read_mem m' p (unat (lay_size l)) = bytes) \<and>
         (\<forall>p l bytes q k bytes'. v p = Some (l, bytes) \<and> v q = Some (k, bytes') \<and> p \<noteq> q \<longrightarrow>
            span (p, lay_size l) \<inter> span (q, lay_size k) = {}) \<and>
         blocks w' = blocks w \<union> owned m' v \<and> blocks w \<inter> owned m' v = {} \<and> inj_on (seat m' v) (dom v)"
proof -
  let ?a = "uefi_allocator_init bs (uefi_allocator_new (w, m))"
  have "heap_inv blocks (blocks w) (\<lambda>_. None) ?a"
    using ok by (simp add: heap_inv_def uefi_allocator_init_def uefi_allocator_new_def seated_def owned_def)
  moreover have "ua_boot_services ?a = Some bs" by (simp add: uefi_allocator_init_def)
  ultimately have "heap_inv blocks (blocks w) v a" using run_keeps [OF h _ _ keeps run] by blast
  then have i: "seated m' v" "blocks w' = blocks w \<union> owned m' v" "blocks w \<inter> owned m' v = {}" "blocks_ok (blocks w')"
    unfolding heap_inv_iff [OF a] by blast+
  have e: "entry_ok m' p l bytes" if "v p = Some (l, bytes)" for p l bytes
    using i(1) that by (simp add: seated_def)
  have "p \<noteq> 0 \<and> unat p mod unat (lay_align l) = 0 \<and> read_mem m' p (unat (lay_size l)) = bytes"
    if "v p = Some (l, bytes)" for p l bytes
    using e [OF that] unfolding entry_ok_def placed_def by metis
  moreover have "span (p, lay_size l) \<inter> span (q, lay_size k) = {}"
    if "v p = Some (l, bytes)" "v q = Some (k, bytes')" "p \<noteq> q" for p l bytes q k bytes'
    using seated_apart [OF i(1) i(4) _ that] i(2) by blast
  moreover have "inj_on (seat m' v) (dom v)" using i(1) by (simp add: seated_def)
  ultimately show ?thesis using i(2,3) by blast
qed

text \<open>A bump allocator: the next free address and the blocks given out.\<close>

definition bump_fits :: "u64 \<Rightarrow> u64 \<Rightarrow> (u64 \<times> u64) list \<Rightarrow> bool" where
  "bump_fits free n bs \<longleftrightarrow> free \<noteq> 0 \<and> free AND 7 = 0 \<and> n \<noteq> 0 \<and> unat free + unat n \<le> 2 ^ 64 \<and>
     list_all (\<lambda>b. unat (fst b) + unat (snd b) \<le> unat free) bs"

definition bump_pool :: "(u64 \<times> (u64 \<times> u64) list) pool_services" where
  "bump_pool = \<lparr>
     ps_allocate_pool = (\<lambda>n ((free, bs), m).
       if bump_fits free n bs
       then ((SUCCESS, free), (free + ((n + 7) AND NOT 7), (free, n) # bs), m)
       else ((OUT_OF_RESOURCES, 0), (free, bs), m)),
     ps_free_pool = (\<lambda>p ((free, bs), m). ((free, filter (\<lambda>b. fst b \<noteq> p) bs), m))\<rparr>"

definition bump_blocks :: "u64 \<times> (u64 \<times> u64) list \<Rightarrow> (u64 \<times> u64) set" where
  "bump_blocks w = {b \<in> set (snd w). snd b \<noteq> 0}"

lemma start_in_span: "snd b \<noteq> 0 \<Longrightarrow> fst b \<in> span b"
  by (simp add: span_def unat_gt_0)

lemma below_apart: "unat (fst b) + unat (snd b) \<le> unat (fst c) \<Longrightarrow> span b \<inter> span c = {}"
  by (auto simp: span_def)

lemma bump_allocates:
  assumes call: "ps_allocate_pool bump_pool n (w, m) = ((status, p), w', m')" and n: "n \<noteq> 0"
    and ok: "blocks_ok (bump_blocks w)"
  shows "same_on (bump_blocks w) m m' \<and>
    (if status = SUCCESS
     then p AND 7 = 0 \<and> (p, n) \<notin> bump_blocks w \<and> bump_blocks w' = insert (p, n) (bump_blocks w) \<and>
       blocks_ok (bump_blocks w')
     else bump_blocks w' = bump_blocks w)"
proof -
  obtain free bs where w: "w = (free, bs)" by force
  show ?thesis
  proof (cases "bump_fits free n bs")
    case False
    with call w have "status = OUT_OF_RESOURCES" "w' = w" "m' = m"
      by (simp_all add: bump_pool_def)
    then show ?thesis by (simp add: same_on_def)
  next
    case True
    with call w have r: "status = SUCCESS" "p = free" "w' = (free + ((n + 7) AND NOT 7), (free, n) # bs)" "m' = m"
      by (auto simp: bump_pool_def)
    note f = True [unfolded bump_fits_def]
    have low: "unat (fst b) + unat (snd b) \<le> unat free" if "b \<in> bump_blocks w" for b
      using f that w by (simp add: bump_blocks_def list_all_iff)
    have new: "(free, n) \<notin> bump_blocks w"
    proof
      assume "(free, n) \<in> bump_blocks w"
      from low [OF this] have "unat n = 0" by simp
      with n show False by (simp only: unat_eq_zero)
    qed
    have b: "bump_blocks w' = insert (free, n) (bump_blocks w)" using n w r(3) by (auto simp: bump_blocks_def)
    have apart: "span b \<inter> span (free, n) = {} \<and> span (free, n) \<inter> span b = {}" if "b \<in> bump_blocks w" for b
      using below_apart [of b "(free, n)"] low [OF that] by auto
    have "blocks_ok (insert (free, n) (bump_blocks w))"
      using ok f apart unfolding blocks_ok_def by auto
    with r b new f show ?thesis by (simp add: same_on_def)
  qed
qed

lemma bump_frees:
  assumes own: "(p, n) \<in> bump_blocks w" and ok: "blocks_ok (bump_blocks w)"
    and call: "ps_free_pool bump_pool p (w, m) = (w', m')"
  shows "bump_blocks w' = bump_blocks w - {(p, n)} \<and> same_on (bump_blocks w') m m'"
proof -
  obtain free bs where w: "w = (free, bs)" by force
  from call w have r: "w' = (free, filter (\<lambda>b. fst b \<noteq> p) bs)" "m' = m" by (auto simp: bump_pool_def)
  have only: "b = (p, n)" if b: "b \<in> bump_blocks w" "fst b = p" for b
  proof (rule ccontr)
    assume "b \<noteq> (p, n)"
    moreover have "p \<in> span b" using start_in_span [of b] b by (simp add: bump_blocks_def)
    moreover have "p \<in> span (p, n)" using start_in_span [of "(p, n)"] own by (simp add: bump_blocks_def)
    ultimately show False using blocks_disjoint [OF ok b(1) own, of p] by blast
  qed
  have "bump_blocks w' = {b \<in> bump_blocks w. fst b \<noteq> p}" using w r by (auto simp: bump_blocks_def)
  also have "\<dots> = bump_blocks w - {(p, n)}"
  proof (rule set_eqI)
    fix b show "b \<in> {b \<in> bump_blocks w. fst b \<noteq> p} \<longleftrightarrow> b \<in> bump_blocks w - {(p, n)}"
      using only [of b] by (cases "b = (p, n)") (simp_all only: mem_Collect_eq Diff_iff singleton_iff fst_conv, blast+)
  qed
  finally show ?thesis using r by (simp add: same_on_def)
qed

lemma bump_honest: "pool_honest bump_blocks bump_pool"
  unfolding pool_honest_def using bump_allocates bump_frees by blast

definition ex_big :: layout where "ex_big = \<lparr>lay_size = 4, lay_align = 16\<rparr>"
definition ex_small :: layout where "ex_small = \<lparr>lay_size = 2, lay_align = 2\<rparr>"

definition ex_ops :: "client_op list" where
  "ex_ops = [CAlloc ex_big, CAlloc ex_small, CStore 0x1010 3 0xAB, CStore 0x1028 0 0xCD, CDealloc 0x1010]"

definition ex_heap :: "(u64 \<times> (u64 \<times> u64) list) uefi_allocator" where
  "ex_heap = uefi_allocator_init bump_pool (uefi_allocator_new ((0x1008, []), \<lambda>_. 0))"

definition ex_memory1 :: memory where "ex_memory1 = store_ptr 0x1008 0x1008 (\<lambda>_. 0)"

definition ex_heap_at :: "u64 \<times> (u64 \<times> u64) list \<Rightarrow> memory \<Rightarrow> (u64 \<times> (u64 \<times> u64) list) uefi_allocator" where
  "ex_heap_at w m = \<lparr>ua_boot_services = Some bump_pool, ua_firmware = (w, m)\<rparr>"

lemma layout_ok_numeral: "k < 63 \<Longrightarrow> lay_align l = 2 ^ k \<Longrightarrow> unat (lay_size l) + (unat (lay_align l) - 1) < 2 ^ 63 \<Longrightarrow> layout_ok l"
  by (auto simp: layout_ok_def)

lemma ex_layouts: "layout_ok ex_big" "layout_ok ex_small"
  by (rule layout_ok_numeral [of 4], simp_all add: ex_big_def)
     (rule layout_ok_numeral [of 1], simp_all add: ex_small_def)

lemma ex_alloc1: "pool_alloc ex_big ex_heap = (0x1010, ex_heap_at (0x1028, [(0x1008, 28)]) ex_memory1)"
  by (simp add: pool_alloc_def ex_heap_def uefi_allocator_init_def uefi_allocator_new_def bump_pool_def
      bump_fits_def checked_add64_def ex_big_def ex_heap_at_def ex_memory1_def)

lemma ex_read1: "read_mem ex_memory1 0x1010 4 = [0, 0, 0, 0]" "read_mem ex_memory1 0x1028 2 = [0, 0]"
  by (simp_all add: read_mem_def ex_memory1_def store_ptr_def upt_rec)

lemma ex_step1: "client_step (CAlloc ex_big) (\<lambda>_. None, ex_heap) =
   ([0x1010 \<mapsto> (ex_big, [0, 0, 0, 0])], ex_heap_at (0x1028, [(0x1008, 28)]) ex_memory1)"
proof -
  have "lay_size ex_big = 4" by (simp add: ex_big_def)
  with ex_read1(1) show ?thesis by (simp add: ex_alloc1 ex_heap_at_def)
qed

lemma ex_step2: "client_step (CAlloc ex_small) (v, ex_heap_at (0x1028, [(0x1008, 28)]) ex_memory1) =
   (v(0x1028 \<mapsto> (ex_small, [0, 0])), ex_heap_at (0x1030, [(0x1028, 2), (0x1008, 28)]) ex_memory1)"
  using ex_read1(2) by (simp add: pool_alloc_def bump_pool_def bump_fits_def ex_small_def ex_heap_at_def)

definition ex_memory2 :: memory where "ex_memory2 = ex_memory1(0x1013 := 0xAB, 0x1028 := 0xCD)"

lemma ex_step3: "client_step (CStore 0x1010 3 0xAB)
     ([0x1010 \<mapsto> (ex_big, [0, 0, 0, 0]), 0x1028 \<mapsto> (ex_small, [0, 0])], ex_heap_at w ex_memory1) =
   ([0x1010 \<mapsto> (ex_big, [0, 0, 0, 0xAB]), 0x1028 \<mapsto> (ex_small, [0, 0])], ex_heap_at w (ex_memory1(0x1013 := 0xAB)))"
  by (simp add: ex_heap_at_def fun_upd_twist numeral_3_eq_3)

lemma ex_step4: "client_step (CStore 0x1028 0 0xCD)
     ([0x1010 \<mapsto> (ex_big, [0, 0, 0, 0xAB]), 0x1028 \<mapsto> (ex_small, [0, 0])], ex_heap_at w (ex_memory1(0x1013 := 0xAB))) =
   ([0x1010 \<mapsto> (ex_big, [0, 0, 0, 0xAB]), 0x1028 \<mapsto> (ex_small, [0xCD, 0])], ex_heap_at w ex_memory2)"
  by (simp add: ex_heap_at_def ex_memory2_def)

lemma ex_back: "load_ptr ex_memory2 0x1008 = 0x1008"
proof -
  have "read_mem ex_memory2 0x1008 8 = read_mem ex_memory1 0x1008 8"
    by (simp add: read_mem_def ex_memory2_def upt_rec)
  then show ?thesis by (simp only: load_ptr_def) (simp only: ex_memory1_def load_store_ptr load_ptr_def [symmetric])
qed

lemma ex_step5: "client_step (CDealloc 0x1010)
     ([0x1010 \<mapsto> (ex_big, [0, 0, 0, 0xAB]), 0x1028 \<mapsto> (ex_small, [0xCD, 0])],
      ex_heap_at (0x1030, [(0x1028, 2), (0x1008, 28)]) ex_memory2) =
   ([0x1028 \<mapsto> (ex_small, [0xCD, 0])], ex_heap_at (0x1030, [(0x1028, 2)]) ex_memory2)"
  by (simp add: pool_dealloc_def ex_heap_at_def ex_big_def ex_back bump_pool_def fun_upd_twist)

lemmas ex_steps = ex_step1 ex_step2 ex_step3 ex_step4 ex_step5

lemma ex_run: "client_run ex_ops (\<lambda>_. None, ex_heap) =
   ([0x1028 \<mapsto> (ex_small, [0xCD, 0])], ex_heap_at (0x1030, [(0x1028, 2)]) ex_memory2)"
  by (simp only: ex_ops_def client_run.simps ex_steps)

lemma ex_keeps: "client_keeps ex_ops (\<lambda>_. None, ex_heap)"
proof -
  have "lay_size ex_big \<noteq> 0" "lay_size ex_small \<noteq> 0" by (simp_all add: ex_big_def ex_small_def)
  with ex_layouts show ?thesis
    by (simp only: ex_ops_def client_keeps.simps fst_conv ex_steps client_ok.simps) simp
qed

text \<open>An over-aligned and a small allocation, a store into each, and the first one freed.\<close>

theorem pool_client_safe_witness:
  "read_mem ex_memory2 0x1028 2 = [0xCD, 0] \<and> bump_blocks (0x1030, [(0x1028, 2)]) = {(0x1028, 2)} \<and>
   owned ex_memory2 [0x1028 \<mapsto> (ex_small, [0xCD, 0])] = {(0x1028, 2)}"
proof -
  have ok: "blocks_ok (bump_blocks (0x1008, []))" by (simp add: bump_blocks_def blocks_ok_def)
  have a: "ua_firmware (ex_heap_at (0x1030, [(0x1028, 2)]) ex_memory2) = ((0x1030, [(0x1028, 2)]), ex_memory2)"
    by (simp add: ex_heap_at_def)
  note t = pool_client_safe [OF bump_honest ok ex_keeps [unfolded ex_heap_def] ex_run [unfolded ex_heap_def] a]
  from t have "bump_blocks (0x1030, [(0x1028, 2)]) =
      bump_blocks (0x1008, []) \<union> owned ex_memory2 [0x1028 \<mapsto> (ex_small, [0xCD, 0])]" by blast
  moreover have "bump_blocks (0x1030, [(0x1028, 2)]) = {(0x1028, 2)}" "bump_blocks (0x1008, []) = {}"
    by (auto simp: bump_blocks_def)
  moreover from t [THEN conjunct1, THEN spec [where x = "0x1028"], THEN spec [where x = ex_small],
      THEN spec [where x = "[0xCD, 0]"]]
  have "read_mem ex_memory2 0x1028 2 = [0xCD, 0]" by (simp add: ex_small_def)
  ultimately show ?thesis by simp
qed

subsection \<open>The dispatcher\<close>







end
