(* ===== verification/EcCli.thy ===== *)
theory EcCli
  imports ScriptRun AcpiSpec "HOL-Library.List_Lexorder"
begin

text \<open>
  The command line src/ec/test-cli: which source a command line selects, the one-shot commands of
  thermal.rs, battery.rs and rtc.rs, the batch of scripts under a directory (script.rs) and the evaluation
  of a raw ACPI method (eval.rs). Argument parsing is clap's: what it accepts is a predicate, and a
  command line is its parsed form. What is printed is a list of values and rows; for eval also the lines.
\<close>

section \<open>The command line\<close>

datatype source_kind = KMock | KSerial | KAcpi | KWindows

datatype flow_control = FlowNone | FlowHw

datatype threshold_arg = OnArg | RampingArg | MaxArg

fun threshold_of_arg :: "threshold_arg \<Rightarrow> lib_threshold" where
  "threshold_of_arg OnArg = On"
| "threshold_of_arg RampingArg = Ramping"
| "threshold_of_arg MaxArg = lib_threshold.Max"

datatype timer_id_arg = AcArg | DcArg

fun timer_of_arg :: "timer_id_arg \<Rightarrow> timer_id" where
  "timer_of_arg AcArg = AcPower"
| "timer_of_arg DcArg = DcPower"

datatype thermal_cli = CliGetTemperature | CliGetRpm | CliGetMinRpm | CliGetMaxRpm
  | CliGetThreshold threshold_arg | CliSetRpm f64

datatype battery_cli = CliGetBst | CliGetBix | CliSetBtp u32

datatype rtc_cli = CliGetCapabilities | CliGetRealTime | CliGetWakeStatus timer_id_arg
  | CliGetExpiredTimerWakePolicy timer_id_arg | CliGetTimerValue timer_id_arg

datatype 'p cli_command = CliThermal thermal_cli | CliBattery battery_cli | CliRtc rtc_cli
  | CliScript 'p | CliEval ustr "ustr list"

record 'p cli =
  cli_source :: "source_kind option"
  cli_port :: "ustr option"
  cli_flow_control :: flow_control
  cli_baud :: u32
  cli_sensor_instance :: u8
  cli_fan_instance :: u8
  cli_command :: "'p cli_command"

text \<open>The targets the crate is built for, and the default of \<open>--source\<close> on each.\<close>

datatype target_os = WindowsArm64 | WindowsOther | OtherOs

definition default_source :: "target_os \<Rightarrow> source_kind" where
  "default_source os = (if os = WindowsArm64 then KAcpi else KSerial)"

definition source_of :: "target_os \<Rightarrow> 'p cli \<Rightarrow> source_kind" where
  "source_of os c = (case cli_source c of Some k \<Rightarrow> k | None \<Rightarrow> default_source os)"

text \<open>What clap accepts: the values there are on the target, and the two rules on \<open>--port\<close>.\<close>

definition clap_accepts :: "target_os \<Rightarrow> 'p cli \<Rightarrow> bool" where
  "clap_accepts os c \<longleftrightarrow>
     (cli_source c = Some KAcpi \<longrightarrow> os = WindowsArm64) \<and> (cli_source c = Some KWindows \<longrightarrow> os \<noteq> OtherOs) \<and>
     ((\<exists>m as. cli_command c = CliEval m as) \<longrightarrow> os = WindowsArm64) \<and>
     (cli_source c = Some KSerial \<longrightarrow> cli_port c \<noteq> None) \<and>
     (os \<noteq> WindowsArm64 \<longrightarrow> cli_source c = None \<longrightarrow> cli_port c \<noteq> None)"

text \<open>What \<open>main\<close> does with a command line; \<open>MissingPort\<close> is the panic of its \<open>expect\<close>.\<close>

datatype 'p choice = EvalOn u8 ustr "ustr list" | EvalRefused | OnMock "'p cli_command"
  | OnSerial ustr u32 bool u8 u8 "'p cli_command" | OnAcpi u8 "'p cli_command" | OnWindows "'p cli_command"
  | MissingPort

definition cli_main :: "target_os \<Rightarrow> 'p cli \<Rightarrow> 'p choice" where
  "cli_main os c = (case (if os = WindowsArm64 then cli_command c else CliThermal CliGetRpm) of
      CliEval m as \<Rightarrow> (case source_of os c of KAcpi \<Rightarrow> EvalOn (cli_fan_instance c) m as | _ \<Rightarrow> EvalRefused)
    | _ \<Rightarrow> (case source_of os c of
        KMock \<Rightarrow> OnMock (cli_command c)
      | KSerial \<Rightarrow> (case cli_port c of None \<Rightarrow> MissingPort
          | Some port \<Rightarrow> OnSerial port (cli_baud c) (cli_flow_control c = FlowHw) (cli_sensor_instance c)
              (cli_fan_instance c) (cli_command c))
      | KAcpi \<Rightarrow> OnAcpi (cli_fan_instance c) (cli_command c)
      | KWindows \<Rightarrow> OnWindows (cli_command c)))"

text \<open>The panic cannot happen, and \<open>eval\<close> never reaches a generic source.\<close>

lemma cli_port_present: "clap_accepts os c \<Longrightarrow> cli_main os c \<noteq> MissingPort"
  by (auto simp: cli_main_def clap_accepts_def source_of_def default_source_def
      split: cli_command.splits source_kind.splits option.splits if_splits)

lemma cli_eval_apart:
  assumes "clap_accepts os c" and "cli_command c = CliEval m as"
  shows "cli_main os c = (if source_of os c = KAcpi then EvalOn (cli_fan_instance c) m as else EvalRefused)"
  using assms by (auto simp: cli_main_def clap_accepts_def split: source_kind.splits)

section \<open>One-shot commands\<close>

datatype 'ts printed_value = PNum f64 | PBst bst_return | PBix bix_fixed_strings | PCapabilities u32
  | PTime 'ts | PWakeStatus u32 | PWakePolicy u32 | PTimerValue u32

definition show_op :: "('a \<Rightarrow> 'v) \<Rightarrow> ('s, 'e, 'a) ec_op \<Rightarrow> ('s, 'e, 'v list) ec_op" where
  "show_op f m = op_then m (\<lambda>x. op_ret [f x])"

definition quiet_op :: "('s, 'e, unit) ec_op \<Rightarrow> ('s, 'e, 'v list) ec_op" where
  "quiet_op m = op_then m (\<lambda>_. op_ret [])"

fun thermal_run :: "('s, 'e, 'ts) source \<Rightarrow> thermal_cli \<Rightarrow> ('s, 'e, 'ts printed_value list) ec_op" where
  "thermal_run src CliGetTemperature = show_op PNum (src_get_temperature src)"
| "thermal_run src CliGetRpm = show_op PNum (src_get_rpm src)"
| "thermal_run src CliGetMinRpm = show_op PNum (src_get_min_rpm src)"
| "thermal_run src CliGetMaxRpm = show_op PNum (src_get_max_rpm src)"
| "thermal_run src (CliGetThreshold t) = show_op PNum (src_get_threshold src (threshold_of_arg t))"
| "thermal_run src (CliSetRpm rpm) = quiet_op (src_set_rpm src rpm)"

fun battery_run :: "('s, 'e, 'ts) source \<Rightarrow> battery_cli \<Rightarrow> ('s, 'e, 'ts printed_value list) ec_op" where
  "battery_run src CliGetBst = show_op PBst (src_get_bst src)"
| "battery_run src CliGetBix = show_op PBix (src_get_bix src)"
| "battery_run src (CliSetBtp trippoint) = quiet_op (src_set_btp src trippoint)"

fun rtc_run :: "('s, 'e, 'ts) source \<Rightarrow> rtc_cli \<Rightarrow> ('s, 'e, 'ts printed_value list) ec_op" where
  "rtc_run src CliGetCapabilities = show_op PCapabilities (src_get_capabilities src)"
| "rtc_run src CliGetRealTime = show_op PTime (src_get_real_time src)"
| "rtc_run src (CliGetWakeStatus t) = show_op PWakeStatus (src_get_wake_status src (timer_of_arg t))"
| "rtc_run src (CliGetExpiredTimerWakePolicy t) =
     show_op PWakePolicy (src_get_expired_timer_wake_policy src (timer_of_arg t))"
| "rtc_run src (CliGetTimerValue t) = show_op PTimerValue (src_get_timer_value src (timer_of_arg t))"

section \<open>Batches of scripts\<close>

text \<open>
  What a path names: a file with the result of reading it, a directory with its entries or the error of
  listing it, something else (a link is not followed below the path given), or an entry whose type
  cannot be read. The entries end, or fail at some point. A path is its list of components. The tree
  does not change under a run.
\<close>

datatype 'x node = FileNode "'x + ustr" | DirNode "'x entries" | Unlisted 'x | OtherNode "'x + ustr" | NoType 'x
  and 'x entries = NoMore | BadEntry 'x | Entry ustr "'x node" "'x entries"

type_synonym path = "ustr list"

datatype 'x cli_error = IoError 'x | StatError 'x | NoTestFiles | CannotRead path 'x
  | ScriptError path parse_error | TestsFailed u32

definition path_extension :: "ustr \<Rightarrow> ustr option" where
  "path_extension name = (case rsplit_once 46 name of
     None \<Rightarrow> None | Some (stem, ext) \<Rightarrow> if stem = [] then None else Some ext)"

definition is_test_file :: "ustr \<Rightarrow> bool" where
  "is_test_file name \<longleftrightarrow> path_extension name = Some (str_of ''test'')"

type_synonym 'x found = "(path \<times> ('x + ustr)) list"

text \<open>\<open>walk\<close> appends to \<open>out\<close>; every file comes with what reading it answers.\<close>

fun walk :: "path \<Rightarrow> 'x entries \<Rightarrow> 'x found \<Rightarrow> 'x + 'x found" where
  "walk dir NoMore out = Inr out"
| "walk dir (BadEntry e) out = Inl e"
| "walk dir (Entry name (NoType e) es) out = Inl e"
| "walk dir (Entry name (Unlisted e) es) out = Inl e"
| "walk dir (Entry name (DirNode sub) es) out = (case walk (dir @ [name]) sub out of
     Inl e \<Rightarrow> Inl e | Inr out' \<Rightarrow> walk dir es out')"
| "walk dir (Entry name (FileNode content) es) out =
     walk dir es (if is_test_file name then out @ [(dir @ [name], content)] else out)"
| "walk dir (Entry name (OtherNode content) es) out = walk dir es out"

definition collect_test_files :: "path \<Rightarrow> 'x entries \<Rightarrow> 'x + 'x found" where
  "collect_test_files dir entries = thenE (walk dir entries []) (\<lambda>out. Inr (sort_key fst out))"

text \<open>
  Running the files in their order: the totals are 32-bit counters, the reports are what is printed of each
  file. The outer option is the panic of a script, which \<open>run_files_total\<close> excludes.
\<close>

record batch =
  total_passed :: u32
  total_failed :: u32
  failed_files :: "path list"
  reports :: "(path \<times> summary) list"

definition batch_new :: batch where
  "batch_new = \<lparr>total_passed = 0, total_failed = 0, failed_files = [], reports = []\<rparr>"

definition batch_add :: "path \<Rightarrow> summary \<Rightarrow> batch \<Rightarrow> batch" where
  "batch_add file sm b = b\<lparr>total_passed := total_passed b + sum_passed sm, total_failed := total_failed b + sum_failed sm,
     failed_files := (if all_passed sm then failed_files b else failed_files b @ [file]),
     reports := reports b @ [(file, sm)]\<rparr>"

fun run_files :: "'ts script_host \<Rightarrow> ('s, 'e, 'ts) source \<Rightarrow> 'x found \<Rightarrow> batch \<Rightarrow> 's \<Rightarrow>
    ('x cli_error option \<times> batch \<times> 's) option" where
  "run_files host src [] b s = Some (None, b, s)"
| "run_files host src ((file, content) # files) b s = (case content of
     Inl e \<Rightarrow> Some (Some (CannotRead file e), b, s)
   | Inr script \<Rightarrow> (case run_script host src script s of
       None \<Rightarrow> None
     | Some (Inl e) \<Rightarrow> Some (Some (ScriptError file e), b, s)
     | Some (Inr (sm, s', env, r)) \<Rightarrow> run_files host src files (batch_add file sm b) s'))"

definition files_at :: "path \<Rightarrow> 'x node \<Rightarrow> 'x cli_error + 'x found" where
  "files_at path node = (case node of
      NoType e \<Rightarrow> Inl (StatError e)
    | Unlisted e \<Rightarrow> Inl (IoError e)
    | DirNode es \<Rightarrow> (case collect_test_files path es of Inl e \<Rightarrow> Inl (IoError e) | Inr fs \<Rightarrow> Inr fs)
    | FileNode content \<Rightarrow> Inr [(path, content)]
    | OtherNode content \<Rightarrow> Inr [(path, content)])"

definition run_path :: "'ts script_host \<Rightarrow> ('s, 'e, 'ts) source \<Rightarrow> path \<Rightarrow> 'x node \<Rightarrow> 's \<Rightarrow>
    (('x cli_error + unit) \<times> batch \<times> 's) option" where
  "run_path host src path node s = (case files_at path node of
     Inl e \<Rightarrow> Some (Inl e, batch_new, s)
   | Inr files \<Rightarrow>
       if files = [] then Some (Inl NoTestFiles, batch_new, s)
       else (case run_files host src files batch_new s of
          None \<Rightarrow> None
        | Some (Some e, b, s') \<Rightarrow> Some (Inl e, b, s')
        | Some (None, b, s') \<Rightarrow>
            Some (if 0 < total_failed b then Inl (TestsFailed (total_failed b)) else Inr (), b, s')))"

section \<open>What a batch does\<close>

text \<open>The \<open>.test\<close> files of a tree, without the accumulator, and whether the walk meets an error.\<close>

fun test_files :: "path \<Rightarrow> 'x entries \<Rightarrow> 'x found" where
  "test_files dir (Entry name (DirNode sub) es) = test_files (dir @ [name]) sub @ test_files dir es"
| "test_files dir (Entry name (FileNode content) es) =
     (if is_test_file name then [(dir @ [name], content)] else []) @ test_files dir es"
| "test_files dir (Entry name n es) = test_files dir es"
| "test_files dir es = []"

fun readable :: "'x entries \<Rightarrow> bool" where
  "readable NoMore = True"
| "readable (BadEntry e) = False"
| "readable (Entry name (DirNode sub) es) = (readable sub \<and> readable es)"
| "readable (Entry name (Unlisted e) es) = False"
| "readable (Entry name (NoType e) es) = False"
| "readable (Entry name n es) = readable es"

lemma walk_eq:
  "(readable es \<longrightarrow> walk dir es out = Inr (out @ test_files dir es)) \<and>
   (\<not> readable es \<longrightarrow> (\<exists>e. walk dir es out = Inl e))"
  by (induction dir es out rule: walk.induct) (auto split: sum.split)

lemma collect_eq: "collect_test_files dir es = (if readable es then Inr (sort_key fst (test_files dir es))
     else collect_test_files dir es) \<and> (readable es \<longleftrightarrow> (\<exists>fs. collect_test_files dir es = Inr fs))"
  using walk_eq [of es dir "[]"] by (auto simp: collect_test_files_def)

lemma run_script_total: "run_script host src script s \<noteq> None"
proof (cases "parse host script")
  case (Inr stmts)
  then show ?thesis using execute_all_total [of host src stmts s Map.empty runner_new] by (auto simp: run_script_def)
qed (simp add: run_script_def)

lemma run_files_total: "run_files host src files b s \<noteq> None"
proof (induction files arbitrary: b s)
  case (Cons f files)
  obtain fl content where f: "f = (fl, content)" by force
  show ?case
  proof (cases content)
    case (Inr script)
    then show ?thesis using Cons.IH run_script_total [of host src script s] by (auto simp: f split: option.split sum.split prod.split)
  qed (simp add: f)
qed simp

text \<open>The rows a file prints, and their counts.\<close>

definition script_rows :: "'ts script_host \<Rightarrow> 'x + ustr \<Rightarrow> nat" where
  "script_rows host content = (case content of Inl e \<Rightarrow> 0 | Inr script \<Rightarrow>
     (case parse host script of Inl e \<Rightarrow> 0 | Inr stmts \<Rightarrow> length (concat (map row_of stmts))))"

definition runnable :: "'ts script_host \<Rightarrow> 'x + ustr \<Rightarrow> bool" where
  "runnable host content = (case content of Inl e \<Rightarrow> False | Inr script \<Rightarrow>
     (case parse host script of Inl e \<Rightarrow> False | Inr stmts \<Rightarrow> True))"

definition summary_rows :: "summary \<Rightarrow> nat" where
  "summary_rows sm = unat (sum_passed sm) + unat (sum_failed sm)"

lemma runnable_runs:
  assumes "runnable host content" and "script_rows host content < 2 ^ 32"
  obtains script sm s' env r where "content = Inr script" and "run_script host src script s = Some (Inr (sm, s', env, r))"
    and "summary_rows sm = script_rows host content"
proof -
  from assms(1) obtain script stmts where c: "content = Inr script" "parse host script = Inr stmts"
    by (auto simp: runnable_def split: sum.splits)
  obtain s' env r where e: "execute_all host src stmts (s, Map.empty, runner_new) = Some (s', env, r)"
    "map (\<lambda>(l, t, _). (l, t)) (printed r) = concat (map row_of stmts)" "tallied r"
    using execute_all_total [of host src stmts s Map.empty runner_new]
    by (auto simp: runner_new_def tallied_new [unfolded runner_new_def])
  have n: "outcomes Passed r + outcomes Failed r = script_rows host content"
    unfolding outcomes_sum using arg_cong [OF e(2), of length] c by (simp add: script_rows_def)
  have "unat (of_nat k :: u32) = k" if "k < 2 ^ 32" for k using that by (simp add: unat_of_nat)
  then have "summary_rows (into_summary r) = script_rows host content"
    using e(3) n assms(2) by (simp add: summary_rows_def into_summary_def tallied_def)
  with that c e(1) show thesis by (simp add: run_script_def)
qed

lemma batch_add_simps:
  "reports (batch_add fl sm b) = reports b @ [(fl, sm)]"
  "total_failed (batch_add fl sm b) = total_failed b + sum_failed sm"
  "total_passed (batch_add fl sm b) = total_passed b + sum_passed sm"
  "failed_files (batch_add fl sm b) = (if all_passed sm then failed_files b else failed_files b @ [fl])"
  by (simp_all add: batch_add_def)

text \<open>Files that all run: each is run once, in order, on the state the one before left.\<close>

lemma run_files_all:
  assumes "list_all (\<lambda>r. runnable host (snd r)) files" and "sum_list (map (\<lambda>r. script_rows host (snd r)) files) < 2 ^ 32"
  shows "\<exists>b' s' rs. run_files host src files b s = Some (None, b', s') \<and> reports b' = reports b @ rs \<and>
    map fst rs = map fst files \<and> sum_list (map (\<lambda>r. summary_rows (snd r)) rs) = sum_list (map (\<lambda>r. script_rows host (snd r)) files) \<and>
    total_failed b' = total_failed b + sum_list (map (\<lambda>r. sum_failed (snd r)) rs) \<and>
    total_passed b' = total_passed b + sum_list (map (\<lambda>r. sum_passed (snd r)) rs) \<and>
    failed_files b' = failed_files b @ map fst (filter (\<lambda>r. \<not> all_passed (snd r)) rs)"
  using assms
proof (induction files arbitrary: b s)
  case Nil
  then show ?case by (auto intro!: exI [of _ "[]"])
next
  case (Cons f files)
  obtain fl content where f: "f = (fl, content)" by force
  from Cons.prems f have "runnable host content" "script_rows host content < 2 ^ 32" by auto
  then obtain script sm s1 env r where r: "content = Inr script" "run_script host src script s = Some (Inr (sm, s1, env, r))"
    "summary_rows sm = script_rows host content" by (rule runnable_runs)
  have p: "list_all (\<lambda>r. runnable host (snd r)) files" "sum_list (map (\<lambda>r. script_rows host (snd r)) files) < 2 ^ 32"
    using Cons.prems by (simp_all add: comp_def)
  obtain b' s' rs where
    IH: "run_files host src files (batch_add fl sm b) s1 = Some (None, b', s')"
    "reports b' = reports b @ (fl, sm) # rs" "map fst rs = map fst files"
    "sum_list (map (\<lambda>r. summary_rows (snd r)) rs) = sum_list (map (\<lambda>r. script_rows host (snd r)) files)"
    "total_failed b' = total_failed b + sum_failed sm + sum_list (map (\<lambda>r. sum_failed (snd r)) rs)"
    "total_passed b' = total_passed b + sum_passed sm + sum_list (map (\<lambda>r. sum_passed (snd r)) rs)"
    "failed_files b' = failed_files (batch_add fl sm b) @ map fst (filter (\<lambda>r. \<not> all_passed (snd r)) rs)"
    using Cons.IH [OF p, of "batch_add fl sm b" s1]
    unfolding batch_add_simps append_assoc append_Cons append_Nil by blast
  then show ?case using f r
    by (intro exI [of _ b'] exI [of _ s'] exI [of _ "(fl, sm) # rs"]) (simp add: batch_add_simps add.assoc)
qed

lemma unat_sum_list:
  "sum_list (map (\<lambda>x. unat (f x)) xs) < 2 ^ 32 \<Longrightarrow> unat (sum_list (map f xs) :: u32) = sum_list (map (\<lambda>x. unat (f x)) xs)"
  by (induction xs) (simp_all add: unat_word_ariths)

lemma sum_list_zero: "sum_list (map f xs) = (0 :: nat) \<longleftrightarrow> (\<forall>x \<in> set xs. f x = 0)"
  by (induction xs) auto

lemma batch_result:
  assumes files: "files_at p node = Inr files" "files \<noteq> []" and run: "list_all (\<lambda>r. runnable host (snd r)) files"
    and few: "sum_list (map (\<lambda>r. script_rows host (snd r)) files) < 2 ^ 32"
  shows "\<exists>b s'. run_path host src p node s =
      Some (if list_all (\<lambda>r. all_passed (snd r)) (reports b) then Inr () else Inl (TestsFailed (total_failed b)), b, s') \<and>
    map fst (reports b) = map fst files \<and>
    failed_files b = map fst (filter (\<lambda>r. \<not> all_passed (snd r)) (reports b)) \<and>
    unat (total_failed b) = sum_list (map (\<lambda>r. unat (sum_failed (snd r))) (reports b)) \<and>
    unat (total_passed b) + unat (total_failed b) = sum_list (map (\<lambda>r. script_rows host (snd r)) files)"
proof -
  obtain b s' where r: "run_files host src files batch_new s = Some (None, b, s')"
    "map fst (reports b) = map fst files"
    "sum_list (map (\<lambda>r. summary_rows (snd r)) (reports b)) = sum_list (map (\<lambda>r. script_rows host (snd r)) files)"
    "total_failed b = sum_list (map (\<lambda>r. sum_failed (snd r)) (reports b))"
    "total_passed b = sum_list (map (\<lambda>r. sum_passed (snd r)) (reports b))"
    "failed_files b = map fst (filter (\<lambda>r. \<not> all_passed (snd r)) (reports b))"
    using run_files_all [OF run few, of src batch_new s] by (auto simp: batch_new_def)
  let ?F = "sum_list (map (\<lambda>r. unat (sum_failed (snd r))) (reports b))"
    and ?P = "sum_list (map (\<lambda>r. unat (sum_passed (snd r))) (reports b))"
  have sum: "?P + ?F = sum_list (map (\<lambda>r. script_rows host (snd r)) files)"
    unfolding r(3) [symmetric] by (simp add: summary_rows_def comp_def sum_list_addf)
  then have u: "unat (total_failed b) = ?F" "unat (total_passed b) = ?P"
    using few r(4,5) unat_sum_list [of "\<lambda>r. sum_failed (snd r)" "reports b"] unat_sum_list [of "\<lambda>r. sum_passed (snd r)" "reports b"]
    by (simp_all add: comp_def)
  have "0 < total_failed b \<longleftrightarrow> \<not> list_all (\<lambda>r. all_passed (snd r)) (reports b)"
  proof -
    have "0 < total_failed b \<longleftrightarrow> ?F \<noteq> 0" using u(1) by (simp only: word_less_nat_alt unat_0 neq0_conv)
    also have "\<dots> \<longleftrightarrow> \<not> (\<forall>r \<in> set (reports b). unat (sum_failed (snd r)) = 0)" by (simp only: sum_list_zero)
    finally show ?thesis unfolding list_all_iff all_passed_def unat_eq_zero .
  qed
  then show ?thesis using r u sum files by (intro exI [of _ b] exI [of _ s']) (auto simp: run_path_def)
qed

text \<open>
  A file that cannot be read or parsed ends the batch there: what ran before it is reported, the files
  behind it are not run, and failures counted so far are not in the error.
\<close>

lemma batch_stops:
  assumes files: "files_at p node = Inr (before @ (fl, content) # behind)"
    and run: "list_all (\<lambda>r. runnable host (snd r)) before" "sum_list (map (\<lambda>r. script_rows host (snd r)) before) < 2 ^ 32"
    and bad: "\<not> runnable host content"
  shows "\<exists>e b s'. run_path host src p node s = Some (Inl e, b, s') \<and> map fst (reports b) = map fst before \<and>
    (e = (case content of Inl x \<Rightarrow> CannotRead fl x
       | Inr script \<Rightarrow> (case parse host script of Inl pe \<Rightarrow> ScriptError fl pe | Inr _ \<Rightarrow> e)))"
proof -
  have app: "run_files host src (xs @ ys) b s = (case run_files host src xs b s of
      Some (None, b', s') \<Rightarrow> run_files host src ys b' s' | r \<Rightarrow> r)" for xs ys :: "'x found" and b s
    by (induction xs arbitrary: b s) (auto split: sum.splits option.splits)
  obtain b s' where r: "run_files host src before batch_new s = Some (None, b, s')" "map fst (reports b) = map fst before"
    using run_files_all [OF run, of src batch_new s] by (auto simp: batch_new_def)
  show ?thesis using r bad files
    by (auto simp: run_path_def app runnable_def run_script_def split: sum.splits)
qed

section \<open>Raw ACPI methods\<close>

text \<open>\<open>u32::from_str_radix\<close>: an optional plus and at least one digit of the radix.\<close>

definition parse_radix :: "nat \<Rightarrow> nat \<Rightarrow> ustr \<Rightarrow> nat option" where
  "parse_radix w radix s = (let ds = (case strip_prefix [43] s of Some r \<Rightarrow> r | None \<Rightarrow> s) in
     if ds \<noteq> [] \<and> list_all (\<lambda>c. to_digit radix c \<noteq> None) ds \<and> digits_val radix ds < 2 ^ w
     then Some (digits_val radix ds) else None)"

definition parse_int :: "ustr \<Rightarrow> u32 option" where
  "parse_int token = (let (negative, body) = (case strip_prefix [45] token of Some rest \<Rightarrow> (True, rest) | None \<Rightarrow> (False, token));
       lower = map to_ascii_lowercase body;
       magnitude = (case strip_prefix (str_of ''0x'') lower of
           Some hex \<Rightarrow> parse_radix 32 16 hex
         | None \<Rightarrow> (case strip_prefix (str_of ''0b'') lower of
             Some bin \<Rightarrow> parse_radix 32 2 bin
           | None \<Rightarrow> parse_unsigned 32 body))
     in map_option (\<lambda>m. if negative then - of_nat m else of_nat m) magnitude)"

text \<open>The bytes of a \<open>str\<close>.\<close>

definition utf8_encode :: "nat \<Rightarrow> bytes" where
  "utf8_encode c = map of_nat
     (if c < 0x80 then [c]
      else if c < 0x800 then [0xC0 + c div 64, 0x80 + c mod 64]
      else if c < 0x10000 then [0xE0 + c div 4096, 0x80 + c div 64 mod 64, 0x80 + c mod 64]
      else [0xF0 + c div 262144, 0x80 + c div 4096 mod 64, 0x80 + c div 64 mod 64, 0x80 + c mod 64])"

definition str_bytes :: "ustr \<Rightarrow> bytes" where
  "str_bytes s = concat (map utf8_encode s)"

datatype arg_error = InvalidGuid ustr | InvalidInteger ustr

text \<open>\<open>uuid_bytes\<close> is the crate uuid: parsing, and the little-endian bytes of what was parsed.\<close>

definition parse_arg :: "(ustr \<Rightarrow> bytes option) \<Rightarrow> ustr \<Rightarrow> arg_error + acpi_method_argument" where
  "parse_arg uuid_bytes token =
     (case Option.bind (strip_prefix [123] token) (strip_suffix [125]) of
        Some inner \<Rightarrow> thenE (ok_or (InvalidGuid token) (uuid_bytes inner)) (\<lambda>g. Inr (ArgGuid g))
      | None \<Rightarrow> (case Option.bind (strip_prefix [39] token) (strip_suffix [39]) of
          Some inner \<Rightarrow> Inr (ArgString (str_bytes inner))
        | None \<Rightarrow> thenE (ok_or (InvalidInteger token) (parse_int token)) (\<lambda>v. Inr (ArgInt v))))"

datatype eval_error = TooManyArguments | BadArgument arg_error | EvalFailed acpi_error

definition eval_run :: "(ustr \<Rightarrow> bytes option) \<Rightarrow> 's acpi_driver \<Rightarrow> ustr \<Rightarrow> ustr list \<Rightarrow> ('s, eval_error, acpi_value list) ec_op" where
  "eval_run uuid_bytes driver meth args =
     (if 7 < length args then op_fail TooManyArguments
      else case map_try (parse_arg uuid_bytes) args of
        Inl e \<Rightarrow> op_fail (BadArgument e)
      | Inr parsed \<Rightarrow> op_map EvalFailed (acpi_eval driver (str_bytes meth) parsed))"

text \<open>Writing a number in a radix, and reading it back in every form the code accepts.\<close>

definition digit_char :: "nat \<Rightarrow> nat" where
  "digit_char d = (if d < 10 then 48 + d else 87 + d)"

function digits_in :: "nat \<Rightarrow> nat \<Rightarrow> ustr" where
  "digits_in radix n = (if radix < 2 \<or> n < radix then [digit_char n]
     else digits_in radix (n div radix) @ [digit_char (n mod radix)])"
  by pat_completeness auto
termination by (relation "measure snd") auto

declare digits_in.simps [simp del]

lemma to_digit_char: "d < radix \<Longrightarrow> radix \<le> 36 \<Longrightarrow> to_digit radix (digit_char d) = Some d"
  by (auto simp: to_digit_def digit_char_def is_ascii_digit_def is_ascii_alphabetic_def to_ascii_lowercase_def Let_def)

lemma digits_in_ok:
  assumes "2 \<le> radix" and "radix \<le> 36"
  shows "digits_in radix n \<noteq> [] \<and> list_all (\<lambda>c. \<exists>d < radix. c = digit_char d) (digits_in radix n) \<and>
    digits_val radix (digits_in radix n) = n"
  using assms
proof (induction radix n rule: digits_in.induct)
  case (1 radix n)
  show ?case
  proof (cases "n < radix")
    case True
    with 1(2,3) show ?thesis by (subst (1 2 3) digits_in.simps) (auto simp: digits_val_def to_digit_char)
  next
    case False
    with 1(2) have c: "\<not> (radix < 2 \<or> n < radix)" by simp
    have m: "n mod radix < radix" using 1(2) by simp
    note IH = 1(1) [OF c 1(2,3)]
    have d: "digits_in radix n = digits_in radix (n div radix) @ [digit_char (n mod radix)]"
      using c by (subst digits_in.simps) simp
    have "digits_val radix (digits_in radix n) = radix * digits_val radix (digits_in radix (n div radix)) + n mod radix"
      unfolding d using to_digit_char [OF m 1(3)] by (simp add: digits_val_def)
    with IH d m show ?thesis by auto
  qed
qed

lemma digit_char_facts:
  assumes "\<exists>d < radix. c = digit_char d" and "radix \<le> 36"
  shows "to_ascii_lowercase c = c" and "to_digit radix c \<noteq> None" and "c \<noteq> 43" and "c \<noteq> 45" and "radix \<le> 10 \<Longrightarrow> is_ascii_digit c"
    and "radix \<le> 10 \<Longrightarrow> c \<noteq> 120 \<and> c \<noteq> 98"
proof -
  from assms obtain d where d: "d < radix" "c = digit_char d" by blast
  then show "to_digit radix c \<noteq> None" using to_digit_char [of d radix] assms(2) by simp
  show "to_ascii_lowercase c = c" "c \<noteq> 43" "c \<noteq> 45" "radix \<le> 10 \<Longrightarrow> is_ascii_digit c"
    "radix \<le> 10 \<Longrightarrow> c \<noteq> 120 \<and> c \<noteq> 98"
    using d by (simp_all add: digit_char_def to_ascii_lowercase_def is_ascii_digit_def)
qed

lemma lowercase_digits: "2 \<le> radix \<Longrightarrow> radix \<le> 36 \<Longrightarrow> map to_ascii_lowercase (digits_in radix n) = digits_in radix n"
  using digits_in_ok [of radix n] digit_char_facts(1) [of radix] by (auto simp: list_all_iff intro!: map_idI)

lemma no_sign: "2 \<le> radix \<Longrightarrow> radix \<le> 36 \<Longrightarrow> strip_prefix [43] (digits_in radix n) = None \<and> strip_prefix [45] (digits_in radix n) = None"
  using digits_in_ok [of radix n] digit_char_facts(3,4) [of radix]
  by (cases "digits_in radix n") (auto simp: strip_prefix_def)

lemma parse_radix_digits:
  assumes "2 \<le> radix" and "radix \<le> 36" and "n < 2 ^ w"
  shows "parse_radix w radix (digits_in radix n) = Some n"
  using digits_in_ok [OF assms(1,2), of n] no_sign [OF assms(1,2), of n] digit_char_facts(2) [of radix] assms(2,3)
  by (auto simp: parse_radix_def Let_def list_all_iff)

lemma parse_unsigned_digits: "n < 2 ^ w \<Longrightarrow> parse_unsigned w (digits_in 10 n) = Some n"
  using digits_in_ok [of 10 n] no_sign [of 10 n] digit_char_facts(5) [of 10]
  by (auto simp: parse_unsigned_def Let_def list_all_iff)

lemma no_prefix: "strip_prefix [48, c] (digits_in 10 n) = None" if "c = 120 \<or> c = 98"
  using digits_in_ok [of 10 n] digit_char_facts(6) [of 10] that
  by (cases "digits_in 10 n" rule: remdups_adj.cases) (auto simp: strip_prefix_def list_all_iff)

text \<open>
  Every 32-bit number is read back from its decimal, hexadecimal and binary form; with a minus sign in
  front, as its two's complement.
\<close>

lemma parse_int_reads:
  fixes v :: u32
  shows "parse_int (digits_in 10 (unat v)) = Some v"
    and "parse_int (str_of ''0x'' @ digits_in 16 (unat v)) = Some v"
    and "parse_int (str_of ''0b'' @ digits_in 2 (unat v)) = Some v"
    and "parse_int (45 # digits_in 10 (unat v)) = Some (- v)"
    and "parse_int (45 # str_of ''0x'' @ digits_in 16 (unat v)) = Some (- v)"
    and "parse_int (45 # str_of ''0b'' @ digits_in 2 (unat v)) = Some (- v)"
proof -
  have v: "unat v < 2 ^ 32" using unsigned_less [of v] by simp
  have s: "str_of ''0x'' = [48, 120]" "str_of ''0b'' = [48, 98]" by (simp_all add: str_of_def)
  have low: "to_ascii_lowercase 48 = 48" "to_ascii_lowercase 120 = 120" "to_ascii_lowercase 98 = 98"
    by (simp_all add: to_ascii_lowercase_def)
  have p: "strip_prefix [x, y] (x # y # r) = Some r" "strip_prefix [x] (x # r) = Some r"
    "strip_prefix [45] (48 # r) = None" "strip_prefix [48, 120] (48 # 98 # r) = None" for x y r
    by (simp_all add: strip_prefix_def)
  note simps = parse_int_def s low p lowercase_digits no_sign no_prefix parse_radix_digits [OF _ _ v]
    parse_unsigned_digits [OF v] Let_def
  show "parse_int (digits_in 10 (unat v)) = Some v" by (simp add: simps)
  show "parse_int (str_of ''0x'' @ digits_in 16 (unat v)) = Some v" by (simp add: simps)
  show "parse_int (str_of ''0b'' @ digits_in 2 (unat v)) = Some v" by (simp add: simps)
  show "parse_int (45 # digits_in 10 (unat v)) = Some (- v)" by (simp add: simps)
  show "parse_int (45 # str_of ''0x'' @ digits_in 16 (unat v)) = Some (- v)" by (simp add: simps)
  show "parse_int (45 # str_of ''0b'' @ digits_in 2 (unat v)) = Some (- v)" by (simp add: simps)
qed

text \<open>Too many arguments or a bad one: the driver is not asked. Otherwise it is asked once at most.\<close>

lemma eval_refused:
  "7 < length args \<Longrightarrow> eval_run ub driver meth args s = (Inl TooManyArguments, s)"
  "length args \<le> 7 \<Longrightarrow> map_try (parse_arg ub) args = Inl e \<Longrightarrow> eval_run ub driver meth args s = (Inl (BadArgument e), s)"
  by (simp_all add: eval_run_def op_fail_def)

section \<open>Printing the values of a method\<close>

text \<open>\<open>{:02X}\<close> and \<open>{:08X}\<close>: upper case, filled with zeros.\<close>

definition upper_digit :: "nat \<Rightarrow> nat" where
  "upper_digit c = (if 97 \<le> c \<and> c \<le> 122 then c - 32 else c)"

definition hex_upper :: "nat \<Rightarrow> nat \<Rightarrow> ustr" where
  "hex_upper w n = (let ds = map upper_digit (digits_in 16 n) in replicate (w - length ds) 48 @ ds)"

definition spaced_bytes :: "bytes \<Rightarrow> ustr" where
  "spaced_bytes b = concat (map (\<lambda>x. 32 # hex_upper 2 (unat x)) b)"

fun show_acpi_value :: "acpi_value \<Rightarrow> ustr" where
  "show_acpi_value (AvInteger i) = str_of ''Integer: '' @ digits_in 10 (unat i) @ str_of '' (0x'' @ hex_upper 8 (unat i) @ str_of '')''"
| "show_acpi_value (AvString s) = str_of ''String: '' @ s"
| "show_acpi_value (AvBuffer b) = str_of ''Buffer ('' @ digits_in 10 (length b) @ str_of '' bytes):'' @ spaced_bytes b"
| "show_acpi_value (AvPackage items) = str_of ''Package ('' @ digits_in 10 (length items) @ str_of '' items):''
     @ concat (map (\<lambda>item. str_of '' ('' @ show_acpi_value item @ str_of '')'') items)"
| "show_acpi_value (AvMalformed b) =
     str_of ''Malformed trailing data ('' @ digits_in 10 (length b) @ str_of '' bytes):'' @ spaced_bytes b"

text \<open>The lines \<open>eval\<close> prints of a result.\<close>

definition eval_lines :: "ustr \<Rightarrow> acpi_value list \<Rightarrow> ustr list" where
  "eval_lines meth results =
     (if results = [] then [meth @ str_of '' returned no values'']
      else (meth @ str_of '' returned '' @ digits_in 10 (length results) @ str_of '' value(s):'') #
        map (\<lambda>(i, v). str_of ''  ['' @ digits_in 10 i @ str_of ''] '' @ show_acpi_value v) (enumerate 0 results))"

text \<open>The hexadecimal form an integer is printed in is read back as an argument.\<close>

lemma lower_upper: "\<exists>d < 16. c = digit_char d \<Longrightarrow> to_ascii_lowercase (upper_digit c) = c"
proof -
  assume "\<exists>d < 16. c = digit_char d"
  then obtain d where "d < 16" "c = digit_char d" by blast
  then show ?thesis
    by (cases "d < 10") (simp_all add: to_ascii_lowercase_def upper_digit_def digit_char_def)
qed

lemma parse_int_hex:
  assumes "map to_ascii_lowercase ds = ls" and "parse_radix 32 16 ls = Some n"
  shows "parse_int (str_of ''0x'' @ ds) = Some (of_nat n)"
proof -
  have s: "str_of ''0x'' = [48, 120]" by (simp add: str_of_def)
  have "strip_prefix [48, 120] (48 # 120 # r) = Some r" "strip_prefix [45] (48 # r) = None" for r
    by (simp_all add: strip_prefix_def)
  moreover have "to_ascii_lowercase 48 = 48" "to_ascii_lowercase 120 = 120" by (simp_all add: to_ascii_lowercase_def)
  ultimately show ?thesis using assms by (simp add: parse_int_def s Let_def)
qed

lemma digits_val_leading_zeros: "digits_val 16 (replicate k 48 @ ds) = digits_val 16 ds"
proof (induction k)
  case (Suc k)
  have "to_digit 16 48 = Some 0" by (simp add: to_digit_def is_ascii_digit_def)
  with Suc show ?case by (simp add: digits_val_def)
qed simp

lemma hex_reads_back: "parse_int (str_of ''0x'' @ hex_upper 8 (unat (v :: u32))) = Some v"
proof -
  let ?ds = "digits_in 16 (unat v)"
  have ok: "?ds \<noteq> []" "list_all (\<lambda>c. \<exists>d < 16. c = digit_char d) ?ds" "digits_val 16 ?ds = unat v"
    using digits_in_ok [of 16 "unat v"] by auto
  obtain k where h: "hex_upper 8 (unat v) = replicate k 48 @ map upper_digit ?ds" by (auto simp: hex_upper_def Let_def)
  have z: "to_digit 16 48 = Some 0" "to_ascii_lowercase 48 = 48" "to_ascii_lowercase 120 = 120"
    by (simp_all add: to_digit_def is_ascii_digit_def to_ascii_lowercase_def)
  have "map to_ascii_lowercase (map upper_digit ?ds) = ?ds"
    using ok(2) by (induction ?ds) (auto simp: list_all_iff lower_upper intro!: map_idI)
  then have l: "map to_ascii_lowercase (replicate k 48 @ map upper_digit ?ds) = replicate k 48 @ ?ds"
    by (simp only: map_append map_replicate z)
  have "strip_prefix [43] (replicate k 48 @ ?ds) = None"
    using no_sign [of 16 "unat v"] by (cases k) (auto simp: strip_prefix_def)
  moreover have "list_all (\<lambda>c. to_digit 16 c \<noteq> None) (replicate k 48 @ ?ds)"
    using ok(2) digit_char_facts(2) [of 16] z by (auto simp: list_all_iff)
  moreover have "unat v < 2 ^ 32" using unsigned_less [of v] by simp
  ultimately have r: "parse_radix 32 16 (replicate k 48 @ ?ds) = Some (unat v)"
    using ok by (simp add: parse_radix_def Let_def digits_val_leading_zeros)
  show ?thesis unfolding h using parse_int_hex [OF l r] by simp
qed

end
