(* ===== verification/CliProperties.thy ===== *)
theory CliProperties
  imports EcExample EcCli
begin










end
