(* ===== verification/TuiPages.thy ===== *)
theory TuiPages
  imports TuiText TuiWorld
begin

text \<open>
  The pages and the dashboard cards of the terminal UI: what common.rs, battery.rs, thermal.rs, rtc.rs, system.rs and
  ucsi.rs of src/ec/test-tui/src hand to the terminal library ratatui, as panels of lines, gauges and plots. Where on
  the terminal a panel goes is left out; a panel that is \<open>None\<close> is one whose drawing panics.
\<close>

section \<open>Spans, lines and widgets\<close>

text \<open>A span is its text, its colour when it has one of its own, and whether it is bold.\<close>

type_synonym span = "ustr \<times> color option \<times> bool"
type_synonym row = "span list"

definition span_raw :: "ustr \<Rightarrow> span" where "span_raw t = (t, None, False)"
definition span_fg :: "ustr \<Rightarrow> color \<Rightarrow> span" where "span_fg t c = (t, Some c, False)"
definition span_bold :: "ustr \<Rightarrow> color \<Rightarrow> span" where "span_bold t c = (t, Some c, True)"

record graph =
  g_title :: ustr
  g_color :: color
  g_samples :: "(f64 \<times> f64) list"
  g_x_axis :: ustr
  g_x_bounds :: "f64 \<times> f64"
  g_x_labels :: "ustr list"
  g_y_axis :: ustr
  g_y_bounds :: "f64 \<times> f64"
  g_y_labels :: "ustr list"

text \<open>
  \<open>Percent\<close> is ratatui's Gauge, \<open>Bar\<close> its LineGauge with a ratio, a label and the colours of both parts.
\<close>

datatype widget =
    Lines "row list"
  | Percent color nat
  | Bar f64 ustr color color
  | Spark "(f64 \<times> f64) list" color f64 "f64 \<times> f64"
  | Plot graph
  | Throughput "(f64 \<times> f64) list" "(f64 \<times> f64) list" "ustr list" "ustr list" f64 "ustr list"
  | BatteryIcon nat color bool
  | Rows "(ustr \<times> span) list"

record panel =
  p_titles :: "row list"
  p_border :: "color option"
  p_body :: "widget list"

definition panel :: "row \<Rightarrow> color \<Rightarrow> widget list \<Rightarrow> panel" where
  "panel title border body = \<lparr>p_titles = [title], p_border = Some border, p_body = body\<rparr>"

section \<open>Symbols\<close>

text \<open>The variable EC_TUI_DISABLE_UNICODE when it is set to a text, and what the terminal supports.\<close>

definition unicode_enabled :: "ustr option \<Rightarrow> bool \<Rightarrow> bool" where
  "unicode_enabled disable supports = (if (case disable of Some v \<Rightarrow> v \<noteq> [] | None \<Rightarrow> False) then False else supports)"

record symbols =
  sy_dot :: ustr
  sy_charging :: ustr
  sy_discharging :: ustr
  sy_arrow_up :: ustr
  sy_arrow_down :: ustr
  sy_arrow_left :: ustr
  sy_arrow_right :: ustr
  sy_degree :: ustr
  sy_en_dash :: ustr
  sy_warning :: ustr
  sy_h_line :: ustr
  sy_mid_dot :: ustr

definition SYMBOLS :: "bool \<Rightarrow> symbols" where
  "SYMBOLS unicode =
    (if unicode then
       \<lparr>sy_dot = [0x25CF], sy_charging = [0x25B2], sy_discharging = [0x25BC], sy_arrow_up = [0x2191],
        sy_arrow_down = [0x2193], sy_arrow_left = [0x25C4], sy_arrow_right = [0x25BA], sy_degree = [0xB0],
        sy_en_dash = [0x2013], sy_warning = [0x26A0], sy_h_line = [0x2500], sy_mid_dot = [0xB7]\<rparr>
     else
       \<lparr>sy_dot = str_of ''*'', sy_charging = str_of ''^'', sy_discharging = str_of ''v'', sy_arrow_up = str_of ''^'',
        sy_arrow_down = str_of ''v'', sy_arrow_left = str_of ''<'', sy_arrow_right = str_of ''>'', sy_degree = [],
        sy_en_dash = str_of ''-'', sy_warning = str_of ''!'', sy_h_line = str_of ''-'', sy_mid_dot = str_of ''.''\<rparr>)"

section \<open>What is read of the values\<close>

text \<open>
  The values are those of the interface crates: the text of an error, the CHARGING bit, the enumerations, the bits of
  the capabilities and of a timer's status, and the decoded UCSI structures. Whether the build checks for overflow and
  whether the symbols of Unicode are used are part of the environment.
\<close>

datatype battery_technology = Primary | Secondary
datatype swap_capability = NonSwappable | ColdSwappable | HotSwappable

record timer_caps =
  realtime_implemented :: bool
  get_wake_status_supported :: bool
  realtime_accuracy_in_milliseconds :: bool
  ac_wake_implemented :: bool
  ac_s4_wake_supported :: bool
  ac_s5_wake_supported :: bool
  dc_wake_implemented :: bool
  dc_s4_wake_supported :: bool
  dc_s5_wake_supported :: bool

record ('r, 'ts, 'cap, 'ccap, 'stat) display =
  e_checks :: bool
  e_unicode :: bool
  e_error :: "'r \<Rightarrow> ustr"
  e_utf8 :: "bytes \<Rightarrow> ustr option"
  e_charging :: "u32 \<Rightarrow> bool"
  e_power_unit :: "u32 \<Rightarrow> power_unit_kind"
  e_technology :: "u32 \<Rightarrow> battery_technology"
  e_swap :: "u32 \<Rightarrow> swap_capability"
  e_datetime :: "'ts \<Rightarrow> datetime"
  e_time_zone :: "'ts \<Rightarrow> acpi_time_zone"
  e_dst :: "'ts \<Rightarrow> dst_status"
  e_caps :: "u32 \<Rightarrow> timer_caps"
  e_timer_disabled :: u32
  e_wake_never :: u32
  e_wake_instantly :: u32
  e_timer_expired :: "u32 \<Rightarrow> bool"
  e_triggered_wake :: "u32 \<Rightarrow> bool"
  e_num_connectors :: "'cap \<Rightarrow> u8"
  e_provider :: "'ccap \<Rightarrow> bool"
  e_consumer :: "'ccap \<Rightarrow> bool"
  e_connect_status :: "'stat \<Rightarrow> bool"
  e_power_direction :: "'stat \<Rightarrow> power_role option"

abbreviation sym :: "('r, 'ts, 'cap, 'ccap, 'stat) display \<Rightarrow> symbols" where "sym en \<equiv> SYMBOLS (e_unicode en)"

section \<open>Shared widgets\<close>

definition status_title :: "bool \<Rightarrow> ustr \<Rightarrow> bool \<Rightarrow> row" where
  "status_title unicode title success =
    [span_fg ([32] @ sy_dot (SYMBOLS unicode) @ [32]) (if success then GREEN_c400 else RED_c500), span_raw (title @ [32])]"

definition metric_row :: "ustr \<Rightarrow> ustr \<Rightarrow> color \<Rightarrow> row" where
  "metric_row label value label_color = [span_bold label label_color, span_raw (str_of ''  ''), span_fg value White]"

definition time_labels :: "nat \<Rightarrow> ustr list" where
  "time_labels max_samples = [dec 0, dec (max_samples div 2), dec max_samples]"

text \<open>
  A LineGauge refuses a ratio outside of 0 to 1 with a panic; \<open>clamp\<close> lets through what is not a number.
\<close>

definition threshold_gauge :: "f64 \<Rightarrow> ustr option \<Rightarrow> (f64 \<times> color) list \<Rightarrow> color \<Rightarrow> widget option" where
  "threshold_gauge ratio label bands track =
    (let r = fclamp (Fin 0) (Fin 1) ratio;
       l = (case label of Some t \<Rightarrow> t | None \<Rightarrow> fixed 0 (fmul ratio (Fin 100)) @ [37])
     in if fle (Fin 0) r \<and> fle r (Fin 1) then Some (Bar r l (threshold_color ratio bands) track) else None)"

text \<open>A sparkline needs a sample; that its area has two rows is taken for granted.\<close>

definition render_sparkline :: "(f64 \<times> f64) list \<Rightarrow> color \<Rightarrow> f64 \<times> f64 \<Rightarrow> widget list" where
  "render_sparkline samples color y_bounds =
    (if samples = [] then [] else [Spark samples color (fmax64 (fst (last samples)) (Fin 1)) y_bounds])"

definition render_input_popup :: "ustr \<Rightarrow> ustr \<Rightarrow> panel" where
  "render_input_popup title value =
    \<lparr>p_titles = [[(title, None, True)], [span_fg (str_of '' Enter  confirm    Esc  cancel '') SLATE_c500]],
     p_border = Some YELLOW_c500, p_body = [Lines [[span_raw (str_of ''> '' @ value)]]]\<rparr>"

text \<open>The text an input holds is what \<open>value_and_reset\<close> returns of it.\<close>

definition input_value :: "('i, 'x) input_ops \<Rightarrow> 'i \<Rightarrow> ustr" where "input_value ops i = fst (in_value_and_reset ops i)"

section \<open>Formats of Rust\<close>

text \<open>
  A number with its sign, and \<open>Display\<close> of an f64: the decimal with the fewest digits behind the point that reads
  back as the number, of numbers below 2^53, where this is the shortest one.
\<close>

definition signed_fixed :: "nat \<Rightarrow> f64 \<Rightarrow> ustr" where
  "signed_fixed p x = (case x of
      NaN \<Rightarrow> fixed p x
    | Inf s \<Rightarrow> (if s then [] else [43]) @ fixed p x
    | Fin q \<Rightarrow> (if q < 0 then [] else [43]) @ fixed p x)"

definition display_f64 :: "f64 \<Rightarrow> ustr" where
  "display_f64 x = (case x of
      Fin q \<Rightarrow> (case find (\<lambda>p. round64 (of_int (round_even (q * 10 ^ p)) / 10 ^ p) = x) [0..<1075] of
          Some p \<Rightarrow> fixed p x | None \<Rightarrow> [])
    | _ \<Rightarrow> fixed 0 x)"

definition pad_right :: "nat \<Rightarrow> ustr \<Rightarrow> ustr" where "pad_right w t = t @ replicate (w - length t) 32"
definition pad_left :: "nat \<Rightarrow> ustr \<Rightarrow> ustr" where "pad_left w t = replicate (w - length t) 32 @ t"

section \<open>Battery\<close>

definition power_unit_as_capacity_str :: "power_unit_kind \<Rightarrow> ustr" where
  "power_unit_as_capacity_str u = str_of (case u of MilliWatts \<Rightarrow> ''mWh'' | MilliAmps \<Rightarrow> ''mAh'')"

definition power_unit_as_rate_str :: "power_unit_kind \<Rightarrow> ustr" where
  "power_unit_as_rate_str u = str_of (case u of MilliWatts \<Rightarrow> ''mW'' | MilliAmps \<Rightarrow> ''mA'')"

definition bat_tech_as_str :: "battery_technology \<Rightarrow> ustr" where
  "bat_tech_as_str t = str_of (case t of Primary \<Rightarrow> ''Primary'' | Secondary \<Rightarrow> ''Secondary'')"

definition swap_cap_as_str :: "swap_capability \<Rightarrow> ustr" where
  "swap_cap_as_str c = str_of (case c of NonSwappable \<Rightarrow> ''Non swappable'' | ColdSwappable \<Rightarrow> ''Cold swappable''
     | HotSwappable \<Rightarrow> ''Hot swappable'')"

text \<open>A number with its unit.\<close>

definition with_unit :: "u32 \<Rightarrow> ustr \<Rightarrow> ustr" where "with_unit n u = dec (unat n) @ [32] @ u"

definition charge_text :: "bool \<Rightarrow> bool \<Rightarrow> ustr" where
  "charge_text unicode is_charging =
    (if is_charging then sy_charging (SYMBOLS unicode) @ str_of '' Charging''
     else sy_discharging (SYMBOLS unicode) @ str_of '' Discharging'')"

definition charge_color :: "bool \<Rightarrow> color" where
  "charge_color is_charging = (if is_charging then GREEN_c400 else AMBER_c400)"

definition battery_card :: "('r, 'ts, 'cap, 'ccap, 'stat) display \<Rightarrow> tui_battery \<Rightarrow> panel option" where
  "battery_card en b = (let bst = tb_bst b; bix = tb_bix b;
      is_charging = e_charging en (battery_state bst); u = e_power_unit en (power_unit bix);
      cap = power_unit_as_capacity_str u; rate = power_unit_as_rate_str u
    in case (bat_percent (e_checks en) (battery_remaining_capacity bst) (design_capacity bix),
             bat_health (e_checks en) (last_full_charge_capacity bix) (design_capacity bix)) of
        (Some bat_pct, Some health_pct) \<Rightarrow> Some (panel (status_title (e_unicode en) (str_of ''Battery'') (tb_bst_success b)) SKY_c700
          [Lines [[span_bold (charge_text (e_unicode en) is_charging @ [32]) (charge_color is_charging),
                   span_raw (str_of ''  ''), span_bold (dec bat_pct @ [37]) White]],
           Percent (bat_gauge_color (battery_remaining_capacity bst) (design_cap_of_warning bix) (design_cap_of_low bix)) bat_pct,
           Lines
            [metric_row (str_of ''Remaining'')
               (dec (unat (battery_remaining_capacity bst)) @ str_of '' / '' @ with_unit (design_capacity bix) cap) SKY_c300,
             metric_row (str_of ''Rate     '')
               (with_unit (battery_present_rate bst) rate @
                (case estimate_time (battery_remaining_capacity bst) (design_capacity bix) (last_full_charge_capacity bix)
                   (battery_present_rate bst) is_charging of
                   Some hint \<Rightarrow> str_of ''  ('' @ hint @ str_of '')'' | None \<Rightarrow> [])) SKY_c300,
             metric_row (str_of ''Power    '')
               (fixed 2 (wattage (battery_present_rate bst) (battery_present_voltage bst) u) @ str_of '' W'') SKY_c300,
             metric_row (str_of ''Voltage  '')
               (fixed 2 (fdiv (u32_to_f64 (battery_present_voltage bst)) (Fin 1000)) @ str_of '' V'') SKY_c300,
             metric_row (str_of ''Health   '') (dec health_pct @ [37]) (health_color health_pct),
             metric_row (str_of ''Cycles   '') (dec (unat (cycle_count bix))) SKY_c300]])
      | _ \<Rightarrow> None)"

definition battery_strip :: "('r, 'ts, 'cap, 'ccap, 'stat) display \<Rightarrow> tui_battery \<Rightarrow> panel option" where
  "battery_strip en b = (let bst = tb_bst b; bix = tb_bix b;
      is_charging = e_charging en (battery_state bst); u = e_power_unit en (power_unit bix);
      cap = power_unit_as_capacity_str u; rate = power_unit_as_rate_str u
    in case (bat_percent (e_checks en) (battery_remaining_capacity bst) (design_capacity bix),
             widget_percent (e_checks en) (battery_remaining_capacity bst) (design_capacity bix)) of
        (Some pct, Some icon_pct) \<Rightarrow> Some (panel
          [span_bold (charge_text (e_unicode en) is_charging) (charge_color is_charging),
           span_bold (str_of ''  '' @ dec pct @ [37]) White] SKY_c600
          [Percent (bat_gauge_color (battery_remaining_capacity bst) (design_cap_of_warning bix) (design_cap_of_low bix)) pct,
           Lines
            [metric_row (str_of ''Remaining '')
               (dec (unat (battery_remaining_capacity bst)) @ str_of '' / '' @ with_unit (design_capacity bix) cap) SKY_c300,
             metric_row (str_of ''Rate      '')
               (with_unit (battery_present_rate bst) rate @ str_of ''  ('' @
                fixed 2 (wattage (battery_present_rate bst) (battery_present_voltage bst) u) @ str_of '' W)'') SKY_c300,
             metric_row (str_of ''Voltage   '') (with_unit (battery_present_voltage bst) (str_of ''mV'')) SKY_c300],
           BatteryIcon icon_pct
             (widget_color (battery_remaining_capacity bst) (design_cap_of_warning bix) (design_cap_of_low bix)) is_charging])
      | _ \<Rightarrow> None)"

definition battery_chart :: "('r, 'ts, 'cap, 'ccap, 'stat) display \<Rightarrow> tui_battery \<Rightarrow> graph" where
  "battery_chart en b = (let d = design_capacity (tb_bix b) in
    \<lparr>g_title = str_of ''Capacity vs Time'', g_color = SKY_c400, g_samples = sample_get u32_to_f64 (tb_samples b),
     g_x_axis = str_of ''Time (m)'', g_x_bounds = (Fin 0, Fin 60), g_x_labels = time_labels BATTERY_MAX_SAMPLES,
     g_y_axis = str_of ''Capacity ('' @ power_unit_as_capacity_str (e_power_unit en (power_unit (tb_bix b))) @ str_of '')'',
     g_y_bounds = (Fin 0, u32_to_f64 d), g_y_labels = [dec 0, dec (unat (d div 2)), dec (unat d)]\<rparr>)"

definition bix_rows :: "('r, 'ts, 'cap, 'ccap, 'stat) display \<Rightarrow> tui_battery \<Rightarrow> (ustr \<times> span) list" where
  "bix_rows en b = (let bix = tb_bix b; u = e_power_unit en (power_unit bix);
      cap = power_unit_as_capacity_str u; rate = power_unit_as_rate_str u; ms = str_of ''ms''
    in map (\<lambda>(label, value). (str_of label, span_raw value))
      [(''Revision'', dec (unat (bix_revision bix))),
       (''Power Unit'', rate),
       (''Design Capacity'', with_unit (design_capacity bix) cap),
       (''Last Full Capacity'', with_unit (last_full_charge_capacity bix) cap),
       (''Technology'', bat_tech_as_str (e_technology en (battery_technology bix))),
       (''Design Voltage'', with_unit (design_voltage bix) (str_of ''mV'')),
       (''Warning Capacity'', with_unit (design_cap_of_warning bix) cap),
       (''Low Capacity'', with_unit (design_cap_of_low bix) cap),
       (''Cycle Count'', dec (unat (cycle_count bix))),
       (''Accuracy'', display_f64 (fdiv (u32_to_f64 (measurement_accuracy bix)) (Fin 1000)) @ [37]),
       (''Max Sample Time'', with_unit (max_sampling_time bix) ms),
       (''Min Sample Time'', with_unit (min_sampling_time bix) ms),
       (''Max Avg Interval'', with_unit (max_averaging_interval bix) ms),
       (''Min Avg Interval'', with_unit (min_averaging_interval bix) ms),
       (''Cap. Granularity 1'', with_unit (battery_capacity_granularity_1 bix) cap),
       (''Cap. Granularity 2'', with_unit (battery_capacity_granularity_2 bix) cap),
       (''Model Number'', str_from_bytes (e_utf8 en) (model_number bix)),
       (''Serial Number'', str_from_bytes (e_utf8 en) (serial_number bix)),
       (''Battery Type'', str_from_bytes (e_utf8 en) (battery_type bix)),
       (''OEM Info'', str_from_bytes (e_utf8 en) (oem_info bix)),
       (''Swap Capability'', swap_cap_as_str (e_swap en (battery_swapping_capability bix)))] @
      [(str_of ''Trip Point'', span_fg (with_unit (tb_btp b) cap @ str_of ''  '' @ sy_dot (sym en))
         (if tb_btp_success b then GREEN_c400 else RED_c500))])"

text \<open>The page, under the popup when it is open.\<close>

definition battery_render ::
  "('r, 'ts, 'cap, 'ccap, 'stat) display \<Rightarrow> ('i, 'x) input_ops \<Rightarrow> 'i popup \<Rightarrow> tui_battery \<Rightarrow> panel list option" where
  "battery_render en ops p b = (case battery_strip en b of
      None \<Rightarrow> None
    | Some strip \<Rightarrow> Some ([strip,
        panel (status_title (e_unicode en) (str_of ''Battery Info (BIX)'') (tb_bix_success b)) SKY_c300 [Rows (bix_rows en b)],
        \<lparr>p_titles = [], p_border = None, p_body = [Plot (battery_chart en b)]\<rparr>] @
        (if popup_open p then [render_input_popup (str_of '' Set Battery Trippoint ('' @
            power_unit_as_capacity_str (e_power_unit en (power_unit (tb_bix b))) @ str_of '') '')
          (input_value ops (popup_input p))] else [])))"

section \<open>Thermal\<close>

definition delta_arrow :: "bool \<Rightarrow> f64 \<Rightarrow> ustr" where
  "delta_arrow unicode delta =
    (if flt (round64 0.1) delta then sy_arrow_up (SYMBOLS unicode)
     else if flt delta (fneg (round64 0.1)) then sy_arrow_down (SYMBOLS unicode)
     else sy_mid_dot (SYMBOLS unicode))"

definition delta_color :: "f64 \<Rightarrow> color" where
  "delta_color delta =
    (if flt (Fin (1 / 2)) delta then RED_c500
     else if flt (round64 0.1) delta then AMBER_c400
     else if flt delta (fneg (round64 0.1)) then SKY_c400
     else SLATE_c500)"

text \<open>The two gauges, the same on the page and on the card.\<close>

definition temp_max :: "tui_sensor \<Rightarrow> f64" where "temp_max s = fadd (critical (thresholds s)) (Fin 5)"

definition temp_gauge :: "bool \<Rightarrow> tui_sensor \<Rightarrow> widget option" where
  "temp_gauge unicode s = (let mx = temp_max s; th = thresholds s in
    threshold_gauge (fclamp (Fin 0) (Fin 1) (fdiv (skin_temp s) mx))
      (Some (fixed 1 (skin_temp s) @ sy_degree (SYMBOLS unicode) @ str_of ''C''))
      [(Fin 0, GREEN_c400), (fdiv (warn_high th) mx, AMBER_c400), (fdiv (prochot th) mx, ORANGE_c400),
       (fdiv (critical th) mx, RED_c500)] SLATE_c800)"

definition rpm_max :: "tui_fan \<Rightarrow> f64" where "rpm_max f = fmax64 (snd (rpm_bounds f)) (Fin 1)"

definition rpm_gauge :: "tui_fan \<Rightarrow> widget option" where
  "rpm_gauge f = (let mx = rpm_max f; lv = state_levels f in
    threshold_gauge (fclamp (Fin 0) (Fin 1) (fdiv (fan_rpm f) mx))
      (Some (fixed 0 (fan_rpm f) @ str_of '' RPM''))
      [(Fin 0, SLATE_c500), (fdiv (level_on lv) mx, GREEN_c500), (fdiv (level_ramping lv) mx, SKY_c400),
       (fdiv (level_max lv) mx, AMBER_c400)] SLATE_c800)"

definition skin_spans :: "bool \<Rightarrow> tui_sensor \<Rightarrow> row" where
  "skin_spans unicode s = (let c = temp_level_color (skin_temp s) (thresholds s) in
    [span_bold (str_of ''Skin  '' @ fixed 1 (skin_temp s) @ [32] @ sy_degree (SYMBOLS unicode) @ str_of ''C'') c,
     span_raw (str_of ''  ''), span_fg (str_of (thermal_zone (skin_temp s) (thresholds s))) c, span_raw (str_of ''  '')])"

definition thermal_card :: "('r, 'ts, 'cap, 'ccap, 'stat) display \<Rightarrow> tui_thermal \<Rightarrow> panel option" where
  "thermal_card en t = (let s = th_sensor t; f = th_fan t; th = thresholds s; lv = state_levels f;
      d = sy_degree (sym en); delta = st_delta (session (sensor_samples s))
    in case (temp_gauge (e_unicode en) s, rpm_gauge f) of
        (Some tg, Some rg) \<Rightarrow> Some (panel
          (status_title (e_unicode en) (str_of ''Thermal'') (temp_success s \<and> rpm_success f)) ORANGE_c700
          [Lines [skin_spans (e_unicode en) s @ [span_fg (delta_arrow (e_unicode en) delta @ signed_fixed 1 delta) SLATE_c500]],
           tg,
           Lines [[span_bold (str_of ''Fan   '' @ fixed 1 (fan_rpm f) @ str_of '' RPM'') SLATE_c400, span_raw (str_of ''  ''),
                   span_fg (str_of (fan_zone (fan_rpm f) lv)) (fan_zone_color (fan_rpm f) lv)]],
           rg,
           Lines
            [metric_row (str_of ''Temp  '')
               (str_of ''W:'' @ fixed 0 (warn_high th) @ d @ str_of '' P:'' @ fixed 0 (prochot th) @ d @
                str_of '' C:'' @ fixed 0 (critical th) @ d) SLATE_c500,
             metric_row (str_of ''Fan   '')
               (str_of ''On:'' @ fixed 0 (level_on lv) @ d @ str_of '' Ramp:'' @ fixed 0 (level_ramping lv) @ d @
                str_of '' Max:'' @ fixed 0 (level_max lv) @ d) SLATE_c500]])
      | _ \<Rightarrow> None)"

definition session_row :: "nat \<Rightarrow> ustr \<Rightarrow> ustr \<Rightarrow> session_stats \<Rightarrow> widget list" where
  "session_row p u last_u st = (if has_data st then [Lines [metric_row (str_of ''Session '')
      (str_of ''Min:'' @ fixed p (st_min st) @ u @ str_of ''  Max:'' @ fixed p (st_max st) @ u @ str_of ''  Avg:'' @
       fixed p (stats_avg st) @ last_u) SLATE_c500]] else [])"

definition sensor_compact :: "('r, 'ts, 'cap, 'ccap, 'stat) display \<Rightarrow> tui_thermal \<Rightarrow> panel option" where
  "sensor_compact en t = (let s = th_sensor t; th = thresholds s; d = sy_degree (sym en); dc = d @ str_of ''C'';
      st = session (sensor_samples s)
    in map_option (\<lambda>gauge. panel (status_title (e_unicode en) (str_of ''Temperature'') (temp_success s)) ORANGE_c400
        ([Lines [skin_spans (e_unicode en) s @
            [span_fg (delta_arrow (e_unicode en) (st_delta st) @ signed_fixed 1 (st_delta st) @ d @ str_of ''C/s'')
              (delta_color (st_delta st))]],
          gauge,
          Lines
           [metric_row (str_of ''Warn    '') (fixed 0 (warn_high th) @ [32] @ dc) SLATE_c400,
            metric_row (str_of ''Prochot '') (fixed 0 (prochot th) @ [32] @ dc) SLATE_c400,
            metric_row (str_of ''Critical'') (fixed 0 (critical th) @ [32] @ dc) SLATE_c400]] @
         session_row 1 dc dc st @
         render_sparkline (sample_get id (sensor_samples s)) ORANGE_c400 (Fin 0, temp_max s)))
      (temp_gauge (e_unicode en) s))"

definition fan_compact :: "('r, 'ts, 'cap, 'ccap, 'stat) display \<Rightarrow> tui_thermal \<Rightarrow> panel option" where
  "fan_compact en t = (let f = th_fan t; lv = state_levels f; dc = sy_degree (sym en) @ str_of ''C'' ;
      (limit, limit_color) = (if flt (Fin 0) (th_rpm_limit t)
        then (fixed 0 (th_rpm_limit t) @ str_of '' RPM'', if th_rpm_set_success t then GREEN_c400 else RED_c500)
        else (str_of ''-- (press s to set)'', SLATE_c500))
    in map_option (\<lambda>gauge. panel (status_title (e_unicode en) (str_of ''Fan'') (rpm_success f \<and> bounds_success f)) SKY_c400
        ([Lines [[span_bold (str_of ''Fan   '' @ fixed 0 (fan_rpm f) @ str_of '' RPM'') SLATE_c400, span_raw (str_of ''  ''),
                  span_fg (str_of (fan_zone (skin_temp (th_sensor t)) lv)) (fan_zone_color (fan_rpm f) lv)]],
          gauge,
          Lines
           [metric_row (str_of ''Range   '') (fixed 0 (fst (rpm_bounds f)) @ [32] @ sy_en_dash (sym en) @ [32] @
              fixed 0 (snd (rpm_bounds f)) @ str_of '' RPM'') SLATE_c400,
            metric_row (str_of ''On      '') (fixed 0 (level_on lv) @ [32] @ dc) SLATE_c400,
            metric_row (str_of ''Ramping '') (fixed 0 (level_ramping lv) @ [32] @ dc) SLATE_c400,
            metric_row (str_of ''Override'') limit limit_color]] @
         session_row 0 [] (str_of '' RPM'') (session (fan_samples f)) @
         render_sparkline (sample_get u32_to_f64 (fan_samples f)) SKY_c400 (Fin 0, rpm_max f)))
      (rpm_gauge f))"

definition thermal_render ::
  "('r, 'ts, 'cap, 'ccap, 'stat) display \<Rightarrow> ('i, 'x) input_ops \<Rightarrow> 'i popup \<Rightarrow> tui_thermal \<Rightarrow> panel list option" where
  "thermal_render en ops p t = (case (sensor_compact en t, fan_compact en t) of
      (Some s, Some f) \<Rightarrow> Some ([s, f] @
        (if popup_open p then [render_input_popup (str_of '' Set Fan RPM '') (input_value ops (popup_input p))] else []))
    | _ \<Rightarrow> None)"

section \<open>Clock\<close>

definition fetched_ok :: "('r, 'a) fetched \<Rightarrow> bool" where
  "fetched_ok f = (case f of Some (Inr _) \<Rightarrow> True | _ \<Rightarrow> False)"

definition timer_panel :: "('r, 'ts, 'cap, 'ccap, 'stat) display \<Rightarrow> ustr \<Rightarrow> 'r timer_data \<Rightarrow> panel" where
  "timer_panel en title t =
    panel (status_title (e_unicode en) title (fetched_ok (td_value t) \<and> fetched_ok (td_wake_policy t) \<and> fetched_ok (td_timer_status t)))
      VIOLET_c300
      [Lines
        [[span_raw (format_option_result (e_error en) (str_of ''Time remaining: '') (td_value t)
           (\<lambda>v. if v = e_timer_disabled en then str_of ''Timer not set'' else dec (unat v) @ str_of '' seconds''))],
         [span_raw (format_option_result (e_error en) (str_of ''Wake policy:    '') (td_wake_policy t)
           (\<lambda>p. if p = e_wake_never en then str_of ''never'' else if p = e_wake_instantly en then str_of ''instantly''
             else str_of ''after '' @ dec (unat p) @ str_of '' seconds''))],
         [span_raw (format_option_result (e_error en) (str_of ''Timer status:   '') (td_timer_status t)
           (\<lambda>s. str_of (if e_timer_expired en s then ''expired'' else ''not expired'') @ str_of '', '' @
             str_of (if e_triggered_wake en s then ''triggered wake'' else ''did not trigger wake'')))]]]"

definition timer_summary_line :: "('r, 'ts, 'cap, 'ccap, 'stat) display \<Rightarrow> ustr \<Rightarrow> 'r timer_data \<Rightarrow> row" where
  "timer_summary_line en label t =
    metric_row label (timer_summary (e_timer_disabled en) (e_timer_expired en) (sy_warning (sym en)) t) VIOLET_c400"

definition format_capabilities :: "timer_caps \<Rightarrow> ustr list" where
  "format_capabilities c = (let as_supported = (\<lambda>b. if b then ''Supported'' else ''Not Supported'') in
    map str_of
     [''Capabilities:'',
      ''  Real time:       '' @ as_supported (realtime_implemented c),
      ''  Get Wake Status: '' @ as_supported (get_wake_status_supported c),
      ''  Accuracy:        '' @ (if realtime_accuracy_in_milliseconds c then ''Milliseconds'' else ''Seconds''),
      ''  AC Wake:         '' @ as_supported (ac_wake_implemented c),
      ''  AC S4 Wake:      '' @ as_supported (ac_s4_wake_supported c),
      ''  AC S5 Wake:      '' @ as_supported (ac_s5_wake_supported c),
      ''  DC Wake:         '' @ as_supported (dc_wake_implemented c),
      ''  DC S4 Wake:      '' @ as_supported (dc_s4_wake_supported c),
      ''  DC S5 Wake:      '' @ as_supported (dc_s5_wake_supported c)])"

definition time_display :: "('r, 'ts, 'cap, 'ccap, 'stat) display \<Rightarrow> bool \<Rightarrow> ('r, 'ts) tui_rtc \<Rightarrow> panel" where
  "time_display en healthy r =
    panel (status_title (e_unicode en) (str_of ''Real-Time Clock'') healthy) VIOLET_c600
      [Lines (case rt_timestamp r of
          None \<Rightarrow> [[span_raw (str_of ''Pending...'')]]
        | Some (Inl e) \<Rightarrow> [[span_raw (str_of ''Error: '' @ e_error en e)]]
        | Some (Inr ts) \<Rightarrow>
           [[span_bold (format_time_hms (e_datetime en ts)) White],
            [span_fg (format_date (e_datetime en ts)) VIOLET_c300],
            [span_fg (format_time_zone (e_time_zone en ts)) SLATE_c400,
             span_raw (str_of ''  '' @ sy_mid_dot (sym en) @ str_of ''  DST: ''),
             span_fg (format_dst (e_dst en ts)) SLATE_c400]])]"

definition capabilities_panel :: "('r, 'ts, 'cap, 'ccap, 'stat) display \<Rightarrow> ('r, 'ts) tui_rtc \<Rightarrow> panel" where
  "capabilities_panel en r =
    panel (status_title (e_unicode en) (str_of ''Capabilities'') (fetched_ok (rt_capabilities r))) VIOLET_c800
      [Lines (case rt_capabilities r of
          None \<Rightarrow> [[span_raw (str_of ''Pending...'')]]
        | Some (Inl e) \<Rightarrow> [[span_raw (str_of ''Error: '' @ e_error en e)]]
        | Some (Inr c) \<Rightarrow> map (\<lambda>l. [span_raw l]) (format_capabilities (e_caps en c)))]"

definition rtc_render :: "('r, 'ts, 'cap, 'ccap, 'stat) display \<Rightarrow> ('r, 'ts) tui_rtc \<Rightarrow> panel list" where
  "rtc_render en r =
    [time_display en (fetched_ok (rt_capabilities r) \<and> fetched_ok (rt_timestamp r)) r, capabilities_panel en r,
     timer_panel en (str_of ''AC Power Timer'') (rt_timers r ! 0), timer_panel en (str_of ''DC Power Timer'') (rt_timers r ! 1)]"

definition rtc_card :: "('r, 'ts, 'cap, 'ccap, 'stat) display \<Rightarrow> ('r, 'ts) tui_rtc \<Rightarrow> panel" where
  "rtc_card en r = (let
      (time_str, date_str, tz_str, dst_str) = (case rt_timestamp r of
          Some (Inr ts) \<Rightarrow> (format_time_hms (e_datetime en ts), format_date (e_datetime en ts),
            format_time_zone (e_time_zone en ts), str_of ''DST: '' @ format_dst (e_dst en ts))
        | Some (Inl _) \<Rightarrow> (str_of ''Error'', [], [], [])
        | None \<Rightarrow> (str_of ''Pending'', [], [], []));
      accuracy = (case rt_capabilities r of
          Some (Inr c) \<Rightarrow> str_of (if realtime_accuracy_in_milliseconds (e_caps en c) then ''ms accuracy'' else ''s accuracy'')
        | _ \<Rightarrow> []);
      sep = sy_h_line (sym en)
    in panel (status_title (e_unicode en) (str_of ''RTC'') (fetched_ok (rt_timestamp r))) VIOLET_c700
      [Lines [[span_bold time_str White], [span_fg date_str VIOLET_c300]],
       Lines [[span_fg tz_str SLATE_c400, span_raw (str_of ''  ''), span_fg dst_str SLATE_c500], [span_fg accuracy SLATE_c600]],
       Lines [[span_fg (sep @ sep @ sep @ str_of '' Timers '' @ concat (replicate 21 sep)) SLATE_c700]],
       Lines [timer_summary_line en (str_of ''AC'') (rt_timers r ! 0), timer_summary_line en (str_of ''DC'') (rt_timers r ! 1)]])"

end
