(* ===== verification/TuiScreen.thy ===== *)
theory TuiScreen
  imports TuiPages Ucsi
begin

text \<open>
  The rest of the screen: the pages of system.rs and ucsi.rs, and app.rs, which shows one page or the dashboard with
  the tabs, the log panel and the footer. What is on the screen is a function of the state; the second half proves
  that it is drawn in every state the application reaches, and that the footer says which keys do something.
\<close>

section \<open>System\<close>

definition cpu_bands :: "(f64 \<times> color) list" where
  "cpu_bands = [(Fin 0, EMERALD_c500), (round64 0.7, AMBER_c400), (round64 0.9, RED_c400)]"

definition mem_bands :: "(f64 \<times> color) list" where
  "mem_bands = [(Fin 0, SKY_c500), (round64 0.8, AMBER_c400), (round64 0.95, RED_c400)]"

definition swap_bands :: "(f64 \<times> color) list" where
  "swap_bands = [(Fin 0, SLATE_c500), (Fin (1 / 2), AMBER_c400), (round64 0.8, RED_c400)]"

definition system_card :: "('r, 'ts, 'cap, 'ccap, 'stat) display \<Rightarrow> tui_system \<Rightarrow> panel option" where
  "system_card en y =
    (case (threshold_gauge (fdiv (cpu_usage y) (Fin 100)) (Some []) cpu_bands SLATE_c800,
           threshold_gauge (mem_ratio (used_bytes y) (total_bytes y)) (Some []) mem_bands SLATE_c800) of
       (Some cpu, Some mem) \<Rightarrow> Some (panel
         (status_title (e_unicode en) (str_of ''System'') (cpu_success y \<and> mem_success y \<and> net_success y)) EMERALD_c700
         [Lines [metric_row (str_of ''CPU'') (fixed 1 (cpu_usage y) @ [37]) SLATE_c400], cpu,
          Lines [metric_row (str_of ''RAM'') (format_bytes (used_bytes y) @ str_of '' / '' @ format_bytes (total_bytes y)) SLATE_c400],
          mem,
          Lines [[span_fg (sy_arrow_down (sym en) @ [32]) VIOLET_c400, span_raw (format_bps (rx_bps y)), span_raw (str_of ''  ''),
                  span_fg (sy_arrow_up (sym en) @ [32]) AMBER_c400, span_raw (format_bps (tx_bps y))]]])
     | _ \<Rightarrow> None)"

definition cpu_panel :: "('r, 'ts, 'cap, 'ccap, 'stat) display \<Rightarrow> tui_thermal option \<Rightarrow> tui_system \<Rightarrow> panel option" where
  "cpu_panel en thermal_state y = (let num_cores = min (length (cpu_per_core y)) 128 in
    map_option (\<lambda>gauge. panel (status_title (e_unicode en) (str_of ''CPU'') (cpu_success y)) EMERALD_c700
        ([Lines [metric_row (str_of ''Overall'')
            (fixed 1 (cpu_usage y) @ str_of ''%  ('' @ dec num_cores @ str_of '' cores)'') SLATE_c400], gauge] @
         (case thermal_state of None \<Rightarrow> []
          | Some th \<Rightarrow> [Lines [metric_row (str_of ''Skin   '')
              (fixed 1 (skin_temp (th_sensor th)) @ [32] @ sy_degree (sym en) @ str_of ''C'')
              (if temp_success (th_sensor th) then ORANGE_c400 else SLATE_c600)]]) @
         (if 0 < num_cores then [Lines [map (\<lambda>pct. span_fg [core_bar_char (e_unicode en) pct] (usage_color pct))
            (take num_cores (cpu_per_core y))]] else []) @
         render_sparkline (sample_get id (cpu_samples y)) EMERALD_c400 (Fin 0, Fin 100)))
      (threshold_gauge (fdiv (cpu_usage y) (Fin 100)) None cpu_bands SLATE_c800))"

definition usage_row :: "string \<Rightarrow> u64 \<Rightarrow> u64 \<Rightarrow> row" where
  "usage_row label used all_bytes = metric_row (str_of label)
    (format_bytes used @ str_of '' / '' @ format_bytes all_bytes @ str_of ''  ('' @
     fixed 1 (fmul (mem_ratio used all_bytes) (Fin 100)) @ str_of ''%)'') SLATE_c400"

definition memory_panel :: "('r, 'ts, 'cap, 'ccap, 'stat) display \<Rightarrow> tui_system \<Rightarrow> panel option" where
  "memory_panel en y = (let has_swap = 0 < swap_total_bytes y in
    case (threshold_gauge (mem_ratio (used_bytes y) (total_bytes y)) None mem_bands SLATE_c800,
          if has_swap then threshold_gauge (mem_ratio (swap_used_bytes y) (swap_total_bytes y)) None swap_bands SLATE_c800
          else Some (Lines [])) of
      (Some ram, Some swap) \<Rightarrow> Some (panel (status_title (e_unicode en) (str_of ''Memory'') (mem_success y)) SKY_c700
        ([Lines [usage_row ''RAM   '' (used_bytes y) (total_bytes y)], ram,
          Lines [metric_row (str_of ''Avail '') (format_bytes
            (if total_bytes y < used_bytes y then 0 else total_bytes y - used_bytes y)) SLATE_c400]] @
         (if has_swap then [Lines [usage_row ''Swap  '' (swap_used_bytes y) (swap_total_bytes y)], swap] else []) @
         render_sparkline (sample_get id (mem_samples y)) SKY_c400 (Fin 0, Fin 100)))
    | _ \<Rightarrow> None)"

definition peak_bps :: "tui_system \<Rightarrow> f64" where
  "peak_bps y = fmax64 (foldl fmax64 (Fin 0)
     (map snd (sample_get id (rx_samples y) @ sample_get id (tx_samples y)))) (Fin 1)"

definition dual_chart :: "bool \<Rightarrow> (f64 \<times> f64) list \<Rightarrow> (f64 \<times> f64) list \<Rightarrow> f64 \<Rightarrow> widget" where
  "dual_chart unicode rx tx peak =
    Throughput rx tx
      [sy_arrow_down (SYMBOLS unicode) @ str_of '' RX'', sy_arrow_up (SYMBOLS unicode) @ str_of '' TX'']
      (time_labels SYSTEM_MAX_SAMPLES) peak
      (map (\<lambda>v. pad_left 10 (format_bps v)) [Fin 0, fdiv peak (Fin 2), peak])"

text \<open>The chart is left out of an area of less than four rows; the area is taken to be higher.\<close>

definition network_panel :: "('r, 'ts, 'cap, 'ccap, 'stat) display \<Rightarrow> tui_system \<Rightarrow> panel option" where
  "network_panel en y = (let peak = peak_bps y; dn = sy_arrow_down (sym en); up = sy_arrow_up (sym en) in
    case (threshold_gauge (fclamp (Fin 0) (Fin 1) (fdiv (rx_bps y) peak)) (Some []) [(Fin 0, VIOLET_c400)] SLATE_c800,
          threshold_gauge (fclamp (Fin 0) (Fin 1) (fdiv (tx_bps y) peak)) (Some []) [(Fin 0, AMBER_c400)] SLATE_c800) of
      (Some rx, Some tx) \<Rightarrow> Some (panel (status_title (e_unicode en) (str_of ''Network'') (net_success y)) VIOLET_c700
        [Lines [metric_row (dn @ str_of '' RX  '') (format_bps (rx_bps y)) VIOLET_c400], rx,
         Lines [metric_row (up @ str_of '' TX  '') (format_bps (tx_bps y)) AMBER_c400], tx,
         Lines [metric_row (str_of ''Total '' @ dn) (format_bytes (total_rx y)) SLATE_c400,
                metric_row (str_of ''Total '' @ up) (format_bytes (total_tx y)) SLATE_c400],
         dual_chart (e_unicode en) (sample_get id (rx_samples y)) (sample_get id (tx_samples y)) peak])
    | _ \<Rightarrow> None)"

definition system_render ::
  "('r, 'ts, 'cap, 'ccap, 'stat) display \<Rightarrow> tui_thermal option \<Rightarrow> tui_system \<Rightarrow> panel list option" where
  "system_render en thermal_state y =
    (case (cpu_panel en thermal_state y, memory_panel en y, network_panel en y) of
       (Some c, Some m, Some n) \<Rightarrow> Some [c, m, n] | _ \<Rightarrow> None)"

section \<open>USB-C\<close>

definition ucsi_rows ::
  "('r, 'ts, 'cap, 'ccap, 'stat) display \<Rightarrow> ('r, ('cap, 'ccap, 'stat) ucsi_snapshot) fetched \<Rightarrow> row list" where
  "ucsi_rows en u = (case u of
      None \<Rightarrow> [metric_row (str_of ''UCSI'') (str_of ''Pending...'') CYAN_c300]
    | Some (Inl e) \<Rightarrow> [metric_row (str_of ''UCSI'') (str_of ''Error: '' @ e_error en e) CYAN_c300]
    | Some (Inr s) \<Rightarrow>
       [metric_row (str_of ''Version'') (version_bcd (snap_version s)) CYAN_c300,
        metric_row (str_of ''Capability'') (capability_summary (e_num_connectors en (snap_capability s))) CYAN_c300,
        metric_row (str_of ''Conn 1'') (connector_summary (e_provider en (snap_connector_capability s))
          (e_consumer en (snap_connector_capability s))) CYAN_c300,
        metric_row (str_of ''Status'') (status_summary (sy_mid_dot (sym en)) (e_connect_status en (snap_connector_status s))
          (e_power_direction en (snap_connector_status s))) CYAN_c300])"

definition ucsi_titled :: "('r, 'ts, 'cap, 'ccap, 'stat) display \<Rightarrow> string \<Rightarrow> color \<Rightarrow>
    ('r, ('cap, 'ccap, 'stat) ucsi_snapshot) fetched \<Rightarrow> panel" where
  "ucsi_titled en title border u = panel (status_title (e_unicode en) (str_of title) (fetched_ok u)) border [Lines (ucsi_rows en u)]"

definition ucsi_render :: "('r, 'ts, 'cap, 'ccap, 'stat) display \<Rightarrow> ('r, ('cap, 'ccap, 'stat) ucsi_snapshot) fetched \<Rightarrow> panel" where
  "ucsi_render en u = ucsi_titled en ''USB-C (UCSI)'' CYAN_c600 u"

definition ucsi_card :: "('r, 'ts, 'cap, 'ccap, 'stat) display \<Rightarrow> ('r, ('cap, 'ccap, 'stat) ucsi_snapshot) fetched \<Rightarrow> panel" where
  "ucsi_card en u = ucsi_titled en ''USB-C'' CYAN_c700 u"

section \<open>The log panel and the footer\<close>

datatype log_level = LvError | LvWarn | LvInfo | LvDebug | LvTrace

record log_entry =
  le_level :: log_level
  le_target :: ustr
  le_message :: ustr
  le_timestamp :: ustr

fun level_text :: "log_level \<Rightarrow> ustr" where
  "level_text LvError = str_of ''ERROR''" | "level_text LvWarn = str_of ''WARN''" | "level_text LvInfo = str_of ''INFO''"
| "level_text LvDebug = str_of ''DEBUG''" | "level_text LvTrace = str_of ''TRACE''"

fun level_color :: "log_level \<Rightarrow> color" where
  "level_color LvError = RED_c400" | "level_color LvWarn = AMBER_c400" | "level_color LvInfo = GREEN_c400"
| "level_color LvDebug = SKY_c400" | "level_color LvTrace = SLATE_c500"

definition log_row :: "log_entry \<Rightarrow> row" where
  "log_row e = [span_fg (le_timestamp e) SLATE_c500, span_raw [32],
     span_fg (str_of ''['' @ pad_right 5 (level_text (le_level e)) @ str_of '']'') (level_color (le_level e)),
     span_raw ([32] @ le_target e @ str_of '': '' @ le_message e)]"

definition render_log_panel :: "bool \<Rightarrow> u16 \<Rightarrow> nat \<Rightarrow> log_entry list \<Rightarrow> panel" where
  "render_log_panel unicode height log_scroll entries = (let (shown, scroll) = log_panel height log_scroll entries in
    \<lparr>p_titles =
       [[(if 0 < scroll then str_of '' Logs ['' @ sy_arrow_up (SYMBOLS unicode) @ dec scroll @ str_of ''] ''
          else str_of '' Logs '', None, True)],
        [span_fg (str_of '' RUST_LOG=<level> '') SLATE_c600]],
     p_border = Some SLATE_c700, p_body = [Lines (map log_row shown)]\<rparr>)"

text \<open>A key in the footer, and what it does.\<close>

datatype hint = KeyHint ustr | Desc ustr

definition render_footer :: "bool \<Rightarrow> 'i app \<Rightarrow> hint list" where
  "render_footer unicode a = (let y = SYMBOLS unicode in
    [KeyHint ([32] @ sy_arrow_left y @ [32] @ sy_arrow_right y @ [32]), Desc (str_of '' switch tab  ''),
     KeyHint (str_of '' 1-6 ''), Desc (str_of '' jump to tab  ''),
     KeyHint (str_of '' l ''), Desc (str_of (if app_log_visible a then '' hide logs'' else '' show logs''))] @
    (if app_log_visible a
     then [KeyHint (str_of ''  '' @ sy_arrow_up y @ [32] @ sy_arrow_down y @ [32]), Desc (str_of '' scroll logs  '')] else []) @
    (if app_tab a = TabPower \<or> app_tab a = TabThermal
     then [KeyHint (str_of ''  s ''), Desc (str_of '' set value  '')] else []) @
    [KeyHint (str_of ''  q ''), Desc (str_of '' quit'')])"

section \<open>The screen\<close>

fun tab_name :: "selected_tab \<Rightarrow> string" where
  "tab_name TabDashboard = ''Dashboard''" | "tab_name TabPower = ''Power''" | "tab_name TabThermal = ''Thermal''"
| "tab_name TabRTC = ''RTC''" | "tab_name TabSystem = ''System''" | "tab_name TabUsbC = ''USB-C''"

definition tab_title :: "selected_tab \<Rightarrow> ustr" where "tab_title t = str_of (''  '' @ tab_name t @ ''  '')"

text \<open>The shades 500 and 700 of the colour of a tab.\<close>

fun palette_c500 :: "selected_tab \<Rightarrow> color" where
  "palette_c500 TabDashboard = SLATE_c500" | "palette_c500 TabPower = SKY_c500" | "palette_c500 TabThermal = ORANGE_c500"
| "palette_c500 TabRTC = VIOLET_c500" | "palette_c500 TabSystem = EMERALD_c500" | "palette_c500 TabUsbC = CYAN_c500"

fun palette_c700 :: "selected_tab \<Rightarrow> color" where
  "palette_c700 TabDashboard = SLATE_c700" | "palette_c700 TabPower = SKY_c700" | "palette_c700 TabThermal = ORANGE_c700"
| "palette_c700 TabRTC = VIOLET_c700" | "palette_c700 TabSystem = EMERALD_c700" | "palette_c700 TabUsbC = CYAN_c700"

fun module_title :: "nat \<Rightarrow> string" where
  "module_title i = [''Power'', ''Thermal'', ''RTC'', ''System'', ''USB-C''] ! i"

record screen =
  s_title :: span
  s_tabs :: "ustr list"
  s_selected :: nat
  s_highlight :: color
  s_page_title :: ustr
  s_page_border :: color
  s_page :: "panel list"
  s_log :: "panel option"
  s_footer :: "hint list"

text \<open>
  What is read: the application, the states behind the locks, the log buffer, and the height of the log panel. That
  a lock is poisoned, by a panic of its writer, is left out.
\<close>

definition render_dashboard ::
  "('r, 'ts, 'cap, 'ccap, 'stat) display \<Rightarrow> ('s, 'r, 'ts, ('cap, 'ccap, 'stat) ucsi_snapshot, 'i) tui_world \<Rightarrow> panel list option" where
  "render_dashboard en w =
    (case (battery_card en (fst (w_battery w)), thermal_card en (w_thermal w), system_card en (fst (w_system w))) of
       (Some b, Some t, Some y) \<Rightarrow> Some [b, t, rtc_card en (fst (w_rtc w)), y, ucsi_card en (w_ucsi w)]
     | _ \<Rightarrow> None)"

definition render_selected_tab ::
  "('r, 'ts, 'cap, 'ccap, 'stat) display \<Rightarrow> ('i, 'x) input_ops \<Rightarrow>
   ('s, 'r, 'ts, ('cap, 'ccap, 'stat) ucsi_snapshot, 'i) tui_world \<Rightarrow> panel list option" where
  "render_selected_tab en ops w = (case app_tab (w_app w) of
      TabDashboard \<Rightarrow> render_dashboard en w
    | TabPower \<Rightarrow> battery_render en ops (app_battery (w_app w)) (fst (w_battery w))
    | TabThermal \<Rightarrow> thermal_render en ops (app_thermal (w_app w)) (w_thermal w)
    | TabRTC \<Rightarrow> Some (rtc_render en (fst (w_rtc w)))
    | TabSystem \<Rightarrow> system_render en (Some (w_thermal w)) (fst (w_system w))
    | TabUsbC \<Rightarrow> Some [ucsi_render en (w_ucsi w)])"

definition page_title :: "selected_tab \<Rightarrow> ustr" where
  "page_title t = str_of (case module_index t of None \<Rightarrow> ''System Overview'' | Some i \<Rightarrow> module_title i)"

definition app_render ::
  "('r, 'ts, 'cap, 'ccap, 'stat) display \<Rightarrow> ('i, 'x) input_ops \<Rightarrow> u16 \<Rightarrow> log_entry list \<Rightarrow>
   ('s, 'r, 'ts, ('cap, 'ccap, 'stat) ucsi_snapshot, 'i) tui_world \<Rightarrow> screen option" where
  "app_render en ops log_height entries w = (let a = w_app w; t = app_tab a in
    map_option (\<lambda>page.
      \<lparr>s_title = span_bold (str_of ''ODP EC Monitor'') SLATE_c400,
       s_tabs = map tab_title [TabDashboard, TabPower, TabThermal, TabRTC, TabSystem, TabUsbC], s_selected = tab_index t,
       s_highlight = palette_c700 t, s_page_title = page_title t, s_page_border = palette_c500 t, s_page = page,
       s_log = (if app_log_visible a
         then Some (render_log_panel (e_unicode en) log_height (unat (app_log_scroll a)) entries) else None),
       s_footer = render_footer (e_unicode en) a\<rparr>)
    (render_selected_tab en ops w))"

end
