(* ===== verification/TuiDrawn.thy ===== *)
theory TuiDrawn
  imports TuiScreen
begin

text \<open>
  Drawing never panics, but for the products of the battery page: what keeps the gauges' ratios numbers, as an
  invariant of the runs of TuiWorld. The hints of the footer agree with the handlers of TuiApp.
\<close>

section \<open>Gauges\<close>

definition drawn :: "'a option \<Rightarrow> bool" where "drawn v \<longleftrightarrow> v \<noteq> None"

lemma drawn_simps [simp]: "drawn (Some v)" "\<not> drawn None" "drawn (map_option f u) \<longleftrightarrow> drawn u"
  by (simp_all add: drawn_def)

lemma drawnE: "drawn v \<Longrightarrow> (\<And>x. v = Some x \<Longrightarrow> P) \<Longrightarrow> P"
  by (auto simp: drawn_def)

lemma fclamp_number [simp]: "fclamp (Fin 0) (Fin 1) x = NaN \<longleftrightarrow> x = NaN"
  by (cases x) (auto simp: fclamp_def)

lemma drawn_threshold_gauge [simp]: "drawn (threshold_gauge ratio label bands track) \<longleftrightarrow> ratio \<noteq> NaN"
  by (cases ratio) (auto simp: drawn_def threshold_gauge_def fclamp_def fle_def Let_def)

lemma fdiv_number: "a \<noteq> NaN \<Longrightarrow> 0 < b \<Longrightarrow> fdiv a (Fin b) \<noteq> NaN"
  by (cases a) (auto simp: round64_number)

lemma round64_of_numeral: "n < 2 ^ 53 \<Longrightarrow> round64 (of_nat n) = Fin (of_nat n)"
  using round64_int [of "int n"] by simp

lemma temp_gauge_drawn:
  assumes "skin_temp s \<noteq> NaN" "critical (thresholds s) = Fin 0 \<or> critical (thresholds s) = Fin 45"
  shows "drawn (temp_gauge unicode s)"
proof -
  have "temp_max s = Fin 5 \<or> temp_max s = Fin 50"
    using assms(2) round64_of_numeral [of 5] round64_of_numeral [of 50] by (auto simp: temp_max_def)
  then have "fdiv (skin_temp s) (temp_max s) \<noteq> NaN" using fdiv_number [OF assms(1)] by auto
  then show ?thesis by (simp add: temp_gauge_def Let_def)
qed

lemma fmax64_number: "fmax64 a (Fin b) \<noteq> NaN"
  by (simp add: fmax64_def)

text \<open>A finite number over a maximum that is at least 1.\<close>

lemma over_max:
  assumes "is_finite a" "0 < b"
  shows "fdiv a (fmax64 x (Fin b)) \<noteq> NaN"
proof (cases a)
  case (Fin q)
  show ?thesis using assms(2) round64_number unfolding Fin by (cases x) (auto simp: fmax64_def)
qed (use assms in auto)

lemma rpm_gauge_drawn: "is_finite (fan_rpm f) \<Longrightarrow> drawn (rpm_gauge f)"
  by (simp add: rpm_gauge_def Let_def rpm_max_def over_max)

lemma mem_ratio_number [simp]: "mem_ratio used all_bytes \<noteq> NaN"
  using mem_ratio_bounds [of used all_bytes] by (auto simp: fle_def)

section \<open>Pages\<close>

lemma drawn_case: "drawn (case x of None \<Rightarrow> None | Some a \<Rightarrow> f a) \<longleftrightarrow> (\<exists>a. x = Some a \<and> drawn (f a))"
  by (auto simp: drawn_def split: option.splits)

lemma drawn_ex: "(\<exists>a. x = Some a) \<longleftrightarrow> drawn x"
  by (auto simp: drawn_def)

lemmas drawn_cases = drawn_case drawn_ex

text \<open>The hundredfold of a capacity is a u32.\<close>

definition fits :: "bool \<Rightarrow> u32 \<Rightarrow> bool" where "fits checks x \<longleftrightarrow> checks \<longrightarrow> unat x \<le> 42949672"

lemma drawn_percent: "drawn (bat_percent checks r d) \<longleftrightarrow> fits checks r"
  by (auto simp: drawn_def bat_percent_value fits_def)

lemma battery_card_drawn:
  "drawn (battery_card en b) \<longleftrightarrow>
    fits (e_checks en) (battery_remaining_capacity (tb_bst b)) \<and> fits (e_checks en) (last_full_charge_capacity (tb_bix b))"
  by (simp add: battery_card_def Let_def drawn_cases drawn_percent widgets_agree)

lemma battery_render_drawn:
  "drawn (battery_render en ops p b) \<longleftrightarrow> fits (e_checks en) (battery_remaining_capacity (tb_bst b))"
proof -
  have "drawn (battery_strip en b) \<longleftrightarrow> fits (e_checks en) (battery_remaining_capacity (tb_bst b))"
    by (simp add: battery_strip_def Let_def drawn_cases drawn_percent widgets_agree)
  then show ?thesis by (auto simp: battery_render_def drawn_def split: option.splits)
qed

definition thermal_drawable :: "tui_thermal \<Rightarrow> bool" where
  "thermal_drawable t \<longleftrightarrow> skin_temp (th_sensor t) \<noteq> NaN \<and>
     (critical (thresholds (th_sensor t)) = Fin 0 \<or> critical (thresholds (th_sensor t)) = Fin 45) \<and> is_finite (fan_rpm (th_fan t))"

lemma thermal_drawn:
  assumes "thermal_drawable t"
  shows "drawn (thermal_card en t)" "drawn (thermal_render en ops p t)"
proof -
  note g = temp_gauge_drawn [of "th_sensor t"] rpm_gauge_drawn [of "th_fan t"]
  show "drawn (thermal_card en t)"
    using assms g by (simp add: thermal_drawable_def thermal_card_def Let_def drawn_cases)
  show "drawn (thermal_render en ops p t)"
    using assms g by (simp add: thermal_drawable_def thermal_render_def sensor_compact_def fan_compact_def Let_def drawn_cases
      split: if_splits)
qed

definition system_drawable :: "tui_system \<Rightarrow> bool" where
  "system_drawable y \<longleftrightarrow> cpu_usage y \<noteq> NaN \<and> is_finite (rx_bps y) \<and> is_finite (tx_bps y)"

lemma system_drawn:
  assumes "system_drawable y"
  shows "drawn (system_card en y)" "drawn (system_render en t y)"
proof -
  have usage: "fdiv (cpu_usage y) (Fin 100) \<noteq> NaN" using assms by (simp add: system_drawable_def fdiv_number)
  have rates: "fdiv (rx_bps y) (peak_bps y) \<noteq> NaN" "fdiv (tx_bps y) (peak_bps y) \<noteq> NaN"
    using assms by (simp_all add: system_drawable_def peak_bps_def over_max)
  show "drawn (system_card en y)" using usage by (simp add: system_card_def drawn_cases)
  have "drawn (cpu_panel en t y)" using usage by (simp add: cpu_panel_def Let_def)
  moreover have "drawn (memory_panel en y)" by (simp add: memory_panel_def Let_def drawn_cases)
  moreover have "drawn (network_panel en y)" using rates by (simp add: network_panel_def Let_def drawn_cases)
  ultimately show "drawn (system_render en t y)" by (simp add: system_render_def drawn_cases)
qed

section \<open>An invariant of the runs\<close>

definition drawable :: "('s, 'r, 'ts, 'snap, 'i) tui_world \<Rightarrow> bool" where
  "drawable w \<longleftrightarrow> thermal_drawable (w_thermal w) \<and> system_drawable (fst (w_system w))"

text \<open>Readings are numbers: the temperature and the processors' usage, and the speed of the fan is finite.\<close>

definition numeric_source :: "('s, 'r, 'ts, 'snap) dyn_source \<Rightarrow> bool" where
  "numeric_source dy \<longleftrightarrow> (\<forall>s t s'. dy_get_temperature dy s = (Inr t, s') \<longrightarrow> t \<noteq> NaN) \<and>
     (\<forall>s r s'. dy_get_rpm dy s = (Inr r, s') \<longrightarrow> is_finite r)"

fun numeric_event :: "'x tui_event \<Rightarrow> bool" where
  "numeric_event (SystemTick rd) \<longleftrightarrow> sr_cpu rd \<noteq> NaN"
| "numeric_event _ \<longleftrightarrow> True"

lemma drawable_new [simp]: "drawable (world_new ops bst0 bix0 s)"
  by (simp add: drawable_def world_new_def thermal_drawable_def system_drawable_def thermal_default_def system_default_def)

lemma thermal_commands_keep:
  "thermal_commands dy cmds t s = (t', s') \<Longrightarrow> th_sensor t' = th_sensor t \<and> th_fan t' = th_fan t"
proof (induction dy cmds t s rule: thermal_commands.induct)
  case (2 dy x cmds t s)
  then show ?case by (auto simp: Let_def split: prod.splits)
qed simp

lemma sensor_take_drawable:
  assumes "\<And>t. temp = Inr t \<Longrightarrow> t \<noteq> NaN" "skin_temp d \<noteq> NaN"
  shows "skin_temp (sensor_take temp d) \<noteq> NaN \<and> critical (thresholds (sensor_take temp d)) = Fin 45"
  using assms by (auto simp: sensor_take_def Let_def sensor_thresholds_fixed_def split: sum.splits)

lemma fan_take_drawable:
  assumes "\<And>r. rpm = Inr r \<Longrightarrow> is_finite r" "is_finite (fan_rpm f)"
  shows "is_finite (fan_rpm (fan_take rpm bounds levels f))"
  using assms by (auto simp: fan_take_def Let_def split: sum.splits prod.splits)

lemma thermal_update_drawable:
  assumes "numeric_source dy" "thermal_drawable t" "thermal_update dy cmds t s = (t', s')"
  shows "thermal_drawable t'"
proof -
  obtain t1 s1 where c: "thermal_commands dy cmds t s = (t1, s1)" by fastforce
  obtain temp s2 where g: "dy_get_temperature dy s1 = (temp, s2)" by fastforce
  obtain rpm s3 where r: "dy_get_rpm dy s2 = (rpm, s3)" by fastforce
  have keep: "th_sensor t1 = th_sensor t" "th_fan t1 = th_fan t" using thermal_commands_keep [OF c] by simp_all
  have "temp = Inr x \<Longrightarrow> x \<noteq> NaN" "rpm = Inr x \<Longrightarrow> is_finite x" for x
    using assms(1) g r unfolding numeric_source_def by blast+
  moreover obtain bounds levels where "th_sensor t' = sensor_take temp (th_sensor t)" "th_fan t' = fan_take rpm bounds levels (th_fan t)"
    using assms(3) c g r keep by (auto simp: thermal_update_def Let_def split: prod.splits)
  moreover have "skin_temp (th_sensor t) \<noteq> NaN" "is_finite (fan_rpm (th_fan t))"
    using assms(2) by (simp_all add: thermal_drawable_def)
  ultimately show ?thesis
    using sensor_take_drawable [of temp "th_sensor t"] fan_take_drawable [of rpm "th_fan t" bounds levels]
    unfolding thermal_drawable_def by metis
qed

text \<open>The time between two updates is at least about a millisecond, so that a rate of u64 bytes is finite.\<close>

lemma elapsed_cases:
  "fmax64 a (round64 (1 / 1000)) = Inf False \<or> (\<exists>e. fmax64 a (round64 (1 / 1000)) = Fin e \<and> 1 / 2048 \<le> e)"
proof -
  obtain r where r: "round64 (1 / 1000) = Fin r" "1 / 1000 - 1 / 4096 \<le> r" using round64_near [of "1 / 1000"] by auto
  then have "1 / 2048 \<le> r" by simp
  then show ?thesis unfolding r(1) by (cases a) (auto simp: fmax64_def)
qed

lemma rate_finite: "is_finite (fdiv (f64_of_nat (unat (n :: u64))) (fmax64 a (round64 (1 / 1000))))"
proof -
  define N where "N = rat_of_nat (unat n)"
  have "unat n < 2 ^ LENGTH(64)" by (rule unsigned_less)
  then have "N \<le> of_nat (2 ^ 64)" unfolding N_def of_nat_le_iff by simp
  moreover have "0 \<le> N" unfolding N_def by (rule of_nat_0_le_iff)
  ultimately have N: "0 \<le> N" "N \<le> 2 ^ 64" by simp_all
  obtain q where q: "round64 N = Fin q" "\<bar>q - N\<bar> \<le> (\<bar>N\<bar> / 2 ^ 52 + 1 / 2 ^ 1074) / 2"
    using round64_err [of N] N by auto
  have qn: "f64_of_nat (unat n) = Fin q" unfolding f64_of_nat_def using q(1) unfolding N_def .
  consider "fmax64 a (round64 (1 / 1000)) = Inf False" | e where "fmax64 a (round64 (1 / 1000)) = Fin e" "1 / 2048 \<le> e"
    using elapsed_cases [of a] by blast
  then show ?thesis
  proof cases
    case 1
    then show ?thesis using qn by simp
  next
    case (2 e)
    have "(1 :: rat) / 2 ^ 1074 \<le> 1" by simp
    then have "(\<bar>N\<bar> / 2 ^ 52 + 1 / 2 ^ 1074) / 2 \<le> (2 ^ 64 / 2 ^ 52 + 1) / 2"
      using N by (intro divide_right_mono add_mono) simp_all
    with q(2) have "\<bar>q - N\<bar> \<le> (2 ^ 64 / 2 ^ 52 + 1) / 2" by (rule order_trans)
    then have "q \<le> 2 ^ 65 \<and> - q \<le> 2 ^ 65" using N unfolding abs_le_iff by simp
    then have "\<bar>q\<bar> \<le> 2 ^ 65" unfolding abs_le_iff .
    then have "\<bar>q / e\<bar> \<le> 2 ^ 65 / (1 / 2048)" using 2 unfolding abs_divide by (intro frac_le) simp_all
    then have "\<bar>q / e\<bar> \<le> 2 ^ 128" by simp
    then show ?thesis using round64_err_wide [of "q / e"] 2 qn by auto
  qed
qed

lemma system_update_drawable: "sr_cpu rd \<noteq> NaN \<Longrightarrow> system_drawable (fst (system_update rd sl))"
  by (cases sl) (simp add: system_update_def system_drawable_def Let_def rate_finite split: prod.splits)

lemma drawable_step:
  assumes "numeric_source dy" "numeric_event e" "tui_step dy ops e w w'" "drawable w"
  shows "drawable w'"
  using assms(3) by cases
    (use assms(1, 2, 4) in \<open>auto simp: drawable_def system_update_drawable dest: thermal_update_drawable [OF assms(1)]\<close>)

lemma drawable_run:
  assumes "tui_run dy ops w0 es w" "numeric_source dy" "list_all numeric_event es" "drawable w0"
  shows "drawable w"
  using assms by (induction rule: tui_run.induct) (auto intro: drawable_step)

section \<open>The whole screen\<close>

lemma app_render_drawn:
  assumes "drawable w"
  shows "drawn (app_render en ops height entries w) \<longleftrightarrow>
    (app_tab (w_app w) = TabPower \<or> app_tab (w_app w) = TabDashboard \<longrightarrow>
       fits (e_checks en) (battery_remaining_capacity (tb_bst (fst (w_battery w))))) \<and>
    (app_tab (w_app w) = TabDashboard \<longrightarrow> fits (e_checks en) (last_full_charge_capacity (tb_bix (fst (w_battery w)))))"
proof -
  have t: "drawn (thermal_card en (w_thermal w))" "drawn (thermal_render en ops (app_thermal (w_app w)) (w_thermal w))"
    "drawn (system_card en (fst (w_system w)))" "drawn (system_render en (Some (w_thermal w)) (fst (w_system w)))"
    using assms thermal_drawn system_drawn by (auto simp: drawable_def)
  then show ?thesis
    by (cases "app_tab (w_app w)")
      (simp_all add: app_render_def Let_def render_selected_tab_def render_dashboard_def battery_render_drawn
        battery_card_drawn drawn_cases)
qed

text \<open>An open popup lies over the page.\<close>

lemma popup_drawn:
  assumes "render_selected_tab en ops w = Some page" "popups_ok (w_app w)" "some_popup (w_app w)"
  shows "\<exists>t. last page = render_input_popup t (input_value ops (popup_input
    (if app_tab (w_app w) = TabPower then app_battery (w_app w) else app_thermal (w_app w))))"
  using assms by (auto simp: some_popup_def popups_ok_def render_selected_tab_def battery_render_def thermal_render_def
    split: option.splits if_splits) (rule exI, rule refl)+

section \<open>The hints of the footer\<close>

lemma set_hint: "Desc (str_of '' set value  '') \<in> set (render_footer unicode a) \<longleftrightarrow> app_tab a = TabPower \<or> app_tab a = TabThermal"
  by (auto simp: render_footer_def Let_def str_of_def)

lemma scroll_hint: "Desc (str_of '' scroll logs  '') \<in> set (render_footer unicode a) \<longleftrightarrow> app_log_visible a"
  by (auto simp: render_footer_def Let_def str_of_def)

lemma no_popup_shortcut:
  "popups_ok a \<Longrightarrow> \<not> some_popup a \<Longrightarrow> handle_events ops (Key code Press x) a = key_shortcut ops (Key code Press x) code a"
  by (auto simp: handle_events_def is_popup_open_def some_popup_def split: option.splits)

lemma footer_hints:
  assumes "popups_ok a" "\<not> some_popup a"
  shows "Desc (str_of '' set value  '') \<in> set (render_footer unicode a) \<longleftrightarrow>
      some_popup (fst (handle_events ops (Key (KChar 115) Press x) a))"
    and "Desc (str_of '' scroll logs  '') \<in> set (render_footer unicode a) \<longleftrightarrow>
      app_log_scroll (fst (handle_events ops (Key KUp Press x) a)) \<noteq> app_log_scroll a \<or>
      app_log_visible a \<and> app_log_scroll a = - 1"
    and "Desc (str_of '' hide logs'') \<in> set (render_footer unicode a) \<longleftrightarrow>
      \<not> app_log_visible (fst (handle_events ops (Key (KChar 108) Press x) a))"
proof -
  note h = no_popup_shortcut [OF assms]
  have shut: "\<not> popup_open (app_battery a)" "\<not> popup_open (app_thermal a)" using assms(2) by (simp_all add: some_popup_def)
  show "Desc (str_of '' set value  '') \<in> set (render_footer unicode a) \<longleftrightarrow>
      some_popup (fst (handle_events ops (Key (KChar 115) Press x) a))"
    unfolding set_hint h using shut
    by (cases "app_tab a") (simp_all add: key_shortcut_def handle_tab_event_def module_handle_event_def battery_handle_event_def
      thermal_handle_event_def popup_handle_def some_popup_def)
  have "app_log_scroll (fst (handle_tab_event ops evt a)) = app_log_scroll a" for evt
    using tab_event_keeps [of ops evt a] by (metis prod.collapse)
  then show "Desc (str_of '' scroll logs  '') \<in> set (render_footer unicode a) \<longleftrightarrow>
      app_log_scroll (fst (handle_events ops (Key KUp Press x) a)) \<noteq> app_log_scroll a \<or>
      app_log_visible a \<and> app_log_scroll a = - 1"
    unfolding scroll_hint h by (simp add: key_shortcut_def saturating_inc_def)
  show "Desc (str_of '' hide logs'') \<in> set (render_footer unicode a) \<longleftrightarrow>
      \<not> app_log_visible (fst (handle_events ops (Key (KChar 108) Press x) a))"
    unfolding h by (auto simp: key_shortcut_def render_footer_def Let_def str_of_def)
qed

end
