(* ===== verification/ScreenProperties.thy ===== *)
theory ScreenProperties
  imports TuiDrawn TuiExample
begin

text \<open>What is on the screen of the terminal UI, with a source of constant readings for the witness.\<close>

section \<open>A source and an environment\<close>






section \<open>The screen\<close>



end
