(* ===== verification/EcWindows.thy ===== *)
theory EcWindows
  imports EcAcpi EcMock
begin

text \<open>
  The sources on Windows: the class driver source src/ec/test-lib/src/windows.rs, and the part of acpi.rs that finds
  the test driver's device and calls it. The functions of the Windows API and the codes, structures and bit fields of
  its crates are parameters, over a state of their own; what the code does with them is not. Strings are lists of
  characters, wide strings lists of 16 bit units.
\<close>

section \<open>UTF-16\<close>

text \<open>\<open>encode_utf16\<close>, and the decoder behind \<open>from_utf16\<close> and \<open>from_utf16_lossy\<close>: an unpaired surrogate is \<open>None\<close>.\<close>

definition encode_utf16 :: "ustr \<Rightarrow> nat list" where
  "encode_utf16 s = concat (map (\<lambda>c. if c < 0x10000 then [c]
     else [0xD800 + (c - 0x10000) div 0x400, 0xDC00 + (c - 0x10000) mod 0x400]) s)"

definition is_surrogate :: "nat \<Rightarrow> bool" where "is_surrogate u \<longleftrightarrow> 0xD800 \<le> u \<and> u < 0xE000"

fun decode_utf16 :: "nat list \<Rightarrow> nat option list" where
  "decode_utf16 [] = []"
| "decode_utf16 [u] = [if is_surrogate u then None else Some u]"
| "decode_utf16 (u # v # us) =
    (if \<not> is_surrogate u then Some u # decode_utf16 (v # us)
     else if u < 0xDC00 \<and> 0xDC00 \<le> v \<and> v < 0xE000
       then Some (0x10000 + (u - 0xD800) * 0x400 + (v - 0xDC00)) # decode_utf16 us
     else None # decode_utf16 (v # us))"

definition from_utf16 :: "nat list \<Rightarrow> ustr option" where
  "from_utf16 us = (if None \<in> set (decode_utf16 us) then None else Some (map the (decode_utf16 us)))"

definition from_utf16_lossy :: "nat list \<Rightarrow> ustr" where
  "from_utf16_lossy us = map (\<lambda>c. case c of Some u \<Rightarrow> u | None \<Rightarrow> 0xFFFD) (decode_utf16 us)"

definition is_scalar :: "nat \<Rightarrow> bool" where "is_scalar c \<longleftrightarrow> c < 0x110000 \<and> \<not> is_surrogate c"

fun contains_str :: "ustr \<Rightarrow> ustr \<Rightarrow> bool" where
  "contains_str pat [] \<longleftrightarrow> pat = []"
| "contains_str pat (c # s) \<longleftrightarrow> strip_prefix pat (c # s) \<noteq> None \<or> contains_str pat s"

section \<open>The Windows API\<close>

text \<open>
  A call fails with the code of its HRESULT. \<open>wa_control\<close> is DeviceIoControl: a handle, a code, the input, the size of
  the output buffer; it answers with what it wrote at the front of the buffer and the count it reports. \<open>wa_property\<close>
  answers with what it wrote into a buffer of 128 units and the size it required in bytes, at most 256 when it
  succeeds; \<open>wa_detail\<close> with the path in the structure it filled, up to its terminator.
\<close>

datatype device_property = InstanceId | PdoName

datatype time_control = GetRealTime | SetRealTime | GetAlarmCapabilities | GetAlarmPolicy | GetAlarmValue
  | SetAlarmPolicy | SetAlarmValue

record alarm_caps =
  ac_wake :: bool
  dc_wake :: bool
  realtime_features :: bool
  resolution_milliseconds :: bool
  s4s5_wake_status :: bool
  s4_ac_wake :: bool
  s5_ac_wake :: bool
  s4_dc_wake :: bool
  s5_dc_wake :: bool

record 'w win_api =
  wa_open :: "nat list \<Rightarrow> ('w, u32, nat) ec_op"
  wa_invalid :: "nat \<Rightarrow> bool"
  wa_close :: "nat \<Rightarrow> 'w \<Rightarrow> 'w"
  wa_control :: "nat \<Rightarrow> u32 \<Rightarrow> bytes option \<Rightarrow> nat \<Rightarrow> ('w, u32, bytes \<times> u32) ec_op"
  wa_class_devs :: "('w, u32, nat) ec_op"
  wa_destroy :: "nat \<Rightarrow> 'w \<Rightarrow> 'w"
  wa_first_interface :: "nat \<Rightarrow> ('w, u32, nat) ec_op"
  wa_detail_size :: "nat \<Rightarrow> nat \<Rightarrow> 'w \<Rightarrow> u32 \<times> 'w"
  wa_detail :: "nat \<Rightarrow> nat \<Rightarrow> u32 \<Rightarrow> ('w, u32, nat list) ec_op"
  wa_enum :: "nat \<Rightarrow> nat \<Rightarrow> 'w \<Rightarrow> bool \<times> 'w"
  wa_property :: "nat \<Rightarrow> nat \<Rightarrow> device_property \<Rightarrow> ('w, u32, nat list \<times> u32) ec_op"
  wa_code :: "time_control \<Rightarrow> u32"
  wa_caps_size :: nat
  wa_caps :: "bytes \<Rightarrow> alarm_caps"
  wa_cap_bits :: "alarm_caps \<Rightarrow> u32"

text \<open>A buffer after a write at its front, and the guard \<open>defer!\<close>, whose call is made whatever the result.\<close>

definition written :: "'a list \<Rightarrow> 'a list \<Rightarrow> 'a list" where "written buf data = take (length buf) data @ drop (length data) buf"

definition deferred :: "('s \<Rightarrow> 's) \<Rightarrow> ('s, 'e, 'a) ec_op \<Rightarrow> ('s, 'e, 'a) ec_op" where
  "deferred d m s = (let (r, s') = m s in (r, d s'))"

definition wide :: "ustr \<Rightarrow> nat list" where "wide path = encode_utf16 path @ [0]"

section \<open>The class driver of the time and alarm device\<close>

datatype win_error = WDeviceNotFound | WIo u32 | WInvalidData | WUnsupported string

fun win_kind :: "win_error \<Rightarrow> error_kind" where
  "win_kind WDeviceNotFound = IoKind"
| "win_kind (WIo _) = IoKind"
| "win_kind WInvalidData = InvalidDataKind"
| "win_kind (WUnsupported _) = OtherKind"

definition win_of_mock :: "mock_error \<Rightarrow> win_error" where "win_of_mock e = WInvalidData"

definition win_device_path :: "'w win_api \<Rightarrow> ('w, win_error, ustr) ec_op" where
  "win_device_path api = op_then (op_map WIo (wa_class_devs api)) (\<lambda>devs. deferred (wa_destroy api devs)
     (op_then (op_map (\<lambda>_. WDeviceNotFound) (wa_first_interface api devs)) (\<lambda>iface s.
        let (required, s') = wa_detail_size api devs iface s in
        if required = 0 then (Inl WDeviceNotFound, s')
        else op_then (op_map WIo (wa_detail api devs iface required)) (\<lambda>units.
          op_lift (ok_or WInvalidData (from_utf16 units))) s')))"

definition win_ioctl :: "'w win_api \<Rightarrow> ustr \<Rightarrow> u32 \<Rightarrow> bytes \<Rightarrow> bytes \<Rightarrow> ('w, win_error, bytes) ec_op" where
  "win_ioctl api path code input out = op_then (op_map WIo (wa_open api (wide path))) (\<lambda>h. deferred (wa_close api h)
     (op_then (op_map WIo (wa_control api h code (if input = [] then None else Some input) (length out)))
       (\<lambda>(data, bytes_returned). if unat bytes_returned \<noteq> length out then op_fail WInvalidData
          else op_ret (written out data))))"

text \<open>WAKE_ALARM_INFORMATION, the identifier of a timer and a number of seconds.\<close>

definition alarm_info :: "timer_id \<Rightarrow> u32 \<Rightarrow> bytes" where
  "alarm_info i v = nat_le 4 (timer_index i) @ nat_le 4 (unat v)"

definition alarm_seconds :: "bytes \<Rightarrow> u32" where "alarm_seconds out = word_of_nat (le_nat (slice 4 4 out))"

section \<open>The source\<close>

text \<open>The state is that of the API and the mock's; the clock goes to the driver, the rest to the mock.\<close>

type_synonym ('w, 'ts, 'a) win_op = "('w \<times> 'ts mock, win_error, 'a) ec_op"

definition on_driver :: "('w, win_error, 'a) ec_op \<Rightarrow> ('w, 'ts, 'a) win_op" where
  "on_driver m = (\<lambda>(w, k). let (r, w') = m w in (r, (w', k)))"

definition on_mock :: "('ts mock, mock_error, 'a) ec_op \<Rightarrow> ('w, 'ts, 'a) win_op" where
  "on_mock m = (\<lambda>(w, k). let (r, k') = op_map win_of_mock m k in (r, (w, k')))"

definition win_get_real_time :: "'ts ec_iface \<Rightarrow> 'w win_api \<Rightarrow> ustr \<Rightarrow> ('w, 'ts, 'ts) win_op" where
  "win_get_real_time ei api path = on_driver (op_then
     (win_ioctl api path (wa_code api GetRealTime) [] (replicate 16 0))
     (\<lambda>out. op_lift (ok_or WInvalidData (ei_ts_of_bytes ei out))))"

definition win_set_real_time :: "'ts ec_iface \<Rightarrow> 'w win_api \<Rightarrow> ustr \<Rightarrow> 'ts \<Rightarrow> ('w, 'ts, unit) win_op" where
  "win_set_real_time ei api path t = on_driver (op_then
     (win_ioctl api path (wa_code api SetRealTime) (ei_ts_bytes ei t) []) (\<lambda>_. op_ret ()))"

definition win_get_timer_value :: "'w win_api \<Rightarrow> ustr \<Rightarrow> timer_id \<Rightarrow> ('w, 'ts, u32) win_op" where
  "win_get_timer_value api path i = on_driver (op_then
     (win_ioctl api path (wa_code api GetAlarmValue) (alarm_info i 0) (replicate 8 0)) (\<lambda>out. op_ret (alarm_seconds out)))"

definition win_set_timer_value :: "'w win_api \<Rightarrow> ustr \<Rightarrow> timer_id \<Rightarrow> u32 \<Rightarrow> ('w, 'ts, unit) win_op" where
  "win_set_timer_value api path i v = on_driver (op_then
     (win_ioctl api path (wa_code api SetAlarmValue) (alarm_info i v) []) (\<lambda>_. op_ret ()))"

definition win_get_policy :: "'w win_api \<Rightarrow> ustr \<Rightarrow> timer_id \<Rightarrow> ('w, 'ts, u32) win_op" where
  "win_get_policy api path i = on_driver (op_then
     (win_ioctl api path (wa_code api GetAlarmPolicy) (alarm_info i 0) (replicate 8 0)) (\<lambda>out. op_ret (alarm_seconds out)))"

definition win_set_policy :: "'w win_api \<Rightarrow> ustr \<Rightarrow> timer_id \<Rightarrow> u32 \<Rightarrow> ('w, 'ts, unit) win_op" where
  "win_set_policy api path i v = on_driver (op_then
     (win_ioctl api path (wa_code api SetAlarmPolicy) (alarm_info i v) []) (\<lambda>_. op_ret ()))"

definition win_get_capabilities :: "'w win_api \<Rightarrow> ustr \<Rightarrow> ('w, 'ts, u32) win_op" where
  "win_get_capabilities api path = on_driver (op_then
     (win_ioctl api path (wa_code api GetAlarmCapabilities) [] (replicate (wa_caps_size api) 0))
     (\<lambda>out. op_ret (wa_cap_bits api (wa_caps api out))))"

definition win_source :: "'ts ec_iface \<Rightarrow> 'w win_api \<Rightarrow> clock \<Rightarrow> (nat \<Rightarrow> 'w \<Rightarrow> 'w) \<Rightarrow> ustr \<Rightarrow>
    ('w \<times> 'ts mock, win_error, 'ts) source" where
  "win_source ei api clock sleep path = (let k = mock_source ei clock in \<lparr>src_kind = win_kind,
     src_get_temperature = on_mock (src_get_temperature k), src_get_rpm = on_mock (src_get_rpm k),
     src_get_min_rpm = on_mock (src_get_min_rpm k), src_get_max_rpm = on_mock (src_get_max_rpm k),
     src_get_threshold = (\<lambda>t. on_mock (src_get_threshold k t)),
     src_set_threshold = (\<lambda>t v. on_mock (src_set_threshold k t v)), src_set_rpm = (\<lambda>v. on_mock (src_set_rpm k v)),
     src_get_bst = on_mock (src_get_bst k), src_get_bix = on_mock (src_get_bix k),
     src_set_btp = (\<lambda>v. on_mock (src_set_btp k v)),
     src_get_capabilities = win_get_capabilities api path, src_get_real_time = win_get_real_time ei api path,
     src_get_wake_status = (\<lambda>i. op_fail (WUnsupported ''GetWakeStatus'')),
     src_get_expired_timer_wake_policy = win_get_policy api path,
     src_get_timer_value = win_get_timer_value api path, src_set_real_time = win_set_real_time ei api path,
     src_set_timer_value = win_set_timer_value api path,
     src_set_expired_timer_wake_policy = win_set_policy api path,
     src_clear_wake_status = (\<lambda>i. op_ret ()), src_wait = (\<lambda>ns (w, m). (sleep ns w, m))\<rparr>)"

text \<open>\<open>Windows::new\<close> finds the device once; its UCSI operation is not supported.\<close>

definition win_new :: "'ts ec_iface \<Rightarrow> 'w win_api \<Rightarrow> clock \<Rightarrow> 'w \<Rightarrow> (win_error + ustr \<times> 'ts mock) \<times> 'w" where
  "win_new ei api clock w = (case win_device_path api w of
      (Inl e, w') \<Rightarrow> (Inl e, w') | (Inr path, w') \<Rightarrow> (Inr (path, mock_new ei clock), w'))"

definition win_get_snapshot :: "u8 \<Rightarrow> ('w, 'ts, 'snap) win_op" where
  "win_get_snapshot connector = op_fail (WUnsupported ''UCSI'')"

section \<open>The device of the test driver\<close>

text \<open>
  The loop over the devices of the driver's class, from an index on, ends when there is no device at the index; a class
  that never ends would keep it going, then it is \<open>None\<close>.
\<close>

definition property_text :: "nat list \<times> u32 \<Rightarrow> ustr" where
  "property_text p = (let (data, required) = p
     in from_utf16_lossy (take (unat required div 2 - 1) (written (replicate 128 0) data)))"

definition try_device :: "'w win_api \<Rightarrow> nat \<Rightarrow> nat \<Rightarrow> 'w \<Rightarrow> ustr option \<times> 'w" where
  "try_device api devs index s = (case wa_property api devs index InstanceId s of
      (Inr p, s1) \<Rightarrow>
        if 0 < snd p \<and> contains_str (str_of ''ETST0001'') (property_text p)
        then (case wa_property api devs index PdoName s1 of
            (Inr q, s2) \<Rightarrow> (if 0 < snd q then Some ([92, 92, 46, 92] @ str_of ''GLOBALROOT'' @ property_text q) else None, s2)
          | (Inl _, s2) \<Rightarrow> (None, s2))
        else (None, s1)
    | (Inl _, s1) \<Rightarrow> (None, s1))"

partial_function (option) find_device :: "'w win_api \<Rightarrow> nat \<Rightarrow> nat \<Rightarrow> 'w \<Rightarrow> (ustr option \<times> 'w) option" where
  "find_device api devs index s = (let (there, s1) = wa_enum api devs index s in
     if \<not> there then Some (None, s1)
     else let (found, s2) = try_device api devs index s1 in
       case found of Some path \<Rightarrow> Some (Some path, s2) | None \<Rightarrow> find_device api devs (Suc index) s2)"

definition acpi_device_path :: "'w win_api \<Rightarrow> 'w \<Rightarrow> ((acpi_parse_error + ustr) \<times> 'w) option" where
  "acpi_device_path api s = (case wa_class_devs api s of
      (Inl e, s1) \<Rightarrow> Some (Inl (EvaluationFailed e), s1)
    | (Inr devs, s1) \<Rightarrow> map_option (\<lambda>(found, s2). (ok_or (EvaluationFailed (- 1)) found, wa_destroy api devs s2))
        (find_device api devs 0 s1))"

text \<open>\<open>Acpi::new\<close>: without a device the path is empty.\<close>

definition acpi_new_path :: "'w win_api \<Rightarrow> 'w \<Rightarrow> (ustr \<times> 'w) option" where
  "acpi_new_path api s = map_option (\<lambda>(r, s'). (case r of Inr path \<Rightarrow> path | Inl _ \<Rightarrow> [], s')) (acpi_device_path api s)"

definition IOCTL_ACPI_EVAL_METHOD_EX :: u32 where "IOCTL_ACPI_EVAL_METHOD_EX = 0x0032C018"

text \<open>The call of the device, which is the driver the theory EcAcpi is about.\<close>

definition acpi_device :: "'w win_api \<Rightarrow> ustr \<Rightarrow> 'w acpi_driver" where
  "acpi_device api path in_buf = op_then (wa_open api (wide path)) (\<lambda>h.
     if wa_invalid api h then op_fail (- 2)
     else deferred (wa_close api h) (op_then (wa_control api h IOCTL_ACPI_EVAL_METHOD_EX (Some in_buf) 1024)
       (\<lambda>(data, bytes_returned). op_ret (take (unat bytes_returned) (written (replicate 1024 0) data)))))"

section \<open>Text\<close>

lemma decode_plain: "\<not> is_surrogate c \<Longrightarrow> decode_utf16 (c # us) = Some c # decode_utf16 us"
  by (cases us) simp_all

lemma decode_pair: "h < 0x400 \<Longrightarrow> l < 0x400 \<Longrightarrow>
    decode_utf16 ((0xD800 + h) # (0xDC00 + l) # us) = Some (0x10000 + h * 0x400 + l) # decode_utf16 us"
  by (simp add: is_surrogate_def)

lemma decode_encode: "list_all is_scalar s \<Longrightarrow> decode_utf16 (encode_utf16 s) = map Some s"
proof (induction s)
  case (Cons c s)
  show ?case
  proof (cases "c < 0x10000")
    case True
    then show ?thesis using Cons by (simp add: encode_utf16_def is_scalar_def decode_plain)
  next
    case False
    define d where "d = c - 0x10000"
    have "c < 0x110000" using Cons.prems by (simp add: is_scalar_def)
    then have c: "c = 0x10000 + d" "d < 0x100000" using False unfolding d_def by arith+
    have "0x10000 + d div 0x400 * 0x400 + d mod 0x400 = c" unfolding c(1) add.assoc div_mult_mod_eq ..
    moreover have "d div 0x400 < 0x400" using c(2) by (simp add: less_mult_imp_div_less)
    ultimately have "decode_utf16 ((0xD800 + d div 0x400) # (0xDC00 + d mod 0x400) # encode_utf16 s) = Some c # decode_utf16 (encode_utf16 s)"
      by (subst decode_pair) simp_all
    moreover have "encode_utf16 (c # s) = (0xD800 + d div 0x400) # (0xDC00 + d mod 0x400) # encode_utf16 s"
      using False by (simp add: encode_utf16_def d_def)
    ultimately show ?thesis using Cons by simp
  qed
qed (simp add: encode_utf16_def)

lemma utf16_roundtrip: "list_all is_scalar s \<Longrightarrow> from_utf16 (encode_utf16 s) = Some s \<and> from_utf16_lossy (encode_utf16 s) = s"
  by (auto simp: from_utf16_def from_utf16_lossy_def decode_encode comp_def)

section \<open>Handles\<close>

text \<open>
  What the documentation says of handles: a successful open gives a new one, closing takes it away, nothing else
  changes them; and the same of the sets of devices. Then every operation leaves as many open as it found.
\<close>

definition keeps :: "('w \<Rightarrow> 'l) \<Rightarrow> ('w, 'e, 'a) ec_op \<Rightarrow> bool" where "keeps live m \<longleftrightarrow> (\<forall>s. live (snd (m s)) = live s)"

definition handle_api :: "'w win_api \<Rightarrow> ('w \<Rightarrow> nat set \<times> nat set) \<Rightarrow> bool" where
  "handle_api api live \<longleftrightarrow>
     (\<forall>p s e s'. wa_open api p s = (Inl e, s') \<longrightarrow> live s' = live s) \<and>
     (\<forall>p s h s'. wa_open api p s = (Inr h, s') \<longrightarrow> \<not> wa_invalid api h \<and> h \<notin> fst (live s) \<and> live s' = (insert h (fst (live s)), snd (live s))) \<and>
     (\<forall>h s. live (wa_close api h s) = (fst (live s) - {h}, snd (live s))) \<and>
     (\<forall>s e s'. wa_class_devs api s = (Inl e, s') \<longrightarrow> live s' = live s) \<and>
     (\<forall>s d s'. wa_class_devs api s = (Inr d, s') \<longrightarrow> d \<notin> snd (live s) \<and> live s' = (fst (live s), insert d (snd (live s)))) \<and>
     (\<forall>d s. live (wa_destroy api d s) = (fst (live s), snd (live s) - {d})) \<and>
     (\<forall>h c i n. keeps live (wa_control api h c i n)) \<and> (\<forall>d. keeps live (wa_first_interface api d)) \<and>
     (\<forall>d i s. live (snd (wa_detail_size api d i s)) = live s) \<and> (\<forall>d i n. keeps live (wa_detail api d i n)) \<and>
     (\<forall>d i s. live (snd (wa_enum api d i s)) = live s) \<and> (\<forall>d i p. keeps live (wa_property api d i p))"

lemma keeps_then: "keeps live m \<Longrightarrow> (\<And>x. keeps live (f x)) \<Longrightarrow> keeps live (op_then m f)"
  by (auto simp: keeps_def op_then_def split: prod.splits sum.splits) (metis snd_conv)+

lemma keeps_map: "keeps live m \<Longrightarrow> keeps live (op_map f m)"
  by (auto simp: keeps_def op_map_def split: prod.splits sum.splits) (metis snd_conv)+

lemma keeps_now: "keeps live (op_ret x)" "keeps live (op_fail e)" "keeps live (op_lift r)"
  by (simp_all add: keeps_def)

lemma keeps_handle:
  assumes "handle_api api live" "\<And>h. keeps live (m h)"
  shows "keeps live (op_then (op_map f (wa_open api p)) (\<lambda>h. deferred (wa_close api h) (m h)))"
proof -
  have "live (snd (op_then (op_map f (wa_open api p)) (\<lambda>h. deferred (wa_close api h) (m h)) s)) = live s" for s
  proof (cases "wa_open api p s")
    case (Pair r s1)
    show ?thesis
    proof (cases r)
      case (Inl e)
      then show ?thesis using assms(1) Pair by (simp add: handle_api_def op_then_def op_map_def)
    next
      case (Inr h)
      have m: "live (snd (m h s1)) = live s1" using assms(2) by (simp add: keeps_def)
      have "h \<notin> fst (live s)" "live s1 = (insert h (fst (live s)), snd (live s))"
        "live (wa_close api h (snd (m h s1))) = (fst (live (snd (m h s1))) - {h}, snd (live (snd (m h s1))))"
        using assms(1) Pair Inr by (auto simp: handle_api_def)
      then show ?thesis using Pair Inr m by (cases "m h s1") (simp add: op_then_def op_map_def deferred_def)
    qed
  qed
  then show ?thesis by (simp add: keeps_def)
qed

lemma ioctl_keeps:
  assumes "handle_api api live"
  shows "keeps live (win_ioctl api path code input out)"
proof -
  have c: "keeps live (wa_control api h code i n)" for h i n using assms by (simp add: handle_api_def)
  show ?thesis unfolding win_ioctl_def
    by (rule keeps_handle [OF assms], intro keeps_then keeps_map c) (auto simp: keeps_now)
qed

lemma acpi_device_keeps:
  assumes "handle_api api live"
  shows "keeps live (acpi_device api path in_buf)"
proof -
  let ?m = "\<lambda>h. op_then (wa_control api h IOCTL_ACPI_EVAL_METHOD_EX (Some in_buf) 1024)
       (\<lambda>(data, bytes_returned). op_ret (take (unat bytes_returned) (written (replicate 1024 0) data)))"
  have "keeps live (op_then (op_map id (wa_open api (wide path))) (\<lambda>h. deferred (wa_close api h) (?m h)))"
    using assms by (intro keeps_handle keeps_then) (auto simp: handle_api_def keeps_now)
  moreover have "op_then (op_map id (wa_open api (wide path))) (\<lambda>h. deferred (wa_close api h) (?m h)) s
      = acpi_device api path in_buf s" for s
    using assms by (auto simp: acpi_device_def op_then_def op_map_def handle_api_def split: prod.splits sum.splits)
  ultimately show ?thesis by (simp add: keeps_def)
qed

lemma device_path_keeps:
  assumes "handle_api api live"
  shows "keeps live (win_device_path api)"
proof -
  have "live (snd (win_device_path api s)) = live s" for s
  proof (cases "wa_class_devs api s")
    case (Pair r s1)
    let ?m = "\<lambda>devs. op_then (op_map (\<lambda>_. WDeviceNotFound) (wa_first_interface api devs)) (\<lambda>iface s.
        let (required, s') = wa_detail_size api devs iface s in
        if required = 0 then (Inl WDeviceNotFound, s')
        else op_then (op_map WIo (wa_detail api devs iface required)) (\<lambda>units. op_lift (ok_or WInvalidData (from_utf16 units))) s')"
    show ?thesis
    proof (cases r)
      case (Inl e)
      then show ?thesis using assms Pair by (simp add: win_device_path_def handle_api_def op_then_def op_map_def)
    next
      case (Inr d)
      have detail: "keeps live (op_then (op_map WIo (wa_detail api d iface required)) (\<lambda>units. op_lift (ok_or WInvalidData (from_utf16 units))))"
        for iface required using assms by (intro keeps_then keeps_map) (auto simp: handle_api_def keeps_now)
      have "keeps live (?m d)"
      proof (rule keeps_then)
        show "keeps live (op_map (\<lambda>_. WDeviceNotFound) (wa_first_interface api d))"
          using assms by (intro keeps_map) (simp add: handle_api_def)
        show "keeps live (\<lambda>s. let (required, s') = wa_detail_size api d iface s in
          if required = 0 then (Inl WDeviceNotFound, s')
          else op_then (op_map WIo (wa_detail api d iface required)) (\<lambda>units. op_lift (ok_or WInvalidData (from_utf16 units))) s')" for iface
          unfolding keeps_def Let_def
          using assms detail by (auto simp: keeps_def handle_api_def split: prod.splits) (metis snd_conv)+
      qed
      then have "live (snd (?m d s1)) = live s1" by (simp only: keeps_def)
      moreover have "d \<notin> snd (live s)" "live s1 = (fst (live s), insert d (snd (live s)))"
        "live (wa_destroy api d (snd (?m d s1))) = (fst (live (snd (?m d s1))), snd (live (snd (?m d s1))) - {d})"
        using assms Pair Inr by (auto simp: handle_api_def)
      moreover have "snd (win_device_path api s) = wa_destroy api d (snd (?m d s1))"
        using Pair Inr by (simp add: win_device_path_def op_then_def [of "op_map WIo (wa_class_devs api)"] op_map_def [of WIo "wa_class_devs api"]
          deferred_def split: prod.split)
      ultimately show ?thesis by simp
    qed
  qed
  then show ?thesis by (simp add: keeps_def)
qed

text \<open>So do all operations of the source.\<close>

lemma keeps_driver: "keeps live m \<Longrightarrow> keeps (live \<circ> fst) (on_driver m)"
  by (auto simp: keeps_def on_driver_def split: prod.splits) (metis snd_conv)+

lemma keeps_mock: "keeps (live \<circ> fst) (on_mock m)"
  by (auto simp: keeps_def on_mock_def split: prod.splits)

lemma win_ops_keep:
  assumes "handle_api api live"
  shows "keeps (live \<circ> fst) (win_get_real_time ei api path)" "keeps (live \<circ> fst) (win_set_real_time ei api path t)"
    "keeps (live \<circ> fst) (win_get_timer_value api path i)" "keeps (live \<circ> fst) (win_set_timer_value api path i v)"
    "keeps (live \<circ> fst) (win_get_policy api path i)" "keeps (live \<circ> fst) (win_set_policy api path i v)"
    "keeps (live \<circ> fst) (win_get_capabilities api path)"
  unfolding win_get_real_time_def win_set_real_time_def win_get_timer_value_def win_set_timer_value_def win_get_policy_def
    win_set_policy_def win_get_capabilities_def
  by (intro keeps_driver keeps_then ioctl_keeps assms keeps_now)+

section \<open>Control calls\<close>

text \<open>A call succeeds exactly if the device opens, the control succeeds and the buffer is reported full.\<close>

lemma win_ioctl_ok:
  "win_ioctl api path code input out s = (Inr buf, s') \<longleftrightarrow> (\<exists>h s1 data n s2. wa_open api (wide path) s = (Inr h, s1) \<and>
     wa_control api h code (if input = [] then None else Some input) (length out) s1 = (Inr (data, n), s2) \<and>
     unat n = length out \<and> buf = written out data \<and> s' = wa_close api h s2)"
  by (auto simp: win_ioctl_def op_then_def op_map_def deferred_def split: prod.splits sum.splits)

lemma length_written [simp]: "length (written buf data) = length buf"
  by (simp add: written_def)

text \<open>
  A driver that keeps the timers: \<open>vals\<close> reads a timer's seconds off its state, opening and closing leave them alone,
  getting writes them behind the identifier and setting takes them from there.
\<close>

definition alarm_driver :: "'w win_api \<Rightarrow> ustr \<Rightarrow> time_control \<Rightarrow> time_control \<Rightarrow> ('w \<Rightarrow> timer_id \<Rightarrow> u32) \<Rightarrow> bool" where
  "alarm_driver api path get put vals \<longleftrightarrow>
     (\<forall>s. \<exists>h s'. wa_open api (wide path) s = (Inr h, s') \<and> vals s' = vals s) \<and> (\<forall>h s. vals (wa_close api h s) = vals s) \<and>
     (\<forall>h i s. \<exists>s'. wa_control api h (wa_code api get) (Some (alarm_info i 0)) 8 s = (Inr (alarm_info i (vals s i), 8), s') \<and> vals s' = vals s) \<and>
     (\<forall>h i v s. \<exists>s'. wa_control api h (wa_code api put) (Some (alarm_info i v)) 0 s = (Inr ([], 0), s') \<and> vals s' = (vals s)(i := v))"

lemma length_alarm_info [simp]: "length (alarm_info i v) = 8"
  by (simp add: alarm_info_def length_nat_le)

lemma alarm_info_nonempty [simp]: "alarm_info i v \<noteq> []"
  using length_alarm_info [of i v] by fastforce

lemma alarm_seconds_info [simp]: "alarm_seconds (alarm_info i v) = v"
proof -
  have "slice 4 4 (alarm_info i v) = nat_le 4 (unat v)" by (simp add: alarm_info_def slice_def length_nat_le)
  moreover have "le_nat (nat_le 4 (unat v)) = unat v" using unsigned_less [of v] by (intro le_nat_nat_le) simp
  ultimately show ?thesis by (simp add: alarm_seconds_def)
qed

lemma alarm_get:
  assumes "alarm_driver api path get put vals"
  shows "\<exists>s'. win_ioctl api path (wa_code api get) (alarm_info i 0) (replicate 8 0) s = (Inr (alarm_info i (vals s i)), s') \<and> vals s' = vals s"
proof -
  obtain h s1 where o: "wa_open api (wide path) s = (Inr h, s1)" "vals s1 = vals s" using assms unfolding alarm_driver_def by blast
  obtain s2 where c: "wa_control api h (wa_code api get) (Some (alarm_info i 0)) 8 s1 = (Inr (alarm_info i (vals s1 i), 8), s2)" "vals s2 = vals s1"
    using assms unfolding alarm_driver_def by blast
  have "win_ioctl api path (wa_code api get) (alarm_info i 0) (replicate 8 0) s = (Inr (alarm_info i (vals s i)), wa_close api h s2)"
    unfolding win_ioctl_ok using o c by (auto simp: written_def)
  moreover have "vals (wa_close api h s2) = vals s" using assms o c by (simp add: alarm_driver_def)
  ultimately show ?thesis by blast
qed

lemma alarm_put:
  assumes "alarm_driver api path get put vals"
  shows "\<exists>s'. win_ioctl api path (wa_code api put) (alarm_info i v) [] s = (Inr [], s') \<and> vals s' = (vals s)(i := v)"
proof -
  obtain h s1 where o: "wa_open api (wide path) s = (Inr h, s1)" "vals s1 = vals s" using assms unfolding alarm_driver_def by blast
  obtain s2 where c: "wa_control api h (wa_code api put) (Some (alarm_info i v)) 0 s1 = (Inr ([], 0), s2)" "vals s2 = (vals s1)(i := v)"
    using assms unfolding alarm_driver_def by blast
  have "win_ioctl api path (wa_code api put) (alarm_info i v) [] s = (Inr [], wa_close api h s2)"
    unfolding win_ioctl_ok using o c by (auto simp: written_def)
  moreover have "vals (wa_close api h s2) = (vals s)(i := v)" using assms o c by (simp add: alarm_driver_def)
  ultimately show ?thesis by blast
qed

lemma win_timer_roundtrip:
  assumes "alarm_driver api path GetAlarmValue SetAlarmValue vals"
  shows "fst (win_set_timer_value api path i v s) = Inr ()"
    and "fst (win_get_timer_value api path j (snd (win_set_timer_value api path i v s))) = Inr (if j = i then v else vals (fst s) j)"
proof -
  obtain w k where s: "s = (w, k)" by fastforce
  obtain w1 where p: "win_ioctl api path (wa_code api SetAlarmValue) (alarm_info i v) [] w = (Inr [], w1)" "vals w1 = (vals w)(i := v)"
    using alarm_put [OF assms] by blast
  then have put: "win_set_timer_value api path i v s = (Inr (), (w1, k))"
    by (simp add: s win_set_timer_value_def on_driver_def op_then_def)
  obtain w2 where "win_ioctl api path (wa_code api GetAlarmValue) (alarm_info j 0) (replicate 8 0) w1 = (Inr (alarm_info j (vals w1 j)), w2)"
    using alarm_get [OF assms] by blast
  then have "fst (win_get_timer_value api path j (w1, k)) = Inr (vals w1 j)"
    by (simp add: win_get_timer_value_def on_driver_def op_then_def)
  then show "fst (win_set_timer_value api path i v s) = Inr ()"
    "fst (win_get_timer_value api path j (snd (win_set_timer_value api path i v s))) = Inr (if j = i then v else vals (fst s) j)"
    using put p(2) s by simp_all
qed

text \<open>Such a driver: its state is the two timers, and a control answers by its code and the identifier in the input.\<close>

definition alarm_api :: "(timer_id \<Rightarrow> u32) win_api" where
  "alarm_api = \<lparr>wa_open = (\<lambda>p. op_ret 1), wa_invalid = (\<lambda>h. False), wa_close = (\<lambda>h s. s),
     wa_control = (\<lambda>h code input size s.
       let inp = (case input of Some b \<Rightarrow> b | None \<Rightarrow> []); i = (if le_nat (take 4 inp) = 0 then AcPower else DcPower)
       in if code = 0 then (Inr (alarm_info i (s i), 8), s) else (Inr ([], 0), s(i := alarm_seconds inp))),
     wa_class_devs = op_ret 0, wa_destroy = (\<lambda>d s. s), wa_first_interface = op_ret, wa_detail_size = (\<lambda>d i s. (0, s)),
     wa_detail = (\<lambda>d i n. op_ret []), wa_enum = (\<lambda>d i s. (False, s)), wa_property = (\<lambda>d i p. op_ret ([], 0)),
     wa_code = (\<lambda>c. if c = GetAlarmValue then 0 else 1), wa_caps_size = 0,
     wa_caps = (\<lambda>b. \<lparr>ac_wake = False, dc_wake = False, realtime_features = False, resolution_milliseconds = False,
       s4s5_wake_status = False, s4_ac_wake = False, s5_ac_wake = False, s4_dc_wake = False, s5_dc_wake = False\<rparr>),
     wa_cap_bits = (\<lambda>c. 0)\<rparr>"

lemma alarm_info_id: "le_nat (take 4 (alarm_info i v)) = timer_index i"
proof -
  have "take 4 (alarm_info i v) = nat_le 4 (timer_index i)" by (simp add: alarm_info_def length_nat_le)
  moreover have "timer_index i < 256 ^ 4" by (cases i) simp_all
  ultimately show ?thesis by (simp add: le_nat_nat_le)
qed

lemma alarm_api_keeps_timers: "alarm_driver alarm_api path GetAlarmValue SetAlarmValue id"
proof -
  have "(if timer_index i = 0 then AcPower else DcPower) = i" for i by (cases i) simp_all
  then show ?thesis by (simp add: alarm_driver_def alarm_api_def alarm_info_id Let_def del: timer_index.simps)
qed

section \<open>Enumeration\<close>

text \<open>A class with \<open>n\<close> devices is searched to its end at most; the path is that of a device that passed.\<close>

lemma find_device_returns:
  assumes "\<And>s index. fst (wa_enum api devs index s) \<longleftrightarrow> index < n"
  shows "\<exists>r. find_device api devs index s = Some r"
proof (induction "n - index" arbitrary: index s)
  case 0
  then show ?case using assms [of index s] by (cases "wa_enum api devs index s", subst find_device.simps) simp
next
  case (Suc m)
  obtain there s1 where e: "wa_enum api devs index s = (there, s1)" by fastforce
  then have "there" using assms [of index s] Suc(2) by simp
  moreover obtain found s2 where t: "try_device api devs index s1 = (found, s2)" by fastforce
  moreover have "\<exists>r. find_device api devs (Suc index) s2 = Some r" using Suc by (intro Suc(1)) simp
  ultimately show ?case using e by (subst find_device.simps) (simp split: option.split)
qed

lemma try_device_path:
  "try_device api devs index s = (Some path, s') \<Longrightarrow> \<exists>p. path = [92, 92, 46, 92] @ str_of ''GLOBALROOT'' @ p"
  by (auto simp: try_device_def split: prod.splits sum.splits if_splits)

lemma acpi_new_returns:
  assumes "\<And>devs s index. fst (wa_enum api devs index s) \<longleftrightarrow> index < n"
  shows "\<exists>r. acpi_new_path api s = Some r"
proof (cases "wa_class_devs api s")
  case (Pair r s1)
  then show ?thesis
  proof (cases r)
    case (Inr devs)
    obtain x where "find_device api devs 0 s1 = Some x" using find_device_returns [OF assms] by blast
    then show ?thesis using Pair Inr by (simp add: acpi_new_path_def acpi_device_path_def)
  qed (simp add: acpi_new_path_def acpi_device_path_def)
qed

end
