(* ===== verification/Spec2Isabelle.thy ===== *)
theory Spec2Isabelle
  imports ExamplePlatform EcProperties TuiProperties TianoProperties CliProperties ScreenProperties EcWindows
begin

text \<open>
  This library models three parts of odp-platform-common written in Rust and proves what they rely on: the boot
  orchestration, the crates patina_boot (src/uefi/crates/patina_boot/src) and patina_sre
  (src/uefi/crates/patina_sre/src) of a UEFI firmware's boot device selection phase; the crate patina_tianocore below drivers; and the tools that test
  the embedded controller, the crates src/ec/test-script (a script language), src/ec/test-lib (the data
  sources a script runs against), src/ec/test-cli (a command line) and src/ec/test-tui (a terminal UI).

  The program. A platform builds a BootDispatcher around a BootOrchestrator. Its component entry
  point stores the orchestrator and installs the BDS protocol; the DXE core calls that protocol
  later and must never get control back. Two orchestrators exist: SimpleBootManager (connect
  devices, lock the platform, look for a hotkey, boot a configured list) and SreBootManager (the
  same with capsule processing before the lock, button-driven recovery, Boot#### discovery in two
  passes, a policy-controlled filesystem fallback and recovery from an NVMe boot partition through
  a RAM disk). Both pass through helpers.rs, where the LockedBoot capability is the only way to
  load an image.

  How code becomes definitions.
  \<^item> The firmware (boot services, runtime services, the protocols of C drivers, patina's device path
    library) is not under src/; it is the record \<open>firmware\<close> of theory Firmware, one state
    transformer per service over an unspecified state \<open>'w\<close>. Nothing is assumed of it but where a
    theorem says so.
  \<^item> A boot function is a program over that state and a log of the calls made (theory Prelude:
    \<open>ret\<close>, \<open>bnd\<close>, \<open>tryE\<close> for the question mark operator, the loops \<open>each\<close>, \<open>each_until\<close>,
    \<open>each_acc_until\<close>). A call may return, leave for good (\<open>Gone\<close>, an OS that took over or a reset) or
    never end (\<open>Spin\<close>); so may every function. Errors are values of \<open>efi_error + 'a\<close>.
  \<^item> The open loops (driver dispatch, reading keys, connecting until the handle count is stable)
    run on fuel and answer \<open>Spin\<close> without it; C6 and C7 show that any fuel above the platform's own
    bounds (handles, pending keys, undispatched drivers) suffices. The chunked read is a loop of
    \<open>length dest + 1\<close> rounds, shown to be enough whenever the sizes pass the code's guards (C24). Loops bounded in the code have its
    bounds (10 and 20 rounds of connecting).
  \<^item> Machine integers keep their width: load option fields, NVMe dwords and Block IO arguments are
    words, saturating and checked arithmetic is written out. Sizes in usize are natural numbers
    where the code cannot overflow them.
  \<^item> Raw pointers read \<open>fw_mem\<close>, the memory behind a pointer in a state. Where the code hands the address of one of
    its own buffers to the path reader, \<open>beyond\<close> is the memory behind the buffer; C19 shows that it
    does not matter. Logging is left out, the freeing of buffers is not: it is an event.

  The theories, in order.
  \<^item> Prelude: programs, logs, the Hoare triples \<open>mtriple\<close> over monitors of the log, bytes.
  \<^item> DevicePaths: device path nodes and filters, the walks \<open>device_path_size\<close> and
    \<open>validate_device_path_nodes\<close> against an encoding of node lists (C22).
  \<^item> Firmware: services, events. BootConfig: config.rs, boot_source_policy.rs, boot_mode.rs.
  \<^item> BootVars: load options, Boot#### discovery, Secure Boot state (C19).
  \<^item> BootProxy: proxy.rs. BootLock: the security transition, the capability, one boot attempt
    (C3, C11) and the two monitors all flows are checked against. BootExpand: \<open>expand_device_path\<close>
    against a specification over the handle database (C12).
  \<^item> Connect, Consoles, Fallback: connecting controllers (C13, C14), hotkey and console variables,
    the filesystem fallback (C21).
  \<^item> SimpleBoot: orchestrators/simple_boot_manager.rs and boot_dispatcher.rs, and the locale
    \<open>boot_orchestrator\<close>, the contract of an orchestrator the dispatcher's guarantee (C1, C2) follows from;
    it is interpreted for both flows.
  \<^item> BpRead, RamDisk: bp_recovery.rs, the partition read (C24), the Block IO device (locale
    \<open>block_device\<close>, C25), registration, chainload and teardown (C27, C28).
  \<^item> SreBoot, SreFlow: sre_boot_manager.rs, capsule.rs, events.rs, and the order of the flow (C4,
    C8 to C10). Returns: termination of both flows (C6, C7).
  \<^item> ExamplePlatform: a small concrete platform the witnesses run on.


  The embedded controller tools. A source (traits of test-lib/src/lib.rs: temperature and fan, battery, clock) is
  the record \<open>source\<close> of operations over the state behind it, each with a result or an error. A script is
  parsed to statements and run against a source, its rows counted. The sources are the mock, the ACPI test
  driver and the serial line with MCTP framing; what their messages mean is decided by crates that are not here
  (the service interfaces, mctp_rs, embedded_usb_pd), which are parameters.
  \<^item> Float64, RustText: f64 arithmetic as correctly rounded rationals with infinities and NaN, and the
    string functions and number parsing of Rust's library the parser uses.
  \<^item> EcSource: lib.rs and common.rs, the locale \<open>settable\<close> (quantities that can be read back as
    written), and the conversion of temperatures (C35).
  \<^item> ScriptParse: parser.rs. ScriptSpec: the parser against a reference without its loop (C29).
  \<^item> ScriptExec: value.rs, verbs.rs, runner.rs, exec.rs. ScriptRun: counts, absence of panics, and a type system
    for scripts with its soundness (C30, C31).
  \<^item> EcMock: mock.rs, the clock a parameter; \<open>settable\<close> is interpreted three times (C33), the battery runs
    through a cycle. ScriptMock: the locale \<open>reliable_source\<close> and its instance, the mock (C32).
  \<^item> Ucsi, EcAcpi: ucsi.rs and acpi.rs. AcpiSpec: the layout of the driver's responses (C36, C37, C40).
  \<^item> EcWindows: windows.rs and the device of acpi.rs over the Windows API as parameters: every operation leaves as many handles
    open as it found, timers are read as set over a driver that keeps them, the search for the device ends.
  \<^item> EcSerial: serial.rs, its receive loop on fuel, one packet per unit. SerialSpec: header, framing,
    acceptance of responses; fuel for every byte the port can deliver is enough (C39).
  \<^item> EcExample: the script, mock, driver, port and mailbox of the witnesses. EcProperties: C29 to C33, C35 to C37, C39, C40.
  \<^item> EcCli: the command line src/ec/test-cli: the source a command line selects, the one-shot commands, the batch of scripts
    of a directory, the arguments of a raw ACPI method and the values printed of it. CliProperties: C18.

  The terminal UI, the crate src/ec/test-tui: five background updaters poll a source and write the state that is
  drawn, an event loop handles keys, and two channels carry the numbers typed into popups to the updaters. What is
  drawn is a function of the state, where on the terminal is left out.
  \<^item> TuiSamples: statistics, sample windows, gauges of common.rs, the log of logging.rs and the rows the log panel
    of app.rs shows (C38).
  \<^item> TuiUpdate: source.rs, state.rs, updater.rs and the polling of battery.rs. TuiApp: tabs, popups, shortcuts of app.rs
    and the handlers of battery.rs and thermal.rs; the locale \<open>popup_module\<close> is what the application relies on, interpreted
    for both (C15).
  \<^item> TuiWorld: main.rs, the step relation over the whole, in which key events and updates come in any order, and a source
    that records its calls: the commands sent (C20), the state shown (C23) and leaving (C16) by rule induction. Since
    the source is arbitrary, calls other tasks make in between are covered: they are part of what it does.
  \<^item> TuiText: percentages, estimates, zones, colours and texts, with the u32 overflow of the percentage and the offsets whose
    sign is lost. TuiExample: a session over the mock. TuiProperties: C15, C16, C20, C23, C38.
  \<^item> TuiPages, TuiScreen: the symbols and widgets of common.rs, the pages and cards of battery.rs, thermal.rs, rtc.rs,
    system.rs and ucsi.rs, and the screen of app.rs, as panels of lines, gauges and plots; a panel whose drawing panics is
    \<open>None\<close>. TuiDrawn: the invariant of the runs that keeps every ratio of a gauge a number, and the hints of the footer
    against the handlers. ScreenProperties: C34, over a source of constant readings.

  The bridge crate src/uefi/crates/patina_tianocore, which lets a driver of components run on TianoCore: its entry point
  sets up a global allocator, a logger and patina's storage, and runs the driver's function or dispatches its components.
  \<^item> TianoAlloc: boot_services.rs. Memory is a function from addresses to bytes, the pool services a parameter, what the
    specification promises of them \<open>pool_honest\<close>. The aligned addresses never wrap; a client that allocates, stores and
    frees by the contract keeps an invariant over the back pointers (C17).
  \<^item> TianoDispatch: platform.rs and context.rs. The loop terminates because a pass that goes round dispatched something;
    with components that run by their needs it reaches a least fixed point (C26), in any order of registration.
  \<^item> TianoDriver: memory.rs, logger.rs, entry.rs, and the demonstration driver src/uefi/OdpPkg/Drivers/ODP_RustDxeDemo.
    TianoProperties: C17 and C26 with a bump allocator and the components of tests/dispatch_test.rs.

  Not modelled: the C package OdpPkg, the macro that registers a platform with Patina's own core (calls of a crate that is not
  here), the areas of the panels on the terminal and the drawing of the battery icon, what clap and println do for the command line, the opening of the serial port, the mock's UCSI snapshot (built by setters of a crate
  that is not here), the texts of errors, benches and tests.
\<close>

section \<open>The boot flows as a whole\<close>

text \<open>
  C1. Simple flow, safety: entered through the BDS entry point, the default boot manager never gives
  control back, loads or starts an image only after EndOfDxe has been signalled and ReadyToLock
  installed successfully, and starts every image right after arming the watchdog for it,
  disarming it as the next call when the image comes back.
\<close>

theorem simple_flow_secure:
  "\<exists>es. (\<forall>x. fst (bds_entry_point (Some (simple_execute fuel fw (simple_new config), h)) s) \<noteq> Ret x) \<and>
     trace (snd (bds_entry_point (Some (simple_execute fuel fw (simple_new config), h)) s)) = trace s @ es \<and>
     images_after_lock es \<and> starts_guarded es"
  by (rule stock.bds_contract)

text \<open>
  C2. SRE flow, safety: the same of the recovery boot manager, on every path through it, the
  button-driven recovery and the chainload from the RAM disk included.
\<close>

theorem sre_flow_secure:
  "\<exists>es. (\<forall>x. fst (bds_entry_point (Some (sre_execute a fuel fw beyond flash_update m, h)) s) \<noteq> Ret x) \<and>
     trace (snd (bds_entry_point (Some (sre_execute a fuel fw beyond flash_update m, h)) s)) = trace s @ es \<and>
     images_after_lock es \<and> starts_guarded es"
  by (rule sre.bds_contract)

text \<open>
  C3. The security transition fails closed: it yields the capability exactly with the six calls
  of a complete transition in its log, and whenever it reports an error ReadyToLock has not been
  installed by it.
\<close>

theorem locked_boot_fails_closed:
  "case fst (enter_locked_boot fw s) of
     Ret (Inr l) \<Rightarrow> lock_log (emitted (enter_locked_boot fw) s)
   | Ret (Inl e) \<Rightarrow> \<not> ready_to_lock_done (emitted (enter_locked_boot fw) s)
   | _ \<Rightarrow> True"
proof (cases "fst (enter_locked_boot fw s)")
  case (Ret r)
  then have "enter_locked_boot fw s = (Ret r, snd (enter_locked_boot fw s))" by (metis prod.collapse)
  then show ?thesis by (cases rule: enter_locked_boot_cases) (use Ret in \<open>auto simp: emitted_def\<close>)
qed simp_all

text \<open>
  C4. Before the lock: in the SRE flow the start-of-BDS and DFCI announcements, driver dispatch, the
  capsule processor's signal and the progress logo all come before EndOfDxe is even created.
\<close>

theorem sre_flash_work_first:
  "flash_work_first (emitted (sre_execute a fuel fw beyond flash_update m h) s)"
proof -
  obtain es q where "trace (snd (sre_execute a fuel fw beyond flash_update m h s)) = trace s @ es"
    and "monitor order_step False es = Some q"
    using mtriple_accepts [OF mtriple_order_sre_execute, of False] by blast
  then show ?thesis using monitor_flash_work_first emitted_eq by metis
qed





text \<open>
  C7. SRE flow, termination: it comes back whenever the services do and dispatch reports
  progress finitely often.
\<close>

theorem sre_flow_returns:
  assumes "answers (\<lambda>_ _. True) fw" and "finite_drivers fw drivers" and "\<And>w. drivers w < fuel"
  shows "\<exists>e s'. sre_execute a fuel fw beyond flash_update m h s = (Ret e, s')"
  using sre_execute_returns [OF assms] unfolding goes_def by blast

theorem sre_flow_returns_witness:
  "\<exists>e s'. sre_execute X86_64 1 ex_fw (\<lambda>_. 0) True ex_manager 1 (ex_start None) = (Ret e, s')"
  by (rule sre_flow_returns [OF _ ex_fw_drivers]) (auto intro: ex_fw_answers)

text \<open>
  C8. SRE flow, result: the flow never succeeds. With the transition completed the only error is
  NotFound; without it no image was asked for.
\<close>

theorem sre_flow_result:
  "case fst (sre_execute a fuel fw beyond flash_update m h s) of
     Ret e \<Rightarrow> (if secured (emitted (sre_execute a fuel fw beyond flash_update m h) s) then e = NotFound
       else loads (emitted (sre_execute a fuel fw beyond flash_update m h) s) = [])
   | _ \<Rightarrow> True"
proof (cases "fst (sre_execute a fuel fw beyond flash_update m h s)")
  case (Ret e)
  then have "sre_execute a fuel fw beyond flash_update m h s =
      (Ret e, snd (sre_execute a fuel fw beyond flash_update m h s))" by (metis prod.collapse)
  from sre_execute_result [OF this] Ret show ?thesis by (auto simp: emitted_def)
qed simp_all





section \<open>Booting one image, and the services below the flows\<close>



text \<open>
  C12. Short forms: on a platform whose lookups change nothing, a path is expanded through the
  handles that hold the partition it names, exactly when there is one such handle; none is
  NotFound, more than one a security violation, and nothing but lookups is logged.
\<close>

theorem expansion_is_unique:
  assumes "pure_lookups fw"
  shows "\<exists>es. expand_device_path fw dp s = (Ret (expand_spec fw (world s) dp), s\<lparr>trace := trace s @ es\<rparr>)"
  using reads_expand_device_path [OF assms] unfolding reads_def by blast

theorem expansion_is_unique_witness:
  "\<exists>es. expand_device_path ex_fw ex_short_path (ex_start None) =
     (Ret (expand_spec ex_fw None ex_short_path), (ex_start None)\<lparr>trace := es\<rparr>)"
  using expansion_is_unique [OF ex_fw_lookups, of ex_short_path "ex_start None"] by (simp add: ex_start_def)

text \<open>
  C13. Connecting everything: each listed handle is connected at most once, in at most ten
  rounds over the handle database, and a successful run has connected every handle it was shown.
\<close>

theorem connect_all_once:
  "\<exists>es. trace (snd (connect_all fw s)) = trace s @ es \<and> distinct (connects es) \<and> handle_queries es \<le> 10 \<and>
     (if fst (connect_all fw s) = Ret (Inr ()) then set (connects es) = listed es else set (connects es) \<subseteq> listed es)"
proof -
  obtain r s' where run: "connect_all fw s = (r, s')" by force
  obtain es where es: "trace s' = trace s @ es" "distinct (connects es)" "set (connects es) \<subseteq> listed es"
      "handle_queries es \<le> 10" "r = Ret (Inr ()) \<longrightarrow> listed es = set (connects es) \<union> {h. read_as_usb_host h es}"
    by (rule enum_summary [OF mtriple_connect_all run])
  obtain fs where "trace s' = trace s @ fs" "\<forall>e \<in> set fs. is_enum_event e \<and> (\<forall>p r. e \<noteq> EvPciClass p r)"
    using emits_connect_all run by (rule emitsE)
  then have "\<not> read_as_usb_host h es" for h using es(1) by (intro no_pci_no_hosts) simp
  with es run show ?thesis by (intro exI [of _ es]) auto
qed

text \<open>
  C14. The same without USB: twenty rounds at most, no handle is connected that was read as a
  USB host controller, and a successful run has connected every other handle it was shown.
\<close>

theorem connect_all_skip_usb_spares_hosts:
  "\<exists>es. trace (snd (connect_all_skip_usb fw s)) = trace s @ es \<and> distinct (connects es) \<and> handle_queries es \<le> 20 \<and>
     set (connects es) \<inter> {h. read_as_usb_host h es} = {} \<and>
     (if fst (connect_all_skip_usb fw s) = Ret (Inr ())
      then listed es = set (connects es) \<union> {h. read_as_usb_host h es} else set (connects es) \<subseteq> listed es)"
proof -
  obtain r s' where run: "connect_all_skip_usb fw s = (r, s')" by force
  obtain es where "trace s' = trace s @ es" "distinct (connects es)" "set (connects es) \<subseteq> listed es"
      "handle_queries es \<le> 20" "\<forall>h \<in> set (connects es). \<not> read_as_usb_host h es"
      "r = Ret (Inr ()) \<longrightarrow> listed es = set (connects es) \<union> {h. read_as_usb_host h es}"
    by (rule enum_summary [OF mtriple_connect_all_skip_usb run])
  with run show ?thesis by (intro exI [of _ es]) auto
qed

text \<open>
  The hotkey: detection answers true exactly when the key was read, and then it was the
  last key taken from any keyboard; otherwise it was not read at all.
\<close>

theorem hotkey_read_once:
  "case fst (detect_hotkey fuel fw code s) of
     Ret b \<Rightarrow> length (filter (is_hit code) (emitted (detect_hotkey fuel fw code) s)) = of_bool b
   | _ \<Rightarrow> True"
proof (cases "fst (detect_hotkey fuel fw code s)")
  case (Ret b)
  then have "detect_hotkey fuel fw code s = (Ret b, snd (detect_hotkey fuel fw code s))" by (metis prod.collapse)
  from mtripleE [OF mtriple_detect_hotkey _ this, of False]
  obtain es q where es: "trace (snd (detect_hotkey fuel fw code s)) = trace s @ es"
    "monitor (hot_step code) False es = Some q" "q \<longleftrightarrow> b" by auto
  from es(2) have "length (filter (is_hit code) es) = of_bool q"
    using monitor_hit_last [where q = False] by force
  with es Ret show ?thesis by (simp add: emitted_def)
qed simp_all

text \<open>
  Console variables: over lookups that change nothing, the multi-instance path holds the
  path of every handle of the given protocols once, in the order the handles were first listed.
\<close>

theorem console_path_complete:
  assumes "pure_lookups fw"
  shows "\<exists>es. build_multi_instance_device_path fw guids s =
     (Ret (console_path fw (world s) (console_handles fw (world s) guids)), s\<lparr>trace := trace s @ es\<rparr>)"
  using reads_build_multi [OF assms] unfolding reads_def by blast

theorem console_path_complete_witness:
  "\<exists>es. build_multi_instance_device_path ex_fw [SimpleTextInput, SimpleFileSystem] (ex_start None) =
     (Ret (Some [ex_root, end_node, ex_root, ex_usb, end_node, ex_root, ex_gpt, end_node]), (ex_start None)\<lparr>trace := es\<rparr>)"
proof -
  have "console_handles ex_fw None [SimpleTextInput, SimpleFileSystem] = [1, 3, 2]"
    by (simp add: console_handles_def handles_found_def ex_fw_def first_seen_def)
  then have "console_path ex_fw None (console_handles ex_fw None [SimpleTextInput, SimpleFileSystem]) =
      Some [ex_root, end_node, ex_root, ex_usb, end_node, ex_root, ex_gpt, end_node]"
    by (simp add: console_path_def map_filter_simps ex_path_found join_instances_def ex_lib_def ex_disk_path_def ex_usb_path_def)
  then show ?thesis
    using console_path_complete [OF ex_fw_lookups, of "[SimpleTextInput, SimpleFileSystem]" "ex_start None"]
    by (simp add: ex_start_def)
qed

text \<open>
  Proxy calls: every wrapper calls a slot only on a non-null vtable whose revision it has
  just read, of the right major revision and new enough to have the slot.
\<close>

theorem proxy_slots_checked:
  "\<exists>es. trace (snd (run_wrapper fw x s)) = trace s @ es \<and> slots_checked es"
proof -
  obtain es q where "trace (snd (run_wrapper fw x s)) = trace s @ es" "monitor proxy_step None es = Some q"
    using mtriple_accepts [OF mtriple_run_wrapper, where q = None] by blast
  then show ?thesis using monitor_slots_checked by blast
qed

section \<open>Variables and boot options\<close>

text \<open>
  Load options: parsing the layout of an active option whose description has no NUL, with
  any optional data behind it, hands exactly its device path to the path reader.
\<close>

theorem load_option_roundtrip:
  assumes "attrs AND LOAD_OPTION_ACTIVE \<noteq> 0" and "0 \<notin> set desc"
    and "list_all plain_node ns" and "length (enc_path ns) \<le> 0xFFFF"
  shows "parse_load_option lib beyond (encode_load_option attrs desc (enc_path ns) optional) =
    dp_from_ptr lib (at_ptr (enc_path ns @ optional) beyond)"
  using assms by (rule parse_load_option_enc)

theorem load_option_roundtrip_witness:
  "parse_load_option ex_lib (\<lambda>_. 0) (encode_load_option 1 [65] (enc_path [ex_root, ex_usb]) []) = Some ex_usb_path"
  using load_option_roundtrip [of 1 "[65]" "[ex_root, ex_usb]" ex_lib "\<lambda>_. 0" "[]"]
  by (simp add: ex_plain ex_usb_bytes ex_parsed LOAD_OPTION_ACTIVE_def del: enc_path_simps)

text \<open>
  C19. Load options, memory safety: whatever the variable holds, the result of parsing it does
  not depend on the memory behind it, given only that the path reader stops at an end node.
\<close>

theorem load_option_stays_inside:
  assumes "ptr_local lib"
  shows "parse_load_option lib beyond data = parse_load_option lib beyond' data"
  using assms by (rule parse_load_option_local)

theorem load_option_stays_inside_witness:
  "parse_load_option ex_lib (\<lambda>_. 0) [1, 0, 0, 0, 4, 0, 0, 0, 0x7F, 0xFF, 4, 0] =
   parse_load_option ex_lib (\<lambda>_. 0xFF) [1, 0, 0, 0, 4, 0, 0, 0, 0x7F, 0xFF, 4, 0]"
  by (rule load_option_stays_inside [OF ex_lib_local])

text \<open>
  Discovery: over a store of variables the result is the configuration of the parsable
  options in BootOrder's order, and an error when BootOrder is missing, odd, empty or yields none.
\<close>

theorem boot_options_discovered:
  assumes "reads_vars fw vars"
  shows "fst (discover_boot_options fw beyond s) = Ret (case vars ''BootOrder'' of
      Inl e \<Rightarrow> Inl (err_of (fw_lib fw) e)
    | Inr bs \<Rightarrow> if odd (length bs) \<or> bs = [] then Inl NotFound
        else case boot_devices (fw_lib fw) beyond vars (chunks2 bs) of
          [] \<Rightarrow> Inl NotFound
        | d # ds \<Rightarrow> Inr \<lparr>cfg_devices = d # ds, cfg_hotkey = None, cfg_hotkey_devices = [],
                         cfg_failure_handler = None\<rparr>)"
  using assms by (rule discover_boot_options_eq)

theorem boot_options_discovered_witness:
  "fst (discover_boot_options ex_fw (\<lambda>_. 0) (ex_start None)) = Ret (Inr
     \<lparr>cfg_devices = [ex_usb_path, ex_disk_path], cfg_hotkey = None, cfg_hotkey_devices = [], cfg_failure_handler = None\<rparr>)"
  using boot_options_discovered [OF ex_fw_vars, of "\<lambda>_. 0" "ex_start None"] ex_boot_devices
  by (simp add: ex_vars_def [of "''BootOrder''"])

text \<open>Boot option names: distinct option numbers name distinct variables.\<close>

theorem boot_option_names_inj: "inj boot_option_variable_name"
  by (rule injI) (rule boot_option_variable_name_inj)

text \<open>
  Secure Boot state: each of the three states is reported exactly for its one pair of
  one-byte variables, so anything else is an error.
\<close>

theorem secure_boot_state_exact:
  assumes "reads_vars fw vars"
  shows "fst (secure_boot_state fw s) = Ret (Inr st) \<longleftrightarrow>
    (state_byte (vars ''SecureBoot''), state_byte (vars ''SetupMode'')) =
      (case st of Enabled \<Rightarrow> (Some 1, Some 0) | Disabled \<Rightarrow> (Some 0, Some 0) | SetupMode \<Rightarrow> (Some 0, Some 1))"
  using assms by (rule secure_boot_state_iff)

theorem secure_boot_state_exact_witness:
  "fst (secure_boot_state ex_fw (ex_start None)) = Ret (Inr Disabled)"
  using secure_boot_state_exact [OF ex_fw_vars, of "ex_start None" Disabled]
  by (simp add: ex_vars_def state_byte_def)

text \<open>
  C21. Filesystem fallback: every candidate is an OS loader path on a volume that a listed
  handle carries and the policy approves, in a Secure Boot state the policy allows.
\<close>

theorem fallback_only_approved:
  assumes "pure_lookups fw" and "reads_vars fw vars"
    and "fallback_boot_options a fw policy s = (Ret (Inr options), s')"
  shows "\<exists>st hs. secure_state_of (fw_lib fw) vars = Inr st \<and> allows_security_state policy st \<and>
    handles_found fw (ByProtocol SimpleFileSystem) (world s) = Inr hs \<and> options \<noteq> [] \<and>
    (\<forall>c \<in> set options. \<exists>h \<in> set hs. \<exists>v. path_found fw (world s) h = Some v \<and> allows_device (fw_lib fw) policy v \<and>
       (\<exists>l \<in> set (FALLBACK_OS_LOADER_PATHS a). c = fallback_candidate (fw_lib fw) l v))"
proof -
  obtain es where "fallback_boot_options a fw policy s =
      (Ret (fallback_spec a fw policy vars (world s)), s\<lparr>trace := trace s @ es\<rparr>)"
    by (rule readsE [OF reads_fallback_boot_options [OF assms(1,2)]])
  with assms(3) show ?thesis by (intro fallback_spec_sound) simp
qed

theorem fallback_only_approved_witness:
  "\<exists>options s'. fallback_boot_options X86_64 ex_fw (sre_policy ex_manager) (ex_start None) = (Ret (Inr options), s') \<and>
    (\<forall>c \<in> set options. \<exists>v. allows_device ex_lib (sre_policy ex_manager) v \<and>
       (\<exists>l \<in> set (FALLBACK_OS_LOADER_PATHS X86_64). c = fallback_candidate ex_lib l v))"
proof -
  obtain options s' where run: "fallback_boot_options X86_64 ex_fw (sre_policy ex_manager) (ex_start None) = (Ret (Inr options), s')"
    using ex_fallback_runs by blast
  from fallback_only_approved [OF ex_fw_lookups ex_fw_vars run] run show ?thesis
    unfolding ex_fw_lib by blast
qed

section \<open>Device paths in memory\<close>

text \<open>
  C22. Measuring a path: the size walk yields a positive number exactly for memory that starts
  with a chain of well-formed nodes closed by a four-byte EndEntire node, of that size and at
  most 64 KiB.
\<close>

theorem device_path_size_exact:
  assumes "header_codec lib" and "0 < n"
  shows "device_path_size lib m = n \<longleftrightarrow>
    n \<le> DEVICE_PATH_MAX_BYTES \<and> (\<exists>ns. list_all plain_node ns \<and> read_bytes m n = enc_path ns)"
  using assms by (rule device_path_size_eq)

theorem device_path_size_exact_witness:
  "device_path_size ex_lib (at_ptr (enc_path [ex_root, ex_usb]) (\<lambda>_. 0)) = 16"
proof -
  have "read_bytes (at_ptr (enc_path [ex_root, ex_usb]) (\<lambda>_. 0)) 16 = enc_path [ex_root, ex_usb]"
    by (subst read_bytes_at_ptr) (simp_all add: ex_usb_bytes del: enc_path_simps)
  then show ?thesis
    using device_path_size_exact [OF ex_lib_codec, of 16 "at_ptr (enc_path [ex_root, ex_usb]) (\<lambda>_. 0)"]
    by (auto simp: DEVICE_PATH_MAX_BYTES_def ex_plain simp del: enc_path_simps intro!: exI [of _ "[ex_root, ex_usb]"])
qed

text \<open>
  Validating a path: the validator accepts a buffer exactly when it starts with a chain of
  well-formed nodes up to an EndEntire node that all lie inside it.
\<close>

theorem validator_exact: "validate_device_path_nodes bs \<longleftrightarrow> valid_node_list bs"
  by (rule validate_device_path_nodes_iff)

text \<open>
  Building a path: the bytes of a FilePath node and its end node always validate, and are
  the encoding of that node unless the text is too long for a node, when only the end is left.
\<close>

theorem file_path_node_wellformed:
  assumes "header_codec lib"
  shows "validate_device_path_nodes (build_file_path_node lib path) \<and>
    build_file_path_node lib path = (if path_fits path then enc_path [file_node path] else enc_path [])"
  using build_file_path_node_valid [OF assms] build_file_path_node_eq [OF assms] by blast

theorem file_path_node_wellformed_witness:
  "validate_device_path_nodes (build_file_path_node ex_lib (DEFAULT_BOOT_FILE_PATH X86_64))"
  using file_path_node_wellformed [OF ex_lib_codec] by blast

section \<open>Recovery from the boot partition\<close>

text \<open>
  Transfer size: whatever MDTS the controller reports, the chunk is a multiple of 4096
  between 64 KiB and 512 KiB, and the exact limit where that lies between.
\<close>

theorem transfer_chunk_bounds:
  "READ_CHUNK_MIN \<le> chunk_of_mdts mdts \<and> chunk_of_mdts mdts \<le> READ_CHUNK_MAX \<and> 4096 dvd chunk_of_mdts mdts \<and>
   chunk_of_mdts mdts = (if mdts = 0 \<or> 52 \<le> unat mdts then READ_CHUNK_MAX
     else clamp READ_CHUNK_MIN READ_CHUNK_MAX (2 ^ unat mdts * 4096))"
  using chunk_of_mdts_bounds [of mdts] chunk_of_mdts_eq [of mdts] by blast

text \<open>
  Log page command: the dwords of a Get Log Page command name the boot partition log, the
  partition, the number of bytes and the offset behind the 16-byte header, undamaged by the
  split into fields.
\<close>

theorem log_page_command_fields:
  assumes "bp_off + 16 < 2 ^ 64" and "4 \<le> nbytes" "4 dvd nbytes" "nbytes \<le> 2 ^ 34"
  shows "lid_of (nvme_cmd (log_page_packet bp_id (word_of_nat bp_off) nbytes)) = 0x15 \<and>
    lsp_of (nvme_cmd (log_page_packet bp_id (word_of_nat bp_off) nbytes)) = unat bp_id mod 128 \<and>
    4 * (numd_of (nvme_cmd (log_page_packet bp_id (word_of_nat bp_off) nbytes)) + 1) = nbytes \<and>
    lpol_of (nvme_cmd (log_page_packet bp_id (word_of_nat bp_off) nbytes)) = 16 + bp_off"
  using log_page_packet_asks [OF assms, of bp_id] by blast

theorem log_page_command_fields_witness:
  "lpol_of (nvme_cmd (log_page_packet 1 (word_of_nat (2 ^ 32)) 512)) = 16 + 2 ^ 32 \<and>
   4 * (numd_of (nvme_cmd (log_page_packet 1 (word_of_nat (2 ^ 32)) 512)) + 1) = 512"
  using log_page_command_fields [of "2 ^ 32" 512 1] by simp

text \<open>
  C24. Reading the partition: from a controller that serves an image, the read of a whole buffer
  returns exactly the image's bytes, for every chunk size and buffer length in dwords.
\<close>

theorem partition_read_exact:
  assumes "serves_bp fw p bp img" and "4 \<le> chunk" "4 dvd chunk" "4 dvd length dest" "length dest \<le> 2 ^ 34"
  shows "\<exists>s'. read_bp_via_log_page fw p bp chunk dest s = (Ret (Inr (map img [0..<length dest])), s')"
  using assms by (rule read_bp_via_log_page_served)

theorem partition_read_exact_witness:
  "\<exists>s'. read_bp_via_log_page ex_fw 0x310 1 12 (replicate 32 0) (ex_start None) = (Ret (Inr (map ex_image [0..<32])), s')"
  using partition_read_exact [OF ex_fw_serves, of 12 "replicate 32 0"] by simp

text \<open>Payload probe: it answers whether the image's first sector ends in 55 AA.\<close>

theorem payload_probe_exact:
  assumes "serves_bp fw p TARGET_BPID img"
    and "fw_locate_protocol fw NvmePassThru (world s) = (Ret (Inr p), w')"
  shows "\<exists>s'. bp_has_sre_payload fw s = (Ret (img 510 = 0x55 \<and> img 511 = 0xAA), s')"
  using assms by (rule bp_has_sre_payload_served)

theorem payload_probe_exact_witness:
  "\<exists>s'. bp_has_sre_payload ex_fw (ex_start None) = (Ret True, s')"
  using payload_probe_exact [OF ex_fw_serves, where s = "ex_start None" and p = "0x310" and w' = None]
  by (simp add: ex_fw_def ex_start_def ex_image_def)

text \<open>
  C25. RAM disk reads: every outcome of a Block IO read, in exact arithmetic although the code
  computes with saturating 64-bit words; the bytes copied are the buffer's at the named blocks.
\<close>

theorem ram_disk_read_exact:
  assumes "nbytes < 2 ^ 64" and "unat (buffer_size st) < 2 ^ 64 - 1"
  shows "ram_disk_read_blocks mem (Some st) requested_id lba nbytes buffer_null =
    (if buffer_null then (INVALID_PARAMETER, [])
     else if requested_id \<noteq> media_id (rd_media st) then (MEDIA_CHANGED, [])
     else if unat (buffer_size st) < read_start st lba + nbytes then (INVALID_PARAMETER, [])
     else if \<not> unat (block_size (rd_media st)) dvd nbytes then (BAD_BUFFER_SIZE, [])
     else (SUCCESS, read_bytes (\<lambda>i. mem (buffer_ptr st) (read_start st lba + i)) nbytes))"
  using assms by (rule ram_disk_read_blocks_eq)

theorem ram_disk_read_exact_witness:
  "ram_disk_read_blocks (\<lambda>p. ex_image) (Some (ram_disk_state_new 0 1024)) 0 1 512 False =
     (SUCCESS, read_bytes (\<lambda>i. ex_image (512 + i)) 512) \<and>
   ram_disk_read_blocks (\<lambda>p. ex_image) (Some (ram_disk_state_new 0 1024)) 0 (- 1) 512 False = (INVALID_PARAMETER, [])"
  using ram_disk_read_exact [of 512 "ram_disk_state_new 0 1024" "\<lambda>p. ex_image" 0 1 False]
    ram_disk_read_exact [of 512 "ram_disk_state_new 0 1024" "\<lambda>p. ex_image" 0 "- 1" False]
  by (simp add: ram_disk_state_new_def RAM_DISK_BLOCK_SIZE_def read_start_def unat_max_u64)

text \<open>
  RAM disk, composition: a successful read of consecutive blocks is the concatenation of
  the reads of its two parts.
\<close>

theorem ram_disk_read_splits:
  assumes "m + n < 2 ^ 64" and "512 dvd m" and "installed_read mem p BPSIZE_BYTES lba (m + n) = (SUCCESS, bs)"
    and "unat lba + m div 512 < 2 ^ 64"
  shows "\<exists>xs ys. installed_read mem p BPSIZE_BYTES lba m = (SUCCESS, xs) \<and>
    installed_read mem p BPSIZE_BYTES (lba + word_of_nat (m div 512)) n = (SUCCESS, ys) \<and> bs = xs @ ys"
  using assms by (rule ram_disk.read_split)

theorem ram_disk_read_splits_witness:
  "\<exists>xs ys. installed_read (\<lambda>p. ex_image) 0 BPSIZE_BYTES 3 512 = (SUCCESS, xs) \<and>
    installed_read (\<lambda>p. ex_image) 0 BPSIZE_BYTES (3 + word_of_nat (512 div 512)) 512 = (SUCCESS, ys) \<and>
    map ex_image [1536..<2560] = xs @ ys"
  by (rule ram_disk_read_splits) (simp_all add: installed_read_eq BPSIZE_BYTES_def)

text \<open>
  C27. Recovery, memory safety: over the whole recovery flow no RAM disk state is freed while its
  Block IO interface is installed and no buffer while any is, except after the rollback of a
  half-done registration was refused by the platform.
\<close>

theorem recovery_frees_safely:
  "rollback_refused (emitted (run_sre_flow a fw beyond locked h) s) \<or>
   frees_safe (emitted (run_sre_flow a fw beyond locked h) s)"
proof -
  obtain es q where "trace (snd (run_sre_flow a fw beyond locked h s)) = trace s @ es"
    and "monitor live_step (Live {} False) es = Some q"
    using mtriple_accepts [OF mtriple_run_sre_flow, where q = "Live {} False"] by blast
  then show ?thesis using monitor_frees_safe emitted_eq by metis
qed

text \<open>
  C28. Recovery, the exception is real: when the device path cannot be installed and removing the
  Block IO interface again is refused, the flow's error return frees the buffer although the
  interface over it stays installed.
\<close>

theorem half_registration_frees_buffer:
  assumes "fw_install_protocol fw None BlockIo (fw_box fw (world s)) (world s) = (Ret (Inr hnd), w1)"
    and "fw_install_protocol fw (Some hnd) DevicePathProtocol (fw_leak fw (world s)) w1 = (Ret (Inl e), w2)"
    and "fw_uninstall_protocol fw hnd BlockIo (fw_box fw (world s)) w2 = (Ret (Inl e'), w3)"
  shows "\<exists>es. boot_ram_disk a fw beyond locked h buf n s =
      (Ret (Inl (err_of (fw_lib fw) e)), s\<lparr>world := w3, trace := trace s @ es @ [EvFree (BpBuffer buf)]\<rparr>) \<and>
    live_installs es = {fw_box fw (world s)} \<and> \<not> frees_safe (es @ [EvFree (BpBuffer buf)])"
  using assms by (rule boot_ram_disk_half_registered)

theorem half_registration_frees_buffer_witness:
  "\<exists>es. boot_ram_disk X86_64 ex_fw (\<lambda>_. 0) LockedBoot 1 0x10000 512 (ex_start None) =
      (Ret (Inl (OtherError 0)), (ex_start None)\<lparr>trace := es @ [EvFree (BpBuffer 0x10000)]\<rparr>) \<and>
    live_installs es = {0x500} \<and> \<not> frees_safe (es @ [EvFree (BpBuffer 0x10000)])"
  using half_registration_frees_buffer [where fw = ex_fw and s = "ex_start None" and hnd = 5 and ?w1.0 = None
      and e = OUT_OF_RESOURCES and ?w2.0 = None and e' = "OTHER_STATUS 15" and ?w3.0 = None and a = X86_64
      and beyond = "\<lambda>_. 0" and locked = LockedBoot and h = 1 and buf = "0x10000" and n = 512]
  by (simp add: ex_fw_disk ex_start_def)

text \<open>
  Buttons: the probe reads both buttons once and then clears them, whatever their checks
  report, and volume up wins; without the protocol nothing is read.
\<close>

theorem button_probe_exact:
  "case fst (probe_sre_hotkey fw s) of
     Ret k \<Rightarrow> (\<exists>p a up b down c. p \<noteq> 0 \<and> k = hotkey_of up down \<and>
         emitted (probe_sre_hotkey fw) s = [EvLocateProtocol MsButtonServices (Ret (Inr p)),
           EvButton p VolumeUpCheck (Ret (a, up)), EvButton p VolumeDownCheck (Ret (b, down)),
           EvButton p ClearVolumeState (Ret c)]) \<or>
       k = NoHotkey \<and> (\<exists>r. emitted (probe_sre_hotkey fw) s = [EvLocateProtocol MsButtonServices (Ret r)])
   | _ \<Rightarrow> True"
proof (cases "fst (probe_sre_hotkey fw s)")
  case (Ret k)
  then have run: "probe_sre_hotkey fw s = (Ret k, snd (probe_sre_hotkey fw s))" by (metis prod.collapse)
  then show ?thesis
  proof (cases rule: probe_sre_hotkey_cases)
    case (read p a up b down c)
    then show ?thesis using Ret by (simp add: emitted_def)
  qed (use Ret in \<open>auto simp: emitted_def\<close>)
qed simp_all

end
